(* ===== verification/Prelude.thy ===== *)
theory Prelude
  imports Main "HOL-Library.List_Lexorder" "HOL-Library.Char_ord" "HOL-Library.Product_Lexorder"
    "HOL-Library.Multiset" "HOL-Library.Word"
begin

text \<open>
  Shared vocabulary of the development: the integer widths of Go (\<^verbatim>\<open>int32\<close>, \<^verbatim>\<open>int64\<close>) as
  machine words, the string helpers of the Go standard library
  that the sources call, and the JSON values that the services put into their outbox rows.

  Strings are lists of bytes; \<^verbatim>\<open>List_Lexorder\<close> and \<^verbatim>\<open>Char_ord\<close> give them the bytewise order
  that Go's \<^verbatim>\<open><\<close> on strings has.
\<close>

section \<open>Fact collections\<close>

named_theorems keeps_intros \<open>a transaction keeps a predicate on the database\<close>
named_theorems frame_intros \<open>a transaction leaves a part of the session alone\<close>
named_theorems ext_intros "invariants of the callees that a call keeps"
named_theorems raises_intros \<open>the errors a transaction can end with\<close>
named_theorems stmt_simps \<open>one-step evaluation of a statement, a transaction or a call\<close>

section \<open>Two's complement integers\<close>

type_synonym int32 = "32 word"
type_synonym int64 = "64 word"

text \<open>
  \<^verbatim>\<open>+\<close>, \<^verbatim>\<open>-\<close> and \<^verbatim>\<open>*\<close> on words wrap as Go's do; Go's comparisons are those of
  \<^term>\<open>sint\<close>. \<^verbatim>\<open>int64(x)\<close> of an \<^verbatim>\<open>int32\<close> is \<^term>\<open>scast\<close>, \<^verbatim>\<open>int32(x)\<close> of an \<^verbatim>\<open>int64\<close> is
  the truncation \<^term>\<open>ucast\<close>.
\<close>

definition in_i32 :: "int \<Rightarrow> bool" where
  "in_i32 x \<longleftrightarrow> - 2147483648 \<le> x \<and> x < 2147483648"

definition in_i64 :: "int \<Rightarrow> bool" where
  "in_i64 x \<longleftrightarrow> - 9223372036854775808 \<le> x \<and> x < 9223372036854775808"

lemma sint_in_i32 [simp]: "in_i32 (sint (a :: int32))"
  using sint_range_size [of a] by (simp add: in_i32_def word_size)

lemma sint_in_i64 [simp]: "in_i64 (sint (a :: int64))"
  using sint_range_size [of a] by (simp add: in_i64_def word_size)

lemma sint_of_int_i32 [simp]: "in_i32 x \<Longrightarrow> sint (word_of_int x :: int32) = x"
  by (simp add: in_i32_def sint_sbintrunc' signed_take_bit_int_eq_self)

lemma sint_of_int_i64 [simp]: "in_i64 x \<Longrightarrow> sint (word_of_int x :: int64) = x"
  by (simp add: in_i64_def sint_sbintrunc' signed_take_bit_int_eq_self)

lemma sint_eq_i32: "in_i32 x \<Longrightarrow> (a :: int32) = word_of_int x \<Longrightarrow> sint a = x"
  by simp

lemma word_of_int_inj_i32:
  "(word_of_int x :: int32) = word_of_int y \<Longrightarrow> in_i32 x \<Longrightarrow> in_i32 y \<Longrightarrow> x = y"
  by (metis sint_of_int_i32)

lemma sint_add_i32: "in_i32 (sint a + sint q) \<Longrightarrow> sint (a + q :: int32) = sint a + sint q"
  by (rule sint_eq_i32) simp_all

text \<open>
  A sum or difference of a non-negative count and an arbitrary \<^verbatim>\<open>int32\<close> that comes out
  non-negative after wrapping did not wrap. The \<^verbatim>\<open>CHECK\<close> constraints of the stock table
  therefore also keep overflow out of the committed rows.
\<close>

lemma sint_add_nonneg:
  fixes a q :: int32
  assumes "0 \<le> sint a" "0 \<le> sint (a + q)"
  shows "sint (a + q) = sint a + sint q"
proof (cases "sint a + sint q < 2147483648")
  case True
  moreover have "- 2147483648 \<le> sint q" using sint_in_i32 [of q] by (simp only: in_i32_def)
  ultimately show ?thesis
    using assms(1) by (intro sint_eq_i32) (simp_all add: in_i32_def)
next
  case False
  have "sint a < 2147483648" "sint q < 2147483648"
    using sint_in_i32 [of a] sint_in_i32 [of q] by (simp_all only: in_i32_def)
  with False have "in_i32 (sint a + sint q - 4294967296)" by (simp add: in_i32_def)
  moreover have "a + q = word_of_int (sint a + sint q - 4294967296)"
    by simp
  ultimately have "sint (a + q) = sint a + sint q - 4294967296" by (rule sint_eq_i32)
  with assms(2) \<open>sint a < _\<close> \<open>sint q < _\<close> show ?thesis by linarith
qed

lemma sint_diff_nonneg:
  fixes a q :: int32
  assumes "0 \<le> sint a" "0 \<le> sint (a - q)"
  shows "sint (a - q) = sint a - sint q"
proof (cases "sint a - sint q < 2147483648")
  case True
  moreover have "sint q < 2147483648" using sint_in_i32 [of q] by (simp only: in_i32_def)
  ultimately show ?thesis
    using assms(1) by (intro sint_eq_i32) (simp_all add: in_i32_def)
next
  case False
  have "sint a < 2147483648" "- 2147483648 \<le> sint q"
    using sint_in_i32 [of a] sint_in_i32 [of q] by (simp_all only: in_i32_def)
  with False have "in_i32 (sint a - sint q - 4294967296)" by (simp add: in_i32_def)
  moreover have "a - q = word_of_int (sint a - sint q - 4294967296)"
    by simp
  ultimately have "sint (a - q) = sint a - sint q - 4294967296" by (rule sint_eq_i32)
  with assms(2) \<open>sint a < _\<close> \<open>_ \<le> sint q\<close> show ?thesis by linarith
qed

section \<open>Strings\<close>

text \<open>\<^verbatim>\<open>strings.IndexByte\<close>: the position of the first occurrence of a byte.\<close>

fun index_byte :: "char \<Rightarrow> string \<Rightarrow> nat option" where
  "index_byte c [] = None"
| "index_byte c (x # xs) = (if x = c then Some 0 else map_option Suc (index_byte c xs))"

text \<open>\<^verbatim>\<open>strings.Cut\<close> at a one-byte separator: what is before and after its first occurrence.\<close>

definition cut :: "char \<Rightarrow> string \<Rightarrow> (string \<times> string) option" where
  "cut c s = map_option (\<lambda>i. (take i s, drop (Suc i) s)) (index_byte c s)"

text \<open>\<^verbatim>\<open>strings.Split\<close> at a one-byte separator.\<close>

fun split_on :: "char \<Rightarrow> string \<Rightarrow> string list" where
  "split_on c [] = [[]]"
| "split_on c (x # xs) =
     (if x = c then [] # split_on c xs
      else (case split_on c xs of [] \<Rightarrow> [[x]] | w # ws \<Rightarrow> (x # w) # ws))"

text \<open>\<^verbatim>\<open>strings.Join\<close> with a one-byte separator.\<close>

fun join_on :: "char \<Rightarrow> string list \<Rightarrow> string" where
  "join_on c [] = []"
| "join_on c [w] = w"
| "join_on c (w # ws) = w @ c # join_on c ws"

text \<open>\<^verbatim>\<open>strings.ToLower\<close> on the ASCII range.\<close>

definition lower_char :: "char \<Rightarrow> char" where
  "lower_char c =
     (if 65 \<le> (of_char c :: nat) \<and> (of_char c :: nat) \<le> 90 then char_of ((of_char c :: nat) + 32) else c)"

definition to_lower :: "string \<Rightarrow> string" where
  "to_lower s = map lower_char s"

lemma index_byte_None [simp]: "index_byte c s = None \<longleftrightarrow> c \<notin> set s"
  by (induction s) auto

lemma index_byte_append: "c \<notin> set u \<Longrightarrow> index_byte c (u @ c # v) = Some (length u)"
  by (induction u) auto

lemma cut_append: "c \<notin> set u \<Longrightarrow> cut c (u @ c # v) = Some (u, v)"
  by (simp add: cut_def index_byte_append)

lemma cut_SomeD: "cut c s = Some (u, v) \<Longrightarrow> s = u @ c # v \<and> c \<notin> set u"
proof (induction s arbitrary: u)
  case (Cons x s)
  then show ?case
    by (cases "x = c"; cases "index_byte c s") (auto simp: cut_def)
qed (simp add: cut_def)

lemma index_byte_SomeD:
  "index_byte c s = Some i \<Longrightarrow> i < length s \<and> s ! i = c \<and> c \<notin> set (take i s)"
  by (induction s arbitrary: i) (auto split: if_splits)

lemma split_on_not_Nil [simp]: "split_on c s \<noteq> []"
  by (induction s) (auto split: list.splits)

lemma join_on_Cons: "ws \<noteq> [] \<Longrightarrow> join_on c (w # ws) = w @ c # join_on c ws"
  by (cases ws) auto

lemma join_split_on [simp]: "join_on c (split_on c s) = s"
proof (induction s)
  case (Cons x xs)
  then show ?case
    by (cases "split_on c xs"; cases "tl (split_on c xs)") (auto simp: join_on_Cons)
qed simp

lemma split_on_word: "c \<notin> set w \<Longrightarrow> split_on c w = [w]"
  by (induction w) auto

lemma split_on_append: "c \<notin> set w \<Longrightarrow> split_on c (w @ c # s) = w # split_on c s"
  by (induction w) auto

lemma split_join_on:
  "ws \<noteq> [] \<Longrightarrow> \<forall>w \<in> set ws. c \<notin> set w \<Longrightarrow> split_on c (join_on c ws) = ws"
proof (induction ws)
  case (Cons w ws)
  then show ?case
    by (cases "ws = []") (simp_all add: split_on_word join_on_Cons split_on_append)
qed simp

section \<open>JSON values\<close>

text \<open>
  What \<^verbatim>\<open>encoding/json\<close> marshals and the \<^verbatim>\<open>JSONB\<close> columns store. Object members are kept in
  the order \<^verbatim>\<open>json.Marshal\<close> writes them. \<open>JDec\<close> is a number literal with a fraction or an
  exponent, which no integer field accepts.
\<close>

datatype json =
    JNull
  | JBool bool
  | JInt int
  | JDec string
  | JStr string
  | JArr "json list"
  | JObj "(string \<times> json) list"

end
