(* ===== verification/Proto.thy ===== *)
theory Proto
  imports Prelude
begin

text \<open>
  The gRPC messages of \<^verbatim>\<open>gen/go/stock/v1\<close>, \<^verbatim>\<open>gen/go/reservation/v1\<close> and \<^verbatim>\<open>gen/go/order/v1\<close> as
  records, one per message struct, with the struct's fields in its order (the selectors
  play the part of the generated getters), and the gRPC status codes the services return.
\<close>

section \<open>gRPC status codes\<close>

datatype code =
    OK | Canceled | Unknown | InvalidArgument | DeadlineExceeded | NotFound | AlreadyExists
  | PermissionDenied | ResourceExhausted | FailedPrecondition | Aborted | OutOfRange
  | Unimplemented | Internal | Unavailable | DataLoss | Unauthenticated

section \<open>stock.v1\<close>

record StockLine =
  sl_sku :: string
  sl_wh :: string
  sl_qty :: int32

record AdjustStockRequest =
  adj_tenant :: string
  adj_sku :: string
  adj_wh :: string
  adj_delta :: int32
  adj_reason :: string
  adj_source :: string
  adj_key :: string

record AdjustStockResponse =
  adjr_success :: bool
  adjr_available :: int32
  adjr_reserved :: int32
  adjr_allocated :: int32
  adjr_clamped :: bool
  adjr_event :: string

record ReserveStockRequest =
  rsv_tenant :: string
  rsv_order :: string
  rsv_key :: string
  rsv_lines :: "StockLine list"

record ReserveStockResponse =
  rsvr_success :: bool
  rsvr_failed :: "string list"

record ReleaseStockRequest =
  rls_tenant :: string
  rls_order :: string
  rls_reason :: string
  rls_key :: string
  rls_lines :: "StockLine list"

record ReleaseStockResponse =
  rlsr_success :: bool
  rlsr_released :: "string list"

record ConfirmStockAllocationRequest =
  cnf_tenant :: string
  cnf_order :: string
  cnf_key :: string
  cnf_lines :: "StockLine list"

record StockAllocationLine =
  al_sku :: string
  al_wh :: string
  al_allocated :: int32

record ConfirmStockAllocationResponse =
  cnfr_success :: bool
  cnfr_lines :: "StockAllocationLine list"

record FulfillStockRequest =
  ful_tenant :: string
  ful_order :: string
  ful_key :: string
  ful_lines :: "StockLine list"

record FulfillStockLine =
  fl_sku :: string
  fl_wh :: string
  fl_remaining :: int32

record FulfillStockResponse =
  fulr_success :: bool
  fulr_lines :: "FulfillStockLine list"

record UnlockStockForAuditRequest =
  unl_tenant :: string
  unl_sku :: string
  unl_wh :: string
  unl_reason :: string
  unl_actor :: string

record UnlockStockForAuditResponse =
  unlr_success :: bool
  unlr_unlocked :: bool

section \<open>reservation.v1\<close>

record ReservationItem =
  it_sku :: string
  it_wh :: string
  it_qty :: int32

record ReserveRequest =
  rq_tenant :: string
  rq_order :: string
  rq_key :: string
  rq_items :: "ReservationItem list"
  rq_ttl :: int32

record ReserveResponse =
  rqr_success :: bool
  rqr_reservation :: string
  rqr_failed :: "string list"
  rqr_expires :: int64

record ReleaseRequest =
  rl_tenant :: string
  rl_reservation :: string
  rl_order :: string
  rl_reason :: string
  rl_key :: string

record ReleaseResponse =
  rlr_success :: bool
  rlr_released :: "string list"

record AllocateReservationRequest =
  ar_tenant :: string
  ar_order :: string
  ar_key :: string

record AllocateReservationResponse =
  arr_success :: bool
  arr_count :: int32

section \<open>order.v1\<close>

record OrderLine =
  ol_sku :: string
  ol_wh :: string
  ol_qty :: int32
  ol_price :: int64

record CreateOrderRequest =
  co_tenant :: string
  co_order :: string
  co_lines :: "OrderLine list"
  co_key :: string
  co_ttl :: int32
  co_force_fail :: bool

record CreateOrderResponse =
  cor_order :: string
  cor_status :: string
  cor_total :: int64
  cor_txn :: string

record GetOrderRequest =
  go_tenant :: string
  go_order :: string

record GetOrderResponse =
  gor_order :: string
  gor_status :: string
  gor_total :: int64
  gor_lines :: "OrderLine list"
  gor_saga :: string
  gor_txn :: string
  gor_created :: int64

record CancelOrderRequest =
  can_tenant :: string
  can_order :: string
  can_reason :: string
  can_key :: string

record CancelOrderResponse =
  canr_success :: bool
  canr_status :: string

record FulfillOrderRequest =
  fo_tenant :: string
  fo_order :: string
  fo_key :: string

record FulfillOrderResponse =
  for_success :: bool
  for_status :: string

section \<open>Messages that the idempotency ledgers fingerprint\<close>

datatype proto_message =
    M_AdjustStock AdjustStockRequest
  | M_ReserveStock ReserveStockRequest
  | M_ReleaseStock ReleaseStockRequest
  | M_ConfirmStockAllocation ConfirmStockAllocationRequest
  | M_FulfillStock FulfillStockRequest
  | M_Reserve ReserveRequest
  | M_Release ReleaseRequest
  | M_AllocateReservation AllocateReservationRequest
  | M_CreateOrder CreateOrderRequest
  | M_FulfillOrder FulfillOrderRequest

end
