(* ===== verification/Database.thy ===== *)
theory Database
  imports Proto
begin

text \<open>
  \<^verbatim>\<open>pkg/database\<close> and the PostgreSQL session under it.

  A statement, a transaction or an RPC is a function from a session to an error or a value
  and the next session (\<^verbatim>\<open>tx\<close>). The session holds the tables of one service (\<^verbatim>\<open>data\<close>), the
  tenant scope that row-level security sees, whatever lies outside this service's database
  (\<^verbatim>\<open>ext\<close>: the databases of the services it calls, its in-memory state), and the schedule of
  what the environment does at each statement: whether it fails, which UUID
  \<^verbatim>\<open>gen_random_uuid()\<close> draws and what the clock shows. Theorems quantify over the schedule, so
  they hold whichever statement, commit or call fails.
\<close>

section \<open>Errors\<close>

type_synonym uuid = string

text \<open>
  A UUID is represented by its canonical text, so \<^verbatim>\<open>pgtype.UUID.String\<close> is the identity.
\<close>

datatype err =
    ErrNoRows
  | PgErr string
  | ErrTenantIDMissing
  | ErrAlreadyProcessed
  | ErrIdempotentReplay
  | InsufficientStock "string list"
  | ErrPaymentDeclined string
  | ErrCircuitOpen
  | StatusErr code string
  | Wrapped string err

primrec err_is :: "err \<Rightarrow> err \<Rightarrow> bool" where
  "err_is ErrNoRows t \<longleftrightarrow> t = ErrNoRows"
| "err_is (PgErr m) t \<longleftrightarrow> t = PgErr m"
| "err_is ErrTenantIDMissing t \<longleftrightarrow> t = ErrTenantIDMissing"
| "err_is ErrAlreadyProcessed t \<longleftrightarrow> t = ErrAlreadyProcessed"
| "err_is ErrIdempotentReplay t \<longleftrightarrow> t = ErrIdempotentReplay"
| "err_is (InsufficientStock ss) t \<longleftrightarrow> t = InsufficientStock ss"
| "err_is (ErrPaymentDeclined m) t \<longleftrightarrow> t = ErrPaymentDeclined m"
| "err_is ErrCircuitOpen t \<longleftrightarrow> t = ErrCircuitOpen"
| "err_is (StatusErr c m) t \<longleftrightarrow> t = StatusErr c m"
| "err_is (Wrapped m e) t \<longleftrightarrow> t = Wrapped m e \<or> err_is e t"

fun code_text :: "code \<Rightarrow> string" where
  "code_text OK = ''OK''"
| "code_text Canceled = ''Canceled''"
| "code_text Unknown = ''Unknown''"
| "code_text InvalidArgument = ''InvalidArgument''"
| "code_text DeadlineExceeded = ''DeadlineExceeded''"
| "code_text NotFound = ''NotFound''"
| "code_text AlreadyExists = ''AlreadyExists''"
| "code_text PermissionDenied = ''PermissionDenied''"
| "code_text ResourceExhausted = ''ResourceExhausted''"
| "code_text FailedPrecondition = ''FailedPrecondition''"
| "code_text Aborted = ''Aborted''"
| "code_text OutOfRange = ''OutOfRange''"
| "code_text Unimplemented = ''Unimplemented''"
| "code_text Internal = ''Internal''"
| "code_text Unavailable = ''Unavailable''"
| "code_text DataLoss = ''DataLoss''"
| "code_text Unauthenticated = ''Unauthenticated''"

primrec err_text :: "err \<Rightarrow> string" where
  "err_text ErrNoRows = ''no rows in result set''"
| "err_text (PgErr m) = m"
| "err_text ErrTenantIDMissing = ''tenant ID missing from context''"
| "err_text ErrAlreadyProcessed = ''idempotency key already processed''"
| "err_text ErrIdempotentReplay = ''idempotency key already processed''"
| "err_text (InsufficientStock ss) = ''insufficient stock for reservation''"
| "err_text (ErrPaymentDeclined m) = ''payment declined'' @ m"
| "err_text ErrCircuitOpen = ''circuit breaker open: dependency unavailable''"
| "err_text (StatusErr c m) = ''rpc error: code = '' @ code_text c @ '' desc = '' @ m"
| "err_text (Wrapped m e) = m @ err_text e"

text \<open>
  The status a client sees for a handler's error: the one the error carries, possibly wrapped, or
  \<^verbatim>\<open>Unknown\<close>.
\<close>

primrec grpc_code :: "err \<Rightarrow> code" where
  "grpc_code ErrNoRows = Unknown"
| "grpc_code (PgErr m) = Unknown"
| "grpc_code ErrTenantIDMissing = Unknown"
| "grpc_code ErrAlreadyProcessed = Unknown"
| "grpc_code ErrIdempotentReplay = Unknown"
| "grpc_code (InsufficientStock ss) = Unknown"
| "grpc_code (ErrPaymentDeclined m) = Unknown"
| "grpc_code ErrCircuitOpen = Unknown"
| "grpc_code (StatusErr c m) = c"
| "grpc_code (Wrapped m e) = grpc_code e"

section \<open>The library code the services call\<close>

text \<open>
  Parameters of the model: \<^verbatim>\<open>uuid_scan\<close> is \<^verbatim>\<open>pgtype.UUID.Scan\<close> (and the \<^verbatim>\<open>::uuid\<close> cast of the
  row-level security policies), \<^verbatim>\<open>proto_hash\<close> the hex SHA-256 of \<^verbatim>\<open>proto.Marshal\<close>,
  \<^verbatim>\<open>jsonb_in\<close> PostgreSQL's \<^verbatim>\<open>jsonb\<close> input function, \<^verbatim>\<open>rpc_trace\<close> the trace context the gRPC
  instrumentation gives a server for its client's.
\<close>

record lib =
  uuid_scan :: "string \<Rightarrow> uuid option"
  proto_hash :: "proto_message \<Rightarrow> string"
  jsonb_in :: "string \<Rightarrow> json option"
  rpc_trace :: "string \<Rightarrow> string"

record ctx =
  ctx_tenant :: string
  ctx_traceparent :: string

definition ParseUUID :: "lib \<Rightarrow> string \<Rightarrow> err + uuid" where
  "ParseUUID L s =
     (case uuid_scan L s of None \<Rightarrow> Inl (PgErr (''invalid UUID '' @ s)) | Some u \<Rightarrow> Inr u)"

definition PayloadHash :: "lib \<Rightarrow> proto_message \<Rightarrow> string" where
  "PayloadHash L m = proto_hash L m"

definition CompensationKey :: "string \<Rightarrow> string \<Rightarrow> string" where
  "CompensationKey tenantID orderID = ''comp:'' @ tenantID @ '':'' @ orderID"

definition TraceparentText :: "ctx \<Rightarrow> string option" where
  "TraceparentText c = (if ctx_traceparent c = '''' then None else Some (ctx_traceparent c))"

definition WithTenantID :: "ctx \<Rightarrow> string \<Rightarrow> ctx" where
  "WithTenantID c t = c\<lparr>ctx_tenant := t\<rparr>"

definition TenantIDFromContext :: "ctx \<Rightarrow> err + string" where
  "TenantIDFromContext c =
     (if ctx_tenant c = '''' then Inl ErrTenantIDMissing else Inr (ctx_tenant c))"

text \<open>The context of a handler: values do not cross the wire, the trace context does.\<close>

definition incoming :: "lib \<Rightarrow> ctx \<Rightarrow> ctx" where
  "incoming L c = \<lparr>ctx_tenant = '''', ctx_traceparent = rpc_trace L (ctx_traceparent c)\<rparr>"

definition Background :: ctx where
  "Background = \<lparr>ctx_tenant = '''', ctx_traceparent = ''''\<rparr>"

section \<open>Sessions, statements, transactions\<close>

text \<open>
  \<^verbatim>\<open>Failed\<close>: the statement, call or commit did not happen. \<^verbatim>\<open>Lost\<close>: it happened, but the
  caller sees an error (the acknowledgement was lost); for a statement inside a
  transaction the two are the same, since the error aborts the transaction. \<^verbatim>\<open>busy\<close> tells which
  rows other transactions hold locked, for \<^verbatim>\<open>SKIP LOCKED\<close>; the clock counts microseconds, the
  resolution of \<^verbatim>\<open>timestamptz\<close>.
\<close>

datatype fault = Failed string | Lost string

record stmt_env =
  fault :: "fault option"
  fresh :: uuid
  clock :: int
  busy :: "uuid \<Rightarrow> bool"

primrec fault_text :: "fault \<Rightarrow> string" where
  "fault_text (Failed m) = m"
| "fault_text (Lost m) = m"

text \<open>
  Row-level security: the \<^verbatim>\<open>taper_sweeper\<close> role bypasses it, every other session sees the
  rows of \<^verbatim>\<open>app_current_tenant()\<close> only (none while the setting is no UUID).
\<close>

datatype rls = Bypass | Scoped "uuid option"

record ('d, 'x) sess =
  data :: 'd
  ext :: 'x
  scope :: rls
  sched :: "nat \<Rightarrow> stmt_env"
  pos :: nat

type_synonym ('d, 'x, 'a) tx = "('d, 'x) sess \<Rightarrow> (err + 'a) \<times> ('d, 'x) sess"

definition returnE :: "'a \<Rightarrow> ('d, 'x, 'a) tx" where
  "returnE a s = (Inr a, s)"

definition failE :: "err \<Rightarrow> ('d, 'x, 'a) tx" where
  "failE e s = (Inl e, s)"

definition bindE :: "('d, 'x, 'a) tx \<Rightarrow> ('a \<Rightarrow> ('d, 'x, 'b) tx) \<Rightarrow> ('d, 'x, 'b) tx" where
  "bindE m f s = (case m s of (Inl e, s') \<Rightarrow> (Inl e, s') | (Inr a, s') \<Rightarrow> f a s')"

text \<open>\<^verbatim>\<open>x, err := m()\<close> without an early return: the error becomes a value.\<close>

definition attempt :: "('d, 'x, 'a) tx \<Rightarrow> ('d, 'x, err + 'a) tx" where
  "attempt m s = (case m s of (r, s') \<Rightarrow> (Inr r, s'))"

text \<open>\<^verbatim>\<open>if err != nil { ... }\<close> after a call.\<close>

definition catchE :: "('d, 'x, 'a) tx \<Rightarrow> (err \<Rightarrow> ('d, 'x, 'a) tx) \<Rightarrow> ('d, 'x, 'a) tx" where
  "catchE m h s = (case m s of (Inl e, s') \<Rightarrow> h e s' | (Inr a, s') \<Rightarrow> (Inr a, s'))"

definition liftE :: "err + 'a \<Rightarrow> ('d, 'x, 'a) tx" where
  "liftE r s = (r, s)"

definition mapErr :: "(err \<Rightarrow> err) \<Rightarrow> ('d, 'x, 'a) tx \<Rightarrow> ('d, 'x, 'a) tx" where
  "mapErr g m s = (case m s of (Inl e, s') \<Rightarrow> (Inl (g e), s') | (Inr a, s') \<Rightarrow> (Inr a, s'))"

text \<open>A \<^verbatim>\<open>for ... range\<close> loop whose body may return an error.\<close>

primrec forE :: "'l list \<Rightarrow> ('l \<Rightarrow> ('d, 'x, 'a) tx) \<Rightarrow> ('d, 'x, 'a list) tx" where
  "forE [] f = returnE []"
| "forE (l # ls) f = bindE (f l) (\<lambda>a. bindE (forE ls f) (\<lambda>as. returnE (a # as)))"

text \<open>One SQL statement: it sees its environment, the tenant scope and the tables.\<close>

definition stmt :: "(stmt_env \<Rightarrow> rls \<Rightarrow> 'd \<Rightarrow> err + 'a \<times> 'd) \<Rightarrow> ('d, 'x, 'a) tx" where
  "stmt f s =
     (let e = sched s (pos s); s1 = s\<lparr>pos := Suc (pos s)\<rparr> in
      case fault e of
        Some flt \<Rightarrow> (Inl (PgErr (fault_text flt)), s1)
      | None \<Rightarrow>
          (case f e (scope s) (data s) of
             Inl er \<Rightarrow> (Inl er, s1)
           | Inr (a, d) \<Rightarrow> (Inr a, s1\<lparr>data := d\<rparr>)))"

definition rls_visible :: "rls \<Rightarrow> uuid \<Rightarrow> bool" where
  "rls_visible sc t \<longleftrightarrow> sc = Bypass \<or> sc = Scoped (Some t)"

definition rls_violation :: err where
  "rls_violation = PgErr ''new row violates row-level security policy''"

text \<open>A \<^verbatim>\<open>VARCHAR(n)\<close> column rejects longer values.\<close>

definition varchar :: "nat \<Rightarrow> string \<Rightarrow> bool" where
  "varchar n s \<longleftrightarrow> length s \<le> n"

definition value_too_long :: err where
  "value_too_long = PgErr ''value too long for type character varying''"

definition check_violation :: "string \<Rightarrow> err" where
  "check_violation c = PgErr (''new row violates check constraint '' @ c)"

definition unique_violation :: "string \<Rightarrow> err" where
  "unique_violation c = PgErr (''duplicate key value violates unique constraint '' @ c)"

text \<open>
  \<^verbatim>\<open>pool.Begin\<close>, the callback, \<^verbatim>\<open>tx.Commit\<close>; every other way out runs the deferred
  \<^verbatim>\<open>tx.Rollback\<close>. A commit whose acknowledgement is lost has taken effect.
\<close>

definition begin_tx :: "('d, 'x, unit) tx" where
  "begin_tx = mapErr (Wrapped ''failed to begin transaction: '') (stmt (\<lambda>e sc d. Inr ((), d)))"

definition commit_or_rollback :: "'d \<Rightarrow> 'a \<Rightarrow> ('d, 'x, 'a) tx" where
  "commit_or_rollback d0 a s =
     (let s1 = s\<lparr>pos := Suc (pos s)\<rparr> in
      case fault (sched s (pos s)) of
        None \<Rightarrow> (Inr a, s1)
      | Some (Failed m) \<Rightarrow>
          (Inl (Wrapped ''failed to commit transaction: '' (PgErr m)), s1\<lparr>data := d0\<rparr>)
      | Some (Lost m) \<Rightarrow> (Inl (Wrapped ''failed to commit transaction: '' (PgErr m)), s1))"

definition in_tx :: "('d, 'x, 'a) tx \<Rightarrow> ('d, 'x, 'a) tx" where
  "in_tx fn s =
     (case fn s of
        (Inl e, s') \<Rightarrow> (Inl e, s'\<lparr>data := data s\<rparr>)
      | (Inr a, s') \<Rightarrow> commit_or_rollback (data s) a s')"

definition with_scope :: "rls \<Rightarrow> ('d, 'x, 'a) tx \<Rightarrow> ('d, 'x, 'a) tx" where
  "with_scope sc m s = (case m (s\<lparr>scope := sc\<rparr>) of (r, s') \<Rightarrow> (r, s'\<lparr>scope := scope s\<rparr>))"

definition ExecTxNoTenant :: "('d, 'x, 'a) tx \<Rightarrow> ('d, 'x, 'a) tx" where
  "ExecTxNoTenant fn = bindE begin_tx (\<lambda>_. with_scope Bypass (in_tx fn))"

definition SetTenantRLS :: "('d, 'x, unit) tx" where
  "SetTenantRLS =
     mapErr (Wrapped ''failed to set tenant RLS context: '') (stmt (\<lambda>e sc d. Inr ((), d)))"

definition ExecTxWithTenant :: "lib \<Rightarrow> ctx \<Rightarrow> ('d, 'x, 'a) tx \<Rightarrow> ('d, 'x, 'a) tx" where
  "ExecTxWithTenant L c fn =
     bindE (liftE (TenantIDFromContext c)) (\<lambda>tenantID.
     bindE begin_tx (\<lambda>_.
     with_scope (Scoped (uuid_scan L tenantID))
       (in_tx (bindE SetTenantRLS (\<lambda>_. fn)))))"

text \<open>A statement outside any explicit transaction commits on its own.\<close>

definition autocommit :: "('d, 'x, 'a) tx \<Rightarrow> ('d, 'x, 'a) tx" where
  "autocommit m = with_scope Bypass (in_tx m)"

text \<open>
  A unary gRPC call into a service whose state is \<^verbatim>\<open>ext\<close>: the request may be lost, or
  served with the response lost.
\<close>

definition rpc :: "('x \<Rightarrow> (err + 'a) \<times> 'x) \<Rightarrow> ('d, 'x, 'a) tx" where
  "rpc srv s =
     (let s1 = s\<lparr>pos := Suc (pos s)\<rparr> in
      case fault (sched s (pos s)) of
        Some (Failed m) \<Rightarrow> (Inl (StatusErr Unavailable m), s1)
      | Some (Lost m) \<Rightarrow> (Inl (StatusErr DeadlineExceeded m), s1\<lparr>ext := snd (srv (ext s))\<rparr>)
      | None \<Rightarrow> (case srv (ext s) of (r, x) \<Rightarrow> (r, s1\<lparr>ext := x\<rparr>)))"

text \<open>\<^verbatim>\<open>time.Now()\<close>.\<close>

definition now :: "('d, 'x, int) tx" where
  "now s = (Inr (clock (sched s (pos s))), s\<lparr>pos := Suc (pos s)\<rparr>)"

definition Unix :: "int \<Rightarrow> int" where
  "Unix t = t div 1000000"

text \<open>
  A local variable that a transaction's callback assigns: a rollback does not undo the
  assignment, so it lives beside \<^verbatim>\<open>ext\<close> while the transaction runs.
\<close>

definition with_var :: "'v \<Rightarrow> ('d, 'x \<times> 'v, 'a) tx \<Rightarrow> ('d, 'x, (err + 'a) \<times> 'v) tx" where
  "with_var v m s =
     (case m \<lparr>data = data s, ext = (ext s, v), scope = scope s, sched = sched s, pos = pos s\<rparr> of
        (r, s') \<Rightarrow>
          (Inr (r, snd (ext s')),
           \<lparr>data = data s', ext = fst (ext s'), scope = scope s', sched = sched s', pos = pos s'\<rparr>))"

definition set_var :: "'v \<Rightarrow> ('d, 'x \<times> 'v, unit) tx" where
  "set_var v s = (Inr (), s\<lparr>ext := (fst (ext s), v)\<rparr>)"

end
