(* ===== verification/TxLogic.thy ===== *)
theory TxLogic
  imports Database
begin

text \<open>
  Reasoning about transactions: a calculus for predicates on the tables that every statement
  keeps (\<^verbatim>\<open>keeps\<close>), evaluation of the path on which nothing fails, the atomicity of
  \<^verbatim>\<open>ExecTxWithTenant\<close> under every schedule of faults, and the interface of an operation that may
  be retried (locale \<^verbatim>\<open>retry_safe\<close>).
\<close>

section \<open>Successful runs\<close>

text \<open>
  Selectors of an updated session. The session of a service that calls others nests their sessions
  in \<^verbatim>\<open>ext\<close>; these equations rewrite at every nesting.
\<close>

lemma sess_simps [simp]:
  "data (s\<lparr>data := d\<rparr>) = d" "ext (s\<lparr>data := d\<rparr>) = ext s" "scope (s\<lparr>data := d\<rparr>) = scope s" "sched (s\<lparr>data := d\<rparr>) = sched s" "pos (s\<lparr>data := d\<rparr>) = pos s"
  "data (s\<lparr>ext := x\<rparr>) = data s" "ext (s\<lparr>ext := x\<rparr>) = x" "scope (s\<lparr>ext := x\<rparr>) = scope s" "sched (s\<lparr>ext := x\<rparr>) = sched s" "pos (s\<lparr>ext := x\<rparr>) = pos s"
  "data (s\<lparr>scope := sc\<rparr>) = data s" "ext (s\<lparr>scope := sc\<rparr>) = ext s" "scope (s\<lparr>scope := sc\<rparr>) = sc" "sched (s\<lparr>scope := sc\<rparr>) = sched s" "pos (s\<lparr>scope := sc\<rparr>) = pos s"
  "data (s\<lparr>sched := sh\<rparr>) = data s" "ext (s\<lparr>sched := sh\<rparr>) = ext s" "scope (s\<lparr>sched := sh\<rparr>) = scope s" "sched (s\<lparr>sched := sh\<rparr>) = sh" "pos (s\<lparr>sched := sh\<rparr>) = pos s"
  "data (s\<lparr>pos := n\<rparr>) = data s" "ext (s\<lparr>pos := n\<rparr>) = ext s" "scope (s\<lparr>pos := n\<rparr>) = scope s" "sched (s\<lparr>pos := n\<rparr>) = sched s" "pos (s\<lparr>pos := n\<rparr>) = n"
  by simp_all

lemma bindE_InrE:
  assumes "bindE m f s = (Inr b, s')"
  obtains a s1 where "m s = (Inr a, s1)" "f a s1 = (Inr b, s')"
  using assms by (auto simp: bindE_def split: prod.splits sum.splits)

lemma bindE_Inr [simp]: "m s = (Inr a, s1) \<Longrightarrow> bindE m f s = f a s1"
  by (simp add: bindE_def)

lemma bindE_Inl [simp]: "m s = (Inl e, s1) \<Longrightarrow> bindE m f s = (Inl e, s1)"
  by (simp add: bindE_def)

lemma stmt_InrE:
  assumes "stmt f s = (Inr a, s')"
  obtains d where "f (sched s (pos s)) (scope s) (data s) = Inr (a, d)"
    and "s' = s\<lparr>pos := Suc (pos s), data := d\<rparr>" and "fault (sched s (pos s)) = None"
  using assms by (auto simp: stmt_def Let_def split: option.splits sum.splits prod.splits)

lemma stmt_Inl_data: "stmt f s = (Inl e, s') \<Longrightarrow> data s' = data s"
  by (auto simp: stmt_def Let_def split: option.splits sum.splits prod.splits)

lemma returnE_simp [simp]: "returnE a s = (Inr a, s)"
  by (simp add: returnE_def)

lemma failE_simp [simp]: "failE e s = (Inl e, s)"
  by (simp add: failE_def)

lemma liftE_simp [simp]: "liftE r s = (r, s)"
  by (simp add: liftE_def)

lemma attempt_iff: "attempt m s = (r, s') \<longleftrightarrow> (\<exists>r'. m s = (r', s') \<and> r = Inr r')"
  by (auto simp: attempt_def split: prod.splits)

lemma catchE_InrE:
  assumes "catchE m h s = (Inr a, s')"
  obtains "m s = (Inr a, s')" | e s1 where "m s = (Inl e, s1)" "h e s1 = (Inr a, s')"
  using assms by (auto simp: catchE_def split: prod.splits sum.splits)

lemma mapErr_Inr [simp]: "mapErr g m s = (Inr a, s') \<longleftrightarrow> m s = (Inr a, s')"
  by (auto simp: mapErr_def split: prod.splits sum.splits)

lemma mapErr_Inl: "mapErr g m s = (Inl e, s') \<longleftrightarrow> (\<exists>e'. m s = (Inl e', s') \<and> e = g e')"
  by (auto simp: mapErr_def split: prod.splits sum.splits)

lemma TenantIDFromContext_Inr [simp]:
  "TenantIDFromContext c = Inr t \<longleftrightarrow> t = ctx_tenant c \<and> t \<noteq> ''''"
  by (auto simp: TenantIDFromContext_def)

lemma begin_tx_InrE:
  assumes "begin_tx s = (Inr u, s')"
  shows "s' = s\<lparr>pos := Suc (pos s)\<rparr>" and "fault (sched s (pos s)) = None"
  using assms by (auto simp: begin_tx_def elim!: stmt_InrE)

lemma SetTenantRLS_InrE:
  assumes "SetTenantRLS s = (Inr u, s')"
  shows "s' = s\<lparr>pos := Suc (pos s)\<rparr>" and "fault (sched s (pos s)) = None"
  using assms by (auto simp: SetTenantRLS_def elim!: stmt_InrE)

section \<open>Predicates that every statement keeps\<close>

definition keeps :: "('d \<Rightarrow> bool) \<Rightarrow> ('d, 'x, 'a) tx \<Rightarrow> bool" where
  "keeps P m \<longleftrightarrow> (\<forall>s. P (data s) \<longrightarrow> P (data (snd (m s))))"

lemma keepsD: "keeps P m \<Longrightarrow> P (data s) \<Longrightarrow> P (data (snd (m s)))"
  by (simp add: keeps_def)

lemma keeps_step: "keeps P m \<Longrightarrow> m s = (r, s') \<Longrightarrow> P (data s) \<Longrightarrow> P (data s')"
  using keepsD [of P m s] by simp

lemma keeps_returnE [keeps_intros]: "keeps P (returnE a)"
  by (simp add: keeps_def)

lemma keeps_failE [keeps_intros]: "keeps P (failE e)"
  by (simp add: keeps_def)

lemma keeps_liftE [keeps_intros]: "keeps P (liftE r)"
  by (simp add: keeps_def)

lemma keeps_bindE [keeps_intros]: "keeps P m \<Longrightarrow> (\<And>a. keeps P (f a)) \<Longrightarrow> keeps P (bindE m f)"
  unfolding keeps_def bindE_def by (fastforce split: prod.splits sum.splits)

lemma keeps_attempt [keeps_intros]: "keeps P m \<Longrightarrow> keeps P (attempt m)"
  unfolding keeps_def attempt_def by (auto split: prod.splits)

lemma keeps_catchE [keeps_intros]: "keeps P m \<Longrightarrow> (\<And>e. keeps P (h e)) \<Longrightarrow> keeps P (catchE m h)"
  unfolding keeps_def catchE_def by (fastforce split: prod.splits sum.splits)

lemma keeps_mapErr [keeps_intros]: "keeps P m \<Longrightarrow> keeps P (mapErr g m)"
  unfolding keeps_def mapErr_def by (fastforce split: prod.splits sum.splits)

lemma keeps_forE [keeps_intros]: "(\<And>l. keeps P (f l)) \<Longrightarrow> keeps P (forE ls f)"
  by (induction ls) (auto intro!: keeps_intros)

lemma keeps_forE_set: "(\<And>l. l \<in> set ls \<Longrightarrow> keeps P (f l)) \<Longrightarrow> keeps P (forE ls f)"
  by (induction ls) (auto intro!: keeps_intros)

lemma keeps_stmt:
  "(\<And>e sc d a d'. P d \<Longrightarrow> f e sc d = Inr (a, d') \<Longrightarrow> P d') \<Longrightarrow> keeps P (stmt f)"
  unfolding keeps_def stmt_def Let_def
  by (auto split: option.splits sum.splits prod.splits)

lemma keeps_begin_tx [keeps_intros]: "keeps P begin_tx"
  unfolding begin_tx_def by (auto intro!: keeps_intros keeps_stmt)

lemma keeps_SetTenantRLS [keeps_intros]: "keeps P SetTenantRLS"
  unfolding SetTenantRLS_def by (auto intro!: keeps_intros keeps_stmt)

lemma keeps_in_tx [keeps_intros]: "keeps P m \<Longrightarrow> keeps P (in_tx m)"
  unfolding keeps_def in_tx_def commit_or_rollback_def Let_def
  by (fastforce split: prod.splits sum.splits option.splits fault.splits)

lemma keeps_with_scope [keeps_intros]: "keeps P m \<Longrightarrow> keeps P (with_scope sc m)"
  unfolding keeps_def with_scope_def
  by (metis (mono_tags, lifting) case_prod_beta' select_convs(1) snd_conv surjective update_convs(3))

lemma keeps_autocommit [keeps_intros]: "keeps P m \<Longrightarrow> keeps P (autocommit m)"
  unfolding autocommit_def by (intro keeps_intros)

lemma keeps_ExecTxWithTenant [keeps_intros]: "keeps P m \<Longrightarrow> keeps P (ExecTxWithTenant L c m)"
  unfolding ExecTxWithTenant_def by (intro keeps_intros)

lemma keeps_ExecTxNoTenant [keeps_intros]: "keeps P m \<Longrightarrow> keeps P (ExecTxNoTenant m)"
  unfolding ExecTxNoTenant_def by (intro keeps_intros)

lemma keeps_rpc [keeps_intros]: "keeps P (rpc srv)"
  unfolding keeps_def rpc_def Let_def by (auto split: prod.splits option.splits fault.splits)

lemma keeps_now [keeps_intros]: "keeps P now"
  by (simp add: keeps_def now_def)

lemma keeps_set_var [keeps_intros]: "keeps P (set_var v)"
  by (simp add: keeps_def set_var_def)

lemma keeps_with_var [keeps_intros]: "keeps P m \<Longrightarrow> keeps P (with_var v m)"
  unfolding keeps_def with_var_def by (auto split: prod.splits) (metis select_convs(1) snd_conv)

lemma keeps_if [keeps_intros]: "(b \<Longrightarrow> keeps P m) \<Longrightarrow> (\<not> b \<Longrightarrow> keeps P n) \<Longrightarrow> keeps P (if b then m else n)"
  by simp

lemma keeps_case_sum [keeps_intros]:
  "(\<And>e. keeps P (f e)) \<Longrightarrow> (\<And>a. keeps P (g a)) \<Longrightarrow> keeps P (case r of Inl e \<Rightarrow> f e | Inr a \<Rightarrow> g a)"
  by (cases r) auto

lemma keeps_case_option [keeps_intros]:
  "keeps P m \<Longrightarrow> (\<And>a. keeps P (g a)) \<Longrightarrow> keeps P (case r of None \<Rightarrow> m | Some a \<Rightarrow> g a)"
  by (cases r) auto

section \<open>Parts of the session that statements leave alone\<close>

text \<open>\<^verbatim>\<open>g\<close> reads a part of the session other than the tables and the position in the schedule.\<close>

definition aside :: "(('d, 'x) sess \<Rightarrow> 'b) \<Rightarrow> bool" where
  "aside g \<longleftrightarrow> (\<forall>s n d. g (s\<lparr>pos := n\<rparr>) = g s \<and> g (s\<lparr>data := d\<rparr>) = g s)"

definition frame :: "(('d, 'x) sess \<Rightarrow> 'b) \<Rightarrow> ('d, 'x, 'a) tx \<Rightarrow> bool" where
  "frame g m \<longleftrightarrow> (\<forall>s. g (snd (m s)) = g s)"

lemma ext_update_scope: "ext (s\<lparr>scope := sc\<rparr>) = ext s" "sched (s\<lparr>scope := sc\<rparr>) = sched s"
  by simp_all

lemma aside_parts [frame_intros]: "aside scope" "aside ext" "aside sched"
  by (simp_all add: aside_def)

lemma frameD: "frame g m \<Longrightarrow> m s = (r, s') \<Longrightarrow> g s' = g s"
  by (metis frame_def snd_conv)

lemma frame_basic [frame_intros]: "frame g (returnE a)" "frame g (failE e)" "frame g (liftE r)"
  by (simp_all add: frame_def)

lemma frame_bindE [frame_intros]: "frame g m \<Longrightarrow> (\<And>a. frame g (f a)) \<Longrightarrow> frame g (bindE m f)"
  unfolding frame_def bindE_def by (auto split: prod.splits sum.splits) (metis snd_conv)+

lemma frame_attempt [frame_intros]: "frame g m \<Longrightarrow> frame g (attempt m)"
  unfolding frame_def attempt_def by (auto split: prod.splits) (metis snd_conv)+

lemma frame_catchE [frame_intros]: "frame g m \<Longrightarrow> (\<And>e. frame g (h e)) \<Longrightarrow> frame g (catchE m h)"
  unfolding frame_def catchE_def by (auto split: prod.splits sum.splits) (metis snd_conv)+

lemma frame_mapErr [frame_intros]: "frame g m \<Longrightarrow> frame g (mapErr h m)"
  unfolding frame_def mapErr_def by (auto split: prod.splits sum.splits) (metis snd_conv)+

lemma frame_forE [frame_intros]: "(\<And>l. frame g (f l)) \<Longrightarrow> frame g (forE ls f)"
  by (induction ls) (auto intro!: frame_intros)

lemma frame_stmt [frame_intros]: "aside g \<Longrightarrow> frame g (stmt f)"
  unfolding frame_def aside_def stmt_def Let_def by (auto split: option.splits sum.splits prod.splits)

lemma frame_begin_tx [frame_intros]: "aside g \<Longrightarrow> frame g begin_tx"
  unfolding begin_tx_def by (intro frame_intros)

lemma frame_SetTenantRLS [frame_intros]: "aside g \<Longrightarrow> frame g SetTenantRLS"
  unfolding SetTenantRLS_def by (intro frame_intros)

lemma frame_in_tx [frame_intros]: "aside g \<Longrightarrow> frame g m \<Longrightarrow> frame g (in_tx m)"
  unfolding frame_def in_tx_def commit_or_rollback_def Let_def aside_def
  by (auto split: prod.splits sum.splits option.splits fault.splits) (metis snd_conv)+

lemma frame_rpc [frame_intros]: "frame data (rpc srv)" "frame scope (rpc srv)" "frame sched (rpc srv)"
  unfolding frame_def rpc_def Let_def by (auto split: prod.splits option.splits fault.splits)

lemma frame_now [frame_intros]: "aside g \<Longrightarrow> frame g now" "frame data now"
  by (simp_all add: frame_def aside_def now_def)

lemma frame_set_var [frame_intros]: "frame data (set_var v)" "frame scope (set_var v)" "frame sched (set_var v)"
  by (simp_all add: frame_def set_var_def)

lemma frame_with_var [frame_intros]:
  "frame data m \<Longrightarrow> frame data (with_var v m)"
  "frame scope n \<Longrightarrow> frame scope (with_var v n)"
  "frame sched k \<Longrightarrow> frame sched (with_var v k)"
  unfolding frame_def with_var_def by (auto split: prod.splits) (metis select_convs snd_conv)+

lemma frame_if [frame_intros]: "(b \<Longrightarrow> frame g m) \<Longrightarrow> (\<not> b \<Longrightarrow> frame g n) \<Longrightarrow> frame g (if b then m else n)"
  by simp

lemma frame_case_sum [frame_intros]:
  "(\<And>e. frame g (f e)) \<Longrightarrow> (\<And>a. frame g (h a)) \<Longrightarrow> frame g (case r of Inl e \<Rightarrow> f e | Inr a \<Rightarrow> h a)"
  by (cases r) auto

lemma frame_case_option [frame_intros]:
  "frame g m \<Longrightarrow> (\<And>a. frame g (h a)) \<Longrightarrow> frame g (case r of None \<Rightarrow> m | Some a \<Rightarrow> h a)"
  by (cases r) auto

lemma frame_with_scope_scope [frame_intros]: "frame scope (with_scope sc m)"
  unfolding frame_def with_scope_def by (auto split: prod.splits)

lemma frame_with_scope_ext [frame_intros]: "frame ext m \<Longrightarrow> frame ext (with_scope sc m)"
  unfolding frame_def with_scope_def by (auto split: prod.splits) (metis ext_update_scope snd_conv)

lemma frame_with_scope_sched [frame_intros]: "frame sched m \<Longrightarrow> frame sched (with_scope sc m)"
  unfolding frame_def with_scope_def by (auto split: prod.splits) (metis ext_update_scope(2) snd_conv)

lemma frame_ExecTxWithTenant [frame_intros]:
  "frame scope (ExecTxWithTenant L c m)"
  "frame ext n \<Longrightarrow> frame ext (ExecTxWithTenant L c n)"
  "frame sched k \<Longrightarrow> frame sched (ExecTxWithTenant L c k)"
  unfolding ExecTxWithTenant_def by (intro frame_intros; assumption?)+

text \<open>A part of the session outside this service, such as one of several calls' callees.\<close>

definition beside :: "(('d, 'x) sess \<Rightarrow> 'b) \<Rightarrow> bool" where
  "beside g \<longleftrightarrow> aside g \<and> (\<forall>s sc. g (s\<lparr>scope := sc\<rparr>) = g s)"

lemma beside_ext [frame_intros]: "beside (\<lambda>s. f (ext s))"
  by (simp add: beside_def aside_def)

lemma beside_aside [frame_intros]: "beside g \<Longrightarrow> aside g"
  by (simp add: beside_def)

lemma frame_with_scope: "beside g \<Longrightarrow> frame g m \<Longrightarrow> frame g (with_scope sc m)"
  unfolding frame_def with_scope_def beside_def by (auto split: prod.splits) (metis snd_conv)

lemma frame_ExecTx_beside: "beside g \<Longrightarrow> frame g m \<Longrightarrow> frame g (ExecTxWithTenant L c m)"
  unfolding ExecTxWithTenant_def by (intro frame_intros frame_with_scope) (simp_all add: beside_def)

lemma frame_set_var_fst [frame_intros]: "frame (\<lambda>s. fst (ext s)) (set_var v)"
  by (simp add: frame_def set_var_def)

lemma frame_with_var_ext: "frame (\<lambda>s. fst (ext s)) m \<Longrightarrow> frame ext (with_var v m)"
  unfolding frame_def with_var_def by (auto split: prod.splits) (metis fst_conv select_convs(2) snd_conv)

section \<open>Invariants of the services that are called\<close>

definition keeps_ext :: "('x \<Rightarrow> bool) \<Rightarrow> ('d, 'x, 'a) tx \<Rightarrow> bool" where
  "keeps_ext P m \<longleftrightarrow> (\<forall>s. P (ext s) \<longrightarrow> P (ext (snd (m s))))"

lemma keeps_extD: "keeps_ext P m \<Longrightarrow> P (ext s) \<Longrightarrow> P (ext (snd (m s)))"
  by (simp add: keeps_ext_def)

lemma keeps_ext_step: "keeps_ext P m \<Longrightarrow> m s = (r, s') \<Longrightarrow> P (ext s) \<Longrightarrow> P (ext s')"
  using keeps_extD [of P m s] by simp

lemma keeps_ext_frame: "frame ext m \<Longrightarrow> keeps_ext P m"
  by (simp add: frame_def keeps_ext_def)

lemma keeps_ext_basic [ext_intros]:
  "keeps_ext P (returnE a)" "keeps_ext P (failE e)" "keeps_ext P (liftE r)" "keeps_ext P now"
  "keeps_ext P (stmt f)" "keeps_ext P begin_tx" "keeps_ext P SetTenantRLS"
  by (intro keeps_ext_frame frame_intros)+

lemma keeps_ext_bindE [ext_intros]:
  "keeps_ext P m \<Longrightarrow> (\<And>a. keeps_ext P (f a)) \<Longrightarrow> keeps_ext P (bindE m f)"
  unfolding keeps_ext_def bindE_def by (simp add: case_prod_beta split: sum.split)

lemma keeps_ext_attempt [ext_intros]: "keeps_ext P m \<Longrightarrow> keeps_ext P (attempt m)"
  unfolding keeps_ext_def attempt_def by (auto split: prod.splits)

lemma keeps_ext_catchE [ext_intros]:
  "keeps_ext P m \<Longrightarrow> (\<And>e. keeps_ext P (h e)) \<Longrightarrow> keeps_ext P (catchE m h)"
  unfolding keeps_ext_def catchE_def by (simp add: case_prod_beta split: sum.split)

lemma keeps_ext_mapErr [ext_intros]: "keeps_ext P m \<Longrightarrow> keeps_ext P (mapErr g m)"
  unfolding keeps_ext_def mapErr_def by (simp add: case_prod_beta split: sum.split)

lemma keeps_ext_forE [ext_intros]: "(\<And>l. keeps_ext P (f l)) \<Longrightarrow> keeps_ext P (forE ls f)"
  by (induction ls) (auto intro!: ext_intros)

lemma keeps_ext_in_tx [ext_intros]: "keeps_ext P m \<Longrightarrow> keeps_ext P (in_tx m)"
  unfolding keeps_ext_def in_tx_def commit_or_rollback_def Let_def
  by (simp add: case_prod_beta split: sum.split option.split fault.split)

lemma keeps_ext_with_scope [ext_intros]: "keeps_ext P m \<Longrightarrow> keeps_ext P (with_scope sc m)"
  unfolding keeps_ext_def with_scope_def by (simp add: case_prod_beta)

lemma keeps_ext_autocommit [ext_intros]: "keeps_ext P m \<Longrightarrow> keeps_ext P (autocommit m)"
  unfolding autocommit_def by (intro ext_intros)

lemma keeps_ext_ExecTxWithTenant [ext_intros]: "keeps_ext P m \<Longrightarrow> keeps_ext P (ExecTxWithTenant L c m)"
  unfolding ExecTxWithTenant_def by (intro ext_intros)

lemma keeps_ext_ExecTxNoTenant [ext_intros]: "keeps_ext P m \<Longrightarrow> keeps_ext P (ExecTxNoTenant m)"
  unfolding ExecTxNoTenant_def by (intro ext_intros)

lemma keeps_ext_rpc: "(\<And>x. P x \<Longrightarrow> P (snd (srv x))) \<Longrightarrow> keeps_ext P (rpc srv)"
  unfolding keeps_ext_def rpc_def Let_def
  by (simp add: case_prod_beta split: option.split fault.split)

lemma keeps_ext_if [ext_intros]:
  "(b \<Longrightarrow> keeps_ext P m) \<Longrightarrow> (\<not> b \<Longrightarrow> keeps_ext P n) \<Longrightarrow> keeps_ext P (if b then m else n)"
  by simp

lemma keeps_ext_case_sum [ext_intros]:
  "(\<And>e. keeps_ext P (f e)) \<Longrightarrow> (\<And>a. keeps_ext P (g a)) \<Longrightarrow> keeps_ext P (case r of Inl e \<Rightarrow> f e | Inr a \<Rightarrow> g a)"
  by (cases r) auto

lemma keeps_ext_case_option [ext_intros]:
  "keeps_ext P m \<Longrightarrow> (\<And>a. keeps_ext P (g a)) \<Longrightarrow> keeps_ext P (case r of None \<Rightarrow> m | Some a \<Rightarrow> g a)"
  by (cases r) auto

section \<open>The errors a transaction can end with\<close>

definition raises :: "(err \<Rightarrow> bool) \<Rightarrow> ('d, 'x, 'a) tx \<Rightarrow> bool" where
  "raises E m \<longleftrightarrow> (\<forall>s e s'. m s = (Inl e, s') \<longrightarrow> E e)"

lemma raisesD: "raises E m \<Longrightarrow> m s = (Inl e, s') \<Longrightarrow> E e"
  by (auto simp: raises_def)

lemma bindE_InlE:
  assumes "bindE m f s = (Inl e, s')"
  obtains "m s = (Inl e, s')" | a s1 where "m s = (Inr a, s1)" "f a s1 = (Inl e, s')"
  using assms by (auto simp: bindE_def split: prod.splits sum.splits)

lemma raises_basic [raises_intros]:
  "raises E (returnE a)" "E e \<Longrightarrow> raises E (failE e)" "raises E (attempt m)"
  by (auto simp: raises_def attempt_def split: prod.splits)

lemma raises_bindE [raises_intros]: "raises E m \<Longrightarrow> (\<And>a. raises E (f a)) \<Longrightarrow> raises E (bindE m f)"
  unfolding raises_def by (blast elim: bindE_InlE)

lemma raises_catchE [raises_intros]: "(\<And>e. raises E (h e)) \<Longrightarrow> raises E (catchE m h)"
  unfolding raises_def catchE_def by (fastforce split: prod.splits sum.splits)

lemma raises_forE [raises_intros]: "(\<And>l. raises E (f l)) \<Longrightarrow> raises E (forE ls f)"
  by (induction ls) (auto intro!: raises_intros)

lemma raises_stmt:
  assumes "\<And>m. E (PgErr m)" "\<And>en sc d e. f en sc d = Inl e \<Longrightarrow> E e"
  shows "raises E (stmt f)"
  using assms unfolding raises_def stmt_def Let_def
  by (auto split: option.splits sum.splits prod.splits)

text \<open>The errors of the statements themselves.\<close>

definition pg_err :: "err \<Rightarrow> bool" where
  "pg_err e \<longleftrightarrow> e = ErrNoRows \<or> (\<exists>m. e = PgErr m)"

lemma pg_err_simps [simp]:
  "pg_err ErrNoRows" "pg_err (PgErr m)" "pg_err rls_violation" "pg_err value_too_long"
  "pg_err (check_violation m)" "pg_err (unique_violation m)"
  by (simp_all add: pg_err_def rls_violation_def value_too_long_def check_violation_def unique_violation_def)

lemma raises_mono: "raises E m \<Longrightarrow> (\<And>e. E e \<Longrightarrow> E' e) \<Longrightarrow> raises E' m"
  by (auto simp: raises_def)

lemma raises_if [raises_intros]:
  "(b \<Longrightarrow> raises E m) \<Longrightarrow> (\<not> b \<Longrightarrow> raises E n) \<Longrightarrow> raises E (if b then m else n)"
  by simp

lemma raises_case_sum [raises_intros]:
  "(\<And>e. r = Inl e \<Longrightarrow> raises E (f e)) \<Longrightarrow> (\<And>a. raises E (g a)) \<Longrightarrow>
     raises E (case r of Inl e \<Rightarrow> f e | Inr a \<Rightarrow> g a)"
  by (cases r) auto

section \<open>Atomicity of transactions\<close>

text \<open>\<^verbatim>\<open>commits sc fn d d'\<close>: the callback can run from tables \<^verbatim>\<open>d\<close> without an error and leaves \<^verbatim>\<open>d'\<close>.\<close>

definition commits :: "rls \<Rightarrow> ('d, 'x, 'a) tx \<Rightarrow> 'd \<Rightarrow> 'd \<Rightarrow> bool" where
  "commits sc fn d d' \<longleftrightarrow>
     (\<exists>s s' a. fn s = (Inr a, s') \<and> scope s = sc \<and> data s = d \<and> data s' = d')"

lemma commitsI: "fn s = (Inr a, s') \<Longrightarrow> scope s = sc \<Longrightarrow> commits sc fn (data s) (data s')"
  by (auto simp: commits_def)

lemma in_tx_outcome:
  assumes "in_tx fn s = (r, s')"
  shows "data s' = data s \<or> commits (scope s) fn (data s) (data s')"
  using assms
  by (auto simp: in_tx_def commit_or_rollback_def Let_def
      split: prod.splits sum.splits option.splits fault.splits intro: commitsI)

lemma in_tx_Inr:
  assumes "in_tx fn s = (Inr a, s')"
  obtains s1 where "fn s = (Inr a, s1)" "data s' = data s1" "ext s' = ext s1"
    "s' = s1\<lparr>pos := Suc (pos s1)\<rparr>"
  using assms
  by (auto simp: in_tx_def commit_or_rollback_def Let_def
      split: prod.splits sum.splits option.splits fault.splits)

lemma with_scope_eq:
  "with_scope sc m s = (r, s') \<longleftrightarrow>
     (\<exists>s1. m (s\<lparr>scope := sc\<rparr>) = (r, s1) \<and> s' = s1\<lparr>scope := scope s\<rparr>)"
  by (auto simp: with_scope_def split: prod.splits)

lemma commits_after_SetTenantRLS:
  "commits sc (bindE SetTenantRLS (\<lambda>_. fn)) d d' \<Longrightarrow> commits sc fn d d'"
  unfolding commits_def
  by (elim exE conjE bindE_InrE) (force dest: SetTenantRLS_InrE(1))

text \<open>
  Whatever fails, a transaction leaves the tables as they were or as its callback's error-free
  run leaves them; it reports success only in the second case.
\<close>

lemma ExecTxWithTenant_atomic:
  assumes "ExecTxWithTenant L c fn s = (r, s')"
  shows "data s' = data s \<or> commits (Scoped (uuid_scan L (ctx_tenant c))) fn (data s) (data s')"
proof -
  let ?sc = "Scoped (uuid_scan L (ctx_tenant c))"
  have "data s' = data s \<or>
      commits ?sc (bindE SetTenantRLS (\<lambda>_. fn)) (data s) (data s')"
  proof (cases "ctx_tenant c = ''''")
    case True
    with assms show ?thesis
      by (simp add: ExecTxWithTenant_def TenantIDFromContext_def bindE_def)
  next
    case False
    then have *: "bindE begin_tx (\<lambda>_. with_scope ?sc
        (in_tx (bindE SetTenantRLS (\<lambda>_. fn)))) s = (r, s')"
      using assms by (simp add: ExecTxWithTenant_def TenantIDFromContext_def bindE_def)
    show ?thesis
    proof (cases "begin_tx s")
      case (Pair b s1)
      show ?thesis
      proof (cases b)
        case (Inl e)
        with * Pair have "s' = s1" by simp
        moreover have "data s1 = data s"
          using Pair Inl unfolding begin_tx_def by (auto simp: mapErr_Inl dest: stmt_Inl_data)
        ultimately show ?thesis by simp
      next
        case (Inr u)
        with Pair have s1: "s1 = s\<lparr>pos := Suc (pos s)\<rparr>" by (auto dest: begin_tx_InrE(1))
        from * Pair Inr obtain s2 where
          "in_tx (bindE SetTenantRLS (\<lambda>_. fn)) (s1\<lparr>scope := ?sc\<rparr>) = (r, s2)"
          "s' = s2\<lparr>scope := scope s1\<rparr>"
          by (auto simp: with_scope_eq)
        with in_tx_outcome [OF this(1)] s1 show ?thesis by simp
      qed
    qed
  qed
  then show ?thesis by (blast dest: commits_after_SetTenantRLS)
qed

lemma ExecTxWithTenant_Inr:
  assumes "ExecTxWithTenant L c fn s = (Inr a, s')"
  obtains s1 s2 where "fn s1 = (Inr a, s2)" "data s1 = data s" "ext s1 = ext s"
    "scope s1 = Scoped (uuid_scan L (ctx_tenant c))" "sched s1 = sched s"
    "data s' = data s2" "ext s' = ext s2"
  using assms unfolding ExecTxWithTenant_def
  by (elim bindE_InrE)
    (fastforce simp: with_scope_eq dest!: begin_tx_InrE(1) SetTenantRLS_InrE(1)
      elim!: in_tx_Inr bindE_InrE)

text \<open>An error of the callback itself (not of the transaction around it) is returned after a rollback.\<close>

lemma begin_tx_Inl: "begin_tx s = (Inl e, s') \<Longrightarrow> \<exists>w m. e = Wrapped w (PgErr m)"
  unfolding begin_tx_def by (auto simp: mapErr_Inl stmt_def Let_def split: option.splits)

lemma SetTenantRLS_Inl: "SetTenantRLS s = (Inl e, s') \<Longrightarrow> \<exists>w m. e = Wrapped w (PgErr m)"
  unfolding SetTenantRLS_def by (auto simp: mapErr_Inl stmt_def Let_def split: option.splits)

lemma in_tx_Inl:
  assumes "in_tx fn s = (Inl e, s')" and "\<And>m m'. e \<noteq> Wrapped m (PgErr m')"
  obtains s1 where "fn s = (Inl e, s1)" "s' = s1\<lparr>data := data s\<rparr>"
proof (cases "fn s")
  case (Pair r s1)
  then show ?thesis
    using assms that
    by (cases r) (auto simp: in_tx_def commit_or_rollback_def Let_def split: option.splits fault.splits)
qed

lemma ExecTxWithTenant_Inl:
  assumes run: "ExecTxWithTenant L c fn s = (Inl e, s')"
    and "e \<noteq> ErrTenantIDMissing" and own: "\<And>m m'. e \<noteq> Wrapped m (PgErr m')"
  obtains s1 s2 where "fn s1 = (Inl e, s2)" "data s1 = data s" "ext s1 = ext s"
    "scope s1 = Scoped (uuid_scan L (ctx_tenant c))" "data s' = data s" "ext s' = ext s2"
proof -
  let ?sc = "Scoped (uuid_scan L (ctx_tenant c))"
  from run assms(2) have "bindE begin_tx (\<lambda>_. with_scope ?sc (in_tx (bindE SetTenantRLS (\<lambda>_. fn)))) s = (Inl e, s')"
    by (auto simp: ExecTxWithTenant_def TenantIDFromContext_def bindE_def split: if_splits)
  then obtain s1 where s1: "begin_tx s = (Inr (), s1)"
    "with_scope ?sc (in_tx (bindE SetTenantRLS (\<lambda>_. fn))) s1 = (Inl e, s')"
    using own begin_tx_Inl by (elim bindE_InlE) fastforce+
  then obtain s2 where s2: "in_tx (bindE SetTenantRLS (\<lambda>_. fn)) (s1\<lparr>scope := ?sc\<rparr>) = (Inl e, s2)"
    "s' = s2\<lparr>scope := scope s1\<rparr>" by (auto simp: with_scope_eq)
  from in_tx_Inl [OF s2(1) own] obtain s3 where s3:
    "bindE SetTenantRLS (\<lambda>_. fn) (s1\<lparr>scope := ?sc\<rparr>) = (Inl e, s3)" "s2 = s3\<lparr>data := data s1\<rparr>" by auto
  then obtain s4 where s4: "SetTenantRLS (s1\<lparr>scope := ?sc\<rparr>) = (Inr (), s4)" "fn s4 = (Inl e, s3)"
    using own SetTenantRLS_Inl by (elim bindE_InlE) fastforce+
  from begin_tx_InrE(1) [OF s1(1)] SetTenantRLS_InrE(1) [OF s4(1)] s2(2) s3(2) show ?thesis
    by (intro that [OF s4(2)]) simp_all
qed

section \<open>Simulation of an abstract step\<close>

text \<open>
  \<^term>\<open>sim P \<alpha> m f\<close>: every error-free run of \<^verbatim>\<open>m\<close> from a session satisfying \<^verbatim>\<open>P\<close> keeps \<^verbatim>\<open>P\<close> and is
  the abstract step \<^verbatim>\<open>f\<close> (which may refuse) under the abstraction \<^term>\<open>\<alpha>\<close>.
\<close>

definition sim ::
  "(('d, 'x) sess \<Rightarrow> bool) \<Rightarrow> (('d, 'x) sess \<Rightarrow> 'c) \<Rightarrow> ('d, 'x, 'a) tx \<Rightarrow> ('c \<Rightarrow> ('a \<times> 'c) option) \<Rightarrow> bool"
where
  "sim P \<alpha> m f \<longleftrightarrow>
     (\<forall>s a s'. P s \<longrightarrow> m s = (Inr a, s') \<longrightarrow> P s' \<and> f (\<alpha> s) = Some (a, \<alpha> s'))"

lemma simI:
  "(\<And>s a s'. P s \<Longrightarrow> m s = (Inr a, s') \<Longrightarrow> P s' \<and> f (\<alpha> s) = Some (a, \<alpha> s')) \<Longrightarrow> sim P \<alpha> m f"
  by (simp add: sim_def)

lemma simD: "sim P \<alpha> m f \<Longrightarrow> m s = (Inr a, s') \<Longrightarrow> P s \<Longrightarrow> P s' \<and> f (\<alpha> s) = Some (a, \<alpha> s')"
  by (simp add: sim_def)

lemma sim_returnE: "sim P \<alpha> (returnE a) (\<lambda>c. Some (a, c))"
  by (simp add: sim_def)

lemma sim_bindE:
  assumes "sim P \<alpha> m f" "\<And>a. sim P \<alpha> (n a) (g a)"
  shows "sim P \<alpha> (bindE m n) (\<lambda>c. case f c of None \<Rightarrow> None | Some (a, c') \<Rightarrow> g a c')"
  using assms by (intro simI) (fastforce elim!: bindE_InrE dest: simD)

text \<open>A loop over lines against the abstract loop.\<close>

primrec run_lines :: "('l \<Rightarrow> 'c \<Rightarrow> ('a \<times> 'c) option) \<Rightarrow> 'l list \<Rightarrow> 'c \<Rightarrow> ('a list \<times> 'c) option" where
  "run_lines f [] c = Some ([], c)"
| "run_lines f (l # ls) c =
     (case f l c of
        None \<Rightarrow> None
      | Some (a, c') \<Rightarrow> map_option (\<lambda>(as, d). (a # as, d)) (run_lines f ls c'))"

lemma sim_forE:
  assumes "\<And>l. sim P \<alpha> (m l) (f l)"
  shows "sim P \<alpha> (forE ls m) (run_lines f ls)"
proof (induction ls)
  case Nil
  then show ?case by (simp add: sim_def)
next
  case (Cons l ls)
  show ?case
  proof (rule simI)
    fix s as s' assume P: "P s" and run: "forE (l # ls) m s = (Inr as, s')"
    from run obtain a s1 bs where "m l s = (Inr a, s1)" "forE ls m s1 = (Inr bs, s')" "as = a # bs"
      by (auto elim!: bindE_InrE)
    with P assms [of l] Cons show "P s' \<and> run_lines f (l # ls) (\<alpha> s) = Some (as, \<alpha> s')"
      by (fastforce dest: simD)
  qed
qed

lemma sim_map:
  assumes "sim P \<alpha> m f"
  shows "sim P \<alpha> (bindE m (\<lambda>a. returnE (h a))) (\<lambda>c. map_option (\<lambda>(a, d). (h a, d)) (f c))"
  using assms by (intro simI) (fastforce elim!: bindE_InrE dest: simD)

lemma sim_cong: "sim P \<alpha> m f \<Longrightarrow> (\<And>c. f c = g c) \<Longrightarrow> sim P \<alpha> m g"
  by (simp add: sim_def)

text \<open>
  The converse: from a session satisfying \<^verbatim>\<open>Q\<close>, \<^verbatim>\<open>m\<close> returns without an error whenever the
  abstract step does not refuse.
\<close>

definition answers ::
  "(('d, 'x) sess \<Rightarrow> bool) \<Rightarrow> (('d, 'x) sess \<Rightarrow> 'c) \<Rightarrow> ('d, 'x, 'a) tx \<Rightarrow> ('c \<Rightarrow> ('a \<times> 'c) option) \<Rightarrow> bool"
where
  "answers Q \<alpha> m f \<longleftrightarrow> (\<forall>s. Q s \<longrightarrow> f (\<alpha> s) \<noteq> None \<longrightarrow> (\<exists>a s'. m s = (Inr a, s') \<and> Q s'))"

lemma answersD: "answers Q \<alpha> m f \<Longrightarrow> Q s \<Longrightarrow> f (\<alpha> s) = Some x \<Longrightarrow> \<exists>a s'. m s = (Inr a, s') \<and> Q s'"
  by (auto simp: answers_def)

lemma answers_forE:
  assumes "\<And>l. sim P \<alpha> (m l) (f l)" "\<And>l. l \<in> set ls \<Longrightarrow> answers Q \<alpha> (m l) (f l)" "\<And>s. Q s \<Longrightarrow> P s"
  shows "answers Q \<alpha> (forE ls m) (run_lines f ls)"
  using assms(2)
proof (induction ls)
  case Nil
  then show ?case by (simp add: answers_def)
next
  case (Cons l ls)
  show ?case
    unfolding answers_def
  proof (intro allI impI)
    fix s assume Q: "Q s" and "run_lines f (l # ls) (\<alpha> s) \<noteq> None"
    then obtain a c bs d where step: "f l (\<alpha> s) = Some (a, c)" "run_lines f ls c = Some (bs, d)"
      by (auto split: option.splits)
    from answersD [OF Cons.prems Q step(1)] obtain a' s1 where s1: "m l s = (Inr a', s1)" "Q s1" by auto
    with simD [OF assms(1) s1(1)] Q assms(3) step have "run_lines f ls (\<alpha> s1) = Some (bs, d)" by auto
    with Cons s1(2) obtain bs' s2 where "forE ls m s1 = (Inr bs', s2)" "Q s2"
      by (auto simp: answers_def)
    with s1 show "\<exists>as s'. forE (l # ls) m s = (Inr as, s') \<and> Q s'" by simp
  qed
qed

lemma answers_map:
  assumes "answers Q \<alpha> m f"
  shows "answers Q \<alpha> (bindE m (\<lambda>a. returnE (h a))) (\<lambda>c. map_option (\<lambda>(a, d). (h a, d)) (f c))"
  using assms unfolding answers_def by fastforce

text \<open>
  What a caller may rely on when an abstract step is offered as a request that can fail: a
  response is the one the step \<^verbatim>\<open>F\<close> gives and the step happened; after an error the step
  happened entirely or not at all.
\<close>

definition implements :: "('c \<Rightarrow> 'a \<Rightarrow> 'c \<Rightarrow> bool) \<Rightarrow> 'c \<Rightarrow> err + 'a \<Rightarrow> 'c \<Rightarrow> bool" where
  "implements F c r c' \<longleftrightarrow>
     (case r of
        Inr a \<Rightarrow> F c a c'
      | Inl e \<Rightarrow> c' = c \<or> (\<exists>a. F c a c'))"

definition det :: "('c \<Rightarrow> ('a \<times> 'c) option) \<Rightarrow> 'c \<Rightarrow> 'a \<Rightarrow> 'c \<Rightarrow> bool" where
  "det f c a c' \<longleftrightarrow> f c = Some (a, c')"

lemma implements_Inr [simp]: "implements F c (Inr a) c' \<longleftrightarrow> F c a c'"
  by (simp add: implements_def)

lemma implements_Inl [simp]: "implements F c (Inl e) c' \<longleftrightarrow> c' = c \<or> (\<exists>a. F c a c')"
  by (simp add: implements_def)

lemma implements_outcome: "implements F c r c' \<Longrightarrow> c' = c \<or> (\<exists>a. F c a c')"
  by (cases r) auto

lemma implements_catchE:
  assumes "catchE m h s = (r, s')" and "\<And>s r s'. m s = (r, s') \<Longrightarrow> P s \<Longrightarrow> implements F (\<alpha> s) r (\<alpha> s')"
    and "\<And>e s. \<exists>e'. h e s = (Inl e', s)" and "P s"
  shows "implements F (\<alpha> s) r (\<alpha> s')"
proof (cases "m s")
  case (Pair r0 s0)
  show ?thesis
  proof (cases r0)
    case (Inl e)
    obtain e' where "h e s0 = (Inl e', s0)" using assms(3) by blast
    with Inl assms(2) [OF Pair assms(4)] assms(1) Pair show ?thesis by (auto simp: catchE_def)
  next
    case (Inr a)
    with assms(2) [OF Pair assms(4)] assms(1) Pair show ?thesis by (auto simp: catchE_def)
  qed
qed

lemma rpc_Inr: "rpc srv s = (Inr a, s') \<Longrightarrow> srv (ext s) = (Inr a, ext s')"
  by (auto simp: rpc_def Let_def split: option.splits fault.splits prod.splits)

lemma rpc_implements:
  assumes "rpc srv s = (r, s')" and "\<And>r x. srv (ext s) = (r, x) \<Longrightarrow> implements F (\<alpha> (ext s)) r (\<alpha> x)"
  shows "implements F (\<alpha> (ext s)) r (\<alpha> (ext s'))"
proof -
  obtain r0 x where x: "srv (ext s) = (r0, x)" by fastforce
  from assms(2) [OF x] implements_outcome [OF assms(2) [OF x]] assms(1) x show ?thesis
    by (auto simp: rpc_def Let_def split: option.splits fault.splits)
qed

section \<open>Runs in which nothing fails\<close>

definition quiet :: "('d, 'x) sess \<Rightarrow> bool" where
  "quiet s \<longleftrightarrow> (\<forall>i. fault (sched s i) = None)"

lemma stmt_quiet [stmt_simps]:
  "quiet s \<Longrightarrow> stmt f s =
     (case f (sched s (pos s)) (scope s) (data s) of
        Inl er \<Rightarrow> (Inl er, s\<lparr>pos := Suc (pos s)\<rparr>)
      | Inr (a, d) \<Rightarrow> (Inr a, s\<lparr>pos := Suc (pos s), data := d\<rparr>))"
  by (simp add: stmt_def quiet_def Let_def split: sum.splits)

lemma quiet_update [simp]:
  "quiet (s\<lparr>pos := n\<rparr>) = quiet s" "quiet (s\<lparr>data := d\<rparr>) = quiet s"
  "quiet (s\<lparr>scope := sc\<rparr>) = quiet s" "quiet (s\<lparr>ext := x\<rparr>) = quiet s"
  by (simp_all add: quiet_def)

lemma begin_tx_quiet [stmt_simps]: "quiet s \<Longrightarrow> begin_tx s = (Inr (), s\<lparr>pos := Suc (pos s)\<rparr>)"
  by (simp add: begin_tx_def stmt_simps)

lemma SetTenantRLS_quiet [stmt_simps]: "quiet s \<Longrightarrow> SetTenantRLS s = (Inr (), s\<lparr>pos := Suc (pos s)\<rparr>)"
  by (simp add: SetTenantRLS_def stmt_simps)

lemma commit_quiet [stmt_simps]: "quiet s \<Longrightarrow> commit_or_rollback d a s = (Inr a, s\<lparr>pos := Suc (pos s)\<rparr>)"
  by (simp add: commit_or_rollback_def quiet_def)

lemma ExecTx_quiet:
  assumes "quiet s" "ctx_tenant c \<noteq> ''''" "frame sched fn"
  shows "fst (ExecTxWithTenant L c fn s) =
    fst (fn (s\<lparr>scope := Scoped (uuid_scan L (ctx_tenant c)), pos := Suc (Suc (pos s))\<rparr>))"
proof -
  let ?s = "s\<lparr>scope := Scoped (uuid_scan L (ctx_tenant c)), pos := Suc (Suc (pos s))\<rparr>"
  obtain r s' where run: "fn ?s = (r, s')" by fastforce
  have "quiet s'" using frameD [OF assms(3) run] assms(1) by (simp add: quiet_def)
  let ?t = "s\<lparr>pos := Suc (pos s)\<rparr>\<lparr>scope := Scoped (uuid_scan L (ctx_tenant c))\<rparr>"
  have "bindE SetTenantRLS (\<lambda>_. fn) ?t = (r, s')"
    using run assms(1) by (simp add: SetTenantRLS_quiet)
  then have "fst (in_tx (bindE SetTenantRLS (\<lambda>_. fn)) ?t) = r"
    using \<open>quiet s'\<close> by (cases r) (simp_all add: in_tx_def commit_quiet)
  with run assms(1,2) show ?thesis
    by (simp add: ExecTxWithTenant_def TenantIDFromContext_def begin_tx_quiet with_scope_def case_prod_beta)
qed

section \<open>Requests that may be delivered more than once\<close>

text \<open>
  The interface of a service whose requests carry an idempotency key: \<^verbatim>\<open>step\<close> is one delivery
  of a request (with whatever fails on the way), \<^verbatim>\<open>carries\<close> says that the request carries the
  key in question, \<^verbatim>\<open>seen\<close> that the ledger holds it, and \<^verbatim>\<open>eff\<close> is the part of the state the
  requests are about.
\<close>

primrec effects :: "('op \<Rightarrow> 's \<Rightarrow> 's) \<Rightarrow> ('op \<Rightarrow> bool) \<Rightarrow> ('s \<Rightarrow> 'e) \<Rightarrow> 'op list \<Rightarrow> 's \<Rightarrow> nat" where
  "effects step carries eff [] s = 0"
| "effects step carries eff (op # ops) s =
     (if carries op \<and> eff (step op s) \<noteq> eff s then 1 else 0) + effects step carries eff ops (step op s)"

locale retry_safe =
  fixes step :: "'op \<Rightarrow> 's \<Rightarrow> 's"
    and carries :: "'op \<Rightarrow> bool"
    and seen :: "'s \<Rightarrow> bool"
    and eff :: "'s \<Rightarrow> 'e"
  assumes replay: "carries op \<Longrightarrow> seen s \<Longrightarrow> eff (step op s) = eff s"
    and seen_stays: "seen s \<Longrightarrow> seen (step op s)"
    and effect_is_seen: "carries op \<Longrightarrow> eff (step op s) \<noteq> eff s \<Longrightarrow> seen (step op s)"
begin

lemma effects_seen: "seen s \<Longrightarrow> effects step carries eff ops s = 0"
  by (induction ops arbitrary: s) (auto simp: replay seen_stays)

text \<open>However often the key is delivered, and whatever else runs in between, at most one delivery
  has an effect.\<close>

lemma at_most_one_effect: "effects step carries eff ops s \<le> 1"
proof (induction ops arbitrary: s)
  case (Cons op ops)
  then show ?case
    by (cases "carries op \<and> eff (step op s) \<noteq> eff s") (auto simp: effects_seen effect_is_seen)
qed simp

end

end
