(* ===== verification/Ledger.thy ===== *)
theory Ledger
  imports TxLogic
begin

text \<open>
  The two tables every service database has in the same shape: the idempotency ledger
  \<^verbatim>\<open>processed_idempotency_keys\<close> and the transactional \<^verbatim>\<open>outbox\<close>, with the statements
  on them. The services wrap these functions over their own tables.
\<close>

record ProcessedIdempotencyKey =
  ik_tenant :: uuid
  ik_key :: string
  ik_hash :: string
  ik_created :: int

record Outbox =
  ob_id :: uuid
  ob_tenant :: uuid
  ob_aggtype :: string
  ob_aggid :: string
  ob_type :: string
  ob_payload :: json
  ob_created :: int
  ob_trace :: "string option"

section \<open>The idempotency ledger\<close>

definition find_key :: "uuid \<Rightarrow> string \<Rightarrow> ProcessedIdempotencyKey list \<Rightarrow> ProcessedIdempotencyKey option" where
  "find_key t k ks = find (\<lambda>r. ik_tenant r = t \<and> ik_key r = k) ks"

text \<open>
  \<^verbatim>\<open>INSERT ... ON CONFLICT (tenant_id, idempotency_key) DO NOTHING RETURNING idempotency_key\<close>: a
  conflict returns no row.
\<close>

definition insert_key ::
  "uuid \<Rightarrow> string \<Rightarrow> string \<Rightarrow> stmt_env \<Rightarrow> rls \<Rightarrow> ProcessedIdempotencyKey list
    \<Rightarrow> err + string \<times> ProcessedIdempotencyKey list" where
  "insert_key t k h e sc ks =
     (if \<not> (varchar 255 k \<and> varchar 255 h) then Inl value_too_long
      else if \<not> rls_visible sc t then Inl rls_violation
      else (case find_key t k ks of
              Some _ \<Rightarrow> Inl ErrNoRows
            | None \<Rightarrow>
                Inr (k, \<lparr>ik_tenant = t, ik_key = k, ik_hash = h, ik_created = clock e\<rparr> # ks)))"

definition keys_unique :: "ProcessedIdempotencyKey list \<Rightarrow> bool" where
  "keys_unique ks \<longleftrightarrow> distinct (map (\<lambda>r. (ik_tenant r, ik_key r)) ks)"

lemma find_key_Some:
  "find_key t k ks = Some r \<Longrightarrow> r \<in> set ks \<and> ik_tenant r = t \<and> ik_key r = k"
  by (auto simp: find_key_def find_Some_iff)

lemma find_key_None: "find_key t k ks = None \<longleftrightarrow> (\<forall>r \<in> set ks. \<not> (ik_tenant r = t \<and> ik_key r = k))"
  by (auto simp: find_key_def find_None_iff)

lemma find_key_Cons [simp]:
  "find_key t k (r # ks) = (if ik_tenant r = t \<and> ik_key r = k then Some r else find_key t k ks)"
  by (simp add: find_key_def)

lemma insert_key_Inr:
  "insert_key t k h e sc ks = Inr (x, ks') \<Longrightarrow>
     find_key t k ks = None \<and> rls_visible sc t \<and>
     ks' = \<lparr>ik_tenant = t, ik_key = k, ik_hash = h, ik_created = clock e\<rparr> # ks"
  by (auto simp: insert_key_def split: if_splits option.splits)

lemma insert_key_NoRows:
  "insert_key t k h e sc ks = Inl ErrNoRows \<longleftrightarrow>
     varchar 255 k \<and> varchar 255 h \<and> rls_visible sc t \<and> find_key t k ks \<noteq> None"
  by (auto simp: insert_key_def value_too_long_def rls_violation_def split: option.splits)

lemma insert_key_unique: "keys_unique ks \<Longrightarrow> insert_key t k h e sc ks = Inr (x, ks') \<Longrightarrow> keys_unique ks'"
  by (auto simp: keys_unique_def find_key_None dest!: insert_key_Inr)

section \<open>The outbox\<close>

definition insert_outbox ::
  "uuid \<Rightarrow> string \<Rightarrow> string \<Rightarrow> string \<Rightarrow> json \<Rightarrow> string option \<Rightarrow> stmt_env \<Rightarrow> rls \<Rightarrow> Outbox list
    \<Rightarrow> err + Outbox \<times> Outbox list" where
  "insert_outbox t aggtype aggid etype payload trace e sc rows =
     (let r = \<lparr>ob_id = fresh e, ob_tenant = t, ob_aggtype = aggtype, ob_aggid = aggid,
               ob_type = etype, ob_payload = payload, ob_created = clock e, ob_trace = trace\<rparr> in
      if \<not> (varchar 255 aggtype \<and> varchar 255 aggid \<and> varchar 255 etype) then Inl value_too_long
      else if \<not> rls_visible sc t then Inl rls_violation
      else if list_ex (\<lambda>o'. ob_id o' = fresh e) rows then Inl (unique_violation ''outbox_pkey'')
      else Inr (r, rows @ [r]))"

lemma insert_outbox_Inr:
  "insert_outbox t at ai et pl tr e sc rows = Inr (r, rows') \<Longrightarrow>
     rows' = rows @ [r] \<and> ob_tenant r = t \<and> ob_aggtype r = at \<and> ob_aggid r = ai \<and> ob_type r = et
     \<and> ob_payload r = pl \<and> ob_trace r = tr \<and> ob_id r = fresh e \<and> ob_created r = clock e
     \<and> ob_id r \<notin> ob_id ` set rows"
  by (auto simp: insert_outbox_def Let_def list_ex_iff split: if_splits)

lemma insert_pg_err:
  "insert_key t k h e sc ks = Inl er \<Longrightarrow> pg_err er"
  "insert_outbox t at ai et pl tr e sc rows = Inl er \<Longrightarrow> pg_err er"
  by (auto simp: insert_key_def insert_outbox_def Let_def split: if_splits option.splits)

definition outbox_unique :: "Outbox list \<Rightarrow> bool" where
  "outbox_unique rows \<longleftrightarrow> distinct (map ob_id rows)"

lemma insert_outbox_unique:
  "outbox_unique rows \<Longrightarrow> insert_outbox t at ai et pl tr e sc rows = Inr (r, rows') \<Longrightarrow> outbox_unique rows'"
  by (auto simp: outbox_unique_def dest!: insert_outbox_Inr)

section \<open>The interface of a service's ledger\<close>

text \<open>
  How every handler consults the ledger: an empty key is never a duplicate, a conflict
  (\<^verbatim>\<open>err == pgx.ErrNoRows\<close>) says that the key was processed, any other error is returned.
\<close>

definition seen_key ::
  "(uuid \<Rightarrow> string \<Rightarrow> string \<Rightarrow> ('d, 'x, string) tx) \<Rightarrow> uuid \<Rightarrow> string \<Rightarrow> string \<Rightarrow> ('d, 'x, bool) tx" where
  "seen_key check_insert t k h =
     (if k = '''' then returnE False
      else bindE (attempt (check_insert t k h)) (\<lambda>r.
        case r of
          Inl e \<Rightarrow> if e = ErrNoRows then returnE True else failE e
        | Inr _ \<Rightarrow> returnE False))"

lemma keeps_seen_key [keeps_intros]: "keeps P (ci t k h) \<Longrightarrow> keeps P (seen_key ci t k h)"
  unfolding seen_key_def by (intro keeps_intros)

lemma raises_seen_key: "raises E (ci t k h) \<Longrightarrow> raises E (seen_key ci t k h)"
  unfolding seen_key_def raises_def attempt_def
  by (fastforce elim!: bindE_InlE split: if_splits sum.splits prod.splits)

lemma frame_seen_key [frame_intros]: "frame g (ci t k h) \<Longrightarrow> frame g (seen_key ci t k h)"
  unfolding seen_key_def by (intro frame_intros)

text \<open>
  What a service relies on when it puts \<^verbatim>\<open>CheckAndInsertIdempotencyKey\<close> in front of a write: a fresh
  key is recorded and nothing else changes, a known key is reported as \<^verbatim>\<open>ErrNoRows\<close>, and any
  other failure changes nothing.
\<close>

locale idempotency_ledger =
  fixes check_insert :: "uuid \<Rightarrow> string \<Rightarrow> string \<Rightarrow> ('d, 'x, string) tx"
    and ledger :: "'d \<Rightarrow> ProcessedIdempotencyKey list"
    and with_ledger :: "'d \<Rightarrow> ProcessedIdempotencyKey list \<Rightarrow> 'd"
  assumes check_insert_stmt:
    "check_insert t k h = stmt (\<lambda>e sc d.
       case insert_key t k h e sc (ledger d) of
         Inl er \<Rightarrow> Inl er | Inr (x, ks) \<Rightarrow> Inr (x, with_ledger d ks))"
    and ledger_with [simp]: "ledger (with_ledger d ks) = ks"
begin

lemma fresh_key:
  assumes "check_insert t k h s = (Inr x, s')"
  shows "find_key t k (ledger (data s)) = None"
    and "find_key t k (ledger (data s')) \<noteq> None"
    and "\<exists>ks. data s' = with_ledger (data s) ks"
    and "scope s' = scope s" and "ext s' = ext s" and "sched s' = sched s"
  using assms
  by (auto simp: check_insert_stmt elim!: stmt_InrE split: sum.splits dest!: insert_key_Inr)

lemma known_key:
  assumes "check_insert t k h s = (Inl ErrNoRows, s')"
  shows "find_key t k (ledger (data s)) \<noteq> None" and "data s' = data s"
  using assms
  by (auto simp: check_insert_stmt stmt_def Let_def insert_key_NoRows
      split: option.splits sum.splits prod.splits if_splits)

lemma failed_insert:
  "check_insert t k h s = (Inl e, s') \<Longrightarrow> data s' = data s \<and> scope s' = scope s \<and> ext s' = ext s"
  by (auto simp: check_insert_stmt stmt_def Let_def split: option.splits sum.splits prod.splits)

lemma seen_key_Inr:
  assumes "seen_key check_insert t k h s = (Inr dup, s')" "k \<noteq> ''''"
  shows "dup \<longleftrightarrow> find_key t k (ledger (data s)) \<noteq> None" and "find_key t k (ledger (data s')) \<noteq> None"
    and "dup \<Longrightarrow> data s' = data s"
proof -
  from assms obtain r where ins: "check_insert t k h s = (r, s')"
    and r: "r = Inl ErrNoRows \<and> dup \<or> (\<exists>x. r = Inr x) \<and> \<not> dup"
    unfolding seen_key_def by (auto elim!: bindE_InrE simp: attempt_iff split: sum.splits if_splits)
  from r have "(dup \<longleftrightarrow> find_key t k (ledger (data s)) \<noteq> None) \<and> find_key t k (ledger (data s')) \<noteq> None \<and>
      (dup \<longrightarrow> data s' = data s)"
  proof (elim disjE conjE exE)
    assume "r = Inl ErrNoRows" dup
    with ins known_key [of t k h s s'] show ?thesis by simp
  next
    fix x assume "r = Inr x" "\<not> dup"
    with ins fresh_key(1,2) [of t k h s x s'] show ?thesis by simp
  qed
  then show "dup \<longleftrightarrow> find_key t k (ledger (data s)) \<noteq> None" "find_key t k (ledger (data s')) \<noteq> None"
    "dup \<Longrightarrow> data s' = data s" by auto
qed

lemma seen_key_fresh:
  assumes "seen_key check_insert t k h s = (Inr dup, s')" "k = '''' \<or> find_key t k (ledger (data s)) = None"
  shows "\<not> dup" and "data s' = data s \<or> (\<exists>ks. data s' = with_ledger (data s) ks)"
    and "scope s' = scope s" and "ext s' = ext s" and "sched s' = sched s"
proof -
  have "\<not> dup \<and> (data s' = data s \<or> (\<exists>ks. data s' = with_ledger (data s) ks)) \<and>
      scope s' = scope s \<and> ext s' = ext s \<and> sched s' = sched s"
  proof (cases "k = ''''")
    case True
    with assms(1) show ?thesis by (auto simp: seen_key_def)
  next
    case False
    with assms(2) seen_key_Inr(1) [OF assms(1)] have "\<not> dup" by simp
    with assms(1) False obtain x where "check_insert t k h s = (Inr x, s')"
      unfolding seen_key_def by (auto elim!: bindE_InrE simp: attempt_iff split: sum.splits if_splits)
    from fresh_key [OF this] \<open>\<not> dup\<close> show ?thesis by blast
  qed
  then show "\<not> dup" and "data s' = data s \<or> (\<exists>ks. data s' = with_ledger (data s) ks)"
    and "scope s' = scope s" and "ext s' = ext s" and "sched s' = sched s" by auto
qed

lemma keyed_commit:
  assumes "bindE (seen_key check_insert t k h) F s = (Inr a, s')" "k \<noteq> ''''"
    and "frame data (F True)" "keeps (\<lambda>d. find_key t k (ledger d) \<noteq> None) (F False)"
  shows "data s' = data s \<or> find_key t k (ledger (data s')) \<noteq> None \<and> find_key t k (ledger (data s)) = None"
proof -
  from assms(1) obtain dup s1 where run: "seen_key check_insert t k h s = (Inr dup, s1)" "F dup s1 = (Inr a, s')"
    by (elim bindE_InrE)
  note key = seen_key_Inr [OF run(1) assms(2)]
  show ?thesis
  proof (cases dup)
    case True
    with run(2) assms(3) have "data s' = data s1" by (auto dest: frameD)
    with True key(3) show ?thesis by simp
  next
    case False
    with run(2) have "F False s1 = (Inr a, s')" by simp
    from keeps_step [OF assms(4) this key(2)] key(1) False show ?thesis by simp
  qed
qed

text \<open>A transaction that consults the ledger first changes the tables only for a key that is new, and
  then records the key with the change.\<close>

lemma keyed_tx:
  assumes "ExecTxWithTenant L c (bindE (seen_key check_insert t k h) F) s = (r, s')" "k \<noteq> ''''"
    and "frame data (F True)" "keeps (\<lambda>d. find_key t k (ledger d) \<noteq> None) (F False)"
  shows "data s' = data s \<or> find_key t k (ledger (data s')) \<noteq> None \<and> find_key t k (ledger (data s)) = None"
  using ExecTxWithTenant_atomic [OF assms(1)]
proof
  assume "commits (Scoped (uuid_scan L (ctx_tenant c))) (bindE (seen_key check_insert t k h) F) (data s) (data s')"
  then obtain s1 a s2 where "bindE (seen_key check_insert t k h) F s1 = (Inr a, s2)"
    "data s1 = data s" "data s2 = data s'" by (auto simp: commits_def)
  with keyed_commit [OF this(1) assms(2-4)] show ?thesis by simp
qed simp

end

end
