(* ===== verification/StockDB.thy ===== *)
theory StockDB
  imports Ledger
begin

text \<open>
  The stock database: the tables of \<^verbatim>\<open>db/migrations/stock\<close> as a record, and the generated queries
  of \<^verbatim>\<open>gen/go/db/stock/stock.sql.go\<close> as statements on it, with the schema's column widths, primary
  keys, \<^verbatim>\<open>CHECK\<close> constraints and row-level security policies.
\<close>

section \<open>Tables\<close>

record StockLevel =
  lv_available :: int32
  lv_reserved :: int32
  lv_allocated :: int32
  lv_locked :: bool
  lv_updated :: int

record StockEvent =
  ev_id :: uuid
  ev_tenant :: uuid
  ev_sku :: string
  ev_wh :: string
  ev_delta :: int32
  ev_reason :: string
  ev_source :: string
  ev_actor :: string
  ev_created :: int

text \<open>\<^verbatim>\<open>StockLocation\<close>: tenant, SKU, warehouse, the primary key of \<^verbatim>\<open>stock_levels\<close>.\<close>

type_synonym StockLocation = "uuid \<times> string \<times> string"

record stock_db =
  stock_levels :: "StockLocation \<rightharpoonup> StockLevel"
  stock_events :: "StockEvent list"
  stock_outbox :: "Outbox list"
  stock_keys :: "ProcessedIdempotencyKey list"

type_synonym ('x, 'a) stx = "(stock_db, 'x, 'a) tx"

text \<open>The \<^verbatim>\<open>CHECK\<close> constraints of \<^verbatim>\<open>000004_indexes_constraints.up.sql\<close>.\<close>

definition level_check :: "StockLevel \<Rightarrow> bool" where
  "level_check l \<longleftrightarrow> 0 \<le> sint (lv_available l) \<and> 0 \<le> sint (lv_reserved l) \<and> 0 \<le> sint (lv_allocated l)"

definition integer_out_of_range :: err where
  "integer_out_of_range = PgErr ''integer out of range''"

section \<open>Queries\<close>

definition CheckAndInsertIdempotencyKey :: "uuid \<Rightarrow> string \<Rightarrow> string \<Rightarrow> ('x, string) stx" where
  "CheckAndInsertIdempotencyKey t k h = stmt (\<lambda>e sc d.
     case insert_key t k h e sc (stock_keys d) of
       Inl er \<Rightarrow> Inl er
     | Inr (x, ks) \<Rightarrow> Inr (x, d\<lparr>stock_keys := ks\<rparr>))"

definition GetStockLevelForUpdate :: "StockLocation \<Rightarrow> ('x, StockLevel) stx" where
  "GetStockLevelForUpdate loc = stmt (\<lambda>e sc d.
     if rls_visible sc (fst loc)
     then (case stock_levels d loc of None \<Rightarrow> Inl ErrNoRows | Some l \<Rightarrow> Inr (l, d))
     else Inl ErrNoRows)"

definition GetStockLevelAny :: "StockLocation \<Rightarrow> ('x, StockLevel) stx" where
  "GetStockLevelAny loc = stmt (\<lambda>e sc d.
     if rls_visible sc (fst loc)
     then (case stock_levels d loc of None \<Rightarrow> Inl ErrNoRows | Some l \<Rightarrow> Inr (l, d))
     else Inl ErrNoRows)"

definition UpdateStockLevel :: "StockLocation \<Rightarrow> StockLevel \<Rightarrow> ('x, StockLevel) stx" where
  "UpdateStockLevel loc l = stmt (\<lambda>e sc d.
     if \<not> rls_visible sc (fst loc) \<or> stock_levels d loc = None then Inl ErrNoRows
     else if \<not> level_check l then Inl (check_violation ''stock_levels'')
     else Inr (l, d\<lparr>stock_levels := (stock_levels d)(loc \<mapsto> l)\<rparr>))"

text \<open>
  \<^verbatim>\<open>INSERT ... ON CONFLICT DO UPDATE\<close>: PostgreSQL checks the constraints of the proposed row
  before it looks for a conflict, then those of the updated row; the sum in the \<^verbatim>\<open>SET\<close> clause
  fails on overflow.
\<close>

definition UpsertStockLevel :: "StockLocation \<Rightarrow> int32 \<Rightarrow> ('x, StockLevel) stx" where
  "UpsertStockLevel loc q = stmt (\<lambda>e sc d.
     let new = \<lparr>lv_available = q, lv_reserved = 0, lv_allocated = 0, lv_locked = False,
                lv_updated = clock e\<rparr> in
     if \<not> (varchar 255 (fst (snd loc)) \<and> varchar 255 (snd (snd loc))) then Inl value_too_long
     else if \<not> rls_visible sc (fst loc) then Inl rls_violation
     else if \<not> level_check new then Inl (check_violation ''stock_levels'')
     else (case stock_levels d loc of
             None \<Rightarrow> Inr (new, d\<lparr>stock_levels := (stock_levels d)(loc \<mapsto> new)\<rparr>)
           | Some l \<Rightarrow>
               if \<not> in_i32 (sint (lv_available l) + sint q) then Inl integer_out_of_range
               else (let l' = l\<lparr>lv_available := lv_available l + q, lv_updated := clock e\<rparr> in
                     if \<not> level_check l' then Inl (check_violation ''stock_levels'')
                     else Inr (l', d\<lparr>stock_levels := (stock_levels d)(loc \<mapsto> l')\<rparr>))))"

definition SetAuditLock :: "StockLocation \<Rightarrow> bool \<Rightarrow> ('x, unit) stx" where
  "SetAuditLock loc b = stmt (\<lambda>e sc d.
     if rls_visible sc (fst loc)
     then (case stock_levels d loc of
             None \<Rightarrow> Inr ((), d)
           | Some l \<Rightarrow> Inr ((), d\<lparr>stock_levels :=
               (stock_levels d)(loc \<mapsto> l\<lparr>lv_locked := b, lv_updated := clock e\<rparr>)\<rparr>))
     else Inr ((), d))"

definition InsertStockEvent ::
  "StockLocation \<Rightarrow> int32 \<Rightarrow> string \<Rightarrow> string \<Rightarrow> string \<Rightarrow> ('x, StockEvent) stx" where
  "InsertStockEvent loc delta reason src actor = stmt (\<lambda>e sc d.
     let r = \<lparr>ev_id = fresh e, ev_tenant = fst loc, ev_sku = fst (snd loc), ev_wh = snd (snd loc),
              ev_delta = delta, ev_reason = reason, ev_source = src, ev_actor = actor,
              ev_created = clock e\<rparr> in
     if \<not> (varchar 255 (ev_sku r) \<and> varchar 255 (ev_wh r) \<and> varchar 255 reason \<and> varchar 255 src
           \<and> varchar 255 actor) then Inl value_too_long
     else if \<not> rls_visible sc (fst loc) then Inl rls_violation
     else if list_ex (\<lambda>x. ev_id x = fresh e) (stock_events d)
       then Inl (unique_violation ''stock_events_pkey'')
     else Inr (r, d\<lparr>stock_events := stock_events d @ [r]\<rparr>))"

definition InsertOutboxEvent ::
  "uuid \<Rightarrow> string \<Rightarrow> string \<Rightarrow> string \<Rightarrow> json \<Rightarrow> string option \<Rightarrow> ('x, Outbox) stx" where
  "InsertOutboxEvent t aggtype aggid etype payload trace = stmt (\<lambda>e sc d.
     case insert_outbox t aggtype aggid etype payload trace e sc (stock_outbox d) of
       Inl er \<Rightarrow> Inl er
     | Inr (r, rows) \<Rightarrow> Inr (r, d\<lparr>stock_outbox := rows\<rparr>))"

text \<open>\<^verbatim>\<open>SELECT DISTINCT\<close> leaves the order open; the model takes the order of last occurrence.\<close>

definition event_loc :: "StockEvent \<Rightarrow> StockLocation" where
  "event_loc r = (ev_tenant r, ev_sku r, ev_wh r)"

definition ListDistinctEventLocations :: "('x, StockLocation list) stx" where
  "ListDistinctEventLocations = stmt (\<lambda>e sc d.
     Inr (remdups (map event_loc (filter (\<lambda>r. rls_visible sc (ev_tenant r)) (stock_events d))), d))"

text \<open>\<^verbatim>\<open>GROUP BY reason\<close> with the exact sum of each group, cast to \<^verbatim>\<open>BIGINT\<close>.\<close>

definition events_at :: "StockLocation \<Rightarrow> StockEvent list \<Rightarrow> StockEvent list" where
  "events_at loc evs = filter (\<lambda>r. event_loc r = loc) evs"

definition reason_total :: "string \<Rightarrow> StockEvent list \<Rightarrow> int" where
  "reason_total rsn evs = sum_list (map (sint \<circ> ev_delta) (filter (\<lambda>r. ev_reason r = rsn) evs))"

definition SumDeltasByReason :: "StockLocation \<Rightarrow> ('x, (string \<times> int64) list) stx" where
  "SumDeltasByReason loc = stmt (\<lambda>e sc d.
     let evs = (if rls_visible sc (fst loc) then events_at loc (stock_events d) else []);
         groups = map (\<lambda>rsn. (rsn, reason_total rsn evs)) (remdups (map ev_reason evs)) in
     if list_all (in_i64 \<circ> snd) groups
     then Inr (map (\<lambda>(rsn, n). (rsn, word_of_int n)) groups, d)
     else Inl (PgErr ''bigint out of range''))"

section \<open>The ledger of the stock database\<close>

interpretation stock_ledger: idempotency_ledger
  CheckAndInsertIdempotencyKey stock_keys "\<lambda>d ks. d\<lparr>stock_keys := ks\<rparr>"
  by unfold_locales (simp_all add: CheckAndInsertIdempotencyKey_def)

section \<open>The rows of the stock database satisfy the schema\<close>

definition stock_schema :: "stock_db \<Rightarrow> bool" where
  "stock_schema d \<longleftrightarrow>
     (\<forall>loc l. stock_levels d loc = Some l \<longrightarrow> level_check l) \<and>
     keys_unique (stock_keys d) \<and> outbox_unique (stock_outbox d) \<and>
     distinct (map ev_id (stock_events d))"

lemma stock_schema_level: "stock_schema d \<Longrightarrow> stock_levels d loc = Some l \<Longrightarrow> level_check l"
  unfolding stock_schema_def by blast

lemma keeps_stock_queries [keeps_intros]:
  "keeps stock_schema (CheckAndInsertIdempotencyKey t k h)"
  "keeps stock_schema (GetStockLevelForUpdate loc)"
  "keeps stock_schema (GetStockLevelAny loc)"
  "keeps stock_schema (UpdateStockLevel loc l)"
  "keeps stock_schema (UpsertStockLevel loc q)"
  "keeps stock_schema (SetAuditLock loc b)"
  "keeps stock_schema (InsertStockEvent loc dl rs src ac)"
  "keeps stock_schema (InsertOutboxEvent t at ai et pl tr)"
  "keeps stock_schema ListDistinctEventLocations"
  "keeps stock_schema (SumDeltasByReason loc)"
proof -
  show "keeps stock_schema (CheckAndInsertIdempotencyKey t k h)"
    unfolding CheckAndInsertIdempotencyKey_def
    by (rule keeps_stmt) (auto simp: stock_schema_def split: sum.splits dest: insert_key_unique)
  show "keeps stock_schema (UpsertStockLevel loc q)"
    unfolding UpsertStockLevel_def
    by (rule keeps_stmt)
      (auto simp: stock_schema_def Let_def split: if_splits option.splits)
  show "keeps stock_schema (UpdateStockLevel loc l)"
    unfolding UpdateStockLevel_def
    by (rule keeps_stmt) (auto simp: stock_schema_def split: if_splits)
  show "keeps stock_schema (SetAuditLock loc b)"
    unfolding SetAuditLock_def
    by (rule keeps_stmt)
      (auto simp: stock_schema_def level_check_def split: if_splits option.splits)
  show "keeps stock_schema (InsertStockEvent loc dl rs src ac)"
    unfolding InsertStockEvent_def
    by (rule keeps_stmt) (auto simp: stock_schema_def Let_def list_ex_iff split: if_splits)
  show "keeps stock_schema (InsertOutboxEvent t at ai et pl tr)"
    unfolding InsertOutboxEvent_def
    by (rule keeps_stmt) (auto simp: stock_schema_def split: sum.splits dest: insert_outbox_unique)
qed (auto simp: GetStockLevelForUpdate_def GetStockLevelAny_def ListDistinctEventLocations_def
      SumDeltasByReason_def Let_def intro!: keeps_stmt split: if_splits option.splits)

lemma frame_stock_queries [frame_intros]:
  assumes "aside g"
  shows "frame g (CheckAndInsertIdempotencyKey t k h)"
    "frame g (GetStockLevelForUpdate loc)"
    "frame g (GetStockLevelAny loc)"
    "frame g (UpdateStockLevel loc l)"
    "frame g (UpsertStockLevel loc q)"
    "frame g (SetAuditLock loc b)"
    "frame g (InsertStockEvent loc dl rs src ac)"
    "frame g (InsertOutboxEvent t at ai et pl tr)"
    "frame g ListDistinctEventLocations"
    "frame g (SumDeltasByReason loc)"
  unfolding CheckAndInsertIdempotencyKey_def GetStockLevelForUpdate_def GetStockLevelAny_def
    UpdateStockLevel_def UpsertStockLevel_def SetAuditLock_def InsertStockEvent_def
    InsertOutboxEvent_def ListDistinctEventLocations_def SumDeltasByReason_def
  by (intro frame_stmt assms)+

end
