(* ===== verification/StockService.thy ===== *)
theory StockService
  imports StockDB
begin

text \<open>
  \<^verbatim>\<open>internal/stockservice\<close>: the six handlers of \<^verbatim>\<open>stock.v1.StockService\<close> (\<^verbatim>\<open>stock.go\<close>) and their
  helpers (\<^verbatim>\<open>helpers.go\<close>). Each handler is one transaction; the body of each per-line loop is a
  definition of its own.
\<close>

section \<open>Helpers\<close>

definition tryIdempotency :: "lib \<Rightarrow> uuid \<Rightarrow> string \<Rightarrow> proto_message \<Rightarrow> ('x, bool) stx" where
  "tryIdempotency L tenantID key msg =
     (if key = '''' then returnE False
      else bindE (attempt (CheckAndInsertIdempotencyKey tenantID key (PayloadHash L msg))) (\<lambda>r.
        case r of
          Inl e \<Rightarrow> if e = ErrNoRows then returnE True else failE e
        | Inr _ \<Rightarrow> returnE False))"

definition sortedLines :: "StockLine list \<Rightarrow> StockLine list" where
  "sortedLines ls = sort_key (\<lambda>l. (sl_sku l, sl_wh l)) ls"

definition marshalLineEvent :: "string \<Rightarrow> string \<Rightarrow> StockLine \<Rightarrow> json" where
  "marshalLineEvent action orderID l = JObj
     [(''action'', JStr action), (''order_id'', JStr orderID), (''quantity'', JInt (sint (sl_qty l))),
      (''sku_id'', JStr (sl_sku l)), (''warehouse_id'', JStr (sl_wh l))]"

definition marshalAdjustEvent :: "AdjustStockRequest \<Rightarrow> int32 \<Rightarrow> json" where
  "marshalAdjustEvent req newAvailable = JObj
     [(''available_qty'', JInt (sint newAvailable)), (''quantity_delta'', JInt (sint (adj_delta req))),
      (''reason'', JStr (adj_reason req)), (''sku_id'', JStr (adj_sku req)),
      (''source'', JStr (adj_source req)), (''warehouse_id'', JStr (adj_wh req))]"

definition aggregate_id :: "uuid \<Rightarrow> string \<Rightarrow> string" where
  "aggregate_id t sku = t @ '':'' @ sku"

definition internal_error :: "string \<Rightarrow> err \<Rightarrow> ('d, 'x, 'a) tx" where
  "internal_error what e = failE (StatusErr Internal (what @ err_text e))"

definition invalid_argument :: "string \<Rightarrow> ('d, 'x, 'a) tx" where
  "invalid_argument m = failE (StatusErr InvalidArgument m)"

section \<open>AdjustStock\<close>

text \<open>What follows the upsert: clamp, write back, log, publish.\<close>

definition adjust_apply :: "ctx \<Rightarrow> uuid \<Rightarrow> AdjustStockRequest \<Rightarrow> StockLevel \<Rightarrow> ('x, AdjustStockResponse) stx" where
  "adjust_apply c t req level =
     (let loc = (t, adj_sku req, adj_wh req);
          clamped = (sint (lv_available level) < 0);
          newAvailable = (if clamped then 0 else lv_available level) in
      bindE (UpdateStockLevel loc (level\<lparr>lv_available := newAvailable\<rparr>)) (\<lambda>_.
      bindE (InsertStockEvent loc (adj_delta req) (adj_reason req) (adj_source req) ''system'') (\<lambda>event.
      bindE (InsertOutboxEvent t ''stock'' (aggregate_id t (adj_sku req)) ''stock.adjusted''
               (marshalAdjustEvent req newAvailable) (TraceparentText c)) (\<lambda>_.
      let resp = \<lparr>adjr_success = True, adjr_available = newAvailable,
                  adjr_reserved = lv_reserved level, adjr_allocated = lv_allocated level,
                  adjr_clamped = clamped, adjr_event = ev_id event\<rparr> in
      if clamped
      then bindE (InsertOutboxEvent t ''stock'' (aggregate_id t (adj_sku req)) ''stock.deficit_alert''
             (JObj [(''delta'', JInt (sint (adj_delta req))), (''reason'', JStr (adj_reason req)),
                    (''sku_id'', JStr (adj_sku req)), (''source'', JStr (adj_source req)),
                    (''warehouse_id'', JStr (adj_wh req))])
             (TraceparentText c)) (\<lambda>_. returnE resp)
      else returnE resp))))"

definition adjust_write :: "ctx \<Rightarrow> uuid \<Rightarrow> AdjustStockRequest \<Rightarrow> ('x, AdjustStockResponse) stx" where
  "adjust_write c t req =
     bindE (UpsertStockLevel (t, adj_sku req, adj_wh req) (adj_delta req)) (\<lambda>_.
     bindE (GetStockLevelForUpdate (t, adj_sku req, adj_wh req)) (\<lambda>level.
     adjust_apply c t req level))"

definition adjust_body :: "lib \<Rightarrow> ctx \<Rightarrow> uuid \<Rightarrow> AdjustStockRequest \<Rightarrow> ('x, AdjustStockResponse) stx" where
  "adjust_body L c t req =
     bindE (tryIdempotency L t (adj_key req) (M_AdjustStock req)) (\<lambda>dup.
     if dup
     then bindE (GetStockLevelForUpdate (t, adj_sku req, adj_wh req)) (\<lambda>level.
       returnE \<lparr>adjr_success = True, adjr_available = lv_available level,
                adjr_reserved = lv_reserved level, adjr_allocated = lv_allocated level,
                adjr_clamped = (lv_available level = 0), adjr_event = ''''\<rparr>)
     else adjust_write c t req)"

definition AdjustStock :: "lib \<Rightarrow> ctx \<Rightarrow> AdjustStockRequest \<Rightarrow> ('x, AdjustStockResponse) stx" where
  "AdjustStock L c req =
     (case ParseUUID L (adj_tenant req) of
        Inl e \<Rightarrow> invalid_argument (err_text e)
      | Inr t \<Rightarrow>
          (let c' = WithTenantID c (adj_tenant req) in
           catchE (ExecTxWithTenant L c' (adjust_body L c' t req)) (internal_error ''adjust stock: '')))"

section \<open>ReserveStock\<close>

text \<open>One iteration of the loop: the SKU when it cannot be reserved.\<close>

definition reserve_line :: "ctx \<Rightarrow> uuid \<Rightarrow> string \<Rightarrow> StockLine \<Rightarrow> ('x, string list) stx" where
  "reserve_line c t orderID l =
     (let loc = (t, sl_sku l, sl_wh l) in
      bindE (attempt (GetStockLevelForUpdate loc)) (\<lambda>r.
      case r of
        Inl e \<Rightarrow> if e = ErrNoRows then returnE [sl_sku l] else failE e
      | Inr level \<Rightarrow>
          if lv_locked level \<or> sint (lv_available level) < sint (sl_qty l)
          then returnE [sl_sku l]
          else
            bindE (UpdateStockLevel loc (level\<lparr>lv_available := lv_available level - sl_qty l,
                     lv_reserved := lv_reserved level + sl_qty l\<rparr>)) (\<lambda>_.
            bindE (InsertStockEvent loc (- sl_qty l) ''reserve'' ''reservation'' orderID) (\<lambda>_.
            bindE (InsertOutboxEvent t ''stock'' (aggregate_id t (sl_sku l)) ''stock.reserved''
                     (marshalLineEvent ''reserve'' orderID l) (TraceparentText c)) (\<lambda>_.
            returnE [])))))"

definition reserve_body :: "lib \<Rightarrow> ctx \<Rightarrow> uuid \<Rightarrow> ReserveStockRequest \<Rightarrow> ('x, ReserveStockResponse) stx" where
  "reserve_body L c t req =
     bindE (tryIdempotency L t (rsv_key req) (M_ReserveStock req)) (\<lambda>dup.
     if dup then returnE \<lparr>rsvr_success = True, rsvr_failed = []\<rparr>
     else
       bindE (forE (sortedLines (rsv_lines req)) (reserve_line c t (rsv_order req))) (\<lambda>fs.
       let failed = concat fs in
       if failed \<noteq> [] then failE (InsufficientStock failed)
       else returnE \<lparr>rsvr_success = True, rsvr_failed = []\<rparr>))"

definition ReserveStock :: "lib \<Rightarrow> ctx \<Rightarrow> ReserveStockRequest \<Rightarrow> ('x, ReserveStockResponse) stx" where
  "ReserveStock L c req =
     (case ParseUUID L (rsv_tenant req) of
        Inl e \<Rightarrow> invalid_argument (err_text e)
      | Inr t \<Rightarrow>
          (let c' = WithTenantID c (rsv_tenant req) in
           if sortedLines (rsv_lines req) = [] then invalid_argument ''no lines provided''
           else catchE (ExecTxWithTenant L c' (reserve_body L c' t req)) (\<lambda>e.
             case e of
               InsufficientStock failed \<Rightarrow> returnE \<lparr>rsvr_success = False, rsvr_failed = failed\<rparr>
             | _ \<Rightarrow> internal_error ''reserve stock: '' e)))"

section \<open>ReleaseStock\<close>

definition release_line :: "ctx \<Rightarrow> uuid \<Rightarrow> string \<Rightarrow> string \<Rightarrow> StockLine \<Rightarrow> ('x, string list) stx" where
  "release_line c t orderID reason l =
     (let loc = (t, sl_sku l, sl_wh l) in
      bindE (attempt (GetStockLevelForUpdate loc)) (\<lambda>r.
      case r of
        Inl e \<Rightarrow> if e = ErrNoRows then returnE [] else failE e
      | Inr level \<Rightarrow>
          bindE (UpdateStockLevel loc (level\<lparr>lv_available := lv_available level + sl_qty l,
                   lv_reserved := lv_reserved level - sl_qty l\<rparr>)) (\<lambda>_.
          bindE (InsertStockEvent loc (sl_qty l) reason ''reservation'' orderID) (\<lambda>_.
          bindE (InsertOutboxEvent t ''stock'' (aggregate_id t (sl_sku l)) ''stock.released''
                   (marshalLineEvent ''release'' orderID l) (TraceparentText c)) (\<lambda>_.
          returnE [sl_sku l])))))"

definition release_body :: "lib \<Rightarrow> ctx \<Rightarrow> uuid \<Rightarrow> ReleaseStockRequest \<Rightarrow> ('x, ReleaseStockResponse) stx" where
  "release_body L c t req =
     bindE (tryIdempotency L t (rls_key req) (M_ReleaseStock req)) (\<lambda>dup.
     if dup then returnE \<lparr>rlsr_success = True, rlsr_released = []\<rparr>
     else
       bindE (forE (sortedLines (rls_lines req)) (release_line c t (rls_order req) (rls_reason req))) (\<lambda>rs.
       returnE \<lparr>rlsr_success = True, rlsr_released = concat rs\<rparr>))"

definition ReleaseStock :: "lib \<Rightarrow> ctx \<Rightarrow> ReleaseStockRequest \<Rightarrow> ('x, ReleaseStockResponse) stx" where
  "ReleaseStock L c req =
     (case ParseUUID L (rls_tenant req) of
        Inl e \<Rightarrow> invalid_argument (err_text e)
      | Inr t \<Rightarrow>
          (let c' = WithTenantID c (rls_tenant req) in
           catchE (ExecTxWithTenant L c' (release_body L c' t req)) (internal_error ''release stock: '')))"

section \<open>ConfirmStockAllocation\<close>

definition confirm_line :: "ctx \<Rightarrow> uuid \<Rightarrow> string \<Rightarrow> StockLine \<Rightarrow> ('x, StockAllocationLine) stx" where
  "confirm_line c t orderID l =
     (let loc = (t, sl_sku l, sl_wh l) in
      bindE (GetStockLevelForUpdate loc) (\<lambda>level.
      bindE (UpdateStockLevel loc (level\<lparr>lv_reserved := lv_reserved level - sl_qty l,
               lv_allocated := lv_allocated level + sl_qty l\<rparr>)) (\<lambda>_.
      bindE (InsertStockEvent loc (sl_qty l) ''allocate'' ''reservation'' ''system'') (\<lambda>_.
      bindE (InsertOutboxEvent t ''stock'' (aggregate_id t (sl_sku l)) ''stock.allocated''
               (marshalLineEvent ''allocate'' orderID l) (TraceparentText c)) (\<lambda>_.
      returnE \<lparr>al_sku = sl_sku l, al_wh = sl_wh l, al_allocated = sl_qty l\<rparr>)))))"

definition confirm_body ::
  "lib \<Rightarrow> ctx \<Rightarrow> uuid \<Rightarrow> ConfirmStockAllocationRequest \<Rightarrow> ('x, ConfirmStockAllocationResponse) stx" where
  "confirm_body L c t req =
     bindE (tryIdempotency L t (cnf_key req) (M_ConfirmStockAllocation req)) (\<lambda>dup.
     if dup then returnE \<lparr>cnfr_success = True, cnfr_lines = []\<rparr>
     else
       bindE (forE (sortedLines (cnf_lines req)) (confirm_line c t (cnf_order req))) (\<lambda>out.
       returnE \<lparr>cnfr_success = True, cnfr_lines = out\<rparr>))"

definition ConfirmStockAllocation ::
  "lib \<Rightarrow> ctx \<Rightarrow> ConfirmStockAllocationRequest \<Rightarrow> ('x, ConfirmStockAllocationResponse) stx" where
  "ConfirmStockAllocation L c req =
     (case ParseUUID L (cnf_tenant req) of
        Inl e \<Rightarrow> invalid_argument (err_text e)
      | Inr t \<Rightarrow>
          (let c' = WithTenantID c (cnf_tenant req) in
           catchE (ExecTxWithTenant L c' (confirm_body L c' t req))
             (internal_error ''confirm allocation: '')))"

section \<open>FulfillStock\<close>

definition fulfill_line :: "ctx \<Rightarrow> uuid \<Rightarrow> string \<Rightarrow> StockLine \<Rightarrow> ('x, FulfillStockLine) stx" where
  "fulfill_line c t orderID l =
     (let loc = (t, sl_sku l, sl_wh l) in
      bindE (GetStockLevelForUpdate loc) (\<lambda>level.
      bindE (UpdateStockLevel loc (level\<lparr>lv_allocated := lv_allocated level - sl_qty l\<rparr>)) (\<lambda>_.
      bindE (InsertStockEvent loc (sl_qty l) ''fulfill'' ''fulfillment'' ''system'') (\<lambda>_.
      bindE (InsertOutboxEvent t ''stock'' (aggregate_id t (sl_sku l)) ''stock.fulfilled''
               (marshalLineEvent ''fulfill'' orderID l) (TraceparentText c)) (\<lambda>_.
      returnE \<lparr>fl_sku = sl_sku l, fl_wh = sl_wh l,
               fl_remaining = lv_allocated level - sl_qty l\<rparr>)))))"

definition fulfill_body :: "lib \<Rightarrow> ctx \<Rightarrow> uuid \<Rightarrow> FulfillStockRequest \<Rightarrow> ('x, FulfillStockResponse) stx" where
  "fulfill_body L c t req =
     bindE (tryIdempotency L t (ful_key req) (M_FulfillStock req)) (\<lambda>dup.
     if dup then returnE \<lparr>fulr_success = True, fulr_lines = []\<rparr>
     else
       bindE (forE (sortedLines (ful_lines req)) (fulfill_line c t (ful_order req))) (\<lambda>out.
       returnE \<lparr>fulr_success = True, fulr_lines = out\<rparr>))"

definition FulfillStock :: "lib \<Rightarrow> ctx \<Rightarrow> FulfillStockRequest \<Rightarrow> ('x, FulfillStockResponse) stx" where
  "FulfillStock L c req =
     (case ParseUUID L (ful_tenant req) of
        Inl e \<Rightarrow> invalid_argument (err_text e)
      | Inr t \<Rightarrow>
          (let c' = WithTenantID c (ful_tenant req) in
           catchE (ExecTxWithTenant L c' (fulfill_body L c' t req)) (internal_error ''fulfill stock: '')))"

section \<open>UnlockStockForAudit\<close>

definition unlock_body :: "uuid \<Rightarrow> UnlockStockForAuditRequest \<Rightarrow> ('x, UnlockStockForAuditResponse) stx" where
  "unlock_body t req =
     (let loc = (t, unl_sku req, unl_wh req) in
      bindE (attempt (GetStockLevelForUpdate loc)) (\<lambda>r.
      case r of
        Inl e \<Rightarrow>
          if e = ErrNoRows then returnE \<lparr>unlr_success = False, unlr_unlocked = False\<rparr> else failE e
      | Inr _ \<Rightarrow>
          bindE (SetAuditLock loc False) (\<lambda>_.
          let actor = (if unl_actor req = '''' then ''warehouse-manager'' else unl_actor req) in
          bindE (InsertStockEvent loc 0 (unl_reason req) ''reconciliation'' actor) (\<lambda>_.
          returnE \<lparr>unlr_success = True, unlr_unlocked = True\<rparr>))))"

definition UnlockStockForAudit ::
  "lib \<Rightarrow> ctx \<Rightarrow> UnlockStockForAuditRequest \<Rightarrow> ('x, UnlockStockForAuditResponse) stx" where
  "UnlockStockForAudit L c req =
     (case ParseUUID L (unl_tenant req) of
        Inl e \<Rightarrow> invalid_argument (err_text e)
      | Inr t \<Rightarrow>
          (let c' = WithTenantID c (unl_tenant req) in
           catchE (ExecTxWithTenant L c' (unlock_body t req)) (internal_error ''unlock for audit: '')))"

section \<open>The service\<close>

datatype stock_call =
    CallAdjustStock AdjustStockRequest
  | CallReserveStock ReserveStockRequest
  | CallReleaseStock ReleaseStockRequest
  | CallConfirmStockAllocation ConfirmStockAllocationRequest
  | CallFulfillStock FulfillStockRequest
  | CallUnlockStockForAudit UnlockStockForAuditRequest

datatype stock_reply =
    ReplyAdjustStock AdjustStockResponse
  | ReplyReserveStock ReserveStockResponse
  | ReplyReleaseStock ReleaseStockResponse
  | ReplyConfirmStockAllocation ConfirmStockAllocationResponse
  | ReplyFulfillStock FulfillStockResponse
  | ReplyUnlockStockForAudit UnlockStockForAuditResponse

fun stock_serve :: "lib \<Rightarrow> ctx \<Rightarrow> stock_call \<Rightarrow> ('x, stock_reply) stx" where
  "stock_serve L c (CallAdjustStock req) = bindE (AdjustStock L c req) (\<lambda>r. returnE (ReplyAdjustStock r))"
| "stock_serve L c (CallReserveStock req) = bindE (ReserveStock L c req) (\<lambda>r. returnE (ReplyReserveStock r))"
| "stock_serve L c (CallReleaseStock req) = bindE (ReleaseStock L c req) (\<lambda>r. returnE (ReplyReleaseStock r))"
| "stock_serve L c (CallConfirmStockAllocation req) =
     bindE (ConfirmStockAllocation L c req) (\<lambda>r. returnE (ReplyConfirmStockAllocation r))"
| "stock_serve L c (CallFulfillStock req) = bindE (FulfillStock L c req) (\<lambda>r. returnE (ReplyFulfillStock r))"
| "stock_serve L c (CallUnlockStockForAudit req) =
     bindE (UnlockStockForAudit L c req) (\<lambda>r. returnE (ReplyUnlockStockForAudit r))"

end
