(* ===== verification/StockSpec.thy ===== *)
theory StockSpec
  imports StockService
begin

text \<open>
  The abstract specification of the stock service: buckets are integers, a request either is
  refused (\<^verbatim>\<open>None\<close>) or takes the inventory to its next state with a response; there are no
  statements, transactions, faults, identifiers or clocks. \<^verbatim>\<open>inventory_of\<close> is the abstraction of the
  tables; \<^verbatim>\<open>StockRefine\<close> shows that the handlers implement this specification.
\<close>

section \<open>Inventory\<close>

record bucket =
  bk_available :: int
  bk_reserved :: int
  bk_allocated :: int
  bk_locked :: bool

record movement =
  mv_loc :: StockLocation
  mv_delta :: int
  mv_reason :: string
  mv_source :: string
  mv_actor :: string

record notice =
  nt_tenant :: uuid
  nt_aggid :: string
  nt_type :: string
  nt_payload :: json
  nt_trace :: "string option"

record inventory =
  inv_levels :: "StockLocation \<rightharpoonup> bucket"
  inv_log :: "movement list"
  inv_out :: "notice list"
  inv_keys :: "(uuid \<times> string) set"

definition bucket_of :: "StockLevel \<Rightarrow> bucket" where
  "bucket_of l = \<lparr>bk_available = sint (lv_available l), bk_reserved = sint (lv_reserved l),
     bk_allocated = sint (lv_allocated l), bk_locked = lv_locked l\<rparr>"

definition movement_of :: "StockEvent \<Rightarrow> movement" where
  "movement_of e = \<lparr>mv_loc = event_loc e, mv_delta = sint (ev_delta e), mv_reason = ev_reason e,
     mv_source = ev_source e, mv_actor = ev_actor e\<rparr>"

definition notice_of :: "Outbox \<Rightarrow> notice" where
  "notice_of r = \<lparr>nt_tenant = ob_tenant r, nt_aggid = ob_aggid r, nt_type = ob_type r,
     nt_payload = ob_payload r, nt_trace = ob_trace r\<rparr>"

definition inventory_of :: "stock_db \<Rightarrow> inventory" where
  "inventory_of d = \<lparr>inv_levels = map_option bucket_of \<circ> stock_levels d,
     inv_log = map movement_of (stock_events d), inv_out = map notice_of (stock_outbox d),
     inv_keys = (\<lambda>r. (ik_tenant r, ik_key r)) ` set (stock_keys d)\<rparr>"

definition bucket_ok :: "bucket \<Rightarrow> bool" where
  "bucket_ok b \<longleftrightarrow> (\<forall>x \<in> {bk_available b, bk_reserved b, bk_allocated b}. 0 \<le> x \<and> x < 2147483648)"

definition bucket_total :: "bucket \<Rightarrow> int" where
  "bucket_total b = bk_available b + bk_reserved b + bk_allocated b"

section \<open>Moving units between buckets\<close>

datatype move = MoveReserve | MoveRelease string | MoveAllocate | MoveFulfill

primrec move_bucket :: "move \<Rightarrow> int \<Rightarrow> bucket \<Rightarrow> bucket" where
  "move_bucket MoveReserve q b = b\<lparr>bk_available := bk_available b - q, bk_reserved := bk_reserved b + q\<rparr>"
| "move_bucket (MoveRelease rsn) q b = b\<lparr>bk_available := bk_available b + q, bk_reserved := bk_reserved b - q\<rparr>"
| "move_bucket MoveAllocate q b = b\<lparr>bk_reserved := bk_reserved b - q, bk_allocated := bk_allocated b + q\<rparr>"
| "move_bucket MoveFulfill q b = b\<lparr>bk_allocated := bk_allocated b - q\<rparr>"

text \<open>The movement a line leaves in the event log and the notice it leaves in the outbox.\<close>

primrec move_delta :: "move \<Rightarrow> int32 \<Rightarrow> int32" where
  "move_delta MoveReserve q = - q"
| "move_delta (MoveRelease rsn) q = q"
| "move_delta MoveAllocate q = q"
| "move_delta MoveFulfill q = q"

primrec move_reason :: "move \<Rightarrow> string" where
  "move_reason MoveReserve = ''reserve''"
| "move_reason (MoveRelease rsn) = rsn"
| "move_reason MoveAllocate = ''allocate''"
| "move_reason MoveFulfill = ''fulfill''"

primrec move_source :: "move \<Rightarrow> string" where
  "move_source MoveReserve = ''reservation''"
| "move_source (MoveRelease rsn) = ''reservation''"
| "move_source MoveAllocate = ''reservation''"
| "move_source MoveFulfill = ''fulfillment''"

primrec move_actor :: "move \<Rightarrow> string \<Rightarrow> string" where
  "move_actor MoveReserve ord = ord"
| "move_actor (MoveRelease rsn) ord = ord"
| "move_actor MoveAllocate ord = ''system''"
| "move_actor MoveFulfill ord = ''system''"

primrec move_type :: "move \<Rightarrow> string" where
  "move_type MoveReserve = ''stock.reserved''"
| "move_type (MoveRelease rsn) = ''stock.released''"
| "move_type MoveAllocate = ''stock.allocated''"
| "move_type MoveFulfill = ''stock.fulfilled''"

primrec move_action :: "move \<Rightarrow> string" where
  "move_action MoveReserve = ''reserve''"
| "move_action (MoveRelease rsn) = ''release''"
| "move_action MoveAllocate = ''allocate''"
| "move_action MoveFulfill = ''fulfill''"

abbreviation line_loc :: "uuid \<Rightarrow> StockLine \<Rightarrow> StockLocation" where
  "line_loc t l \<equiv> (t, sl_sku l, sl_wh l)"

definition move_movement :: "move \<Rightarrow> uuid \<Rightarrow> string \<Rightarrow> StockLine \<Rightarrow> movement" where
  "move_movement k t ord l = \<lparr>mv_loc = line_loc t l, mv_delta = sint (move_delta k (sl_qty l)),
     mv_reason = move_reason k, mv_source = move_source k, mv_actor = move_actor k ord\<rparr>"

definition move_notice :: "move \<Rightarrow> ctx \<Rightarrow> uuid \<Rightarrow> string \<Rightarrow> StockLine \<Rightarrow> notice" where
  "move_notice k c t ord l = \<lparr>nt_tenant = t, nt_aggid = aggregate_id t (sl_sku l), nt_type = move_type k,
     nt_payload = marshalLineEvent (move_action k) ord l, nt_trace = TraceparentText c\<rparr>"

text \<open>One line: refused when the location is unknown or a bucket would leave its range.\<close>

definition spec_move :: "move \<Rightarrow> ctx \<Rightarrow> uuid \<Rightarrow> string \<Rightarrow> StockLine \<Rightarrow> inventory \<Rightarrow> inventory option" where
  "spec_move k c t ord l I =
     (case inv_levels I (line_loc t l) of
        None \<Rightarrow> None
      | Some b \<Rightarrow>
          (let b' = move_bucket k (sint (sl_qty l)) b in
           if bucket_ok b'
           then Some (I\<lparr>inv_levels := (inv_levels I)(line_loc t l \<mapsto> b'),
                        inv_log := inv_log I @ [move_movement k t ord l],
                        inv_out := inv_out I @ [move_notice k c t ord l]\<rparr>)
           else None))"

section \<open>The requests\<close>

definition key_seen :: "uuid \<Rightarrow> string \<Rightarrow> inventory \<Rightarrow> bool" where
  "key_seen t k I \<longleftrightarrow> k \<noteq> '''' \<and> (t, k) \<in> inv_keys I"

definition record_key :: "uuid \<Rightarrow> string \<Rightarrow> inventory \<Rightarrow> inventory" where
  "record_key t k I = (if k = '''' then I else I\<lparr>inv_keys := insert (t, k) (inv_keys I)\<rparr>)"

definition can_reserve :: "int \<Rightarrow> bucket \<Rightarrow> bool" where
  "can_reserve q b \<longleftrightarrow> \<not> bk_locked b \<and> q \<le> bk_available b"

definition spec_reserve_line ::
  "ctx \<Rightarrow> uuid \<Rightarrow> string \<Rightarrow> StockLine \<Rightarrow> inventory \<Rightarrow> (string list \<times> inventory) option" where
  "spec_reserve_line c t ord l I =
     (case inv_levels I (line_loc t l) of
        None \<Rightarrow> Some ([sl_sku l], I)
      | Some b \<Rightarrow>
          if can_reserve (sint (sl_qty l)) b
          then map_option (Pair []) (spec_move MoveReserve c t ord l I)
          else Some ([sl_sku l], I))"

definition spec_ReserveStock ::
  "ctx \<Rightarrow> uuid \<Rightarrow> ReserveStockRequest \<Rightarrow> inventory \<Rightarrow> (ReserveStockResponse \<times> inventory) option" where
  "spec_ReserveStock c t req I =
     (if key_seen t (rsv_key req) I then Some (\<lparr>rsvr_success = True, rsvr_failed = []\<rparr>, I)
      else (case run_lines (spec_reserve_line c t (rsv_order req)) (sortedLines (rsv_lines req))
                   (record_key t (rsv_key req) I) of
              None \<Rightarrow> None
            | Some (fs, J) \<Rightarrow>
                if concat fs = [] then Some (\<lparr>rsvr_success = True, rsvr_failed = []\<rparr>, J)
                else Some (\<lparr>rsvr_success = False, rsvr_failed = concat fs\<rparr>, I)))"

definition spec_release_line ::
  "ctx \<Rightarrow> uuid \<Rightarrow> string \<Rightarrow> string \<Rightarrow> StockLine \<Rightarrow> inventory \<Rightarrow> (string list \<times> inventory) option" where
  "spec_release_line c t ord rsn l I =
     (if inv_levels I (line_loc t l) = None then Some ([], I)
      else map_option (Pair [sl_sku l]) (spec_move (MoveRelease rsn) c t ord l I))"

definition spec_ReleaseStock ::
  "ctx \<Rightarrow> uuid \<Rightarrow> ReleaseStockRequest \<Rightarrow> inventory \<Rightarrow> (ReleaseStockResponse \<times> inventory) option" where
  "spec_ReleaseStock c t req I =
     (if key_seen t (rls_key req) I then Some (\<lparr>rlsr_success = True, rlsr_released = []\<rparr>, I)
      else map_option (\<lambda>(rs, J). (\<lparr>rlsr_success = True, rlsr_released = concat rs\<rparr>, J))
             (run_lines (spec_release_line c t (rls_order req) (rls_reason req))
               (sortedLines (rls_lines req)) (record_key t (rls_key req) I)))"

definition spec_confirm_line ::
  "ctx \<Rightarrow> uuid \<Rightarrow> string \<Rightarrow> StockLine \<Rightarrow> inventory \<Rightarrow> (StockAllocationLine \<times> inventory) option" where
  "spec_confirm_line c t ord l I =
     map_option (Pair \<lparr>al_sku = sl_sku l, al_wh = sl_wh l, al_allocated = sl_qty l\<rparr>)
       (spec_move MoveAllocate c t ord l I)"

definition spec_ConfirmStockAllocation ::
  "ctx \<Rightarrow> uuid \<Rightarrow> ConfirmStockAllocationRequest \<Rightarrow> inventory
    \<Rightarrow> (ConfirmStockAllocationResponse \<times> inventory) option" where
  "spec_ConfirmStockAllocation c t req I =
     (if key_seen t (cnf_key req) I then Some (\<lparr>cnfr_success = True, cnfr_lines = []\<rparr>, I)
      else map_option (\<lambda>(out, J). (\<lparr>cnfr_success = True, cnfr_lines = out\<rparr>, J))
             (run_lines (spec_confirm_line c t (cnf_order req))
               (sortedLines (cnf_lines req)) (record_key t (cnf_key req) I)))"

definition spec_fulfill_line ::
  "ctx \<Rightarrow> uuid \<Rightarrow> string \<Rightarrow> StockLine \<Rightarrow> inventory \<Rightarrow> (FulfillStockLine \<times> inventory) option" where
  "spec_fulfill_line c t ord l I =
     (case inv_levels I (line_loc t l) of
        None \<Rightarrow> None
      | Some b \<Rightarrow>
          map_option (Pair \<lparr>fl_sku = sl_sku l, fl_wh = sl_wh l,
                           fl_remaining = word_of_int (bk_allocated b) - sl_qty l\<rparr>)
            (spec_move MoveFulfill c t ord l I))"

definition spec_FulfillStock ::
  "ctx \<Rightarrow> uuid \<Rightarrow> FulfillStockRequest \<Rightarrow> inventory \<Rightarrow> (FulfillStockResponse \<times> inventory) option" where
  "spec_FulfillStock c t req I =
     (if key_seen t (ful_key req) I then Some (\<lparr>fulr_success = True, fulr_lines = []\<rparr>, I)
      else map_option (\<lambda>(out, J). (\<lparr>fulr_success = True, fulr_lines = out\<rparr>, J))
             (run_lines (spec_fulfill_line c t (ful_order req))
               (sortedLines (ful_lines req)) (record_key t (ful_key req) I)))"

text \<open>
  A negative adjustment is refused: the proposed row of the upsert violates its \<^verbatim>\<open>CHECK\<close>
  constraint. The response carries the identifier \<^verbatim>\<open>eid\<close> that the database draws for the event.
\<close>

definition spec_adjust_bucket :: "int \<Rightarrow> bucket option \<Rightarrow> bucket" where
  "spec_adjust_bucket q b =
     (case b of
        None \<Rightarrow> \<lparr>bk_available = q, bk_reserved = 0, bk_allocated = 0, bk_locked = False\<rparr>
      | Some b \<Rightarrow> b\<lparr>bk_available := bk_available b + q\<rparr>)"

definition adjust_response :: "bool \<Rightarrow> uuid \<Rightarrow> bucket \<Rightarrow> AdjustStockResponse" where
  "adjust_response clamped eid b =
     \<lparr>adjr_success = True, adjr_available = word_of_int (bk_available b),
      adjr_reserved = word_of_int (bk_reserved b), adjr_allocated = word_of_int (bk_allocated b),
      adjr_clamped = clamped, adjr_event = eid\<rparr>"

definition spec_AdjustStock ::
  "ctx \<Rightarrow> uuid \<Rightarrow> AdjustStockRequest \<Rightarrow> uuid \<Rightarrow> inventory \<Rightarrow> (AdjustStockResponse \<times> inventory) option" where
  "spec_AdjustStock c t req eid I =
     (let loc = (t, adj_sku req, adj_wh req); q = sint (adj_delta req) in
      if key_seen t (adj_key req) I
      then map_option (\<lambda>b. (adjust_response (bk_available b = 0) '''' b, I)) (inv_levels I loc)
      else
        (let b = spec_adjust_bucket q (inv_levels I loc); J = record_key t (adj_key req) I in
         if 0 \<le> q \<and> bucket_ok b
         then Some (adjust_response False eid b,
           J\<lparr>inv_levels := (inv_levels J)(loc \<mapsto> b),
             inv_log := inv_log J @ [\<lparr>mv_loc = loc, mv_delta = q, mv_reason = adj_reason req,
                                      mv_source = adj_source req, mv_actor = ''system''\<rparr>],
             inv_out := inv_out J @ [\<lparr>nt_tenant = t, nt_aggid = aggregate_id t (adj_sku req),
                          nt_type = ''stock.adjusted'',
                          nt_payload = marshalAdjustEvent req (word_of_int (bk_available b)),
                          nt_trace = TraceparentText c\<rparr>]\<rparr>)
         else None))"

definition spec_UnlockStockForAudit ::
  "uuid \<Rightarrow> UnlockStockForAuditRequest \<Rightarrow> inventory \<Rightarrow> (UnlockStockForAuditResponse \<times> inventory) option" where
  "spec_UnlockStockForAudit t req I =
     (let loc = (t, unl_sku req, unl_wh req) in
      case inv_levels I loc of
        None \<Rightarrow> Some (\<lparr>unlr_success = False, unlr_unlocked = False\<rparr>, I)
      | Some b \<Rightarrow>
          Some (\<lparr>unlr_success = True, unlr_unlocked = True\<rparr>,
            I\<lparr>inv_levels := (inv_levels I)(loc \<mapsto> b\<lparr>bk_locked := False\<rparr>),
              inv_log := inv_log I @ [\<lparr>mv_loc = loc, mv_delta = 0, mv_reason = unl_reason req,
                mv_source = ''reconciliation'',
                mv_actor = (if unl_actor req = '''' then ''warehouse-manager'' else unl_actor req)\<rparr>]\<rparr>))"

end
