(* ===== verification/StockRefine.thy ===== *)
theory StockRefine
  imports StockSpec
begin

text \<open>
  The handlers of the stock service implement the specification of \<^verbatim>\<open>StockSpec\<close>, whatever fails.
\<close>

section \<open>Words and buckets\<close>

primrec move_level :: "move \<Rightarrow> int32 \<Rightarrow> StockLevel \<Rightarrow> StockLevel" where
  "move_level MoveReserve q l = l\<lparr>lv_available := lv_available l - q, lv_reserved := lv_reserved l + q\<rparr>"
| "move_level (MoveRelease rsn) q l = l\<lparr>lv_available := lv_available l + q, lv_reserved := lv_reserved l - q\<rparr>"
| "move_level MoveAllocate q l = l\<lparr>lv_reserved := lv_reserved l - q, lv_allocated := lv_allocated l + q\<rparr>"
| "move_level MoveFulfill q l = l\<lparr>lv_allocated := lv_allocated l - q\<rparr>"

lemma sint_i32_less [simp]: "sint (a :: int32) < 2147483648"
  using sint_in_i32 [of a] by (simp only: in_i32_def)

lemma bucket_ok_of [simp]: "bucket_ok (bucket_of l) \<longleftrightarrow> level_check l"
  by (simp add: bucket_ok_def bucket_of_def level_check_def)

lemma sint_add_bucket:
  fixes a q :: int32
  assumes "0 \<le> sint a + sint q" "sint a + sint q < 2147483648"
  shows "sint (a + q) = sint a + sint q"
  using assms by (intro sint_eq_i32) (simp_all add: in_i32_def)

lemma sint_diff_bucket:
  fixes a q :: int32
  assumes "0 \<le> sint a - sint q" "sint a - sint q < 2147483648"
  shows "sint (a - q) = sint a - sint q"
  using assms by (intro sint_eq_i32) (simp_all add: in_i32_def)

text \<open>
  The \<^verbatim>\<open>int32\<close> arithmetic of a committed move is exact: the \<^verbatim>\<open>CHECK\<close> constraints accept the row
  exactly when the integer buckets are in range.
\<close>

lemma move_level_exact:
  assumes "level_check l" "level_check (move_level k q l)"
  shows "bucket_of (move_level k q l) = move_bucket k (sint q) (bucket_of l)"
  using assms
  by (cases k) (auto simp: level_check_def bucket_of_def intro: sint_add_nonneg sint_diff_nonneg)

lemma move_bucket_ok:
  assumes "level_check l" "level_check (move_level k q l)"
  shows "bucket_ok (move_bucket k (sint q) (bucket_of l))"
  using assms by (simp flip: move_level_exact)

lemma move_level_check:
  assumes "level_check l" "bucket_ok (move_bucket k (sint q) (bucket_of l))"
  shows "level_check (move_level k q l)"
  using assms
  by (cases k) (simp_all add: level_check_def bucket_ok_def bucket_of_def sint_add_bucket sint_diff_bucket)

section \<open>Statements on the inventory\<close>

definition stock_ok :: "uuid \<Rightarrow> (stock_db, 'x) sess \<Rightarrow> bool" where
  "stock_ok t s \<longleftrightarrow> stock_schema (data s) \<and> scope s = Scoped (Some t)"

abbreviation stock_inv :: "(stock_db, 'x) sess \<Rightarrow> inventory" where
  "stock_inv s \<equiv> inventory_of (data s)"

lemma rls_visible_own [simp]: "rls_visible (Scoped (Some t)) u \<longleftrightarrow> u = t"
  by (auto simp: rls_visible_def)

lemma inventory_of_simps [simp]:
  "inv_levels (inventory_of d) loc = map_option bucket_of (stock_levels d loc)"
  "inv_log (inventory_of d) = map movement_of (stock_events d)"
  "inv_out (inventory_of d) = map notice_of (stock_outbox d)"
  "inv_keys (inventory_of d) = (\<lambda>r. (ik_tenant r, ik_key r)) ` set (stock_keys d)"
  by (simp_all add: inventory_of_def)

lemma inventory_of_updates:
  "inventory_of (d\<lparr>stock_levels := (stock_levels d)(loc \<mapsto> l)\<rparr>) =
     (inventory_of d)\<lparr>inv_levels := (inv_levels (inventory_of d))(loc \<mapsto> bucket_of l)\<rparr>"
  "inventory_of (d\<lparr>stock_events := evs @ [e]\<rparr>) =
     (inventory_of d)\<lparr>inv_log := map movement_of evs @ [movement_of e]\<rparr>"
  "inventory_of (d\<lparr>stock_outbox := rows @ [r]\<rparr>) =
     (inventory_of d)\<lparr>inv_out := map notice_of rows @ [notice_of r]\<rparr>"
  "inventory_of (d\<lparr>stock_keys := kr # ks\<rparr>) =
     (inventory_of d)\<lparr>inv_keys := insert (ik_tenant kr, ik_key kr) ((\<lambda>r. (ik_tenant r, ik_key r)) ` set ks)\<rparr>"
  by (auto simp: inventory_of_def fun_eq_iff)

lemma key_seen_iff: "key_seen t k (inventory_of d) \<longleftrightarrow> k \<noteq> '''' \<and> find_key t k (stock_keys d) \<noteq> None"
  unfolding key_seen_def find_key_None by (auto simp: image_iff)

lemma GetStockLevelForUpdate_InrE:
  assumes "GetStockLevelForUpdate loc s = (Inr l, s')"
  obtains "stock_levels (data s) loc = Some l" and "s' = s\<lparr>pos := Suc (pos s)\<rparr>"
  using assms unfolding GetStockLevelForUpdate_def
  by (auto elim!: stmt_InrE split: if_splits option.splits)

lemma GetStockLevelForUpdate_NoRows:
  assumes "GetStockLevelForUpdate loc s = (Inl ErrNoRows, s')" "scope s = Scoped (Some (fst loc))"
  shows "stock_levels (data s) loc = None" and "s' = s\<lparr>pos := Suc (pos s)\<rparr>"
  using assms unfolding GetStockLevelForUpdate_def
  by (auto simp: stmt_def Let_def split: if_splits option.splits)

lemma GetStockLevelForUpdate_pos:
  "GetStockLevelForUpdate loc s = (r, s') \<Longrightarrow> s' = s\<lparr>pos := Suc (pos s)\<rparr>"
  unfolding GetStockLevelForUpdate_def
  by (auto simp: stmt_def Let_def split: if_splits option.splits)

lemma UpdateStockLevel_InrE:
  assumes "UpdateStockLevel loc l s = (Inr a, s')"
  obtains "s' = s\<lparr>pos := Suc (pos s), data := (data s)\<lparr>stock_levels := (stock_levels (data s))(loc \<mapsto> l)\<rparr>\<rparr>"
    and "level_check l"
  using assms unfolding UpdateStockLevel_def by (auto elim!: stmt_InrE split: if_splits)

lemma InsertStockEvent_InrE:
  assumes "InsertStockEvent loc dl rs src ac s = (Inr ev, s')"
  obtains "s' = s\<lparr>pos := Suc (pos s), data := (data s)\<lparr>stock_events := stock_events (data s) @ [ev]\<rparr>\<rparr>"
    and "movement_of ev = \<lparr>mv_loc = loc, mv_delta = sint dl, mv_reason = rs, mv_source = src, mv_actor = ac\<rparr>"
    and "ev_id ev = fresh (sched s (pos s))"
  using assms unfolding InsertStockEvent_def
  by (auto simp: Let_def movement_of_def event_loc_def elim!: stmt_InrE split: if_splits)

lemma InsertOutboxEvent_InrE:
  assumes "InsertOutboxEvent t at ai et pl tr s = (Inr ob, s')"
  obtains "s' = s\<lparr>pos := Suc (pos s), data := (data s)\<lparr>stock_outbox := stock_outbox (data s) @ [ob]\<rparr>\<rparr>"
    and "notice_of ob = \<lparr>nt_tenant = t, nt_aggid = ai, nt_type = et, nt_payload = pl, nt_trace = tr\<rparr>"
  using assms unfolding InsertOutboxEvent_def
  by (auto simp: notice_of_def elim!: stmt_InrE split: sum.splits dest!: insert_outbox_Inr)

section \<open>The write that every moved line does\<close>

definition move_write ::
  "move \<Rightarrow> ctx \<Rightarrow> uuid \<Rightarrow> string \<Rightarrow> StockLine \<Rightarrow> StockLevel \<Rightarrow> 'a \<Rightarrow> ('x, 'a) stx" where
  "move_write k c t ord l level a =
     bindE (UpdateStockLevel (line_loc t l) (move_level k (sl_qty l) level)) (\<lambda>_.
     bindE (InsertStockEvent (line_loc t l) (move_delta k (sl_qty l)) (move_reason k) (move_source k)
              (move_actor k ord)) (\<lambda>_.
     bindE (InsertOutboxEvent t ''stock'' (aggregate_id t (sl_sku l)) (move_type k)
              (marshalLineEvent (move_action k) ord l) (TraceparentText c)) (\<lambda>_.
     returnE a)))"

lemma keeps_move_write [keeps_intros]: "keeps stock_schema (move_write k c t ord l level a)"
  unfolding move_write_def by (intro keeps_intros)

lemma move_write_spec:
  assumes "move_write k c t ord l level a s = (Inr b, s')" and "stock_ok t s"
    and "stock_levels (data s) (line_loc t l) = Some level"
  shows "stock_ok t s' \<and> b = a \<and> spec_move k c t ord l (stock_inv s) = Some (stock_inv s')"
proof -
  have "stock_schema (data s')"
    using keeps_step [OF keeps_move_write assms(1)] assms(2) by (simp add: stock_ok_def)
  moreover have "level_check level"
    using assms by (auto simp: stock_ok_def intro: stock_schema_level)
  ultimately show ?thesis
    using assms(1,2,3) unfolding move_write_def
    by (elim bindE_InrE UpdateStockLevel_InrE InsertStockEvent_InrE InsertOutboxEvent_InrE)
      (auto simp: stock_ok_def inventory_of_updates spec_move_def Let_def move_movement_def move_notice_def
          move_level_exact move_bucket_ok)
qed

section \<open>The lines\<close>

lemmas move_simps = move_level.simps move_delta.simps move_reason.simps move_source.simps move_actor.simps
  move_type.simps move_action.simps

lemma reserve_line_write:
  "reserve_line c t ord l =
     bindE (attempt (GetStockLevelForUpdate (line_loc t l))) (\<lambda>r.
       case r of
         Inl e \<Rightarrow> if e = ErrNoRows then returnE [sl_sku l] else failE e
       | Inr level \<Rightarrow>
           if lv_locked level \<or> sint (lv_available level) < sint (sl_qty l) then returnE [sl_sku l]
           else move_write MoveReserve c t ord l level [])"
  unfolding reserve_line_def move_write_def Let_def move_simps by (rule refl)

lemma release_line_write:
  "release_line c t ord rsn l =
     bindE (attempt (GetStockLevelForUpdate (line_loc t l))) (\<lambda>r.
       case r of
         Inl e \<Rightarrow> if e = ErrNoRows then returnE [] else failE e
       | Inr level \<Rightarrow> move_write (MoveRelease rsn) c t ord l level [sl_sku l])"
  unfolding release_line_def move_write_def Let_def move_simps by (rule refl)

lemma confirm_line_write:
  "confirm_line c t ord l =
     bindE (GetStockLevelForUpdate (line_loc t l)) (\<lambda>level.
       move_write MoveAllocate c t ord l level \<lparr>al_sku = sl_sku l, al_wh = sl_wh l, al_allocated = sl_qty l\<rparr>)"
  unfolding confirm_line_def move_write_def Let_def move_simps by (rule refl)

lemma fulfill_line_write:
  "fulfill_line c t ord l =
     bindE (GetStockLevelForUpdate (line_loc t l)) (\<lambda>level.
       move_write MoveFulfill c t ord l level
         \<lparr>fl_sku = sl_sku l, fl_wh = sl_wh l, fl_remaining = lv_allocated level - sl_qty l\<rparr>)"
  unfolding fulfill_line_def move_write_def Let_def move_simps by (rule refl)

lemmas line_writes = reserve_line_write release_line_write confirm_line_write fulfill_line_write

lemma keeps_lines [keeps_intros]:
  "keeps stock_schema (reserve_line c t ord l)" "keeps stock_schema (release_line c t ord rsn l)"
  "keeps stock_schema (confirm_line c t ord l)" "keeps stock_schema (fulfill_line c t ord l)"
  unfolding line_writes by (intro keeps_intros)+

lemma stock_ok_pos [simp]: "stock_ok t (s\<lparr>pos := n\<rparr>) = stock_ok t s"
  by (simp add: stock_ok_def)

lemma stock_ok_scope: "stock_ok t s \<Longrightarrow> scope s = Scoped (Some t)"
  by (simp add: stock_ok_def)

lemma sim_reserve_line: "sim (stock_ok t) stock_inv (reserve_line c t ord l) (spec_reserve_line c t ord l)"
proof (rule simI)
  fix s fs and s' :: "(stock_db, 'x) sess"
  assume ok: "stock_ok t s" and run: "reserve_line c t ord l s = (Inr fs, s')"
  from run obtain r s1 where get: "GetStockLevelForUpdate (line_loc t l) s = (r, s1)"
    and rest: "(case r of
         Inl e \<Rightarrow> if e = ErrNoRows then returnE [sl_sku l] else failE e
       | Inr level \<Rightarrow>
           if lv_locked level \<or> sint (lv_available level) < sint (sl_qty l) then returnE [sl_sku l]
           else move_write MoveReserve c t ord l level []) s1 = (Inr fs, s')"
    unfolding line_writes by (auto elim!: bindE_InrE simp: attempt_iff)
  have s1: "s1 = s\<lparr>pos := Suc (pos s)\<rparr>" using get by (rule GetStockLevelForUpdate_pos)
  show "stock_ok t s' \<and> spec_reserve_line c t ord l (stock_inv s) = Some (fs, stock_inv s')"
  proof (cases r)
    case (Inl e)
    with rest have "e = ErrNoRows" "fs = [sl_sku l]" "s' = s1" by (auto split: if_splits)
    with get Inl s1 ok show ?thesis
      using GetStockLevelForUpdate_NoRows(1) [of "line_loc t l" s s1]
      by (simp add: spec_reserve_line_def stock_ok_scope)
  next
    case (Inr level)
    with get have "stock_levels (data s) (line_loc t l) = Some level"
      by (auto elim: GetStockLevelForUpdate_InrE)
    with rest Inr s1 ok show ?thesis
      by (auto simp: spec_reserve_line_def can_reserve_def bucket_of_def
          split: if_splits dest!: move_write_spec)
  qed
qed

lemma sim_release_line: "sim (stock_ok t) stock_inv (release_line c t ord rsn l) (spec_release_line c t ord rsn l)"
proof (rule simI)
  fix s fs and s' :: "(stock_db, 'x) sess"
  assume ok: "stock_ok t s" and run: "release_line c t ord rsn l s = (Inr fs, s')"
  from run obtain r s1 where get: "GetStockLevelForUpdate (line_loc t l) s = (r, s1)"
    and rest: "(case r of
         Inl e \<Rightarrow> if e = ErrNoRows then returnE [] else failE e
       | Inr level \<Rightarrow> move_write (MoveRelease rsn) c t ord l level [sl_sku l]) s1 = (Inr fs, s')"
    unfolding line_writes by (auto elim!: bindE_InrE simp: attempt_iff)
  have s1: "s1 = s\<lparr>pos := Suc (pos s)\<rparr>" using get by (rule GetStockLevelForUpdate_pos)
  show "stock_ok t s' \<and> spec_release_line c t ord rsn l (stock_inv s) = Some (fs, stock_inv s')"
  proof (cases r)
    case (Inl e)
    with rest have "e = ErrNoRows" "fs = []" "s' = s1" by (auto split: if_splits)
    with get Inl s1 ok show ?thesis
      using GetStockLevelForUpdate_NoRows(1) [of "line_loc t l" s s1]
      by (simp add: spec_release_line_def stock_ok_scope)
  next
    case (Inr level)
    with get have "stock_levels (data s) (line_loc t l) = Some level"
      by (auto elim: GetStockLevelForUpdate_InrE)
    with rest Inr s1 ok show ?thesis
      by (auto simp: spec_release_line_def dest!: move_write_spec)
  qed
qed

lemma sim_confirm_line: "sim (stock_ok t) stock_inv (confirm_line c t ord l) (spec_confirm_line c t ord l)"
  unfolding line_writes
  by (intro simI, elim bindE_InrE GetStockLevelForUpdate_InrE)
    (auto simp: spec_confirm_line_def dest!: move_write_spec)

lemma word_of_sint [simp]: "word_of_int (sint (a :: int32)) = a"
  by simp

lemma sim_fulfill_line: "sim (stock_ok t) stock_inv (fulfill_line c t ord l) (spec_fulfill_line c t ord l)"
  unfolding line_writes
  by (intro simI, elim bindE_InrE GetStockLevelForUpdate_InrE)
    (auto simp: spec_fulfill_line_def bucket_of_def dest!: move_write_spec)

section \<open>The transactions\<close>

definition spec_try :: "uuid \<Rightarrow> string \<Rightarrow> inventory \<Rightarrow> (bool \<times> inventory) option" where
  "spec_try t k I = Some (key_seen t k I, if key_seen t k I then I else record_key t k I)"

lemma keeps_tryIdempotency [keeps_intros]: "keeps stock_schema (tryIdempotency L t k msg)"
  unfolding tryIdempotency_def by (intro keeps_intros)

lemma sim_tryIdempotency: "sim (stock_ok t) stock_inv (tryIdempotency L t k msg) (spec_try t k)"
proof (rule simI)
  fix s dup and s' :: "(stock_db, 'x) sess"
  assume ok: "stock_ok t s" and run: "tryIdempotency L t k msg s = (Inr dup, s')"
  have schema: "stock_schema (data s')"
    using keeps_step [OF keeps_tryIdempotency run] ok by (simp add: stock_ok_def)
  show "stock_ok t s' \<and> spec_try t k (stock_inv s) = Some (dup, stock_inv s')"
  proof (cases "k = ''''")
    case True
    with run ok show ?thesis by (simp add: tryIdempotency_def spec_try_def key_seen_def record_key_def)
  next
    case False
    with run obtain r s1 where ins: "CheckAndInsertIdempotencyKey t k (PayloadHash L msg) s = (r, s1)"
      and r: "r = Inl ErrNoRows \<and> dup \<or> (\<exists>x. r = Inr x) \<and> \<not> dup" and s': "s' = s1"
      unfolding tryIdempotency_def
      by (auto elim!: bindE_InrE simp: attempt_iff split: sum.splits if_splits)
    from r show ?thesis
    proof (elim disjE conjE exE)
      assume "r = Inl ErrNoRows" dup
      with ins have "CheckAndInsertIdempotencyKey t k (PayloadHash L msg) s = (Inl ErrNoRows, s1)"
        by simp
      from stock_ledger.known_key [OF this] stock_ledger.failed_insert [OF this] s' ok schema False \<open>dup\<close>
      show ?thesis by (auto simp: spec_try_def key_seen_iff stock_ok_def)
    next
      fix x assume "r = Inr x" "\<not> dup"
      with ins s' ok schema stock_ledger.fresh_key(1) [of t k "PayloadHash L msg" s x s1] False
      show ?thesis
        unfolding CheckAndInsertIdempotencyKey_def
        by (auto simp: spec_try_def key_seen_iff record_key_def stock_ok_def inventory_of_updates
            elim!: stmt_InrE split: sum.splits dest!: insert_key_Inr)
    qed
  qed
qed

lemma keeps_bodies [keeps_intros]:
  "keeps stock_schema (adjust_body L c t ra)" "keeps stock_schema (reserve_body L c t rr)"
  "keeps stock_schema (release_body L c t rl)" "keeps stock_schema (confirm_body L c t rc)"
  "keeps stock_schema (fulfill_body L c t rf)" "keeps stock_schema (unlock_body t ru)"
  unfolding adjust_body_def adjust_write_def adjust_apply_def reserve_body_def release_body_def confirm_body_def
    fulfill_body_def unlock_body_def Let_def
  by (intro keeps_intros)+

text \<open>The ledger in front of a transaction's work.\<close>

lemma sim_keyed:
  assumes "sim (stock_ok t) stock_inv m g"
  shows "sim (stock_ok t) stock_inv
    (bindE (tryIdempotency L t k msg) (\<lambda>dup. if dup then returnE a else m))
    (\<lambda>I. if key_seen t k I then Some (a, I) else g (record_key t k I))"
proof (rule simI)
  fix s b and s' :: "(stock_db, 'a) sess"
  assume ok: "stock_ok t s"
    and "bindE (tryIdempotency L t k msg) (\<lambda>dup. if dup then returnE a else m) s = (Inr b, s')"
  then obtain dup s1 where tri: "tryIdempotency L t k msg s = (Inr dup, s1)"
    and rest: "(if dup then returnE a else m) s1 = (Inr b, s')" by (auto elim!: bindE_InrE)
  from simD [OF sim_tryIdempotency tri ok] have s1: "stock_ok t s1" "dup = key_seen t k (stock_inv s)"
    "stock_inv s1 = (if dup then stock_inv s else record_key t k (stock_inv s))"
    by (auto simp: spec_try_def)
  then show "stock_ok t s' \<and>
      (if key_seen t k (stock_inv s) then Some (a, stock_inv s) else g (record_key t k (stock_inv s))) =
      Some (b, stock_inv s')"
    using rest simD [OF assms, of s1 b s'] by (cases dup) auto
qed

lemma sim_release_body: "sim (stock_ok t) stock_inv (release_body L c t req) (spec_ReleaseStock c t req)"
  unfolding release_body_def spec_ReleaseStock_def
  by (intro sim_keyed sim_map sim_forE sim_release_line)

lemma sim_confirm_body:
  "sim (stock_ok t) stock_inv (confirm_body L c t req) (spec_ConfirmStockAllocation c t req)"
  unfolding confirm_body_def spec_ConfirmStockAllocation_def
  by (intro sim_keyed sim_map sim_forE sim_confirm_line)

lemma sim_fulfill_body: "sim (stock_ok t) stock_inv (fulfill_body L c t req) (spec_FulfillStock c t req)"
  unfolding fulfill_body_def spec_FulfillStock_def
  by (intro sim_keyed sim_map sim_forE sim_fulfill_line)

section \<open>Reserving: all lines or none\<close>

definition db_error :: "err \<Rightarrow> bool" where
  "db_error e \<longleftrightarrow> e = ErrNoRows \<or> (\<exists>m. e = PgErr m)"

lemma raises_queries [raises_intros]:
  "raises db_error (CheckAndInsertIdempotencyKey t k h)"
  "raises db_error (GetStockLevelForUpdate loc)"
  "raises db_error (UpdateStockLevel loc l)"
  "raises db_error (InsertStockEvent loc dl rs src ac)"
  "raises db_error (InsertOutboxEvent t at ai et pl tr)"
  unfolding CheckAndInsertIdempotencyKey_def GetStockLevelForUpdate_def UpdateStockLevel_def
    InsertStockEvent_def InsertOutboxEvent_def
  by (auto intro!: raises_stmt simp: db_error_def insert_key_def insert_outbox_def value_too_long_def
      rls_violation_def check_violation_def unique_violation_def Let_def
      split: if_splits option.splits sum.splits)

lemma attempt_case_raises:
  assumes "raises E m" "\<And>a. raises E (g a)" "\<And>e. E e \<Longrightarrow> raises E (f e)"
  shows "raises E (bindE (attempt m) (\<lambda>r. case r of Inl e \<Rightarrow> f e | Inr a \<Rightarrow> g a))"
  using assms unfolding raises_def
  by (auto elim!: bindE_InlE simp: attempt_iff split: sum.splits) blast+

lemma raises_reserve_line [raises_intros]: "raises db_error (reserve_line c t ord l)"
  unfolding reserve_line_def Let_def
  by (intro attempt_case_raises raises_intros) (auto simp: db_error_def)

lemma raises_tryIdempotency [raises_intros]: "raises db_error (tryIdempotency L t k msg)"
  unfolding tryIdempotency_def
  by (intro attempt_case_raises raises_intros) (auto simp: db_error_def)

lemma reserve_body_Inr:
  assumes "stock_ok t s" "reserve_body L c t req s = (Inr resp, s')"
  shows "stock_ok t s' \<and> spec_ReserveStock c t req (stock_inv s) = Some (resp, stock_inv s')"
proof -
  let ?lines = "run_lines (spec_reserve_line c t (rsv_order req)) (sortedLines (rsv_lines req))"
  let ?ok = "\<lparr>rsvr_success = True, rsvr_failed = []\<rparr>"
  have "sim (stock_ok t) stock_inv (reserve_body L c t req) (\<lambda>I.
      if key_seen t (rsv_key req) I then Some (?ok, I)
      else (case ?lines (record_key t (rsv_key req) I) of
              None \<Rightarrow> None
            | Some (fs, J) \<Rightarrow> if concat fs = [] then Some (?ok, J) else None))"
    unfolding reserve_body_def Let_def
    by (intro sim_keyed sim_bindE [OF sim_forE [OF sim_reserve_line]]) (auto intro!: simI split: if_splits)
  from simD [OF this assms(2,1)] show ?thesis
    by (auto simp: spec_ReserveStock_def split: if_splits option.splits)
qed

lemma reserve_body_insufficient:
  assumes ok: "stock_ok t s" and run: "reserve_body L c t req s = (Inl (InsufficientStock failed), s')"
  shows "spec_ReserveStock c t req (stock_inv s) =
    Some (\<lparr>rsvr_success = False, rsvr_failed = failed\<rparr>, stock_inv s)"
proof -
  have no: "\<not> db_error (InsufficientStock failed)" by (simp add: db_error_def)
  let ?loop = "forE (sortedLines (rsv_lines req)) (reserve_line c t (rsv_order req))"
  from run no obtain dup s1 where tri: "tryIdempotency L t (rsv_key req) (M_ReserveStock req) s = (Inr dup, s1)"
    and rest: "(if dup then returnE \<lparr>rsvr_success = True, rsvr_failed = []\<rparr>
      else bindE ?loop (\<lambda>fs. let failed = concat fs in
        if failed \<noteq> [] then failE (InsufficientStock failed)
        else returnE \<lparr>rsvr_success = True, rsvr_failed = []\<rparr>)) s1 = (Inl (InsufficientStock failed), s')"
    unfolding reserve_body_def by (auto elim!: bindE_InlE dest: raisesD [OF raises_tryIdempotency])
  from simD [OF sim_tryIdempotency tri ok] have s1: "stock_ok t s1" "dup = key_seen t (rsv_key req) (stock_inv s)"
    "stock_inv s1 = (if dup then stock_inv s else record_key t (rsv_key req) (stock_inv s))"
    by (auto simp: spec_try_def)
  from rest have nd: "\<not> dup" by (cases dup) auto
  with rest no obtain fs s2 where "?loop s1 = (Inr fs, s2)" "concat fs = failed" "failed \<noteq> []"
    by (auto elim!: bindE_InlE simp: Let_def simp del: concat_eq_Nil_conv split: if_splits
        dest: raisesD [OF raises_forE [OF raises_reserve_line]])
  with simD [OF sim_forE [OF sim_reserve_line] this(1) s1(1)] s1 nd show ?thesis
    by (auto simp: spec_ReserveStock_def)
qed

section \<open>Adjusting and unlocking\<close>

lemma UpsertStockLevel_InrE:
  assumes "UpsertStockLevel loc q s = (Inr a, s')" and "stock_schema (data s)"
  obtains l where
    "s' = s\<lparr>pos := Suc (pos s), data := (data s)\<lparr>stock_levels := (stock_levels (data s))(loc \<mapsto> l)\<rparr>\<rparr>"
    and "level_check l" and "0 \<le> sint q"
    and "bucket_of l = spec_adjust_bucket (sint q) (map_option bucket_of (stock_levels (data s) loc))"
proof (cases "stock_levels (data s) loc")
  case None
  with assms(1) that show ?thesis
    unfolding UpsertStockLevel_def
    by (auto simp: Let_def spec_adjust_bucket_def bucket_of_def level_check_def elim!: stmt_InrE split: if_splits)
next
  case (Some l)
  with assms(1) that show ?thesis
    unfolding UpsertStockLevel_def
    by (auto simp: Let_def spec_adjust_bucket_def bucket_of_def level_check_def sint_add_i32
        elim!: stmt_InrE split: if_splits)
qed

lemma adjust_response_of_level:
  "\<lparr>adjr_success = True, adjr_available = lv_available l, adjr_reserved = lv_reserved l,
    adjr_allocated = lv_allocated l, adjr_clamped = z, adjr_event = i\<rparr> = adjust_response z i (bucket_of l)"
  by (simp add: adjust_response_def bucket_of_def)

lemma sint_zero_iff [simp]: "sint (a :: int32) = 0 \<longleftrightarrow> a = 0"
  by (metis sint_0 word_of_sint)

lemma adjust_apply_Inr:
  assumes "adjust_apply c t req l s = (Inr resp, s')" and "level_check l"
  shows "\<exists>eid. resp = adjust_response False eid (bucket_of l) \<and>
    stock_inv s' = (stock_inv s)\<lparr>inv_levels := (inv_levels (stock_inv s))((t, adj_sku req, adj_wh req) \<mapsto> bucket_of l),
       inv_log := inv_log (stock_inv s) @ [\<lparr>mv_loc = (t, adj_sku req, adj_wh req),
         mv_delta = sint (adj_delta req), mv_reason = adj_reason req, mv_source = adj_source req,
         mv_actor = ''system''\<rparr>],
       inv_out := inv_out (stock_inv s) @ [\<lparr>nt_tenant = t, nt_aggid = aggregate_id t (adj_sku req),
         nt_type = ''stock.adjusted'', nt_payload = marshalAdjustEvent req (lv_available l),
         nt_trace = TraceparentText c\<rparr>]\<rparr>"
proof -
  from assms(2) have na: "\<not> sint (lv_available l) < 0" by (simp add: level_check_def)
  with assms(1) show ?thesis
    unfolding adjust_apply_def Let_def
    by (elim bindE_InrE UpdateStockLevel_InrE InsertStockEvent_InrE InsertOutboxEvent_InrE)
      (auto simp: adjust_response_of_level inventory_of_updates)
qed

lemma adjust_write_Inr:
  assumes ok: "stock_ok t s" and run: "adjust_write c t req s = (Inr resp, s')"
    and fresh: "\<not> key_seen t (adj_key req) I" and I: "stock_inv s = record_key t (adj_key req) I"
  shows "\<exists>eid. spec_AdjustStock c t req eid I = Some (resp, stock_inv s')"
proof -
  let ?loc = "(t, adj_sku req, adj_wh req)"
  from run obtain u s1 level s2 where up: "UpsertStockLevel ?loc (adj_delta req) s = (Inr u, s1)"
    and get: "GetStockLevelForUpdate ?loc s1 = (Inr level, s2)"
    and app: "adjust_apply c t req level s2 = (Inr resp, s')"
    unfolding adjust_write_def by (elim bindE_InrE)
  from up ok obtain l where s1:
    "s1 = s\<lparr>pos := Suc (pos s), data := (data s)\<lparr>stock_levels := (stock_levels (data s))(?loc \<mapsto> l)\<rparr>\<rparr>"
    and l: "level_check l" "0 \<le> sint (adj_delta req)"
    "bucket_of l = spec_adjust_bucket (sint (adj_delta req)) (map_option bucket_of (stock_levels (data s) ?loc))"
    by (auto simp: stock_ok_def elim: UpsertStockLevel_InrE)
  from get s1 have level: "level = l" and s2: "data s2 = data s1"
    by (auto elim!: GetStockLevelForUpdate_InrE)
  have lvl: "inv_levels I ?loc = map_option bucket_of (stock_levels (data s) ?loc)"
    using arg_cong [OF I, of inv_levels] by (auto simp: record_key_def fun_eq_iff split: if_splits)
  then have b: "spec_adjust_bucket (sint (adj_delta req)) (inv_levels I ?loc) = bucket_of l"
    using l(3) by simp
  have av: "word_of_int (bk_available (bucket_of l)) = lv_available l" by (simp add: bucket_of_def)
  from adjust_apply_Inr [OF app] level l(1) s1 s2
  obtain eid where "resp = adjust_response False eid (bucket_of l)" and
    "stock_inv s' = (stock_inv s)\<lparr>inv_levels := (inv_levels (stock_inv s))(?loc \<mapsto> bucket_of l),
       inv_log := inv_log (stock_inv s) @ [\<lparr>mv_loc = ?loc,
         mv_delta = sint (adj_delta req), mv_reason = adj_reason req, mv_source = adj_source req,
         mv_actor = ''system''\<rparr>],
       inv_out := inv_out (stock_inv s) @ [\<lparr>nt_tenant = t, nt_aggid = aggregate_id t (adj_sku req),
         nt_type = ''stock.adjusted'', nt_payload = marshalAdjustEvent req (lv_available l),
         nt_trace = TraceparentText c\<rparr>]\<rparr>"
    by (auto simp: inventory_of_updates)
  then show ?thesis
    unfolding spec_AdjustStock_def Let_def b av I [symmetric]
    by (intro exI [of _ eid]) (simp only: fresh l(1,2) bucket_ok_of if_True if_False simp_thms)
qed

lemma adjust_body_Inr:
  assumes ok: "stock_ok t s" and run: "adjust_body L c t req s = (Inr resp, s')"
  shows "stock_ok t s' \<and> (\<exists>eid. spec_AdjustStock c t req eid (stock_inv s) = Some (resp, stock_inv s'))"
proof -
  from run obtain dup s1 where tri: "tryIdempotency L t (adj_key req) (M_AdjustStock req) s = (Inr dup, s1)"
    and rest: "(if dup
       then bindE (GetStockLevelForUpdate (t, adj_sku req, adj_wh req)) (\<lambda>level.
         returnE \<lparr>adjr_success = True, adjr_available = lv_available level,
                  adjr_reserved = lv_reserved level, adjr_allocated = lv_allocated level,
                  adjr_clamped = (lv_available level = 0), adjr_event = ''''\<rparr>)
       else adjust_write c t req) s1 = (Inr resp, s')"
    unfolding adjust_body_def by (elim bindE_InrE)
  from simD [OF sim_tryIdempotency tri ok] have s1: "stock_ok t s1" "dup = key_seen t (adj_key req) (stock_inv s)"
    "stock_inv s1 = (if dup then stock_inv s else record_key t (adj_key req) (stock_inv s))"
    by (auto simp: spec_try_def)
  have "scope s' = scope s1"
    using rest unfolding adjust_write_def adjust_apply_def Let_def
    by (rule frameD [rotated]) (intro frame_intros)
  moreover have "\<exists>eid. spec_AdjustStock c t req eid (stock_inv s) = Some (resp, stock_inv s')"
  proof (cases dup)
    case True
    with rest obtain level where "inv_levels (stock_inv s1) (t, adj_sku req, adj_wh req) = Some (bucket_of level)"
      "resp = adjust_response (lv_available level = 0) '''' (bucket_of level)" "stock_inv s' = stock_inv s1"
      by (auto elim!: bindE_InrE GetStockLevelForUpdate_InrE simp: adjust_response_of_level)
    moreover have "bk_available (bucket_of level) = 0 \<longleftrightarrow> lv_available level = 0" by (simp add: bucket_of_def)
    ultimately show ?thesis
      using True s1(2,3) by (simp add: spec_AdjustStock_def Let_def del: inventory_of_simps)
  next
    case False
    with rest s1 show ?thesis by (intro adjust_write_Inr [of t s1]) auto
  qed
  ultimately show ?thesis
    using keeps_step [OF keeps_bodies(1) run] ok s1(1) by (simp add: stock_ok_def)
qed

lemma sim_unlock_body: "sim (stock_ok t) stock_inv (unlock_body t req) (spec_UnlockStockForAudit t req)"
proof (rule simI)
  fix s resp and s' :: "(stock_db, 'x) sess"
  assume ok: "stock_ok t s" and run: "unlock_body t req s = (Inr resp, s')"
  let ?loc = "(t, unl_sku req, unl_wh req)"
  let ?actor = "if unl_actor req = '''' then ''warehouse-manager'' else unl_actor req"
  from run obtain r s1 where get: "GetStockLevelForUpdate ?loc s = (r, s1)"
    and rest: "(case r of
        Inl e \<Rightarrow>
          if e = ErrNoRows then returnE \<lparr>unlr_success = False, unlr_unlocked = False\<rparr> else failE e
      | Inr _ \<Rightarrow>
          bindE (SetAuditLock ?loc False) (\<lambda>_.
          bindE (InsertStockEvent ?loc 0 (unl_reason req) ''reconciliation'' ?actor) (\<lambda>_.
          returnE \<lparr>unlr_success = True, unlr_unlocked = True\<rparr>))) s1 = (Inr resp, s')"
    unfolding unlock_body_def Let_def by (elim bindE_InrE) (simp add: attempt_iff)
  have s1: "s1 = s\<lparr>pos := Suc (pos s)\<rparr>" using get by (rule GetStockLevelForUpdate_pos)
  have schema: "stock_schema (data s')"
    using keeps_step [OF keeps_bodies(6) run] ok by (simp add: stock_ok_def)
  have sc: "scope s' = scope s"
    using run unfolding unlock_body_def Let_def by (rule frameD [rotated]) (intro frame_intros)
  show "stock_ok t s' \<and> spec_UnlockStockForAudit t req (stock_inv s) = Some (resp, stock_inv s')"
  proof (cases r)
    case (Inl e)
    with rest have "e = ErrNoRows" "resp = \<lparr>unlr_success = False, unlr_unlocked = False\<rparr>" "s' = s1"
      by (auto split: if_splits)
    with get Inl s1 ok show ?thesis
      using GetStockLevelForUpdate_NoRows(1) [of ?loc s s1]
      by (simp add: spec_UnlockStockForAudit_def stock_ok_scope)
  next
    case (Inr level)
    with get have lv: "stock_levels (data s) ?loc = Some level"
      by (auto elim: GetStockLevelForUpdate_InrE)
    have lock: "\<exists>x. data s2 = (data s)\<lparr>stock_levels := (stock_levels (data s))(?loc \<mapsto> level\<lparr>lv_locked := False, lv_updated := x\<rparr>)\<rparr>"
      if "SetAuditLock ?loc False s1 = (Inr u, s2)" for u s2
      using that s1 ok lv unfolding SetAuditLock_def
      by (auto elim!: stmt_InrE simp: stock_ok_def)
    from rest Inr lv ok sc schema show ?thesis
      by (auto elim!: bindE_InrE InsertStockEvent_InrE dest!: lock
          simp: spec_UnlockStockForAudit_def stock_ok_def inventory_of_updates bucket_of_def Let_def)
  qed
qed

section \<open>The handlers\<close>

lemma ExecTx_implements:
  assumes sch: "stock_schema (data s)" and scan: "uuid_scan L (ctx_tenant c) = Some t"
    and body: "\<And>s1 a s2. stock_ok t s1 \<Longrightarrow> body s1 = (Inr a, s2) \<Longrightarrow> F (stock_inv s1) a (stock_inv s2)"
    and run: "ExecTxWithTenant L c body s = (r, s')"
  shows "implements F (stock_inv s) r (stock_inv s')"
proof (cases r)
  case (Inl e)
  from ExecTxWithTenant_atomic [OF run] show ?thesis
  proof
    assume "commits (Scoped (uuid_scan L (ctx_tenant c))) body (data s) (data s')"
    then obtain s1 a s2 where "body s1 = (Inr a, s2)" "scope s1 = Scoped (uuid_scan L (ctx_tenant c))"
      "data s1 = data s" "data s2 = data s'" by (auto simp: commits_def)
    with sch scan body [of s1 a s2] Inl show ?thesis by (auto simp: stock_ok_def)
  qed (simp add: Inl)
next
  case (Inr a)
  with run obtain s1 s2 where "body s1 = (Inr a, s2)" "data s1 = data s"
    "scope s1 = Scoped (uuid_scan L (ctx_tenant c))" "data s' = data s2"
    by (auto elim: ExecTxWithTenant_Inr)
  with sch scan Inr body [of s1 a s2] show ?thesis by (simp add: stock_ok_def)
qed

lemma internal_error_fails: "\<exists>e'. internal_error w e s = (Inl e', s)"
  by (simp add: internal_error_def)

lemma WithTenantID_simps [simp]: "ctx_tenant (WithTenantID c t) = t"
  "TraceparentText (WithTenantID c t) = TraceparentText c"
  by (simp_all add: WithTenantID_def TraceparentText_def)

lemma handler_implements:
  assumes "catchE (ExecTxWithTenant L (WithTenantID c tid) body) (internal_error w) s = (r, s')"
    and "stock_schema (data s)" and "uuid_scan L tid = Some t"
    and "\<And>s1 a s2. stock_ok t s1 \<Longrightarrow> body s1 = (Inr a, s2) \<Longrightarrow> F (stock_inv s1) a (stock_inv s2)"
  shows "implements F (stock_inv s) r (stock_inv s')"
  using assms(1)
proof (rule implements_catchE [where P = "\<lambda>s. stock_schema (data s)"])
  show "implements F (stock_inv s) r (stock_inv s')"
    if "ExecTxWithTenant L (WithTenantID c tid) body s = (r, s')" "stock_schema (data s)" for s r s'
    using that assms(3,4) by (intro ExecTx_implements [of s L _ t body]) simp_all
qed (use assms(2) in \<open>simp_all add: internal_error_def\<close>)

end
