(* ===== verification/StockLaws.thy ===== *)
theory StockLaws
  imports StockSpec
begin

text \<open>
  Laws of the stock specification: what a list of lines does to each bucket does not depend on the
  order of the lines, how much stock each request creates or destroys, which lines a reservation
  refuses.
\<close>

section \<open>Moves add up\<close>

lemma move_bucket_add: "move_bucket k (p + q) b = move_bucket k q (move_bucket k p b)"
  by (cases k) simp_all

lemma move_bucket_0 [simp]: "move_bucket k 0 b = b"
  by (cases k) simp_all

lemma move_bucket_locked [simp]: "bk_locked (move_bucket k q b) = bk_locked b"
  by (cases k) simp_all

lemma move_bucket_total: "bucket_total (move_bucket k q b) = bucket_total b - (if k = MoveFulfill then q else 0)"
  by (cases k) (simp_all add: bucket_total_def)

definition demand :: "uuid \<Rightarrow> StockLine list \<Rightarrow> StockLocation \<Rightarrow> int" where
  "demand t ls loc = sum_list (map (sint \<circ> sl_qty) (filter (\<lambda>l. line_loc t l = loc) ls))"

lemma demand_simps [simp]:
  "demand t [] loc = 0"
  "demand t (l # ls) loc = (if line_loc t l = loc then sint (sl_qty l) else 0) + demand t ls loc"
  by (simp_all add: demand_def)

lemma sum_list_mset_cong: "mset xs = mset ys \<Longrightarrow> sum_list (map f xs) = (sum_list (map f ys) :: int)"
  by (metis mset_map sum_mset_sum_list)

lemma mset_sortedLines [simp]: "mset (sortedLines ls) = mset ls"
  by (simp add: sortedLines_def)

lemma set_sortedLines [simp]: "set (sortedLines ls) = set ls"
  by (simp add: sortedLines_def)

lemma sortedLines_Nil [simp]: "sortedLines ls = [] \<longleftrightarrow> ls = []"
  by (metis mset_sortedLines mset_zero_iff)

lemma demand_sortedLines [simp]: "demand t (sortedLines ls) loc = demand t ls loc"
  unfolding demand_def by (rule sum_list_mset_cong) (metis mset_filter mset_sortedLines)

section \<open>A list of moves\<close>

primrec run_moves :: "move \<Rightarrow> ctx \<Rightarrow> uuid \<Rightarrow> string \<Rightarrow> StockLine list \<Rightarrow> inventory \<Rightarrow> inventory option" where
  "run_moves k c t ord [] I = Some I"
| "run_moves k c t ord (l # ls) I =
     (case spec_move k c t ord l I of None \<Rightarrow> None | Some J \<Rightarrow> run_moves k c t ord ls J)"

lemma spec_move_SomeD:
  assumes "spec_move k c t ord l I = Some J"
  shows "inv_levels J = (inv_levels I)(line_loc t l := map_option (move_bucket k (sint (sl_qty l))) (inv_levels I (line_loc t l)))"
    and "inv_levels I (line_loc t l) \<noteq> None"
    and "inv_log J = inv_log I @ [move_movement k t ord l]"
    and "inv_out J = inv_out I @ [move_notice k c t ord l]" and "inv_keys J = inv_keys I"
    and "\<forall>b. inv_levels J (line_loc t l) = Some b \<longrightarrow> bucket_ok b"
  using assms by (auto simp: spec_move_def Let_def fun_eq_iff split: option.splits if_splits)

lemma run_moves_SomeD:
  assumes "run_moves k c t ord ls I = Some J"
  shows "inv_levels J loc = map_option (move_bucket k (demand t ls loc)) (inv_levels I loc)"
    and "inv_log J = inv_log I @ map (move_movement k t ord) ls"
    and "inv_out J = inv_out I @ map (move_notice k c t ord) ls"
    and "inv_keys J = inv_keys I"
    and "\<forall>l \<in> set ls. inv_levels I (line_loc t l) \<noteq> None"
proof -
  have "inv_levels J loc = map_option (move_bucket k (demand t ls loc)) (inv_levels I loc) \<and>
    inv_log J = inv_log I @ map (move_movement k t ord) ls \<and>
    inv_out J = inv_out I @ map (move_notice k c t ord) ls \<and> inv_keys J = inv_keys I \<and>
    (\<forall>l \<in> set ls. inv_levels I (line_loc t l) \<noteq> None)"
    using assms
  proof (induction ls arbitrary: I)
    case Nil
    then show ?case by (auto simp: option.map_ident)
  next
    case (Cons l ls)
    then obtain K where K: "spec_move k c t ord l I = Some K" "run_moves k c t ord ls K = Some J"
      by (auto split: option.splits)
    note step = spec_move_SomeD [OF K(1)] and rest = Cons.IH [OF K(2)]
    have "\<forall>m \<in> set ls. inv_levels I (line_loc t m) \<noteq> None"
      using rest step(1,2) by (metis fun_upd_apply option.map_disc_iff)
    with rest step show ?case
      by (auto simp: move_bucket_add option.map_comp comp_def)
  qed
  then show "inv_levels J loc = map_option (move_bucket k (demand t ls loc)) (inv_levels I loc)"
    and "inv_log J = inv_log I @ map (move_movement k t ord) ls"
    and "inv_out J = inv_out I @ map (move_notice k c t ord) ls"
    and "inv_keys J = inv_keys I"
    and "\<forall>l \<in> set ls. inv_levels I (line_loc t l) \<noteq> None"
    by auto
qed

section \<open>The lines of the four requests are moves\<close>

lemma run_confirm_lines:
  "run_lines (spec_confirm_line c t ord) ls I = Some (out, J) \<Longrightarrow>
     run_moves MoveAllocate c t ord ls I = Some J \<and>
     out = map (\<lambda>l. \<lparr>al_sku = sl_sku l, al_wh = sl_wh l, al_allocated = sl_qty l\<rparr>) ls"
  by (induction ls arbitrary: I out) (auto simp: spec_confirm_line_def split: option.splits)

lemma run_fulfill_lines:
  "run_lines (spec_fulfill_line c t ord) ls I = Some (out, J) \<Longrightarrow>
     run_moves MoveFulfill c t ord ls I = Some J \<and> map (\<lambda>l. (fl_sku l, fl_wh l)) out = map (\<lambda>l. (sl_sku l, sl_wh l)) ls"
  by (induction ls arbitrary: I out) (auto simp: spec_fulfill_line_def split: option.splits)

definition known_lines :: "uuid \<Rightarrow> inventory \<Rightarrow> StockLine list \<Rightarrow> StockLine list" where
  "known_lines t I ls = filter (\<lambda>l. inv_levels I (line_loc t l) \<noteq> None) ls"

lemma demand_known: "inv_levels I loc \<noteq> None \<Longrightarrow> demand t (known_lines t I ls) loc = demand t ls loc"
  by (induction ls) (auto simp: known_lines_def)

lemma run_release_lines:
  "run_lines (spec_release_line c t ord rsn) ls I = Some (rs, J) \<Longrightarrow>
     run_moves (MoveRelease rsn) c t ord (known_lines t I ls) I = Some J \<and>
     concat rs = map sl_sku (known_lines t I ls)"
proof (induction ls arbitrary: I rs)
  case Nil
  then show ?case by (simp add: known_lines_def)
next
  case (Cons l ls)
  then obtain r rs' K where K: "spec_release_line c t ord rsn l I = Some (r, K)" "rs = r # rs'"
    "run_lines (spec_release_line c t ord rsn) ls K = Some (rs', J)"
    by (auto split: option.splits)
  note IH = Cons.IH [OF K(3)]
  show ?case
  proof (cases "inv_levels I (line_loc t l) = None")
    case True
    with K IH show ?thesis by (auto simp: spec_release_line_def known_lines_def)
  next
    case False
    with K(1) have mv: "spec_move (MoveRelease rsn) c t ord l I = Some K" and r: "r = [sl_sku l]"
      by (auto simp: spec_release_line_def)
    have "known_lines t K ls = known_lines t I ls"
      using spec_move_SomeD(1,2) [OF mv] by (auto simp: known_lines_def intro!: filter_cong)
    with IH mv r K(2) False show ?thesis by (simp add: known_lines_def)
  qed
qed

text \<open>
  A reservation succeeds when no line is refused; then every line is a move.
\<close>

lemma run_reserve_lines_ok:
  "run_lines (spec_reserve_line c t ord) ls I = Some (fs, J) \<Longrightarrow> concat fs = [] \<Longrightarrow>
     run_moves MoveReserve c t ord ls I = Some J"
  by (induction ls arbitrary: I fs) (auto simp: spec_reserve_line_def split: option.splits if_splits)

definition line_reservable :: "uuid \<Rightarrow> inventory \<Rightarrow> StockLine \<Rightarrow> bool" where
  "line_reservable t I l \<longleftrightarrow>
     (case inv_levels I (line_loc t l) of None \<Rightarrow> False | Some b \<Rightarrow> can_reserve (sint (sl_qty l)) b)"

lemma run_reserve_lines_failed:
  assumes "run_lines (spec_reserve_line c t ord) ls I = Some (fs, J)"
    and "distinct (map (line_loc t) ls)"
  shows "concat fs = map sl_sku (filter (\<lambda>l. \<not> line_reservable t I l) ls)"
  using assms
proof (induction ls arbitrary: I fs)
  case (Cons l ls)
  then obtain f fs' K where K: "spec_reserve_line c t ord l I = Some (f, K)" "fs = f # fs'"
    "run_lines (spec_reserve_line c t ord) ls K = Some (fs', J)"
    by (auto split: option.splits)
  have IH: "concat fs' = map sl_sku (filter (\<lambda>l. \<not> line_reservable t K l) ls)"
    using Cons.IH [OF K(3)] Cons.prems(2) by simp
  have same: "inv_levels K (line_loc t m) = inv_levels I (line_loc t m)" if "m \<in> set ls" for m
    using K(1) that Cons.prems(2)
    by (auto simp: spec_reserve_line_def image_iff dest!: spec_move_SomeD(1) split: option.splits if_splits)
  then have "filter (\<lambda>l. \<not> line_reservable t K l) ls = filter (\<lambda>l. \<not> line_reservable t I l) ls"
    by (auto simp: line_reservable_def intro!: filter_cong)
  moreover have "f = (if line_reservable t I l then [] else [sl_sku l])"
    using K(1) by (auto simp: spec_reserve_line_def line_reservable_def split: option.splits if_splits)
  ultimately show ?case using IH K(2) by simp
qed simp

section \<open>What each request does to the inventory\<close>

lemma record_key_simps [simp]:
  "inv_levels (record_key t k I) = inv_levels I" "inv_log (record_key t k I) = inv_log I"
  "inv_out (record_key t k I) = inv_out I"
  by (simp_all add: record_key_def)

lemma record_key_keys: "inv_keys (record_key t k I) = (if k = '''' then inv_keys I else insert (t, k) (inv_keys I))"
  by (simp add: record_key_def)

lemma spec_ReserveStock_cases:
  assumes "spec_ReserveStock c t req I = Some (r, J)"
  obtains (dup) "key_seen t (rsv_key req) I" "J = I" "r = \<lparr>rsvr_success = True, rsvr_failed = []\<rparr>"
  | (short) fs where "\<not> key_seen t (rsv_key req) I" "J = I" "fs \<noteq> []"
      "r = \<lparr>rsvr_success = False, rsvr_failed = fs\<rparr>"
  | (moved) "\<not> key_seen t (rsv_key req) I" "r = \<lparr>rsvr_success = True, rsvr_failed = []\<rparr>"
      "run_moves MoveReserve c t (rsv_order req) (sortedLines (rsv_lines req)) (record_key t (rsv_key req) I) = Some J"
  using assms unfolding spec_ReserveStock_def
  by (auto split: if_splits option.splits simp del: concat_eq_Nil_conv)
    (use run_reserve_lines_ok in blast)

lemma spec_ReleaseStock_cases:
  assumes "spec_ReleaseStock c t req I = Some (r, J)"
  obtains (dup) "key_seen t (rls_key req) I" "J = I" "r = \<lparr>rlsr_success = True, rlsr_released = []\<rparr>"
  | (moved) ls where "\<not> key_seen t (rls_key req) I" "ls = known_lines t I (sortedLines (rls_lines req))"
      "r = \<lparr>rlsr_success = True, rlsr_released = map sl_sku ls\<rparr>"
      "run_moves (MoveRelease (rls_reason req)) c t (rls_order req) ls (record_key t (rls_key req) I) = Some J"
  using assms unfolding spec_ReleaseStock_def
  by (auto split: if_splits dest!: run_release_lines simp: known_lines_def)

lemma spec_ConfirmStockAllocation_cases:
  assumes "spec_ConfirmStockAllocation c t req I = Some (r, J)"
  obtains (dup) "key_seen t (cnf_key req) I" "J = I" "r = \<lparr>cnfr_success = True, cnfr_lines = []\<rparr>"
  | (moved) "\<not> key_seen t (cnf_key req) I" "cnfr_success r"
      "run_moves MoveAllocate c t (cnf_order req) (sortedLines (cnf_lines req)) (record_key t (cnf_key req) I) = Some J"
  using assms unfolding spec_ConfirmStockAllocation_def
  by (auto split: if_splits dest!: run_confirm_lines)

lemma spec_FulfillStock_cases:
  assumes "spec_FulfillStock c t req I = Some (r, J)"
  obtains (dup) "key_seen t (ful_key req) I" "J = I" "r = \<lparr>fulr_success = True, fulr_lines = []\<rparr>"
  | (moved) "\<not> key_seen t (ful_key req) I" "fulr_success r"
      "run_moves MoveFulfill c t (ful_order req) (sortedLines (ful_lines req)) (record_key t (ful_key req) I) = Some J"
  using assms unfolding spec_FulfillStock_def
  by (auto split: if_splits dest!: run_fulfill_lines)

lemma spec_AdjustStock_cases:
  assumes "spec_AdjustStock c t req eid I = Some (r, J)"
  obtains (dup) "key_seen t (adj_key req) I" "J = I"
  | (adjusted) b where "\<not> key_seen t (adj_key req) I" "0 \<le> sint (adj_delta req)" "bucket_ok b"
      "b = spec_adjust_bucket (sint (adj_delta req)) (inv_levels I (t, adj_sku req, adj_wh req))"
      "inv_levels J = (inv_levels I)((t, adj_sku req, adj_wh req) \<mapsto> b)"
      "inv_log J = inv_log I @ [\<lparr>mv_loc = (t, adj_sku req, adj_wh req), mv_delta = sint (adj_delta req),
         mv_reason = adj_reason req, mv_source = adj_source req, mv_actor = ''system''\<rparr>]"
      "inv_keys J = inv_keys (record_key t (adj_key req) I)"
  using assms unfolding spec_AdjustStock_def Let_def
  by (auto split: if_splits)

section \<open>Units on hand\<close>

definition units :: "inventory \<Rightarrow> StockLocation \<Rightarrow> int" where
  "units I loc = (case inv_levels I loc of None \<Rightarrow> 0 | Some b \<Rightarrow> bucket_total b)"

lemma demand_unknown: "inv_levels I loc = None \<Longrightarrow> \<forall>l \<in> set ls. inv_levels I (line_loc t l) \<noteq> None \<Longrightarrow> demand t ls loc = 0"
  by (induction ls) auto

lemma units_run_moves:
  assumes "run_moves k c t ord ls (record_key t key I) = Some J"
  shows "units J loc = units I loc - (if k = MoveFulfill then demand t ls loc else 0)"
  using run_moves_SomeD(1,5) [OF assms] demand_unknown [of I loc ls t]
  by (auto simp: units_def move_bucket_total simp del: move_bucket.simps split: option.splits)

lemma units_adjust:
  "inv_levels J = (inv_levels I)(l \<mapsto> spec_adjust_bucket q (inv_levels I l)) \<Longrightarrow>
     units J loc = units I loc + (if loc = l then q else 0)"
  by (auto simp: units_def spec_adjust_bucket_def bucket_total_def split: option.splits)

end
