(* ===== verification/StockProps.thy ===== *)
theory StockProps
  imports StockRefine StockLaws
begin

text \<open>
  The properties of the stock service: it refines its specification under every fault, keeps the
  schema, conserves units, reserves all lines or none, applies a keyed request at most once, and
  never touches another tenant's rows.
\<close>

section \<open>The handlers implement the specification\<close>

lemma spec_WithTenantID [simp]:
  "spec_AdjustStock (WithTenantID c x) = spec_AdjustStock c"
  "spec_ReserveStock (WithTenantID c x) = spec_ReserveStock c"
  "spec_ReleaseStock (WithTenantID c x) = spec_ReleaseStock c"
  "spec_ConfirmStockAllocation (WithTenantID c x) = spec_ConfirmStockAllocation c"
  "spec_FulfillStock (WithTenantID c x) = spec_FulfillStock c"
proof -
  have nt: "move_notice k (WithTenantID c x) = move_notice k c" for k
    by (simp add: fun_eq_iff move_notice_def)
  have mv: "spec_move k (WithTenantID c x) = spec_move k c" for k
    unfolding spec_move_def [abs_def] nt ..
  show "spec_AdjustStock (WithTenantID c x) = spec_AdjustStock c"
    by (simp add: fun_eq_iff spec_AdjustStock_def Let_def)
  have reserve: "spec_reserve_line (WithTenantID c x) = spec_reserve_line c"
    unfolding spec_reserve_line_def [abs_def] mv ..
  show "spec_ReserveStock (WithTenantID c x) = spec_ReserveStock c"
    unfolding spec_ReserveStock_def [abs_def] reserve ..
  have release: "spec_release_line (WithTenantID c x) = spec_release_line c"
    unfolding spec_release_line_def [abs_def] mv ..
  show "spec_ReleaseStock (WithTenantID c x) = spec_ReleaseStock c"
    unfolding spec_ReleaseStock_def [abs_def] release ..
  have confirm: "spec_confirm_line (WithTenantID c x) = spec_confirm_line c"
    unfolding spec_confirm_line_def [abs_def] mv ..
  show "spec_ConfirmStockAllocation (WithTenantID c x) = spec_ConfirmStockAllocation c"
    unfolding spec_ConfirmStockAllocation_def [abs_def] confirm ..
  have fulfill: "spec_fulfill_line (WithTenantID c x) = spec_fulfill_line c"
    unfolding spec_fulfill_line_def [abs_def] mv ..
  show "spec_FulfillStock (WithTenantID c x) = spec_FulfillStock c"
    unfolding spec_FulfillStock_def [abs_def] fulfill ..
qed

lemma ParseUUID_simps [simp]:
  "ParseUUID L x = Inr t \<longleftrightarrow> uuid_scan L x = Some t"
  "uuid_scan L x = Some t \<Longrightarrow> ParseUUID L x = Inr t"
  by (auto simp: ParseUUID_def split: option.splits)

lemma AdjustStock_implements:
  assumes "AdjustStock L c req s = (r, s')" "uuid_scan L (adj_tenant req) = Some t" "stock_schema (data s)"
  shows "implements (\<lambda>I a J. \<exists>eid. spec_AdjustStock c t req eid I = Some (a, J)) (stock_inv s) r (stock_inv s')"
proof -
  from assms(1,2) have "catchE (ExecTxWithTenant L (WithTenantID c (adj_tenant req)) (adjust_body L (WithTenantID c (adj_tenant req)) t req)) (internal_error ''adjust stock: '') s = (r, s')"
    by (simp add: AdjustStock_def Let_def)
  then show ?thesis using assms(3,2) by (rule handler_implements) (drule (1) adjust_body_Inr, simp)
qed

lemma ReleaseStock_implements:
  assumes "ReleaseStock L c req s = (r, s')" "uuid_scan L (rls_tenant req) = Some t" "stock_schema (data s)"
  shows "implements (det (spec_ReleaseStock c t req)) (stock_inv s) r (stock_inv s')"
proof -
  from assms(1,2) have "catchE (ExecTxWithTenant L (WithTenantID c (rls_tenant req)) (release_body L (WithTenantID c (rls_tenant req)) t req)) (internal_error ''release stock: '') s = (r, s')"
    by (simp add: ReleaseStock_def Let_def)
  then show ?thesis using assms(3,2) by (rule handler_implements) (auto simp: det_def dest: simD [OF sim_release_body])
qed

lemma ConfirmStockAllocation_implements:
  assumes "ConfirmStockAllocation L c req s = (r, s')" "uuid_scan L (cnf_tenant req) = Some t"
    "stock_schema (data s)"
  shows "implements (det (spec_ConfirmStockAllocation c t req)) (stock_inv s) r (stock_inv s')"
proof -
  from assms(1,2) have "catchE (ExecTxWithTenant L (WithTenantID c (cnf_tenant req)) (confirm_body L (WithTenantID c (cnf_tenant req)) t req)) (internal_error ''confirm allocation: '') s = (r, s')"
    by (simp add: ConfirmStockAllocation_def Let_def)
  then show ?thesis using assms(3,2) by (rule handler_implements) (auto simp: det_def dest: simD [OF sim_confirm_body])
qed

lemma FulfillStock_implements:
  assumes "FulfillStock L c req s = (r, s')" "uuid_scan L (ful_tenant req) = Some t" "stock_schema (data s)"
  shows "implements (det (spec_FulfillStock c t req)) (stock_inv s) r (stock_inv s')"
proof -
  from assms(1,2) have "catchE (ExecTxWithTenant L (WithTenantID c (ful_tenant req)) (fulfill_body L (WithTenantID c (ful_tenant req)) t req)) (internal_error ''fulfill stock: '') s = (r, s')"
    by (simp add: FulfillStock_def Let_def)
  then show ?thesis using assms(3,2) by (rule handler_implements) (auto simp: det_def dest: simD [OF sim_fulfill_body])
qed

lemma UnlockStockForAudit_implements:
  assumes "UnlockStockForAudit L c req s = (r, s')" "uuid_scan L (unl_tenant req) = Some t"
    "stock_schema (data s)"
  shows "implements (det (spec_UnlockStockForAudit t req)) (stock_inv s) r (stock_inv s')"
proof -
  from assms(1,2) have "catchE (ExecTxWithTenant L (WithTenantID c (unl_tenant req)) (unlock_body t req)) (internal_error ''unlock for audit: '') s = (r, s')"
    by (simp add: UnlockStockForAudit_def Let_def)
  then show ?thesis using assms(3,2) by (rule handler_implements) (auto simp: det_def dest: simD [OF sim_unlock_body])
qed

lemma ReserveStock_implements:
  fixes s :: "(stock_db, 'x) sess"
  assumes run: "ReserveStock L c req s = (r, s')" and scan: "uuid_scan L (rsv_tenant req) = Some t"
    and sch: "stock_schema (data s)" and ne: "rsv_lines req \<noteq> []"
  shows "implements (det (spec_ReserveStock c t req)) (stock_inv s) r (stock_inv s')"
proof -
  let ?c = "WithTenantID c (rsv_tenant req)"
  let ?body = "reserve_body L ?c t req :: ('x, ReserveStockResponse) stx"
  let ?tx = "ExecTxWithTenant L ?c ?body"
  obtain r0 s0 where tx: "?tx s = (r0, s0)" by fastforce
  have imp: "implements (det (spec_ReserveStock c t req)) (stock_inv s) r0 (stock_inv s0)"
    using sch scan tx by (intro ExecTx_implements [of s L ?c t ?body]) (auto simp: det_def dest: reserve_body_Inr)
  from run scan ne tx have out: "s' = s0 \<and> (case r0 of Inr a \<Rightarrow> r = Inr a
      | Inl e \<Rightarrow> (case e of
           InsufficientStock failed \<Rightarrow> r = Inr \<lparr>rsvr_success = False, rsvr_failed = failed\<rparr>
         | _ \<Rightarrow> \<exists>e'. r = Inl e'))"
    by (auto simp: ReserveStock_def Let_def catchE_def internal_error_def split: sum.splits err.splits)
  show ?thesis
  proof (cases "\<exists>failed. r0 = Inl (InsufficientStock failed)")
    case True
    then obtain failed where r0: "r0 = Inl (InsufficientStock failed)" by blast
    with tx have tx': "?tx s = (Inl (InsufficientStock failed), s0)" by simp
    obtain s1 s2 :: "(stock_db, 'x) sess" where b: "?body s1 = (Inl (InsufficientStock failed), s2)" "data s1 = data s"
      "scope s1 = Scoped (uuid_scan L (ctx_tenant ?c))" "data s0 = data s"
      by (rule ExecTxWithTenant_Inl [OF tx']) simp_all
    then have "stock_ok t s1" using sch scan by (simp add: stock_ok_def)
    from reserve_body_insufficient [OF this b(1)] b(2,4) out r0 show ?thesis
      by (simp add: det_def)
  next
    case False
    with imp out show ?thesis by (cases r0) (auto split: err.splits)
  qed
qed

section \<open>The specification of a request\<close>

fun spec_serve :: "lib \<Rightarrow> ctx \<Rightarrow> stock_call \<Rightarrow> inventory \<Rightarrow> stock_reply \<Rightarrow> inventory \<Rightarrow> bool" where
  "spec_serve L c (CallAdjustStock req) I a J \<longleftrightarrow>
     (\<exists>t eid r. uuid_scan L (adj_tenant req) = Some t \<and> a = ReplyAdjustStock r \<and>
        spec_AdjustStock c t req eid I = Some (r, J))"
| "spec_serve L c (CallReserveStock req) I a J \<longleftrightarrow>
     (\<exists>t r. uuid_scan L (rsv_tenant req) = Some t \<and> rsv_lines req \<noteq> [] \<and> a = ReplyReserveStock r \<and>
        spec_ReserveStock c t req I = Some (r, J))"
| "spec_serve L c (CallReleaseStock req) I a J \<longleftrightarrow>
     (\<exists>t r. uuid_scan L (rls_tenant req) = Some t \<and> a = ReplyReleaseStock r \<and>
        spec_ReleaseStock c t req I = Some (r, J))"
| "spec_serve L c (CallConfirmStockAllocation req) I a J \<longleftrightarrow>
     (\<exists>t r. uuid_scan L (cnf_tenant req) = Some t \<and> a = ReplyConfirmStockAllocation r \<and>
        spec_ConfirmStockAllocation c t req I = Some (r, J))"
| "spec_serve L c (CallFulfillStock req) I a J \<longleftrightarrow>
     (\<exists>t r. uuid_scan L (ful_tenant req) = Some t \<and> a = ReplyFulfillStock r \<and>
        spec_FulfillStock c t req I = Some (r, J))"
| "spec_serve L c (CallUnlockStockForAudit req) I a J \<longleftrightarrow>
     (\<exists>t r. uuid_scan L (unl_tenant req) = Some t \<and> a = ReplyUnlockStockForAudit r \<and>
        spec_UnlockStockForAudit t req I = Some (r, J))"

lemma mapE_iff:
  "bindE m (\<lambda>a. returnE (f a)) s = (r, s') \<longleftrightarrow> (\<exists>r0. m s = (r0, s') \<and> r = map_sum id f r0)"
  by (auto simp: bindE_def split: prod.splits sum.splits)

lemma implements_map:
  assumes "implements F c r c'" "\<And>a. F c a c' \<Longrightarrow> G c (f a) c'"
  shows "implements G c (map_sum id f r) c'"
  using assms by (cases r) auto

lemma implements_nothing: "implements F c (Inl e) c"
  by simp

lemma bad_tenant:
  assumes "uuid_scan L x = None"
  shows "ParseUUID L x = Inl (PgErr (''invalid UUID '' @ x))"
  using assms by (simp add: ParseUUID_def)

text \<open>A request whose tenant is no UUID, or a reservation with no line, is rejected before any statement runs.\<close>

lemma bad_request:
  "uuid_scan L (adj_tenant ra) = None \<Longrightarrow> \<exists>m. AdjustStock L c ra s = (Inl (StatusErr InvalidArgument m), s)"
  "uuid_scan L (rsv_tenant rr) = None \<or> rsv_lines rr = [] \<Longrightarrow>
     \<exists>m. ReserveStock L c rr s = (Inl (StatusErr InvalidArgument m), s)"
  "uuid_scan L (rls_tenant rl) = None \<Longrightarrow> \<exists>m. ReleaseStock L c rl s = (Inl (StatusErr InvalidArgument m), s)"
  "uuid_scan L (cnf_tenant rc) = None \<Longrightarrow>
     \<exists>m. ConfirmStockAllocation L c rc s = (Inl (StatusErr InvalidArgument m), s)"
  "uuid_scan L (ful_tenant rf) = None \<Longrightarrow> \<exists>m. FulfillStock L c rf s = (Inl (StatusErr InvalidArgument m), s)"
  "uuid_scan L (unl_tenant ru) = None \<Longrightarrow>
     \<exists>m. UnlockStockForAudit L c ru s = (Inl (StatusErr InvalidArgument m), s)"
  by (auto simp: AdjustStock_def ReserveStock_def ReleaseStock_def ConfirmStockAllocation_def
      FulfillStock_def UnlockStockForAudit_def invalid_argument_def bad_tenant Let_def split: sum.splits)

lemma keeps_stock_serve: "keeps stock_schema (stock_serve L c call)"
  by (cases call) (auto simp: AdjustStock_def ReserveStock_def ReleaseStock_def ConfirmStockAllocation_def
      FulfillStock_def UnlockStockForAudit_def invalid_argument_def internal_error_def Let_def
      intro!: keeps_intros split: err.splits)

lemma serve_handler:
  assumes run: "bindE m (\<lambda>a. returnE (f a)) s = (r, s')"
    and rejected: "x = None \<Longrightarrow> \<exists>e. m s = (Inl e, s)"
    and handled: "\<And>t r0. x = Some t \<Longrightarrow> m s = (r0, s') \<Longrightarrow> implements (F t) (stock_inv s) r0 (stock_inv s')"
    and reply: "\<And>t a. x = Some t \<Longrightarrow> F t (stock_inv s) a (stock_inv s') \<Longrightarrow> G (stock_inv s) (f a) (stock_inv s')"
  shows "implements G (stock_inv s) r (stock_inv s')"
proof -
  from run obtain r0 where r0: "m s = (r0, s')" "r = map_sum id f r0" by (auto simp: mapE_iff)
  show ?thesis
  proof (cases x)
    case None
    with r0 rejected show ?thesis by auto
  next
    case (Some t)
    with handled [OF Some r0(1)] reply r0(2) show ?thesis by (auto elim!: implements_map)
  qed
qed

lemma stock_serve_implements:
  assumes sch: "stock_schema (data s)" and run: "stock_serve L c call s = (r, s')"
  shows "implements (spec_serve L c call) (stock_inv s) r (stock_inv s')"
proof (cases call)
  case (CallAdjustStock req)
  show ?thesis
    by (rule serve_handler [OF run [unfolded CallAdjustStock stock_serve.simps],
          where x = "uuid_scan L (adj_tenant req)" and
            F = "\<lambda>t I a J. \<exists>eid. spec_AdjustStock c t req eid I = Some (a, J)"])
      (use sch CallAdjustStock bad_request(1) [of L req c s] in \<open>auto intro: AdjustStock_implements\<close>)
next
  case (CallReserveStock req)
  show ?thesis
    by (rule serve_handler [OF run [unfolded CallReserveStock stock_serve.simps],
          where x = "if rsv_lines req = [] then None else uuid_scan L (rsv_tenant req)" and
            F = "\<lambda>t. det (spec_ReserveStock c t req)"])
      (use sch CallReserveStock bad_request(2) [of L req c s] in
        \<open>auto simp: det_def intro: ReserveStock_implements split: if_splits\<close>)
next
  case (CallReleaseStock req)
  show ?thesis
    by (rule serve_handler [OF run [unfolded CallReleaseStock stock_serve.simps],
          where x = "uuid_scan L (rls_tenant req)" and F = "\<lambda>t. det (spec_ReleaseStock c t req)"])
      (use sch CallReleaseStock bad_request(3) [of L req c s] in \<open>auto simp: det_def intro: ReleaseStock_implements\<close>)
next
  case (CallConfirmStockAllocation req)
  show ?thesis
    by (rule serve_handler [OF run [unfolded CallConfirmStockAllocation stock_serve.simps],
          where x = "uuid_scan L (cnf_tenant req)" and F = "\<lambda>t. det (spec_ConfirmStockAllocation c t req)"])
      (use sch CallConfirmStockAllocation bad_request(4) [of L req c s] in
        \<open>auto simp: det_def intro: ConfirmStockAllocation_implements\<close>)
next
  case (CallFulfillStock req)
  show ?thesis
    by (rule serve_handler [OF run [unfolded CallFulfillStock stock_serve.simps],
          where x = "uuid_scan L (ful_tenant req)" and F = "\<lambda>t. det (spec_FulfillStock c t req)"])
      (use sch CallFulfillStock bad_request(5) [of L req c s] in \<open>auto simp: det_def intro: FulfillStock_implements\<close>)
next
  case (CallUnlockStockForAudit req)
  show ?thesis
    by (rule serve_handler [OF run [unfolded CallUnlockStockForAudit stock_serve.simps],
          where x = "uuid_scan L (unl_tenant req)" and F = "\<lambda>t. det (spec_UnlockStockForAudit t req)"])
      (use sch CallUnlockStockForAudit bad_request(6) [of L req c s] in
        \<open>auto simp: det_def intro: UnlockStockForAudit_implements\<close>)
qed

section \<open>A concrete shop\<close>

text \<open>
  Concrete library functions, a schedule on which nothing fails and a small database, on which
  the witnesses evaluate the definitions.
\<close>

definition sample_lib :: lib where
  "sample_lib = \<lparr>uuid_scan = (\<lambda>x. if x = '''' then None else Some x), proto_hash = (\<lambda>m. ''h''),
     jsonb_in = (\<lambda>x. Some (JStr x)), rpc_trace = id\<rparr>"

definition sample_ctx :: ctx where
  "sample_ctx = \<lparr>ctx_tenant = '''', ctx_traceparent = ''tp''\<rparr>"

definition calm :: "nat \<Rightarrow> stmt_env" where
  "calm i = \<lparr>fault = None, fresh = replicate i CHR ''u'', clock = int i, busy = (\<lambda>_. False)\<rparr>"

definition calm_sess :: "'d \<Rightarrow> 'x \<Rightarrow> ('d, 'x) sess" where
  "calm_sess d x = \<lparr>data = d, ext = x, scope = Scoped None, sched = calm, pos = 0\<rparr>"

definition sample_level :: StockLevel where
  "sample_level = \<lparr>lv_available = 10, lv_reserved = 2, lv_allocated = 1, lv_locked = False, lv_updated = 0\<rparr>"

definition sample_stock :: stock_db where
  "sample_stock = \<lparr>stock_levels = [(''t'', ''a'', ''w'') \<mapsto> sample_level,
      (''t'', ''b'', ''w'') \<mapsto> sample_level\<lparr>lv_locked := True\<rparr>],
     stock_events = [], stock_outbox = [], stock_keys = []\<rparr>"

definition sample_line :: "string \<Rightarrow> int32 \<Rightarrow> StockLine" where
  "sample_line sku q = \<lparr>sl_sku = sku, sl_wh = ''w'', sl_qty = q\<rparr>"

definition sample_reserve :: "StockLine list \<Rightarrow> ReserveStockRequest" where
  "sample_reserve ls = \<lparr>rsv_tenant = ''t'', rsv_order = ''o'', rsv_key = ''k'', rsv_lines = ls\<rparr>"

lemma sample_schema: "stock_schema sample_stock"
  by (auto simp: stock_schema_def sample_stock_def level_check_def sample_level_def keys_unique_def
      outbox_unique_def split: if_splits)

lemma sample_simps:
  "\<not> key_seen t k (inventory_of sample_stock)" "uuid_scan sample_lib ''t'' = Some ''t''"
  "rsv_key (sample_reserve ls) = ''k''" "rsv_tenant (sample_reserve ls) = ''t''" "rsv_lines (sample_reserve ls) = ls"
  by (simp_all add: key_seen_def sample_stock_def sample_lib_def sample_reserve_def)

lemma data_calm_sess [simp]: "data (calm_sess d x) = d"
  by (simp add: calm_sess_def)

lemma quiet_calm_sess [simp]: "quiet (calm_sess d x)"
  by (simp add: calm_sess_def quiet_def calm_def)

section \<open>Properties\<close>

text \<open>
  C1: The stock service refines its specification, whatever fails. From tables that satisfy the
  schema, any of the six requests leaves tables that satisfy it; a response is the specification's
  response and the specified step happened exactly; after an error the specified step happened
  entirely (the acknowledgement of the commit was lost) or not at all.
\<close>

theorem stock_service_refines:
  assumes "stock_schema (data s)" and "stock_serve L c call s = (r, s')"
  shows "stock_schema (data s') \<and> implements (spec_serve L c call) (stock_inv s) r (stock_inv s')"
  using assms keeps_step [OF keeps_stock_serve assms(2)] stock_serve_implements by blast

theorem stock_service_refines_witness:
  "let call = CallReserveStock (sample_reserve [sample_line ''a'' 4]); s = calm_sess sample_stock ();
       r = stock_serve sample_lib sample_ctx call s in
   stock_schema (data (snd r)) \<and> fst r = Inr (ReplyReserveStock \<lparr>rsvr_success = True, rsvr_failed = []\<rparr>) \<and>
   spec_serve sample_lib sample_ctx call (stock_inv s) (ReplyReserveStock \<lparr>rsvr_success = True, rsvr_failed = []\<rparr>)
     (stock_inv (snd r))"
proof -
  let ?call = "CallReserveStock (sample_reserve [sample_line ''a'' 4])"
  let ?s = "calm_sess sample_stock ()"
  have r: "fst (stock_serve sample_lib sample_ctx ?call ?s) = Inr (ReplyReserveStock \<lparr>rsvr_success = True, rsvr_failed = []\<rparr>)"
    by code_simp
  show ?thesis
    using stock_service_refines [of ?s sample_lib sample_ctx ?call, OF _ surjective_pairing] r
    by (simp add: Let_def sample_schema del: stock_serve.simps spec_serve.simps)
qed

definition units_change :: "lib \<Rightarrow> stock_call \<Rightarrow> StockLocation \<Rightarrow> int" where
  "units_change L call loc =
     (case call of
        CallAdjustStock req \<Rightarrow>
          if uuid_scan L (adj_tenant req) = Some (fst loc) \<and> snd loc = (adj_sku req, adj_wh req)
          then sint (adj_delta req) else 0
      | CallFulfillStock req \<Rightarrow>
          (case uuid_scan L (ful_tenant req) of None \<Rightarrow> 0 | Some t \<Rightarrow> - demand t (ful_lines req) loc)
      | _ \<Rightarrow> 0)"

lemma spec_serve_units:
  assumes "spec_serve L c call I a J"
  shows "(\<forall>loc. units J loc = units I loc) \<or> (\<forall>loc. units J loc = units I loc + units_change L call loc)"
proof (cases call)
  case (CallAdjustStock req)
  with assms obtain t eid r where t: "uuid_scan L (adj_tenant req) = Some t"
    and "spec_AdjustStock c t req eid I = Some (r, J)" by auto
  from this(2) show ?thesis
  proof (cases rule: spec_AdjustStock_cases)
    case (adjusted b)
    with CallAdjustStock t show ?thesis
      by (intro disjI2) (auto simp: units_adjust units_change_def)
  qed simp
next
  case (CallFulfillStock req)
  with assms obtain t r where t: "uuid_scan L (ful_tenant req) = Some t"
    and "spec_FulfillStock c t req I = Some (r, J)" by auto
  from this(2) show ?thesis
  proof (cases rule: spec_FulfillStock_cases)
    case moved
    with CallFulfillStock t show ?thesis
      by (intro disjI2 allI) (simp add: units_run_moves units_change_def)
  qed simp
next
  case (CallUnlockStockForAudit req)
  with assms show ?thesis
    by (intro disjI1 allI)
      (auto simp: spec_UnlockStockForAudit_def units_def bucket_total_def Let_def split: option.splits if_splits)
qed (use assms in \<open>auto simp: units_run_moves elim!: spec_ReserveStock_cases spec_ReleaseStock_cases
      spec_ConfirmStockAllocation_cases\<close>)

text \<open>
  C6: Units are conserved. Whatever request runs and whatever fails, the units on hand (available,
  reserved and allocated together) stay as they are at every location, or change at every location
  by exactly what the request says: an adjustment adds its delta, a fulfilment removes the
  quantities of its lines, and reserving, releasing, allocating and unlocking move units without
  creating or losing any. In particular no \<^verbatim>\<open>int32\<close> arithmetic of the handlers wraps around in a
  committed row.
\<close>

theorem stock_units_conserved:
  assumes "stock_schema (data s)" and "stock_serve L c call s = (r, s')"
  shows "(\<forall>loc. units (stock_inv s') loc = units (stock_inv s) loc) \<or>
    (\<forall>loc. units (stock_inv s') loc = units (stock_inv s) loc + units_change L call loc)"
  using implements_outcome [OF stock_serve_implements [OF assms]]
proof
  assume "\<exists>a. spec_serve L c call (stock_inv s) a (stock_inv s')"
  then show ?thesis using spec_serve_units by blast
qed simp

theorem stock_units_conserved_witness:
  "let call = CallFulfillStock \<lparr>ful_tenant = ''t'', ful_order = ''o'', ful_key = ''k'',
         ful_lines = [sample_line ''a'' 1]\<rparr>;
       s = calm_sess sample_stock (); s' = snd (stock_serve sample_lib sample_ctx call s);
       loc = (''t'', ''a'', ''w'') in
   units (stock_inv s) loc = 13 \<and> units (stock_inv s') loc = 12 \<and>
   units (stock_inv s') loc = units (stock_inv s) loc + units_change sample_lib call loc"
proof -
  let ?call = "CallFulfillStock \<lparr>ful_tenant = ''t'', ful_order = ''o'', ful_key = ''k'',
         ful_lines = [sample_line ''a'' 1]\<rparr>"
  let ?s = "calm_sess sample_stock ()"
  let ?loc = "(''t'', ''a'', ''w'')"
  have "units (stock_inv ?s) ?loc = 13" by code_simp
  moreover have "units (stock_inv (snd (stock_serve sample_lib sample_ctx ?call ?s))) ?loc = 12" by code_simp
  moreover have "stock_schema (data ?s)" by (simp add: sample_schema)
  ultimately show ?thesis
    using stock_units_conserved [of ?s sample_lib sample_ctx ?call, OF _ surjective_pairing]
    by (fastforce simp: Let_def)
qed

text \<open>
  C7: A reservation takes all of its lines or none. A successful \<^verbatim>\<open>ReserveStock\<close> under a key not
  yet used moves, at every location, exactly the demanded quantity from available to reserved
  (never more than was available), and logs and publishes every line in lock order; an
  unsuccessful one changes no row and names the SKUs that are short.
\<close>

theorem reserve_all_or_nothing:
  assumes "ReserveStock L c req s = (Inr resp, s')" and "stock_schema (data s)"
    and "uuid_scan L (rsv_tenant req) = Some t" and "\<not> key_seen t (rsv_key req) (stock_inv s)"
  shows "if rsvr_success resp
    then (\<forall>loc. inv_levels (stock_inv s') loc =
            map_option (move_bucket MoveReserve (demand t (rsv_lines req) loc)) (inv_levels (stock_inv s) loc)) \<and>
         (\<forall>loc b. inv_levels (stock_inv s) loc = Some b \<longrightarrow> demand t (rsv_lines req) loc \<le> bk_available b) \<and>
         inv_log (stock_inv s') = inv_log (stock_inv s) @
           map (move_movement MoveReserve t (rsv_order req)) (sortedLines (rsv_lines req)) \<and>
         inv_out (stock_inv s') = inv_out (stock_inv s) @
           map (move_notice MoveReserve c t (rsv_order req)) (sortedLines (rsv_lines req)) \<and>
         rsvr_failed resp = []
    else stock_inv s' = stock_inv s \<and> rsvr_failed resp \<noteq> []"
proof -
  have ne: "rsv_lines req \<noteq> []" using assms(1) bad_request(2) [of L req c s] by force
  have sch': "stock_schema (data s')"
    using assms(1,2) keeps_step [OF keeps_stock_serve [of L c "CallReserveStock req"], of s] by simp
  have "spec_ReserveStock c t req (stock_inv s) = Some (resp, stock_inv s')"
    using ReserveStock_implements [OF assms(1,3,2) ne] by (simp add: det_def)
  then show ?thesis
  proof (cases rule: spec_ReserveStock_cases)
    case moved
    note d = run_moves_SomeD [OF moved(3)]
    have "demand t (rsv_lines req) loc \<le> bk_available b" if b: "inv_levels (stock_inv s) loc = Some b" for loc b
    proof -
      obtain l where "stock_levels (data s') loc = Some l" "bucket_of l = move_bucket MoveReserve (demand t (rsv_lines req) loc) b"
        using d(1) [of loc] b by auto
      moreover from this(1) have "0 \<le> bk_available (bucket_of l)"
        using stock_schema_level [OF sch'] by (simp add: level_check_def bucket_of_def)
      ultimately show ?thesis by simp
    qed
    with moved d show ?thesis by simp
  qed (use assms(4) in simp_all)
qed

theorem reserve_all_or_nothing_witness:
  "let req = sample_reserve [sample_line ''a'' 4, sample_line ''a'' 5]; s = calm_sess sample_stock ();
       s' = snd (ReserveStock sample_lib sample_ctx req s) in
   inv_levels (stock_inv s') (''t'', ''a'', ''w'') =
     Some \<lparr>bk_available = 1, bk_reserved = 11, bk_allocated = 1, bk_locked = False\<rparr>"
proof -
  let ?req = "sample_reserve [sample_line ''a'' 4, sample_line ''a'' 5]"
  let ?s = "calm_sess sample_stock ()"
  let ?r = "ReserveStock sample_lib sample_ctx ?req ?s"
  let ?loc = "(''t'', ''a'', ''w'')"
  have r: "?r = (Inr \<lparr>rsvr_success = True, rsvr_failed = []\<rparr>, snd ?r)"
    by (rule prod_eqI) (simp_all only: fst_conv snd_conv, code_simp)
  have k: "\<not> key_seen ''t'' (rsv_key ?req) (stock_inv ?s)" "uuid_scan sample_lib (rsv_tenant ?req) = Some ''t''"
    "stock_schema (data ?s)"
    by (simp_all only: data_calm_sess sample_simps sample_schema simp_thms)
  have "inv_levels (stock_inv (snd ?r)) ?loc =
      map_option (move_bucket MoveReserve (demand ''t'' (rsv_lines ?req) ?loc)) (inv_levels (stock_inv ?s) ?loc)"
    using reserve_all_or_nothing [OF r k(3,2,1)] by (simp del: inventory_of_simps)
  moreover have "demand ''t'' (rsv_lines ?req) ?loc = 9" by code_simp
  moreover have "inv_levels (stock_inv ?s) ?loc =
      Some \<lparr>bk_available = 10, bk_reserved = 2, bk_allocated = 1, bk_locked = False\<rparr>" by code_simp
  ultimately show ?thesis by (simp only: Let_def option.map move_bucket.simps) simp
qed

text \<open>
  C32: The list of short SKUs is exact. When the lines name distinct locations, \<^verbatim>\<open>ReserveStock\<close> under
  a fresh key succeeds exactly if every line's location exists, is not locked for audit and has the
  quantity available; otherwise it reports, in lock order, exactly the SKUs of the lines for which
  this is not so.
\<close>

theorem reserve_reports_short_lines:
  assumes "ReserveStock L c req s = (Inr resp, s')" and "stock_schema (data s)"
    and "uuid_scan L (rsv_tenant req) = Some t" and "\<not> key_seen t (rsv_key req) (stock_inv s)"
    and "distinct (map (line_loc t) (rsv_lines req))"
  shows "rsvr_failed resp =
      map sl_sku (filter (\<lambda>l. \<not> line_reservable t (stock_inv s) l) (sortedLines (rsv_lines req))) \<and>
    (rsvr_success resp \<longleftrightarrow> (\<forall>l \<in> set (rsv_lines req). line_reservable t (stock_inv s) l))"
proof -
  have ne: "rsv_lines req \<noteq> []" using assms(1) bad_request(2) [of L req c s] by force
  have "distinct (map (line_loc t) (sortedLines (rsv_lines req)))"
    using assms(5) by (metis distinct_map mset_eq_imp_distinct_iff mset_map mset_sortedLines)
  moreover have "line_reservable t (record_key t k I) l = line_reservable t I l" for k I l
    by (simp add: line_reservable_def)
  moreover have "spec_ReserveStock c t req (stock_inv s) = Some (resp, stock_inv s')"
    using ReserveStock_implements [OF assms(1,3,2) ne] by (simp add: det_def)
  ultimately have "rsvr_failed resp =
      map sl_sku (filter (\<lambda>l. \<not> line_reservable t (stock_inv s) l) (sortedLines (rsv_lines req))) \<and>
    (rsvr_success resp \<longleftrightarrow> rsvr_failed resp = [])"
    using assms(4)
    by (auto simp: spec_ReserveStock_def split: option.splits if_splits
        simp del: concat_eq_Nil_conv dest!: run_reserve_lines_failed)
  then show ?thesis by (auto simp: filter_empty_conv)
qed

theorem reserve_reports_short_lines_witness:
  "let req = sample_reserve [sample_line ''b'' 1, sample_line ''a'' 11]; s = calm_sess sample_stock () in
   fst (ReserveStock sample_lib sample_ctx req s) = Inr \<lparr>rsvr_success = False, rsvr_failed = [''a'', ''b'']\<rparr> \<and>
   map sl_sku (filter (\<lambda>l. \<not> line_reservable ''t'' (stock_inv s) l) (sortedLines (rsv_lines req))) = [''a'', ''b'']"
proof -
  let ?req = "sample_reserve [sample_line ''b'' 1, sample_line ''a'' 11]"
  let ?s = "calm_sess sample_stock ()"
  let ?r = "ReserveStock sample_lib sample_ctx ?req ?s"
  have f: "fst ?r = Inr \<lparr>rsvr_success = False, rsvr_failed = [''a'', ''b'']\<rparr>" by code_simp
  then have r: "?r = (Inr \<lparr>rsvr_success = False, rsvr_failed = [''a'', ''b'']\<rparr>, snd ?r)"
    by (metis prod.collapse)
  have k: "\<not> key_seen ''t'' (rsv_key ?req) (stock_inv ?s)" "uuid_scan sample_lib (rsv_tenant ?req) = Some ''t''"
    "stock_schema (data ?s)" "distinct (map (line_loc ''t'') (rsv_lines ?req))"
    by (simp_all only: data_calm_sess sample_simps sample_schema) (simp_all add: sample_line_def)
  show ?thesis
    using reserve_reports_short_lines [OF r k(3,2,1,4)] f by (simp add: Let_def)
qed

end
