(* ===== verification/StockDelivery.thy ===== *)
theory StockDelivery
  imports StockProps
begin

text \<open>
  Deliveries of stock requests: a keyed request has at most one effect however often it is delivered,
  a request never touches another tenant's rows, and the audit lock keeps a location from being
  reserved.
\<close>

section \<open>The key is in the ledger\<close>

definition key_in :: "uuid \<Rightarrow> string \<Rightarrow> stock_db \<Rightarrow> bool" where
  "key_in t k d \<longleftrightarrow> find_key t k (stock_keys d) \<noteq> None"

lemma insert_key_keeps:
  "insert_key t' k' h e sc ks = Inr (x, ks') \<Longrightarrow> find_key t k ks \<noteq> None \<Longrightarrow> find_key t k ks' \<noteq> None"
  by (auto dest!: insert_key_Inr)

lemma keeps_key_in [keeps_intros]:
  "keeps (key_in t k) (CheckAndInsertIdempotencyKey t' k' h)"
  "keeps (key_in t k) (GetStockLevelForUpdate loc)"
  "keeps (key_in t k) (UpdateStockLevel loc l)"
  "keeps (key_in t k) (UpsertStockLevel loc q)"
  "keeps (key_in t k) (SetAuditLock loc b)"
  "keeps (key_in t k) (InsertStockEvent loc dl rs src ac)"
  "keeps (key_in t k) (InsertOutboxEvent t' at ai et pl tr)"
proof -
  show "keeps (key_in t k) (CheckAndInsertIdempotencyKey t' k' h)"
    unfolding CheckAndInsertIdempotencyKey_def key_in_def
    by (rule keeps_stmt) (auto split: sum.splits dest: insert_key_keeps)
qed (auto simp: GetStockLevelForUpdate_def UpdateStockLevel_def UpsertStockLevel_def SetAuditLock_def
      InsertStockEvent_def InsertOutboxEvent_def key_in_def Let_def
      intro!: keeps_stmt split: if_splits option.splits sum.splits)

lemma keeps_status [keeps_intros]: "keeps P (internal_error w e)" "keeps P (invalid_argument m)"
  unfolding internal_error_def invalid_argument_def by (intro keeps_intros)+

lemma frame_status [frame_intros]: "frame g (internal_error w e)" "frame g (invalid_argument m)"
  unfolding internal_error_def invalid_argument_def by (intro frame_intros)+

lemmas stock_handler_defs = AdjustStock_def ReserveStock_def ReleaseStock_def ConfirmStockAllocation_def
  FulfillStock_def UnlockStockForAudit_def

lemmas stock_line_defs = reserve_line_def release_line_def confirm_line_def fulfill_line_def

lemma keeps_err_case [keeps_intros]:
  assumes "\<And>ss. keeps P (m ss)" "\<And>e. keeps P (n e)"
  shows "keeps P (case e of InsufficientStock ss \<Rightarrow> m ss | e \<Rightarrow> n e)"
  using assms by (cases e) auto

lemma keeps_key_in_lines [keeps_intros]:
  "keeps (key_in t k) (reserve_line c t' ord l)" "keeps (key_in t k) (release_line c t' ord rsn l)"
  "keeps (key_in t k) (confirm_line c t' ord l)" "keeps (key_in t k) (fulfill_line c t' ord l)"
  unfolding stock_line_defs Let_def by (intro keeps_intros)+

lemma keeps_key_in_bodies [keeps_intros]:
  "keeps (key_in t k) (tryIdempotency L t' k' msg)" "keeps (key_in t k) (adjust_write c t' ra)"
  unfolding tryIdempotency_def adjust_write_def adjust_apply_def Let_def by (intro keeps_intros)+

lemma keeps_key_in_serve: "keeps (key_in t k) (stock_serve L c call)"
  by (cases call; simp only: stock_serve.simps stock_handler_defs adjust_body_def reserve_body_def
      release_body_def confirm_body_def fulfill_body_def unlock_body_def Let_def; intro keeps_intros)

section \<open>A keyed transaction\<close>

lemma frame_data_Get: "frame data (GetStockLevelForUpdate loc)"
  unfolding frame_def GetStockLevelForUpdate_def stmt_def Let_def
  by (auto split: option.splits sum.splits prod.splits if_splits)

lemma tryIdempotency_eq:
  "tryIdempotency L t k msg = seen_key CheckAndInsertIdempotencyKey t k (PayloadHash L msg)"
  by (simp add: tryIdempotency_def seen_key_def)

lemma catchE_data:
  assumes "catchE m h s = (r, s')" "\<And>e. frame data (h e)"
  obtains r0 s0 where "m s = (r0, s0)" "data s' = data s0"
  using assms by (auto simp: catchE_def split: prod.splits sum.splits dest: frameD)

lemma keyed_handler:
  assumes "catchE (ExecTxWithTenant L c (bindE (tryIdempotency L t k msg) F)) h s = (r, s')" "k \<noteq> ''''"
    and "frame data (F True)" "keeps (key_in t k) (F False)" "\<And>e. frame data (h e)"
  shows "data s' = data s \<or> key_in t k (data s') \<and> \<not> key_in t k (data s)"
proof -
  obtain r0 s0 where tx: "ExecTxWithTenant L c (bindE (tryIdempotency L t k msg) F) s = (r0, s0)"
    and d: "data s' = data s0" using catchE_data [OF assms(1,5)] by blast
  from assms(4) have "keeps (\<lambda>d. find_key t k (stock_keys d) \<noteq> None) (F False)"
    by (simp add: keeps_def key_in_def)
  from stock_ledger.keyed_tx [OF tx [unfolded tryIdempotency_eq] assms(2,3) this] d show ?thesis
    by (simp add: key_in_def)
qed

section \<open>At most one effect\<close>

definition call_key :: "lib \<Rightarrow> stock_call \<Rightarrow> (uuid \<times> string) option" where
  "call_key L call =
     (case call of
        CallAdjustStock req \<Rightarrow> map_option (\<lambda>t. (t, adj_key req)) (uuid_scan L (adj_tenant req))
      | CallReserveStock req \<Rightarrow> map_option (\<lambda>t. (t, rsv_key req)) (uuid_scan L (rsv_tenant req))
      | CallReleaseStock req \<Rightarrow> map_option (\<lambda>t. (t, rls_key req)) (uuid_scan L (rls_tenant req))
      | CallConfirmStockAllocation req \<Rightarrow> map_option (\<lambda>t. (t, cnf_key req)) (uuid_scan L (cnf_tenant req))
      | CallFulfillStock req \<Rightarrow> map_option (\<lambda>t. (t, ful_key req)) (uuid_scan L (ful_tenant req))
      | CallUnlockStockForAudit req \<Rightarrow> None)"

lemma mapE_data: "data (snd (bindE m (\<lambda>a. returnE (f a)) s)) = data (snd (m s))"
  by (auto simp: bindE_def split: prod.splits sum.splits)

lemma frame_reserve_catch:
  "frame data (case e of InsufficientStock failed \<Rightarrow> returnE (f failed) | _ \<Rightarrow> internal_error w e)"
  by (cases e) (auto intro!: frame_intros)

lemma keyed_call:
  assumes "call_key L call = Some (t, k)" "k \<noteq> ''''"
  shows "data (snd (stock_serve L c call s)) = data s \<or>
    key_in t k (data (snd (stock_serve L c call s))) \<and> \<not> key_in t k (data s)"
proof (cases call)
  case (CallAdjustStock req)
  with assms have t: "uuid_scan L (adj_tenant req) = Some t" "adj_key req = k" by (auto simp: call_key_def)
  have "data (snd (AdjustStock L c req s)) = data s \<or>
      key_in t k (data (snd (AdjustStock L c req s))) \<and> \<not> key_in t k (data s)"
    using t assms(2) unfolding AdjustStock_def adjust_body_def Let_def
    by (simp add: keyed_handler [OF surjective_pairing] keeps_intros frame_intros frame_data_Get)
  then show ?thesis by (simp add: CallAdjustStock mapE_data)
next
  case (CallReserveStock req)
  with assms have t: "uuid_scan L (rsv_tenant req) = Some t" "rsv_key req = k" by (auto simp: call_key_def)
  have "data (snd (ReserveStock L c req s)) = data s \<or>
      key_in t k (data (snd (ReserveStock L c req s))) \<and> \<not> key_in t k (data s)"
  proof (cases "rsv_lines req = []")
    case True
    with bad_request(2) [of L req c s] show ?thesis by auto
  next
    case False
    with t assms(2) show ?thesis
      unfolding ReserveStock_def reserve_body_def Let_def
      by (simp only: ParseUUID_simps(2) sum.case sortedLines_Nil if_False)
        (rule keyed_handler [OF surjective_pairing], auto intro!: keeps_intros frame_intros frame_reserve_catch)
  qed
  then show ?thesis by (simp add: CallReserveStock mapE_data)
next
  case (CallReleaseStock req)
  with assms have t: "uuid_scan L (rls_tenant req) = Some t" "rls_key req = k" by (auto simp: call_key_def)
  with assms(2) CallReleaseStock show ?thesis
    by (simp add: mapE_data ReleaseStock_def release_body_def Let_def
        keyed_handler [OF surjective_pairing] keeps_intros frame_intros)
next
  case (CallConfirmStockAllocation req)
  with assms have t: "uuid_scan L (cnf_tenant req) = Some t" "cnf_key req = k" by (auto simp: call_key_def)
  with assms(2) CallConfirmStockAllocation show ?thesis
    by (simp add: mapE_data ConfirmStockAllocation_def confirm_body_def Let_def
        keyed_handler [OF surjective_pairing] keeps_intros frame_intros)
next
  case (CallFulfillStock req)
  with assms have t: "uuid_scan L (ful_tenant req) = Some t" "ful_key req = k" by (auto simp: call_key_def)
  with assms(2) CallFulfillStock show ?thesis
    by (simp add: mapE_data FulfillStock_def fulfill_body_def Let_def
        keyed_handler [OF surjective_pairing] keeps_intros frame_intros)
qed (use assms in \<open>auto simp: call_key_def\<close>)

definition deliver :: "lib \<Rightarrow> ctx \<times> stock_call \<Rightarrow> (stock_db, 'x) sess \<Rightarrow> (stock_db, 'x) sess" where
  "deliver L = (\<lambda>(c, call) s. snd (stock_serve L c call s))"

interpretation stock_once: retry_safe
  "deliver L" "\<lambda>op. call_key L (snd op) = Some (t, ch # k)" "\<lambda>s. key_in t (ch # k) (data s)" data
  for L t ch k
proof unfold_locales
  fix op :: "ctx \<times> stock_call" and s :: "(stock_db, 'a) sess"
  obtain c call where op: "op = (c, call)" by fastforce
  show "key_in t (ch # k) (data s) \<Longrightarrow> key_in t (ch # k) (data (deliver L op s))"
    unfolding op deliver_def by (auto intro: keepsD [OF keeps_key_in_serve])
  assume "call_key L (snd op) = Some (t, ch # k)"
  then have *: "data (deliver L op s) = data s \<or>
      key_in t (ch # k) (data (deliver L op s)) \<and> \<not> key_in t (ch # k) (data s)"
    using keyed_call [of L call t "ch # k" c s] by (simp add: op deliver_def)
  show "key_in t (ch # k) (data s) \<Longrightarrow> data (deliver L op s) = data s" using * by blast
  show "data (deliver L op s) \<noteq> data s \<Longrightarrow> key_in t (ch # k) (data (deliver L op s))" using * by blast
qed

text \<open>
  C4: A keyed request has at most one effect. Take any sequence of requests to the stock service,
  each with any of its statements, its commit or the acknowledgement of its commit failing: of all
  the deliveries that carry one tenant's non-empty idempotency key, at most one changes a table.
\<close>

theorem stock_key_at_most_once:
  assumes "k \<noteq> ''''"
  shows "effects (deliver L) (\<lambda>(c, call). call_key L call = Some (t, k)) data ops s \<le> 1"
proof -
  from assms obtain ch k' where "k = ch # k'" by (cases k) auto
  then show ?thesis
    using stock_once.at_most_one_effect [of L t ch k' ops s] by (simp add: case_prod_beta')
qed

theorem stock_key_at_most_once_witness:
  "let call = CallReserveStock (sample_reserve [sample_line ''a'' 4]);
       s = (calm_sess sample_stock ())\<lparr>sched := (\<lambda>i. if i = 6 then (calm i)\<lparr>fault := Some (Lost ''reset'')\<rparr> else calm i)\<rparr> in
   effects (deliver sample_lib) (\<lambda>(c, call). call_key sample_lib call = Some (''t'', ''k'')) data
     [(sample_ctx, call), (sample_ctx, call)] s \<le> 1 \<and>
   map_option bk_reserved (inv_levels (stock_inv (fold (deliver sample_lib) [(sample_ctx, call), (sample_ctx, call)] s))
     (''t'', ''a'', ''w'')) = Some 6 \<and>
   isl (fst (stock_serve sample_lib sample_ctx call s))"
proof -
  let ?call = "CallReserveStock (sample_reserve [sample_line ''a'' 4])"
  let ?s = "(calm_sess sample_stock ())\<lparr>sched := (\<lambda>i. if i = 6 then (calm i)\<lparr>fault := Some (Lost ''reset'')\<rparr> else calm i)\<rparr>"
  have "map_option bk_reserved (inv_levels (stock_inv (fold (deliver sample_lib) [(sample_ctx, ?call), (sample_ctx, ?call)] ?s))
     (''t'', ''a'', ''w'')) = Some 6" by code_simp
  moreover have "isl (fst (stock_serve sample_lib sample_ctx ?call ?s))" by code_simp
  ultimately show ?thesis
    using stock_key_at_most_once [of "''k''" sample_lib "''t''" "[(sample_ctx, ?call), (sample_ctx, ?call)]" ?s]
    by (simp add: Let_def del: inventory_of_simps stock_serve.simps)
qed

section \<open>Tenants\<close>

definition rows_of ::
  "uuid \<Rightarrow> stock_db \<Rightarrow> (string \<times> string \<Rightarrow> StockLevel option) \<times> StockEvent list \<times> Outbox list
    \<times> ProcessedIdempotencyKey list" where
  "rows_of u d = (\<lambda>(sku, wh). stock_levels d (u, sku, wh), filter (\<lambda>e. ev_tenant e = u) (stock_events d),
     filter (\<lambda>r. ob_tenant r = u) (stock_outbox d), filter (\<lambda>r. ik_tenant r = u) (stock_keys d))"

definition call_tenant :: "lib \<Rightarrow> stock_call \<Rightarrow> uuid option" where
  "call_tenant L call =
     (case call of
        CallAdjustStock req \<Rightarrow> uuid_scan L (adj_tenant req)
      | CallReserveStock req \<Rightarrow> uuid_scan L (rsv_tenant req)
      | CallReleaseStock req \<Rightarrow> uuid_scan L (rls_tenant req)
      | CallConfirmStockAllocation req \<Rightarrow> uuid_scan L (cnf_tenant req)
      | CallFulfillStock req \<Rightarrow> uuid_scan L (ful_tenant req)
      | CallUnlockStockForAudit req \<Rightarrow> uuid_scan L (unl_tenant req))"

lemma keeps_rows_of [keeps_intros]:
  assumes "t \<noteq> u"
  shows "keeps (\<lambda>d. rows_of u d = X) (CheckAndInsertIdempotencyKey t k h)"
    "keeps (\<lambda>d. rows_of u d = X) (GetStockLevelForUpdate (t, sku, wh))"
    "keeps (\<lambda>d. rows_of u d = X) (UpdateStockLevel (t, sku, wh) l)"
    "keeps (\<lambda>d. rows_of u d = X) (UpsertStockLevel (t, sku, wh) q)"
    "keeps (\<lambda>d. rows_of u d = X) (SetAuditLock (t, sku, wh) b)"
    "keeps (\<lambda>d. rows_of u d = X) (InsertStockEvent (t, sku, wh) dl rs src ac)"
    "keeps (\<lambda>d. rows_of u d = X) (InsertOutboxEvent t at ai et pl tr)"
  using assms
  by (auto simp: CheckAndInsertIdempotencyKey_def GetStockLevelForUpdate_def UpdateStockLevel_def
      UpsertStockLevel_def SetAuditLock_def InsertStockEvent_def InsertOutboxEvent_def rows_of_def Let_def
      intro!: keeps_stmt split: if_splits option.splits sum.splits dest!: insert_key_Inr insert_outbox_Inr)

lemma keeps_rows_of_lines [keeps_intros]:
  assumes "t \<noteq> u"
  shows "keeps (\<lambda>d. rows_of u d = X) (reserve_line c t ord l)"
    "keeps (\<lambda>d. rows_of u d = X) (release_line c t ord rsn l)"
    "keeps (\<lambda>d. rows_of u d = X) (confirm_line c t ord l)"
    "keeps (\<lambda>d. rows_of u d = X) (fulfill_line c t ord l)"
    "keeps (\<lambda>d. rows_of u d = X) (tryIdempotency L t k msg)"
    "keeps (\<lambda>d. rows_of u d = X) (adjust_write c t ra)"
  unfolding stock_line_defs tryIdempotency_def adjust_write_def adjust_apply_def Let_def
  by (intro keeps_intros assms)+

lemma keeps_rows_of_serve:
  assumes "call_tenant L call = Some t" "t \<noteq> u"
  shows "keeps (\<lambda>d. rows_of u d = X) (stock_serve L c call)"
  using assms(1)
  by (cases call; simp only: stock_serve.simps stock_handler_defs adjust_body_def reserve_body_def
      release_body_def confirm_body_def fulfill_body_def unlock_body_def Let_def call_tenant_def
      stock_call.simps ParseUUID_simps sum.case; intro keeps_intros assms)

lemma serve_bad_tenant: "call_tenant L call = None \<Longrightarrow> snd (stock_serve L c call s) = s"
  by (cases call) (auto simp: call_tenant_def bindE_def split: prod.splits sum.splits
      dest: bad_request(1) [of L _ c s] bad_request(2) [OF disjI1, of L _ c s] bad_request(3) [of L _ c s]
        bad_request(4) [of L _ c s] bad_request(5) [of L _ c s] bad_request(6) [of L _ c s])

text \<open>
  Tenants are isolated. A request of one tenant, whatever it carries and whatever fails, leaves
  every other tenant's stock levels, events, outbox rows and idempotency keys as they are.
\<close>

theorem stock_tenant_isolation:
  assumes "call_tenant L call \<noteq> Some u"
  shows "rows_of u (data (snd (stock_serve L c call s))) = rows_of u (data s)"
proof (cases "call_tenant L call")
  case None
  then show ?thesis by (simp add: serve_bad_tenant)
next
  case (Some t)
  with assms show ?thesis 
    using keepsD [OF keeps_rows_of_serve [of L call t u "rows_of u (data s)" c], of s] by simp
qed

theorem stock_tenant_isolation_witness:
  "let call = CallReserveStock (sample_reserve [sample_line ''a'' 4]); s = calm_sess sample_stock () in
   fst (stock_serve sample_lib sample_ctx call s) =
     Inr (ReplyReserveStock \<lparr>rsvr_success = True, rsvr_failed = []\<rparr>) \<and>
   rows_of ''other'' (data (snd (stock_serve sample_lib sample_ctx call s))) = rows_of ''other'' sample_stock"
proof -
  let ?call = "CallReserveStock (sample_reserve [sample_line ''a'' 4])"
  let ?s = "calm_sess sample_stock ()"
  have "fst (stock_serve sample_lib sample_ctx ?call ?s) =
     Inr (ReplyReserveStock \<lparr>rsvr_success = True, rsvr_failed = []\<rparr>)" by code_simp
  moreover have "call_tenant sample_lib ?call \<noteq> Some ''other''"
    by (simp add: call_tenant_def sample_simps)
  ultimately show ?thesis
    using stock_tenant_isolation [of sample_lib ?call "''other''" sample_ctx ?s]
    by (simp add: Let_def del: stock_serve.simps)
qed

section \<open>The audit lock\<close>

lemma run_reserve_lines_locked:
  assumes "run_lines (spec_reserve_line c t ord) ls I = Some (fs, J)" "l \<in> set ls"
    and "inv_levels I (line_loc t l) = Some b" "bk_locked b"
  shows "concat fs \<noteq> []"
  using assms
proof (induction ls arbitrary: I fs b)
  case (Cons m ls)
  then obtain f fs' K where K: "spec_reserve_line c t ord m I = Some (f, K)" "fs = f # fs'"
    "run_lines (spec_reserve_line c t ord) ls K = Some (fs', J)"
    by (auto split: option.splits)
  show ?case
  proof (cases "line_loc t m = line_loc t l")
    case True
    with K Cons.prems show ?thesis by (auto simp: spec_reserve_line_def can_reserve_def)
  next
    case False
    with K(1) Cons.prems(3) have "inv_levels K (line_loc t l) = Some b"
      by (auto simp: spec_reserve_line_def dest!: spec_move_SomeD(1) split: option.splits if_splits)
    with Cons.IH [OF K(3)] Cons.prems False K(2) show ?thesis by auto
  qed
qed simp

lemma demand_nowhere: "\<forall>l \<in> set ls. line_loc t l \<noteq> loc \<Longrightarrow> demand t ls loc = 0"
  by (induction ls) auto

text \<open>
  A location that is locked for audit is not reserved. No \<^verbatim>\<open>ReserveStock\<close> changes a locked
  location, and one that names a locked location under a fresh key does not succeed.
\<close>

theorem reserve_respects_audit_lock:
  assumes "ReserveStock L c req s = (r, s')" and "stock_schema (data s)"
    and "inv_levels (stock_inv s) loc = Some b" and "bk_locked b"
  shows "inv_levels (stock_inv s') loc = Some b \<and>
    (\<forall>resp t. r = Inr resp \<longrightarrow> uuid_scan L (rsv_tenant req) = Some t \<longrightarrow>
       \<not> key_seen t (rsv_key req) (stock_inv s) \<longrightarrow> loc \<in> line_loc t ` set (rsv_lines req) \<longrightarrow>
       \<not> rsvr_success resp)"
proof (cases "uuid_scan L (rsv_tenant req) = None \<or> rsv_lines req = []")
  case True
  with assms bad_request(2) [of L req c s] show ?thesis by auto
next
  case False
  then obtain t where t: "uuid_scan L (rsv_tenant req) = Some t" and ne: "rsv_lines req \<noteq> []" by auto
  note imp = ReserveStock_implements [OF assms(1) t assms(2) ne]
  have spec: "inv_levels J loc = Some b \<and> (\<not> key_seen t (rsv_key req) (stock_inv s) \<longrightarrow>
      loc \<in> line_loc t ` set (rsv_lines req) \<longrightarrow> \<not> rsvr_success resp)"
    if sp: "spec_ReserveStock c t req (stock_inv s) = Some (resp, J)" for resp J
    using sp
  proof (cases rule: spec_ReserveStock_cases)
    case moved
    from sp moved(1,2) obtain fs where lines: "run_lines (spec_reserve_line c t (rsv_order req)) (sortedLines (rsv_lines req))
      (record_key t (rsv_key req) (stock_inv s)) = Some (fs, J)" "concat fs = []"
      by (auto simp: spec_ReserveStock_def split: option.splits if_splits simp del: concat_eq_Nil_conv)
    then have no: "\<forall>l \<in> set (rsv_lines req). line_loc t l \<noteq> loc"
      using run_reserve_lines_locked [OF lines(1)] assms(3,4) by fastforce
    with run_moves_SomeD(1) [OF moved(3), of loc] assms(3) show ?thesis
      by (auto simp: demand_nowhere)
  qed (use assms(3) in auto)
  show ?thesis
  proof (cases r)
    case (Inl e)
    with imp spec assms(3) show ?thesis by (auto simp: det_def simp del: inventory_of_simps)
  next
    case (Inr resp)
    with imp spec t show ?thesis by (auto simp: det_def simp del: inventory_of_simps)
  qed
qed

theorem reserve_respects_audit_lock_witness:
  "let req = sample_reserve [sample_line ''b'' 1]; s = calm_sess sample_stock () in
   fst (ReserveStock sample_lib sample_ctx req s) = Inr \<lparr>rsvr_success = False, rsvr_failed = [''b'']\<rparr> \<and>
   inv_levels (stock_inv (snd (ReserveStock sample_lib sample_ctx req s))) (''t'', ''b'', ''w'') =
     Some \<lparr>bk_available = 10, bk_reserved = 2, bk_allocated = 1, bk_locked = True\<rparr>"
proof -
  let ?req = "sample_reserve [sample_line ''b'' 1]"
  let ?s = "calm_sess sample_stock ()"
  have "fst (ReserveStock sample_lib sample_ctx ?req ?s) = Inr \<lparr>rsvr_success = False, rsvr_failed = [''b'']\<rparr>"
    by code_simp
  moreover have "inv_levels (stock_inv ?s) (''t'', ''b'', ''w'') =
     Some \<lparr>bk_available = 10, bk_reserved = 2, bk_allocated = 1, bk_locked = True\<rparr>" by code_simp
  ultimately show ?thesis
    using reserve_respects_audit_lock [of sample_lib sample_ctx ?req ?s, OF surjective_pairing]
    by (simp add: Let_def sample_schema del: inventory_of_simps)
qed

text \<open>
  C35: A negative adjustment is always refused. \<^verbatim>\<open>AdjustStock\<close> with a negative delta under a fresh key
  ends in an error and changes nothing: the upsert proposes a row with that delta as its available
  quantity, which violates the \<^verbatim>\<open>CHECK\<close> constraint before \<^verbatim>\<open>ON CONFLICT\<close> is considered. The clamping
  branch of the handler, and the deficit alert in it, cannot be reached.
\<close>

theorem adjust_refuses_negative_delta:
  assumes "AdjustStock L c req s = (r, s')" and "stock_schema (data s)"
    and "uuid_scan L (adj_tenant req) = Some t" and "\<not> key_seen t (adj_key req) (stock_inv s)"
    and "sint (adj_delta req) < 0"
  shows "isl r \<and> stock_inv s' = stock_inv s"
proof -
  have "spec_AdjustStock c t req eid (stock_inv s) = None" for eid
    using assms(4,5) by (simp add: spec_AdjustStock_def Let_def)
  with AdjustStock_implements [OF assms(1,3,2)] show ?thesis by (cases r) auto
qed

theorem adjust_refuses_negative_delta_witness:
  "let req = \<lparr>adj_tenant = ''t'', adj_sku = ''a'', adj_wh = ''w'', adj_delta = - 3, adj_reason = ''damage'',
         adj_source = ''wms'', adj_key = ''k''\<rparr>;
       s = calm_sess sample_stock () in
   isl (fst (AdjustStock sample_lib sample_ctx req s)) \<and>
   stock_inv (snd (AdjustStock sample_lib sample_ctx req s)) = stock_inv s"
proof -
  let ?req = "\<lparr>adj_tenant = ''t'', adj_sku = ''a'', adj_wh = ''w'', adj_delta = - 3, adj_reason = ''damage'',
         adj_source = ''wms'', adj_key = ''k''\<rparr>"
  have "sint (- 3 :: int32) < 0" by code_simp
  then show ?thesis
    using adjust_refuses_negative_delta [of sample_lib sample_ctx ?req "calm_sess sample_stock ()", OF surjective_pairing]
    by (simp add: Let_def sample_schema sample_simps)
qed

end
