(* ===== verification/StockComplete.thy ===== *)
theory StockComplete
  imports StockDelivery
begin

text \<open>
  The converse of the refinement: when nothing fails, the identifiers that the database draws are
  fresh and the values fit their columns, the stock service answers every request that the
  specification does not refuse.
\<close>

section \<open>A database that does not fail\<close>

definition ready :: "uuid \<Rightarrow> (stock_db, 'x) sess \<Rightarrow> bool" where
  "ready t s \<longleftrightarrow> stock_ok t s \<and> quiet s \<and> inj_on (\<lambda>i. fresh (sched s i)) {pos s..} \<and>
     (\<forall>i \<ge> pos s. fresh (sched s i) \<notin> ev_id ` set (stock_events (data s)) \<and>
        fresh (sched s i) \<notin> ob_id ` set (stock_outbox (data s)))"

lemma ready_ok: "ready t s \<Longrightarrow> stock_ok t s"
  by (simp add: ready_def)

lemma ready_pos [intro]: "ready t s \<Longrightarrow> ready t (s\<lparr>pos := Suc (pos s)\<rparr>)"
  by (auto simp: ready_def elim: inj_on_subset)

lemma ready_later:
  "ready t s \<Longrightarrow> stock_ok t s' \<Longrightarrow> sched s' = sched s \<Longrightarrow> pos s \<le> pos s' \<Longrightarrow>
     stock_events (data s') = stock_events (data s) \<Longrightarrow> stock_outbox (data s') = stock_outbox (data s) \<Longrightarrow>
     ready t s'"
  unfolding ready_def quiet_def by (auto elim: inj_on_subset)

lemma ready_fresh:
  assumes "ready t s"
  shows "\<not> list_ex (\<lambda>x. ev_id x = fresh (sched s (pos s))) (stock_events (data s))"
    and "\<not> list_ex (\<lambda>x. ob_id x = fresh (sched s (pos s))) (stock_outbox (data s))"
  using assms unfolding ready_def list_ex_iff by (metis image_eqI order_refl)+

lemma fresh_later:
  assumes "inj_on (\<lambda>i. fresh (sched s i)) {pos s..}" "Suc (pos s) \<le> i"
  shows "fresh (sched s i) \<noteq> fresh (sched s (pos s))"
  using assms by (auto dest!: inj_onD)

lemma ready_next:
  assumes "ready t s" "stock_ok t s'" "sched s' = sched s" "pos s' = Suc (pos s)"
    and "ev_id ` set (stock_events (data s')) \<subseteq> insert (fresh (sched s (pos s))) (ev_id ` set (stock_events (data s)))"
    and "ob_id ` set (stock_outbox (data s')) \<subseteq> insert (fresh (sched s (pos s))) (ob_id ` set (stock_outbox (data s)))"
  shows "ready t s'"
proof -
  have "inj_on (\<lambda>i. fresh (sched s' i)) {pos s'..}"
    using assms(1,3,4) by (auto simp: ready_def elim: inj_on_subset)
  moreover have "fresh (sched s' i) \<notin> ev_id ` set (stock_events (data s')) \<and>
      fresh (sched s' i) \<notin> ob_id ` set (stock_outbox (data s'))" if "pos s' \<le> i" for i
  proof -
    from that assms(1,4) have "fresh (sched s i) \<noteq> fresh (sched s (pos s))" "pos s \<le> i"
      using fresh_later [of s i] by (simp_all add: ready_def)
    moreover with assms(1) have "fresh (sched s i) \<notin> ev_id ` set (stock_events (data s))"
      "fresh (sched s i) \<notin> ob_id ` set (stock_outbox (data s))" by (simp_all add: ready_def)
    ultimately show ?thesis using assms(3,5,6) by auto
  qed
  ultimately show ?thesis using assms(1-3) by (simp add: ready_def quiet_def)
qed

section \<open>Statements answer\<close>

lemma Get_answers:
  assumes "ready t s" "stock_levels (data s) (t, sku, wh) = Some l"
  shows "GetStockLevelForUpdate (t, sku, wh) s = (Inr l, s\<lparr>pos := Suc (pos s)\<rparr>)"
  using assms by (auto simp: ready_def stock_ok_def GetStockLevelForUpdate_def stmt_simps)

lemma Get_answers_None:
  assumes "ready t s" "stock_levels (data s) (t, sku, wh) = None"
  shows "GetStockLevelForUpdate (t, sku, wh) s = (Inl ErrNoRows, s\<lparr>pos := Suc (pos s)\<rparr>)"
  using assms by (auto simp: ready_def stock_ok_def GetStockLevelForUpdate_def stmt_simps)

lemma Update_answers:
  assumes "ready t s" "stock_levels (data s) (t, sku, wh) \<noteq> None" "level_check l"
  shows "\<exists>a s'. UpdateStockLevel (t, sku, wh) l s = (Inr a, s') \<and> ready t s'"
proof -
  from assms obtain a s' where run: "UpdateStockLevel (t, sku, wh) l s = (Inr a, s')"
    by (auto simp: ready_def stock_ok_def UpdateStockLevel_def stmt_simps)
  then have "stock_schema (data s')"
    using keeps_step [OF keeps_stock_queries(4) run] assms(1) by (simp add: ready_def stock_ok_def)
  with run assms(1) have "ready t s'"
    by (intro ready_next [OF assms(1)]) (auto simp: ready_def stock_ok_def elim!: UpdateStockLevel_InrE)
  with run show ?thesis by blast
qed

lemma Event_answers:
  assumes "ready t s" "varchar 255 sku" "varchar 255 wh" "varchar 255 rs" "varchar 255 src" "varchar 255 ac"
  shows "\<exists>a s'. InsertStockEvent (t, sku, wh) dl rs src ac s = (Inr a, s') \<and> ready t s'"
proof -
  from assms obtain a s' where run: "InsertStockEvent (t, sku, wh) dl rs src ac s = (Inr a, s')"
    using ready_fresh(1) [OF assms(1)]
    by (auto simp: ready_def stock_ok_def InsertStockEvent_def stmt_simps Let_def)
  then have "stock_schema (data s')"
    using keeps_step [OF keeps_stock_queries(7) run] assms(1) by (simp add: ready_def stock_ok_def)
  with run assms(1) have "ready t s'"
    by (intro ready_next [OF assms(1)]) (auto simp: ready_def stock_ok_def elim!: InsertStockEvent_InrE)
  with run show ?thesis by blast
qed

lemma Outbox_answers:
  assumes "ready t s" "varchar 255 at" "varchar 255 ai" "varchar 255 et"
  shows "\<exists>a s'. InsertOutboxEvent t at ai et pl tr s = (Inr a, s') \<and> ready t s'"
proof -
  from assms obtain a s' where run: "InsertOutboxEvent t at ai et pl tr s = (Inr a, s')"
    using ready_fresh(2) [OF assms(1)]
    by (auto simp: ready_def stock_ok_def InsertOutboxEvent_def insert_outbox_def stmt_simps Let_def)
  then have "stock_schema (data s')"
    using keeps_step [OF keeps_stock_queries(8) run] assms(1) by (simp add: ready_def stock_ok_def)
  moreover have "ob_id a = fresh (sched s (pos s))"
    using run by (auto simp: InsertOutboxEvent_def elim!: stmt_InrE split: sum.splits dest!: insert_outbox_Inr)
  ultimately have "ready t s'" using run assms(1)
    by (intro ready_next [OF assms(1)]) (auto simp: ready_def stock_ok_def elim!: InsertOutboxEvent_InrE)
  with run show ?thesis by blast
qed

lemma Key_answers:
  assumes "ready t s" "varchar 255 k" "varchar 255 (PayloadHash L msg)"
  shows "\<exists>dup s'. tryIdempotency L t k msg s = (Inr dup, s') \<and> ready t s'"
proof -
  have "\<exists>r. CheckAndInsertIdempotencyKey t k (PayloadHash L msg) s = r \<and> (case fst r of Inl e \<Rightarrow> e = ErrNoRows | Inr x \<Rightarrow> True)"
    using assms by (auto simp: ready_def stock_ok_def CheckAndInsertIdempotencyKey_def insert_key_def stmt_simps
        split: option.splits)
  then obtain dup s' where run: "tryIdempotency L t k msg s = (Inr dup, s')"
    by (cases "k = ''''"; cases "CheckAndInsertIdempotencyKey t k (PayloadHash L msg) s")
      (auto simp: tryIdempotency_def bindE_def attempt_def split: sum.splits prod.splits)
  have "stock_ok t s'" using simD [OF sim_tryIdempotency run] assms(1) by (simp add: ready_def)
  moreover have "sched s' = sched s \<and> pos s \<le> pos s' \<and> stock_events (data s') = stock_events (data s)
      \<and> stock_outbox (data s') = stock_outbox (data s)"
    using run unfolding tryIdempotency_def CheckAndInsertIdempotencyKey_def
    by (auto simp: bindE_def attempt_def stmt_def Let_def split: if_splits option.splits sum.splits prod.splits)
  ultimately show ?thesis using run ready_later [OF assms(1)] by blast
qed

section \<open>Lines answer\<close>

definition line_fits :: "move \<Rightarrow> uuid \<Rightarrow> string \<Rightarrow> StockLine \<Rightarrow> bool" where
  "line_fits k t ord l \<longleftrightarrow> varchar 255 (sl_sku l) \<and> varchar 255 (sl_wh l) \<and> varchar 255 (move_reason k) \<and>
     varchar 255 (move_actor k ord) \<and> varchar 255 (aggregate_id t (sl_sku l))"

lemma varchar_move [simp]: "varchar 255 (move_source k)" "varchar 255 (move_type k)" "varchar 255 ''stock''"
  by (cases k; simp add: varchar_def)+

lemma move_write_answers:
  assumes "ready t s" "line_fits k t ord l" "stock_levels (data s) (line_loc t l) = Some level"
    and "spec_move k c t ord l (stock_inv s) \<noteq> None"
  shows "\<exists>b s'. move_write k c t ord l level a s = (Inr b, s') \<and> ready t s'"
proof -
  have "level_check level" using assms(1,3) stock_schema_level by (auto simp: ready_def stock_ok_def)
  moreover have "bucket_ok (move_bucket k (sint (sl_qty l)) (bucket_of level))"
    using assms(3,4) by (auto simp: spec_move_def Let_def split: if_splits)
  ultimately have lc: "level_check (move_level k (sl_qty l) level)" by (rule move_level_check)
  obtain u s1 where
    s1: "UpdateStockLevel (line_loc t l) (move_level k (sl_qty l) level) s = (Inr u, s1)" "ready t s1"
    using Update_answers [OF assms(1) _ lc, of "sl_sku l" "sl_wh l"] assms(3) by auto
  obtain e s2 where
    s2: "InsertStockEvent (line_loc t l) (move_delta k (sl_qty l)) (move_reason k) (move_source k)
       (move_actor k ord) s1 = (Inr e, s2)" "ready t s2"
    using Event_answers [OF s1(2)] assms(2) unfolding line_fits_def by (metis varchar_move(1))
  obtain ob s3 where
    "InsertOutboxEvent t ''stock'' (aggregate_id t (sl_sku l)) (move_type k)
       (marshalLineEvent (move_action k) ord l) (TraceparentText c) s2 = (Inr ob, s3)" "ready t s3"
    using Outbox_answers [OF s2(2)] assms(2) unfolding line_fits_def by (metis varchar_move(2,3))
  with s1 s2 show ?thesis by (simp add: move_write_def)
qed

lemma reserve_line_answers:
  assumes "line_fits MoveReserve t ord l"
  shows "answers (ready t) stock_inv (reserve_line c t ord l) (spec_reserve_line c t ord l)"
  unfolding answers_def
proof (intro allI impI)
  fix s :: "(stock_db, 'x) sess"
  assume r: "ready t s" and sp: "spec_reserve_line c t ord l (stock_inv s) \<noteq> None"
  show "\<exists>a s'. reserve_line c t ord l s = (Inr a, s') \<and> ready t s'"
  proof (cases "stock_levels (data s) (line_loc t l)")
    case None
    with Get_answers_None [OF r this] r show ?thesis by (auto simp: line_writes bindE_def attempt_def)
  next
    case (Some level)
    note get = Get_answers [OF r Some]
    show ?thesis
    proof (cases "lv_locked level \<or> sint (lv_available level) < sint (sl_qty l)")
      case True
      with get r show ?thesis by (auto simp: line_writes bindE_def attempt_def)
    next
      case False
      with sp Some have "spec_move MoveReserve c t ord l (stock_inv s) \<noteq> None"
        by (auto simp: spec_reserve_line_def can_reserve_def bucket_of_def)
      with move_write_answers [OF ready_pos [OF r] assms, of level c "[]"] Some get False show ?thesis
        by (auto simp: line_writes bindE_def attempt_def)
    qed
  qed
qed

lemma release_line_answers:
  assumes "line_fits (MoveRelease rsn) t ord l"
  shows "answers (ready t) stock_inv (release_line c t ord rsn l) (spec_release_line c t ord rsn l)"
  unfolding answers_def
proof (intro allI impI)
  fix s :: "(stock_db, 'x) sess"
  assume r: "ready t s" and sp: "spec_release_line c t ord rsn l (stock_inv s) \<noteq> None"
  show "\<exists>a s'. release_line c t ord rsn l s = (Inr a, s') \<and> ready t s'"
  proof (cases "stock_levels (data s) (line_loc t l)")
    case None
    with Get_answers_None [OF r this] r show ?thesis by (auto simp: line_writes bindE_def attempt_def)
  next
    case (Some level)
    with sp have "spec_move (MoveRelease rsn) c t ord l (stock_inv s) \<noteq> None" by (auto simp: spec_release_line_def)
    with move_write_answers [OF ready_pos [OF r] assms, of level c "[sl_sku l]"] Some Get_answers [OF r Some]
    show ?thesis by (auto simp: line_writes bindE_def attempt_def)
  qed
qed

lemma confirm_line_answers:
  assumes "line_fits MoveAllocate t ord l"
  shows "answers (ready t) stock_inv (confirm_line c t ord l) (spec_confirm_line c t ord l)"
  unfolding answers_def
proof (intro allI impI)
  fix s :: "(stock_db, 'x) sess"
  assume r: "ready t s" and "spec_confirm_line c t ord l (stock_inv s) \<noteq> None"
  then have sp: "spec_move MoveAllocate c t ord l (stock_inv s) \<noteq> None" by (auto simp: spec_confirm_line_def)
  then obtain level where Some: "stock_levels (data s) (line_loc t l) = Some level"
    by (auto simp: spec_move_def split: option.splits)
  from move_write_answers [OF ready_pos [OF r] assms, of level c] Some sp Get_answers [OF r Some]
  show "\<exists>a s'. confirm_line c t ord l s = (Inr a, s') \<and> ready t s'" by (auto simp: line_writes)
qed

lemma fulfill_line_answers:
  assumes "line_fits MoveFulfill t ord l"
  shows "answers (ready t) stock_inv (fulfill_line c t ord l) (spec_fulfill_line c t ord l)"
  unfolding answers_def
proof (intro allI impI)
  fix s :: "(stock_db, 'x) sess"
  assume r: "ready t s" and "spec_fulfill_line c t ord l (stock_inv s) \<noteq> None"
  then have sp: "spec_move MoveFulfill c t ord l (stock_inv s) \<noteq> None"
    by (auto simp: spec_fulfill_line_def simp del: inventory_of_simps split: option.splits)
  then obtain level where Some: "stock_levels (data s) (line_loc t l) = Some level"
    by (auto simp: spec_move_def split: option.splits)
  let ?out = "\<lparr>fl_sku = sl_sku l, fl_wh = sl_wh l, fl_remaining = lv_allocated level - sl_qty l\<rparr>"
  from move_write_answers [OF ready_pos [OF r] assms, of level c ?out] Some sp Get_answers [OF r Some]
  show "\<exists>a s'. fulfill_line c t ord l s = (Inr a, s') \<and> ready t s'" by (auto simp: line_writes)
qed

section \<open>Transactions answer\<close>

definition fits_key :: "lib \<Rightarrow> string \<Rightarrow> proto_message \<Rightarrow> bool" where
  "fits_key L k msg \<longleftrightarrow> varchar 255 k \<and> varchar 255 (PayloadHash L msg)"

lemma keyed_answers:
  assumes "answers (ready t) stock_inv m g" "fits_key L k msg"
  shows "answers (ready t) stock_inv (bindE (tryIdempotency L t k msg) (\<lambda>dup. if dup then returnE a else m))
    (\<lambda>I. if key_seen t k I then Some (a, I) else g (record_key t k I))"
  unfolding answers_def
proof (intro allI impI)
  fix s :: "(stock_db, 'a) sess"
  assume r: "ready t s" and sp: "(if key_seen t k (stock_inv s) then Some (a, stock_inv s)
     else g (record_key t k (stock_inv s))) \<noteq> None"
  obtain dup s1 where tri: "tryIdempotency L t k msg s = (Inr dup, s1)" "ready t s1"
    using Key_answers [OF r] assms(2) unfolding fits_key_def by blast
  from simD [OF sim_tryIdempotency tri(1) ready_ok [OF r]] have s1: "dup = key_seen t k (stock_inv s)"
    "stock_inv s1 = (if dup then stock_inv s else record_key t k (stock_inv s))"
    by (auto simp: spec_try_def)
  show "\<exists>b s'. bindE (tryIdempotency L t k msg) (\<lambda>dup. if dup then returnE a else m) s = (Inr b, s') \<and> ready t s'"
  proof (cases dup)
    case True
    with tri show ?thesis by simp
  next
    case False
    with sp s1 have "g (stock_inv s1) \<noteq> None" by simp
    with assms(1) tri(2) have "\<exists>b s'. m s1 = (Inr b, s') \<and> ready t s'" by (simp add: answers_def)
    with tri False show ?thesis by auto
  qed
qed

lemma release_body_answers:
  assumes "\<forall>l \<in> set (rls_lines req). line_fits (MoveRelease (rls_reason req)) t (rls_order req) l"
    and "fits_key L (rls_key req) (M_ReleaseStock req)"
  shows "answers (ready t) stock_inv (release_body L c t req) (spec_ReleaseStock c t req)"
  unfolding release_body_def spec_ReleaseStock_def
  by (intro keyed_answers answers_map answers_forE [OF sim_release_line] release_line_answers)
    (use assms in \<open>auto intro: ready_ok\<close>)

lemma confirm_body_answers:
  assumes "\<forall>l \<in> set (cnf_lines req). line_fits MoveAllocate t (cnf_order req) l"
    and "fits_key L (cnf_key req) (M_ConfirmStockAllocation req)"
  shows "answers (ready t) stock_inv (confirm_body L c t req) (spec_ConfirmStockAllocation c t req)"
  unfolding confirm_body_def spec_ConfirmStockAllocation_def
  by (intro keyed_answers answers_map answers_forE [OF sim_confirm_line] confirm_line_answers)
    (use assms in \<open>auto intro: ready_ok\<close>)

lemma fulfill_body_answers:
  assumes "\<forall>l \<in> set (ful_lines req). line_fits MoveFulfill t (ful_order req) l"
    and "fits_key L (ful_key req) (M_FulfillStock req)"
  shows "answers (ready t) stock_inv (fulfill_body L c t req) (spec_FulfillStock c t req)"
  unfolding fulfill_body_def spec_FulfillStock_def
  by (intro keyed_answers answers_map answers_forE [OF sim_fulfill_line] fulfill_line_answers)
    (use assms in \<open>auto intro: ready_ok\<close>)

lemma reserve_lines_answer:
  assumes "\<forall>l \<in> set ls. line_fits MoveReserve t ord l"
  shows "answers (ready t) stock_inv (forE ls (reserve_line c t ord)) (run_lines (spec_reserve_line c t ord) ls)"
  by (intro answers_forE [OF sim_reserve_line] reserve_line_answers) (use assms in \<open>auto intro: ready_ok\<close>)

text \<open>The reservation's transaction returns, or ends in the error that reports the short SKUs.\<close>

lemma reserve_body_answers:
  assumes fits: "\<forall>l \<in> set (rsv_lines req). line_fits MoveReserve t (rsv_order req) l"
    and key: "fits_key L (rsv_key req) (M_ReserveStock req)"
    and r: "ready t s" and sp: "spec_ReserveStock c t req (stock_inv s) = Some (resp, J)"
  shows "fst (reserve_body L c t req s) =
    (if rsvr_success resp then Inr resp else Inl (InsufficientStock (rsvr_failed resp)))"
proof -
  let ?ls = "sortedLines (rsv_lines req)"
  let ?spec = "run_lines (spec_reserve_line c t (rsv_order req)) ?ls"
  obtain dup s1 where tri: "tryIdempotency L t (rsv_key req) (M_ReserveStock req) s = (Inr dup, s1)" "ready t s1"
    using Key_answers [OF r] key unfolding fits_key_def by blast
  from simD [OF sim_tryIdempotency tri(1) ready_ok [OF r]] have s1: "dup = key_seen t (rsv_key req) (stock_inv s)"
    "stock_inv s1 = (if dup then stock_inv s else record_key t (rsv_key req) (stock_inv s))"
    by (auto simp: spec_try_def)
  show ?thesis
  proof (cases dup)
    case True
    with tri s1 sp show ?thesis by (auto simp: reserve_body_def spec_ReserveStock_def)
  next
    case False
    with sp s1 obtain fs K where lines: "?spec (stock_inv s1) = Some (fs, K)"
      and resp: "resp = (if concat fs = [] then \<lparr>rsvr_success = True, rsvr_failed = []\<rparr>
        else \<lparr>rsvr_success = False, rsvr_failed = concat fs\<rparr>)"
      by (auto simp: spec_ReserveStock_def simp del: concat_eq_Nil_conv split: option.splits if_splits)
    obtain fs' s2 where run: "forE ?ls (reserve_line c t (rsv_order req)) s1 = (Inr fs', s2)"
      using answersD [OF reserve_lines_answer tri(2) lines] fits by auto
    with simD [OF sim_forE [OF sim_reserve_line] run ready_ok [OF tri(2)]] lines have "fs' = fs" by simp
    with run resp tri(1) False show ?thesis by (simp add: reserve_body_def Let_def del: concat_eq_Nil_conv)
  qed
qed

lemma Upsert_answers:
  assumes r: "ready t s" and v: "varchar 255 sku" "varchar 255 wh" and q: "0 \<le> sint q"
    and ok: "bucket_ok (spec_adjust_bucket (sint q) (inv_levels (stock_inv s) (t, sku, wh)))"
  shows "\<exists>a s'. UpsertStockLevel (t, sku, wh) q s = (Inr a, s') \<and> ready t s'"
proof -
  have sch: "stock_schema (data s)" "quiet s" "scope s = Scoped (Some t)" using r by (auto simp: ready_def stock_ok_def)
  obtain a s' where run: "UpsertStockLevel (t, sku, wh) q s = (Inr a, s')"
  proof (cases "stock_levels (data s) (t, sku, wh)")
    case None
    with sch v q that show ?thesis
      by (auto simp: UpsertStockLevel_def stmt_simps Let_def level_check_def)
  next
    case (Some l)
    with ok have b: "0 \<le> sint (lv_available l) + sint q" "sint (lv_available l) + sint q < 2147483648"
      by (auto simp: spec_adjust_bucket_def bucket_ok_def bucket_of_def)
    moreover have "level_check l" using sch(1) Some by (rule stock_schema_level)
    ultimately have "in_i32 (sint (lv_available l) + sint q)"
      "level_check (l\<lparr>lv_available := lv_available l + q, lv_updated := x\<rparr>)" for x
      by (simp_all add: in_i32_def level_check_def sint_add_bucket)
    with sch v q Some that show ?thesis
      by (auto simp: UpsertStockLevel_def stmt_simps Let_def level_check_def)
  qed
  have "stock_schema (data s')" using keeps_step [OF keeps_stock_queries(5) run] sch(1) by simp
  with run sch have "ready t s'"
    by (intro ready_next [OF r]) (auto simp: stock_ok_def elim!: UpsertStockLevel_InrE)
  with run show ?thesis by blast
qed

definition adjust_fits :: "lib \<Rightarrow> uuid \<Rightarrow> AdjustStockRequest \<Rightarrow> bool" where
  "adjust_fits L t req \<longleftrightarrow> varchar 255 (adj_sku req) \<and> varchar 255 (adj_wh req) \<and> varchar 255 (adj_reason req) \<and>
     varchar 255 (adj_source req) \<and> varchar 255 (aggregate_id t (adj_sku req)) \<and>
     fits_key L (adj_key req) (M_AdjustStock req)"

lemma adjust_apply_answers:
  assumes "ready t s" "adjust_fits L t req" "stock_levels (data s) (t, adj_sku req, adj_wh req) \<noteq> None" "level_check l"
  shows "\<exists>a s'. adjust_apply c t req l s = (Inr a, s') \<and> ready t s'"
proof -
  have na: "\<not> sint (lv_available l) < 0" using assms(4) by (simp add: level_check_def)
  then have l: "l\<lparr>lv_available := (if sint (lv_available l) < 0 then 0 else lv_available l)\<rparr> = l" by simp
  have vc: "varchar 255 ''system''" "varchar 255 ''stock.adjusted''" by (simp_all add: varchar_def)
  obtain u s1 where s1: "UpdateStockLevel (t, adj_sku req, adj_wh req) l s = (Inr u, s1)" "ready t s1"
    using Update_answers [OF assms(1,3,4)] by blast
  obtain e s2 where s2: "InsertStockEvent (t, adj_sku req, adj_wh req) (adj_delta req) (adj_reason req)
      (adj_source req) ''system'' s1 = (Inr e, s2)" "ready t s2"
    using Event_answers [OF s1(2)] assms(2) vc unfolding adjust_fits_def by blast
  obtain ob s3 where "InsertOutboxEvent t ''stock'' (aggregate_id t (adj_sku req)) ''stock.adjusted''
      (marshalAdjustEvent req (lv_available l)) (TraceparentText c) s2 = (Inr ob, s3)" "ready t s3"
    using Outbox_answers [OF s2(2)] assms(2) vc varchar_move(3) unfolding adjust_fits_def by blast
  with s1 s2 na show ?thesis unfolding adjust_apply_def Let_def by simp
qed

lemma adjust_body_answers:
  assumes r: "ready t s" and fits: "adjust_fits L t req"
    and sp: "spec_AdjustStock c t req eid (stock_inv s) = Some (resp, J)"
  shows "\<exists>a s'. adjust_body L c t req s = (Inr a, s')"
proof -
  let ?loc = "(t, adj_sku req, adj_wh req)"
  obtain dup s1 where tri: "tryIdempotency L t (adj_key req) (M_AdjustStock req) s = (Inr dup, s1)" "ready t s1"
    using Key_answers [OF r] fits unfolding fits_key_def adjust_fits_def by blast
  from simD [OF sim_tryIdempotency tri(1) ready_ok [OF r]] have s1: "dup = key_seen t (adj_key req) (stock_inv s)"
    "stock_inv s1 = (if dup then stock_inv s else record_key t (adj_key req) (stock_inv s))"
    by (auto simp: spec_try_def)
  show ?thesis
  proof (cases dup)
    case True
    with sp s1 have "inv_levels (stock_inv s1) ?loc \<noteq> None"
      by (auto simp: spec_AdjustStock_def Let_def simp del: inventory_of_simps)
    then obtain l where "stock_levels (data s1) ?loc = Some l" by auto
    from Get_answers [OF tri(2) this] tri(1) True show ?thesis by (simp add: adjust_body_def)
  next
    case False
    have lv: "inv_levels (stock_inv s1) = inv_levels (stock_inv s)"
      using s1 False by (simp del: inventory_of_simps)
    with sp s1 False have q: "0 \<le> sint (adj_delta req)"
      "bucket_ok (spec_adjust_bucket (sint (adj_delta req)) (inv_levels (stock_inv s1) ?loc))"
      by (auto simp: spec_AdjustStock_def Let_def simp del: inventory_of_simps split: if_splits)
    then obtain u s2 where s2: "UpsertStockLevel ?loc (adj_delta req) s1 = (Inr u, s2)" "ready t s2"
      using Upsert_answers [OF tri(2) _ _ q] fits unfolding adjust_fits_def by blast
    obtain l where l: "stock_levels (data s2) ?loc = Some l" "level_check l"
      using s2(1) ready_ok [OF tri(2)] by (auto simp: stock_ok_def elim!: UpsertStockLevel_InrE)
    obtain a s3 where "adjust_apply c t req l (s2\<lparr>pos := Suc (pos s2)\<rparr>) = (Inr a, s3)"
      using adjust_apply_answers [OF ready_pos [OF s2(2)] fits, of l c] l by auto
    with tri(1) False s2 Get_answers [OF s2(2) l(1)] show ?thesis
      by (simp add: adjust_body_def adjust_write_def)
  qed
qed

lemma unlock_body_answers:
  assumes r: "ready t s" and "varchar 255 (unl_reason req)" "varchar 255 (unl_actor req)"
    and "varchar 255 (unl_sku req)" "varchar 255 (unl_wh req)"
  shows "\<exists>a s'. unlock_body t req s = (Inr a, s')"
proof (cases "stock_levels (data s) (t, unl_sku req, unl_wh req)")
  case None
  from Get_answers_None [OF r this] show ?thesis by (simp add: unlock_body_def bindE_def attempt_def Let_def)
next
  case (Some l)
  let ?loc = "(t, unl_sku req, unl_wh req)"
  let ?s1 = "s\<lparr>pos := Suc (pos s)\<rparr>"
  have r1: "ready t ?s1" using r by (rule ready_pos)
  obtain u s2 where lock: "SetAuditLock ?loc False ?s1 = (Inr u, s2)"
    using r1 Some by (auto simp: SetAuditLock_def ready_def stock_ok_def stmt_simps)
  have "stock_schema (data s2)" using keeps_step [OF keeps_stock_queries(6) lock] r by (simp add: ready_def stock_ok_def)
  moreover have "scope s2 = scope ?s1 \<and> sched s2 = sched ?s1 \<and> pos s2 = Suc (pos ?s1) \<and>
      stock_events (data s2) = stock_events (data ?s1) \<and> stock_outbox (data s2) = stock_outbox (data ?s1)"
    using lock by (auto simp: SetAuditLock_def elim!: stmt_InrE split: if_splits option.splits)
  ultimately have "ready t s2" using r1 by (intro ready_later [OF r1]) (auto simp: stock_ok_def ready_def)
  moreover have "varchar 255 ''warehouse-manager''" "varchar 255 ''reconciliation''" by (simp_all add: varchar_def)
  ultimately have "\<exists>e s3. InsertStockEvent ?loc 0 (unl_reason req) ''reconciliation''
      (if unl_actor req = '''' then ''warehouse-manager'' else unl_actor req) s2 = (Inr e, s3) \<and> ready t s3"
    using assms by (intro Event_answers) auto
  then show ?thesis using lock Get_answers [OF r Some] by (auto simp: unlock_body_def bindE_def attempt_def Let_def)
qed

lemma answers_returns:
  "answers Q \<alpha> m f \<Longrightarrow> f c = Some x \<Longrightarrow> Q s \<Longrightarrow> \<alpha> s = c \<Longrightarrow> \<exists>a s'. m s = (Inr a, s')"
  by (auto simp: answers_def)

section \<open>The service answers\<close>

definition call_fits :: "lib \<Rightarrow> stock_call \<Rightarrow> bool" where
  "call_fits L call =
     (case call of
        CallAdjustStock req \<Rightarrow> adj_tenant req \<noteq> '''' \<and> adjust_fits L (the (uuid_scan L (adj_tenant req))) req
      | CallReserveStock req \<Rightarrow> rsv_tenant req \<noteq> '''' \<and> fits_key L (rsv_key req) (M_ReserveStock req) \<and>
          list_all (line_fits MoveReserve (the (uuid_scan L (rsv_tenant req))) (rsv_order req)) (rsv_lines req)
      | CallReleaseStock req \<Rightarrow> rls_tenant req \<noteq> '''' \<and> fits_key L (rls_key req) (M_ReleaseStock req) \<and>
          list_all (line_fits (MoveRelease (rls_reason req)) (the (uuid_scan L (rls_tenant req))) (rls_order req)) (rls_lines req)
      | CallConfirmStockAllocation req \<Rightarrow> cnf_tenant req \<noteq> '''' \<and> fits_key L (cnf_key req) (M_ConfirmStockAllocation req) \<and>
          list_all (line_fits MoveAllocate (the (uuid_scan L (cnf_tenant req))) (cnf_order req)) (cnf_lines req)
      | CallFulfillStock req \<Rightarrow> ful_tenant req \<noteq> '''' \<and> fits_key L (ful_key req) (M_FulfillStock req) \<and>
          list_all (line_fits MoveFulfill (the (uuid_scan L (ful_tenant req))) (ful_order req)) (ful_lines req)
      | CallUnlockStockForAudit req \<Rightarrow> unl_tenant req \<noteq> '''' \<and> varchar 255 (unl_reason req) \<and>
          varchar 255 (unl_actor req) \<and> varchar 255 (unl_sku req) \<and> varchar 255 (unl_wh req))"

text \<open>Identifiers drawn from now on are new and pairwise different.\<close>

definition fresh_ids :: "(stock_db, 'x) sess \<Rightarrow> bool" where
  "fresh_ids s \<longleftrightarrow> inj_on (\<lambda>i. fresh (sched s i)) {pos s..} \<and>
     (\<forall>i \<ge> pos s. fresh (sched s i) \<notin> ev_id ` set (stock_events (data s)) \<and>
        fresh (sched s i) \<notin> ob_id ` set (stock_outbox (data s)))"

lemma ready_start:
  assumes "quiet s" "stock_schema (data s)" "fresh_ids s"
  shows "ready t (s\<lparr>scope := Scoped (Some t), pos := Suc (Suc (pos s))\<rparr>)"
  using assms unfolding ready_def fresh_ids_def stock_ok_def by (auto elim: inj_on_subset)

lemma handler_answers:
  assumes "quiet s" "stock_schema (data s)" "fresh_ids s" "tid \<noteq> ''''" "uuid_scan L tid = Some t" "frame sched body"
    and "\<And>s1. ready t s1 \<Longrightarrow> stock_inv s1 = stock_inv s \<Longrightarrow> \<exists>a s'. body s1 = (Inr a, s')"
  shows "\<exists>a s'. catchE (ExecTxWithTenant L (WithTenantID c tid) body) h s = (Inr a, s')"
proof -
  let ?s = "s\<lparr>scope := Scoped (Some t), pos := Suc (Suc (pos s))\<rparr>"
  obtain a s1 where b: "body ?s = (Inr a, s1)" using assms(7) [OF ready_start [OF assms(1-3)]] by auto
  have "fst (ExecTxWithTenant L (WithTenantID c tid) body s) = fst (body ?s)"
    using ExecTx_quiet [of s "WithTenantID c tid" body L] assms(1,4,5,6) by simp
  with b have "fst (ExecTxWithTenant L (WithTenantID c tid) body s) = Inr a" by simp
  then show ?thesis by (auto simp: catchE_def split: prod.splits)
qed

lemma frame_sched_lines [frame_intros]:
  "frame sched (reserve_line c t ord l)" "frame sched (release_line c t ord rsn l)"
  "frame sched (confirm_line c t ord l)" "frame sched (fulfill_line c t ord l)"
  "frame sched (tryIdempotency L t k msg)"
  unfolding stock_line_defs tryIdempotency_def Let_def by (intro frame_intros)+

lemma frame_sched_bodies [frame_intros]:
  "frame sched (adjust_body L c t ra)" "frame sched (reserve_body L c t rr)"
  "frame sched (release_body L c t rl)" "frame sched (confirm_body L c t rc)"
  "frame sched (fulfill_body L c t rf)" "frame sched (unlock_body t ru)"
  unfolding adjust_body_def adjust_write_def adjust_apply_def reserve_body_def release_body_def confirm_body_def
    fulfill_body_def unlock_body_def Let_def
  by (intro frame_intros)+

lemma ReserveStock_answers:
  assumes q: "quiet s" "stock_schema (data s)" "fresh_ids s" "call_fits L (CallReserveStock req)"
    and t: "uuid_scan L (rsv_tenant req) = Some t" "rsv_lines req \<noteq> []"
    and sp: "spec_ReserveStock c t req (stock_inv s) = Some (resp, J)"
  shows "\<exists>s'. ReserveStock L c req s = (Inr resp, s')"
proof -
  let ?c = "WithTenantID c (rsv_tenant req)"
  let ?s = "s\<lparr>scope := Scoped (Some t), pos := Suc (Suc (pos s))\<rparr>"
  have "fst (reserve_body L ?c t req ?s) =
      (if rsvr_success resp then Inr resp else Inl (InsufficientStock (rsvr_failed resp)))"
    using q(4) t sp ready_start [OF q(1-3)]
    by (intro reserve_body_answers [where J = J]) (auto simp: call_fits_def list_all_iff)
  moreover have "fst (ExecTxWithTenant L ?c (reserve_body L ?c t req) s) = fst (reserve_body L ?c t req ?s)"
    using ExecTx_quiet [of s ?c "reserve_body L ?c t req" L] q t by (simp add: call_fits_def frame_sched_bodies)
  ultimately have "fst (ExecTxWithTenant L ?c (reserve_body L ?c t req) s) =
      (if rsvr_success resp then Inr resp else Inl (InsufficientStock (rsvr_failed resp)))" by simp
  then show ?thesis using t
    by (cases resp) (auto simp: ReserveStock_def Let_def catchE_def split: prod.splits if_splits)
qed

text \<open>
  C18: The service answers. When no statement fails, the identifiers drawn are fresh, the strings fit
  their columns and the specification does not refuse the request, the request is answered (and by
  the refinement with the specified response), whichever of the six it is.
\<close>

theorem stock_service_answers:
  assumes q: "quiet s" "stock_schema (data s)" "fresh_ids s" and fits: "call_fits L call"
    and sp: "spec_serve L c call (stock_inv s) a J"
  shows "\<exists>a' s'. stock_serve L c call s = (Inr a', s')"
proof (cases call)
  case (CallAdjustStock req)
  with sp obtain t eid r where t: "uuid_scan L (adj_tenant req) = Some t"
    "spec_AdjustStock c t req eid (stock_inv s) = Some (r, J)" by auto
  with fits CallAdjustStock have "\<exists>a s'. AdjustStock L c req s = (Inr a, s')"
    by (auto simp: AdjustStock_def Let_def call_fits_def frame_intros simp del: inventory_of_simps
        intro!: handler_answers [OF q] elim!: adjust_body_answers)
  then show ?thesis by (auto simp: CallAdjustStock)
next
  case (CallReserveStock req)
  with sp obtain t r where "uuid_scan L (rsv_tenant req) = Some t" "rsv_lines req \<noteq> []"
    "spec_ReserveStock c t req (stock_inv s) = Some (r, J)" by auto
  from ReserveStock_answers [OF q fits [unfolded CallReserveStock] this] show ?thesis by (auto simp: CallReserveStock)
next
  case (CallReleaseStock req)
  with sp obtain t r where t: "uuid_scan L (rls_tenant req) = Some t"
    "spec_ReleaseStock c t req (stock_inv s) = Some (r, J)" by auto
  have "\<exists>a s'. ReleaseStock L c req s = (Inr a, s')"
    unfolding ReleaseStock_def Let_def ParseUUID_simps(2) [OF t(1)] sum.case
    by (rule handler_answers [OF q _ t(1) frame_sched_bodies(3)], use fits in \<open>simp add: CallReleaseStock call_fits_def\<close>,
        rule answers_returns [OF release_body_answers [of req t L]])
      (use fits t in \<open>auto simp: CallReleaseStock call_fits_def list_all_iff simp del: inventory_of_simps\<close>)
  then show ?thesis by (auto simp: CallReleaseStock)
next
  case (CallConfirmStockAllocation req)
  with sp obtain t r where t: "uuid_scan L (cnf_tenant req) = Some t"
    "spec_ConfirmStockAllocation c t req (stock_inv s) = Some (r, J)" by auto
  have "\<exists>a s'. ConfirmStockAllocation L c req s = (Inr a, s')"
    unfolding ConfirmStockAllocation_def Let_def ParseUUID_simps(2) [OF t(1)] sum.case
    by (rule handler_answers [OF q _ t(1) frame_sched_bodies(4)], use fits in \<open>simp add: CallConfirmStockAllocation call_fits_def\<close>,
        rule answers_returns [OF confirm_body_answers [of req t L]])
      (use fits t in \<open>auto simp: CallConfirmStockAllocation call_fits_def list_all_iff simp del: inventory_of_simps\<close>)
  then show ?thesis by (auto simp: CallConfirmStockAllocation)
next
  case (CallFulfillStock req)
  with sp obtain t r where t: "uuid_scan L (ful_tenant req) = Some t"
    "spec_FulfillStock c t req (stock_inv s) = Some (r, J)" by auto
  have "\<exists>a s'. FulfillStock L c req s = (Inr a, s')"
    unfolding FulfillStock_def Let_def ParseUUID_simps(2) [OF t(1)] sum.case
    by (rule handler_answers [OF q _ t(1) frame_sched_bodies(5)], use fits in \<open>simp add: CallFulfillStock call_fits_def\<close>,
        rule answers_returns [OF fulfill_body_answers [of req t L]])
      (use fits t in \<open>auto simp: CallFulfillStock call_fits_def list_all_iff simp del: inventory_of_simps\<close>)
  then show ?thesis by (auto simp: CallFulfillStock)
next
  case (CallUnlockStockForAudit req)
  with sp obtain t r where t: "uuid_scan L (unl_tenant req) = Some t" by auto
  with fits CallUnlockStockForAudit have "\<exists>a s'. UnlockStockForAudit L c req s = (Inr a, s')"
    by (auto simp: UnlockStockForAudit_def Let_def call_fits_def frame_intros intro!: handler_answers [OF q]
        elim!: unlock_body_answers)
  then show ?thesis by (auto simp: CallUnlockStockForAudit)
qed

lemma fresh_ids_sample: "fresh_ids (calm_sess sample_stock ())"
  by (auto simp: fresh_ids_def calm_sess_def calm_def sample_stock_def intro!: inj_onI)

theorem stock_service_answers_witness:
  "\<exists>a s'. stock_serve sample_lib sample_ctx
     (CallReserveStock (sample_reserve [sample_line ''b'' 1, sample_line ''a'' 4])) (calm_sess sample_stock ()) =
     (Inr a, s')"
proof -
  let ?req = "sample_reserve [sample_line ''b'' 1, sample_line ''a'' 4]"
  have fits: "call_fits sample_lib (CallReserveStock ?req)" by code_simp
  have "map_option fst (spec_ReserveStock sample_ctx ''t'' ?req (inventory_of sample_stock)) =
      Some \<lparr>rsvr_success = False, rsvr_failed = [''b'']\<rparr>" by code_simp
  then obtain resp J where "spec_ReserveStock sample_ctx ''t'' ?req (inventory_of sample_stock) = Some (resp, J)" by auto
  then have "spec_serve sample_lib sample_ctx (CallReserveStock ?req) (stock_inv (calm_sess sample_stock ()))
      (ReplyReserveStock resp) J"
    by (simp add: sample_simps)
  from stock_service_answers [OF quiet_calm_sess _ fresh_ids_sample fits this] show ?thesis
    by (simp only: data_calm_sess sample_schema)
qed

end
