(* ===== verification/Reconcile.thy ===== *)
theory Reconcile
  imports StockComplete
begin

text \<open>
  \<^verbatim>\<open>internal/stockservice/reconcile.go\<close>: the reconciliation worker. It replays the event log of every
  location, compares the derived buckets with the stored row and locks rows that differ for audit.
  The statements of a pass run one by one on a pool whose role bypasses row-level security.
\<close>

section \<open>The worker\<close>

record Drift =
  dr_tenant :: string
  dr_sku :: string
  dr_wh :: string
  dr_exp_available :: int32
  dr_act_available :: int32
  dr_exp_reserved :: int32
  dr_act_reserved :: int32
  dr_exp_allocated :: int32
  dr_act_allocated :: int32

type_synonym reasonSum = "string \<times> int64"

text \<open>One iteration of the loop on the three running sums.\<close>

definition derive_step :: "reasonSum \<Rightarrow> int64 \<times> int64 \<times> int64 \<Rightarrow> int64 \<times> int64 \<times> int64" where
  "derive_step r b =
     (case (r, b) of ((rsn, totalDelta), (avail, reserved, allocated)) \<Rightarrow>
        if rsn = ''allocate'' then (avail, reserved - totalDelta, allocated + totalDelta)
        else if rsn = ''fulfill'' then (avail, reserved, allocated - totalDelta)
        else if rsn = ''reserve'' \<or> rsn = ''release'' then (avail + totalDelta, reserved - totalDelta, allocated)
        else (avail + totalDelta, reserved, allocated))"

definition deriveBuckets :: "reasonSum list \<Rightarrow> int64 \<times> int64 \<times> int64" where
  "deriveBuckets reasons = fold derive_step reasons (0, 0, 0)"

definition drift_of :: "StockLocation \<Rightarrow> StockLevel \<Rightarrow> reasonSum list \<Rightarrow> Drift" where
  "drift_of loc level rsn =
     (case deriveBuckets rsn of (avail, reserved, allocated) \<Rightarrow>
        \<lparr>dr_tenant = fst loc, dr_sku = fst (snd loc), dr_wh = snd (snd loc),
         dr_exp_available = ucast avail, dr_act_available = lv_available level,
         dr_exp_reserved = ucast reserved, dr_act_reserved = lv_reserved level,
         dr_exp_allocated = ucast allocated, dr_act_allocated = lv_allocated level\<rparr>)"

definition drift_differs :: "Drift \<Rightarrow> bool" where
  "drift_differs d \<longleftrightarrow> dr_exp_available d \<noteq> dr_act_available d \<or> dr_exp_reserved d \<noteq> dr_act_reserved d \<or>
     dr_exp_allocated d \<noteq> dr_act_allocated d"

definition reconcile_compare :: "StockLocation \<Rightarrow> StockLevel \<Rightarrow> reasonSum list \<Rightarrow> ('x, Drift list) stx" where
  "reconcile_compare loc level rsn =
     (let d = drift_of loc level rsn in
      if drift_differs d
      then bindE (autocommit (SetAuditLock loc True)) (\<lambda>_. returnE [d])
      else returnE [])"

text \<open>What follows the first read of a location, and the visit as a whole.\<close>

definition reconcile_rest :: "StockLocation \<Rightarrow> err + StockLevel \<Rightarrow> ('x, Drift list) stx" where
  "reconcile_rest loc r =
     (case r of
        Inl _ \<Rightarrow> returnE []
      | Inr level \<Rightarrow>
          bindE (autocommit (SumDeltasByReason loc)) (\<lambda>reasons. reconcile_compare loc level reasons))"

definition reconcile_location :: "StockLocation \<Rightarrow> ('x, Drift list) stx" where
  "reconcile_location loc = bindE (attempt (autocommit (GetStockLevelAny loc))) (reconcile_rest loc)"

definition Reconcile :: "('x, Drift list) stx" where
  "Reconcile =
     bindE (autocommit ListDistinctEventLocations) (\<lambda>locs.
     bindE (forE locs reconcile_location) (\<lambda>drifts. returnE (concat drifts)))"

section \<open>What the log says\<close>

text \<open>The contract of the file's header, on integers: what one movement does to the three buckets.\<close>

definition move_effect :: "movement \<Rightarrow> int \<times> int \<times> int" where
  "move_effect m =
     (if mv_reason m = ''allocate'' then (0, - mv_delta m, mv_delta m)
      else if mv_reason m = ''fulfill'' then (0, 0, - mv_delta m)
      else if mv_reason m = ''reserve'' \<or> mv_reason m = ''release'' then (mv_delta m, - mv_delta m, 0)
      else (mv_delta m, 0, 0))"

definition log_at :: "StockLocation \<Rightarrow> movement list \<Rightarrow> movement list" where
  "log_at loc ms = filter (\<lambda>m. mv_loc m = loc) ms"

definition derived :: "movement list \<Rightarrow> int \<times> int \<times> int" where
  "derived ms = (sum_list (map (fst \<circ> move_effect) ms), sum_list (map (fst \<circ> snd \<circ> move_effect) ms),
     sum_list (map (snd \<circ> snd \<circ> move_effect) ms))"

definition bucket_triple :: "bucket \<Rightarrow> int \<times> int \<times> int" where
  "bucket_triple b = (bk_available b, bk_reserved b, bk_allocated b)"

lemma derived_simps [simp]:
  "derived [] = (0, 0, 0)"
  "derived (ms @ ns) = (fst (derived ms) + fst (derived ns), fst (snd (derived ms)) + fst (snd (derived ns)),
     snd (snd (derived ms)) + snd (snd (derived ns)))"
  by (simp_all add: derived_def)

lemma derived_Cons:
  "derived (m # ms) = (fst (move_effect m) + fst (derived ms), fst (snd (move_effect m)) + fst (snd (derived ms)),
     snd (snd (move_effect m)) + snd (snd (derived ms)))"
  by (simp add: derived_def)

section \<open>deriveBuckets computes it\<close>

text \<open>One group's contribution, as integers.\<close>

definition group_effect :: "string \<Rightarrow> int \<Rightarrow> int \<times> int \<times> int" where
  "group_effect rsn n = move_effect \<lparr>mv_loc = (undefined, undefined, undefined), mv_delta = n, mv_reason = rsn,
     mv_source = '''', mv_actor = ''''\<rparr>"

lemma move_effect_group: "move_effect m = group_effect (mv_reason m) (mv_delta m)"
  by (simp add: group_effect_def move_effect_def)

lemma group_effect_add:
  "group_effect rsn (a + b) = (fst (group_effect rsn a) + fst (group_effect rsn b),
     fst (snd (group_effect rsn a)) + fst (snd (group_effect rsn b)),
     snd (snd (group_effect rsn a)) + snd (snd (group_effect rsn b)))"
  by (simp add: group_effect_def move_effect_def)

lemma group_effect_0 [simp]: "group_effect rsn 0 = (0, 0, 0)"
  by (simp add: group_effect_def move_effect_def)

lemma derive_fold:
  "fold derive_step (map (\<lambda>(rsn, n). (rsn, word_of_int n)) gs) (x, y, z) =
     (x + word_of_int (sum_list (map (\<lambda>(rsn, n). fst (group_effect rsn n)) gs)),
      y + word_of_int (sum_list (map (\<lambda>(rsn, n). fst (snd (group_effect rsn n))) gs)),
      z + word_of_int (sum_list (map (\<lambda>(rsn, n). snd (snd (group_effect rsn n))) gs)))"
proof (induction gs arbitrary: x y z)
  case (Cons g gs)
  obtain rsn n where g: "g = (rsn, n)" by fastforce
  have "derive_step (rsn, word_of_int n) (x, y, z) =
      (x + word_of_int (fst (group_effect rsn n)), y + word_of_int (fst (snd (group_effect rsn n))),
       z + word_of_int (snd (snd (group_effect rsn n))))"
    by (auto simp: derive_step_def group_effect_def move_effect_def)
  with Cons g show ?case by (simp add: add.assoc)
qed simp

lemma reason_total_Cons:
  "reason_total r (e # evs) = (if ev_reason e = r then sint (ev_delta e) else 0) + reason_total r evs"
  by (simp add: reason_total_def)

lemma sum_groups:
  fixes h :: "string \<Rightarrow> int \<Rightarrow> int"
  assumes add: "\<And>r x y. h r (x + y) = h r x + h r y" and zero: "\<And>r. h r 0 = 0"
    and "finite R" "set (map ev_reason evs) \<subseteq> R"
  shows "(\<Sum>r \<in> R. h r (reason_total r evs)) = sum_list (map (\<lambda>e. h (ev_reason e) (sint (ev_delta e))) evs)"
  using assms(4)
proof (induction evs)
  case Nil
  then show ?case by (simp add: reason_total_def zero)
next
  case (Cons e evs)
  have "h r (if ev_reason e = r then sint (ev_delta e) else 0) =
      (if ev_reason e = r then h (ev_reason e) (sint (ev_delta e)) else 0)" for r
    by (simp add: zero)
  with Cons assms(3) show ?case by (simp add: reason_total_Cons add sum.distrib)
qed

lemma sum_list_groups:
  fixes h :: "string \<Rightarrow> int \<Rightarrow> int"
  assumes "\<And>r x y. h r (x + y) = h r x + h r y" and "\<And>r. h r 0 = 0"
  shows "sum_list (map (\<lambda>(rsn, n). h rsn n) (map (\<lambda>rsn. (rsn, reason_total rsn evs)) (remdups (map ev_reason evs)))) =
    sum_list (map (\<lambda>e. h (ev_reason e) (sint (ev_delta e))) evs)"
proof -
  have "sum_list (map (\<lambda>rsn. h rsn (reason_total rsn evs)) (remdups (map ev_reason evs))) =
      (\<Sum>r \<in> set (map ev_reason evs). h r (reason_total r evs))"
    by (simp only: sum_list_distinct_conv_sum_set distinct_remdups set_remdups)
  then show ?thesis using sum_groups [of h "set (map ev_reason evs)" evs, OF assms] by (simp add: comp_def)
qed

definition reason_rows :: "StockEvent list \<Rightarrow> reasonSum list" where
  "reason_rows evs = map (\<lambda>rsn. (rsn, word_of_int (reason_total rsn evs))) (remdups (map ev_reason evs))"

text \<open>
  The bucket derivation of the worker, on grouped 64-bit sums, is the contract applied to every event
  of the location, whatever their order.
\<close>

lemma deriveBuckets_rows:
  assumes "derived (map movement_of evs) = (a, r, al)"
  shows "deriveBuckets (reason_rows evs) = (word_of_int a, word_of_int r, word_of_int al)"
proof -
  let ?gs = "map (\<lambda>rsn. (rsn, reason_total rsn evs)) (remdups (map ev_reason evs))"
  have rows: "reason_rows evs = map (\<lambda>(rsn, n). (rsn, word_of_int n)) ?gs"
    by (simp add: reason_rows_def)
  have eff: "move_effect (movement_of e) = group_effect (ev_reason e) (sint (ev_delta e))" for e
    by (simp add: move_effect_group movement_of_def)
  have "derived (map movement_of evs) =
      (sum_list (map (\<lambda>(rsn, n). fst (group_effect rsn n)) ?gs),
       sum_list (map (\<lambda>(rsn, n). fst (snd (group_effect rsn n))) ?gs),
       sum_list (map (\<lambda>(rsn, n). snd (snd (group_effect rsn n))) ?gs))"
    unfolding derived_def
    by (subst (1 2 3) sum_list_groups) (simp_all add: group_effect_add eff comp_def)
  with derive_fold [of ?gs 0 0 0] assms show ?thesis by (simp add: deriveBuckets_def rows)
qed

section \<open>Drift\<close>

text \<open>The worker compares \<^verbatim>\<open>int32\<close> values: buckets agree when they agree after truncation.\<close>

definition agrees :: "bucket \<Rightarrow> int \<times> int \<times> int \<Rightarrow> bool" where
  "agrees b d \<longleftrightarrow> (case d of (a, r, al) \<Rightarrow>
     (word_of_int a :: int32) = word_of_int (bk_available b) \<and>
     (word_of_int r :: int32) = word_of_int (bk_reserved b) \<and>
     (word_of_int al :: int32) = word_of_int (bk_allocated b))"

definition drifted :: "inventory \<Rightarrow> StockLocation \<Rightarrow> bool" where
  "drifted I loc \<longleftrightarrow>
     (case inv_levels I loc of None \<Rightarrow> False | Some b \<Rightarrow> \<not> agrees b (derived (log_at loc (inv_log I))))"

lemma ucast_truncates [simp]: "ucast (word_of_int x :: int64) = (word_of_int x :: int32)"
  by (rule bit_word_eqI) (auto simp: bit_simps)

lemma drift_differs_iff:
  "drift_differs (drift_of loc level (reason_rows evs)) \<longleftrightarrow>
     \<not> agrees (bucket_of level) (derived (map movement_of evs))"
proof -
  obtain a r al where d: "derived (map movement_of evs) = (a, r, al)" by (cases "derived (map movement_of evs)")
  show ?thesis
    using deriveBuckets_rows [OF d] by (simp add: drift_differs_def drift_of_def agrees_def d bucket_of_def)
qed

lemma log_at_events: "map movement_of (events_at loc evs) = log_at loc (map movement_of evs)"
  by (simp add: events_at_def log_at_def filter_map comp_def movement_of_def)

lemma autocommit_cases:
  assumes "autocommit (stmt f) s = (r, s')"
  shows "(\<forall>a. r = Inr a \<longrightarrow> (\<exists>e d. f e Bypass (data s) = Inr (a, d) \<and> data s' = d)) \<and>
    (data s' = data s \<or> (\<exists>e a d. f e Bypass (data s) = Inr (a, d) \<and> data s' = d))"
  using assms
  by (auto simp: autocommit_def with_scope_eq in_tx_def commit_or_rollback_def stmt_def Let_def
      split: prod.splits sum.splits option.splits fault.splits)

text \<open>What a pass may do to the inventory: lock drifted locations.\<close>

definition audits :: "inventory \<Rightarrow> inventory \<Rightarrow> bool" where
  "audits I J \<longleftrightarrow> inv_log J = inv_log I \<and> inv_out J = inv_out I \<and> inv_keys J = inv_keys I \<and>
     (\<forall>loc. inv_levels J loc = inv_levels I loc \<or>
        drifted I loc \<and> inv_levels J loc = map_option (\<lambda>b. b\<lparr>bk_locked := True\<rparr>) (inv_levels I loc))"

lemma audits_refl [simp]: "audits I I"
  by (simp add: audits_def)

lemma agrees_lock [simp]: "agrees (b\<lparr>bk_locked := x\<rparr>) d = agrees b d"
  by (simp add: agrees_def)

lemma audits_level:
  assumes "audits I J"
  shows "inv_levels J loc = inv_levels I loc \<or>
    inv_levels J loc = map_option (\<lambda>b. b\<lparr>bk_locked := True\<rparr>) (inv_levels I loc)"
  using assms unfolding audits_def by blast

lemma audits_drifted:
  assumes "audits I J"
  shows "drifted J loc = drifted I loc"
proof -
  note audits_level [OF assms, of loc]
  moreover have "inv_log J = inv_log I" using assms by (simp add: audits_def)
  ultimately show ?thesis by (cases "inv_levels I loc") (auto simp: drifted_def)
qed

lemma audits_trans: "audits I J \<Longrightarrow> audits J K \<Longrightarrow> audits I K"
  using audits_drifted [of I J] unfolding audits_def
  by (metis (no_types, lifting) option.map_comp option.map_cong0 comp_apply bucket.update_convs(4) bucket.surjective)

lemma audits_lock:
  "drifted I loc \<Longrightarrow> audits I (I\<lparr>inv_levels := (inv_levels I)(loc :=
     map_option (\<lambda>b. b\<lparr>bk_locked := True\<rparr>) (inv_levels I loc))\<rparr>)"
  unfolding audits_def by simp

lemma SetAuditLock_auto:
  assumes "autocommit (SetAuditLock loc True) s = (r, s')"
  shows "stock_inv s' = stock_inv s \<or>
    stock_inv s' = (stock_inv s)\<lparr>inv_levels := (inv_levels (stock_inv s))(loc :=
      map_option (\<lambda>b. b\<lparr>bk_locked := True\<rparr>) (inv_levels (stock_inv s) loc))\<rparr>"
    and "isl r \<or> map_option bk_locked (inv_levels (stock_inv s') loc) \<noteq> Some False"
proof -
  note c = autocommit_cases [OF assms [unfolded SetAuditLock_def]]
  then have d: "data s' = data s \<and> (stock_levels (data s) loc = None \<or> isl r) \<or>
      (\<exists>u l. stock_levels (data s) loc = Some l \<and>
        data s' = (data s)\<lparr>stock_levels := (stock_levels (data s))(loc \<mapsto> l\<lparr>lv_locked := True, lv_updated := u\<rparr>)\<rparr>)"
    by (cases r; cases "stock_levels (data s) loc") (auto simp: rls_visible_def)
  then show "stock_inv s' = stock_inv s \<or>
    stock_inv s' = (stock_inv s)\<lparr>inv_levels := (inv_levels (stock_inv s))(loc :=
      map_option (\<lambda>b. b\<lparr>bk_locked := True\<rparr>) (inv_levels (stock_inv s) loc))\<rparr>"
    by (auto simp: inventory_of_updates bucket_of_def)
  from d show "isl r \<or> map_option bk_locked (inv_levels (stock_inv s') loc) \<noteq> Some False"
    by (auto simp: bucket_of_def)
qed

lemma autocommit_read:
  assumes "\<And>e sc d a d'. f e sc d = Inr (a, d') \<Longrightarrow> d' = d"
  shows "frame data (autocommit (stmt f))"
proof -
  have "data s' = data s" if "autocommit (stmt f) s = (r, s')" for s r s'
    using autocommit_cases [OF that] assms by metis
  then show ?thesis unfolding frame_def by (metis prod.collapse)
qed

lemma autocommit_Inr:
  assumes "autocommit (stmt f) s = (Inr a, s')"
  obtains e d where "f e Bypass (data s) = Inr (a, d)"
  using autocommit_cases [OF assms] by blast

lemma frame_data_reads:
  "frame data (autocommit (GetStockLevelAny loc))" "frame data (autocommit (SumDeltasByReason loc))"
  "frame data (autocommit ListDistinctEventLocations)"
  unfolding GetStockLevelAny_def SumDeltasByReason_def ListDistinctEventLocations_def
  by (rule autocommit_read, simp add: Let_def split: if_splits option.splits)+

lemma auto_Get:
  assumes "autocommit (GetStockLevelAny loc) s = (Inr l, s')"
  shows "stock_levels (data s) loc = Some l"
  using assms unfolding GetStockLevelAny_def
  by (rule autocommit_Inr) (simp add: rls_visible_def split: option.splits)

lemma auto_Sum:
  assumes "autocommit (SumDeltasByReason loc) s = (Inr rows, s')"
  shows "rows = reason_rows (events_at loc (stock_events (data s)))"
  using assms unfolding SumDeltasByReason_def
  by (rule autocommit_Inr) (simp add: rls_visible_def Let_def reason_rows_def comp_def split: if_splits)

lemma auto_List:
  assumes "autocommit ListDistinctEventLocations s = (Inr locs, s')"
  shows "set locs = mv_loc ` set (inv_log (stock_inv s))"
  using assms unfolding ListDistinctEventLocations_def
  by (rule autocommit_Inr) (auto simp: rls_visible_def movement_of_def image_image)

definition drift_loc :: "Drift \<Rightarrow> StockLocation" where
  "drift_loc d = (dr_tenant d, dr_sku d, dr_wh d)"

lemma drift_loc_of [simp]: "drift_loc (drift_of loc level rsn) = loc"
  by (simp add: drift_loc_def drift_of_def split: prod.splits)

text \<open>What a successful visit of a location reports.\<close>

definition reports :: "inventory \<Rightarrow> inventory \<Rightarrow> Drift list \<Rightarrow> bool" where
  "reports I J ds \<longleftrightarrow>
     (\<forall>d \<in> set ds. drifted I (drift_loc d) \<and> map_option bk_locked (inv_levels J (drift_loc d)) = Some True)"

lemma reconcile_compare_audits:
  assumes "reconcile_compare loc level (reason_rows (events_at loc (stock_events (data s)))) s = (r, s')"
    and "stock_levels (data s) loc = Some level"
  shows "audits (stock_inv s) (stock_inv s') \<and>
    (\<forall>ds. r = Inr ds \<longrightarrow> reports (stock_inv s) (stock_inv s') ds)"
proof (cases "drifted (stock_inv s) loc")
  case True
  then have "drift_differs (drift_of loc level (reason_rows (events_at loc (stock_events (data s)))))"
    using assms(2) by (simp add: drift_differs_iff log_at_events drifted_def)
  with assms(1) obtain r1 where lock: "autocommit (SetAuditLock loc True) s = (r1, s')"
    and r: "r = map_sum id (\<lambda>_. [drift_of loc level (reason_rows (events_at loc (stock_events (data s))))]) r1"
    by (auto simp: reconcile_compare_def Let_def mapE_iff)
  note set_lock = SetAuditLock_auto [OF lock]
  have aud: "audits (stock_inv s) (stock_inv s')"
    using set_lock(1) audits_lock [OF True] by (elim disjE) simp_all
  have "map_option bk_locked (inv_levels (stock_inv s') loc) = Some True" if "r1 = Inr u" for u
  proof -
    have "inv_levels (stock_inv s') loc \<noteq> None"
      using audits_level [OF aud, of loc] assms(2) by auto
    with set_lock(2) that show ?thesis by auto
  qed
  with aud show ?thesis using True r by (cases r1) (auto simp: reports_def simp del: inventory_of_simps)
next
  case False
  then have "\<not> drift_differs (drift_of loc level (reason_rows (events_at loc (stock_events (data s)))))"
    using assms(2) by (simp add: drift_differs_iff log_at_events drifted_def)
  with assms(1) show ?thesis by (auto simp: reconcile_compare_def Let_def reports_def)
qed

lemma reconcile_location_audits:
  assumes "reconcile_location loc s = (r, s')"
  shows "audits (stock_inv s) (stock_inv s') \<and>
    (\<forall>ds. r = Inr ds \<longrightarrow> reports (stock_inv s) (stock_inv s') ds)"
proof -
  obtain r1 s1 where get: "autocommit (GetStockLevelAny loc) s = (r1, s1)" by fastforce
  show ?thesis
  proof (cases r1)
    case (Inl e)
    with assms get frameD [OF frame_data_reads(1) get] show ?thesis
      by (auto simp: reconcile_location_def reconcile_rest_def bindE_def attempt_def reports_def)
  next
    case (Inr level)
    obtain r2 s2 where sum: "autocommit (SumDeltasByReason loc) s1 = (r2, s2)" by fastforce
    have d: "data s1 = data s" "data s2 = data s"
      using frameD [OF frame_data_reads(1) get] frameD [OF frame_data_reads(2) sum] by simp_all
    show ?thesis
    proof (cases r2)
      case (Inl e)
      with assms get Inr sum d show ?thesis
        by (auto simp: reconcile_location_def reconcile_rest_def bindE_def attempt_def)
    next
      case (Inr rows)
      with assms get \<open>r1 = Inr level\<close> sum d auto_Get [of loc s level s1] auto_Sum [of loc s1 rows s2]
      have "reconcile_compare loc level (reason_rows (events_at loc (stock_events (data s2)))) s2 = (r, s')"
        "stock_levels (data s2) loc = Some level" "data s2 = data s"
        by (auto simp: reconcile_location_def reconcile_rest_def bindE_def attempt_def)
      with reconcile_compare_audits [OF this(1,2)] show ?thesis by simp
    qed
  qed
qed

lemma reports_later:
  assumes "reports I J ds" "audits J K"
  shows "reports I K ds"
proof -
  have "map_option bk_locked (inv_levels K loc) = Some True" if "map_option bk_locked (inv_levels J loc) = Some True" for loc
    using audits_level [OF assms(2), of loc] that by (cases "inv_levels J loc") auto
  with assms(1) show ?thesis by (auto simp: reports_def)
qed

lemma reports_earlier: "audits I J \<Longrightarrow> reports J K ds \<Longrightarrow> reports I K ds"
  by (simp add: reports_def audits_drifted)

lemma reconcile_locations_audits:
  "forE locs reconcile_location s = (r, s') \<Longrightarrow>
   audits (stock_inv s) (stock_inv s') \<and> (\<forall>dss. r = Inr dss \<longrightarrow> reports (stock_inv s) (stock_inv s') (concat dss))"
proof (induction locs arbitrary: s r s')
  case Nil
  then show ?case by (auto simp: reports_def)
next
  case (Cons loc locs)
  obtain r1 s1 where visit: "reconcile_location loc s = (r1, s1)" by fastforce
  note v = reconcile_location_audits [OF visit]
  show ?case
  proof (cases r1)
    case (Inl e)
    with Cons.prems visit v show ?thesis by auto
  next
    case (Inr ds)
    obtain r2 s2 where rest: "forE locs reconcile_location s1 = (r2, s2)" by fastforce
    note IH = Cons.IH [OF rest]
    have out: "s' = s2" "r = map_sum id (Cons ds) r2"
      using Cons.prems visit Inr rest by (cases r2; auto)+
    have "audits (stock_inv s) (stock_inv s')" using v IH out(1) by (blast intro: audits_trans)
    moreover have "reports (stock_inv s) (stock_inv s') (concat (ds # dss))" if "r2 = Inr dss" for dss
    proof -
      have "reports (stock_inv s) (stock_inv s2) ds" using v IH Inr reports_later by blast
      moreover have "reports (stock_inv s) (stock_inv s2) (concat dss)" using v IH that reports_earlier by blast
      ultimately show ?thesis using out(1) by (auto simp: reports_def)
    qed
    ultimately show ?thesis using out(2) by (cases r2) auto
  qed
qed

lemma Reconcile_audits:
  assumes "Reconcile s = (r, s')"
  shows "audits (stock_inv s) (stock_inv s') \<and> (\<forall>ds. r = Inr ds \<longrightarrow> reports (stock_inv s) (stock_inv s') ds)"
proof -
  obtain r1 s1 where list: "autocommit ListDistinctEventLocations s = (r1, s1)" by fastforce
  have d: "data s1 = data s" using frameD [OF frame_data_reads(3) list] .
  show ?thesis
  proof (cases r1)
    case (Inl e)
    with assms list d show ?thesis by (auto simp: Reconcile_def)
  next
    case (Inr locs)
    with assms list obtain r2 where "forE locs reconcile_location s1 = (r2, s')" "r = map_sum id concat r2"
      by (auto simp: Reconcile_def mapE_iff)
    with reconcile_locations_audits [OF this(1)] d show ?thesis by (cases r2) auto
  qed
qed

section \<open>Histories the contract describes\<close>

text \<open>
  The log explains the buckets: at every location the derived buckets are the stored ones, and
  nothing is derived where no row exists.
\<close>

definition explained :: "inventory \<Rightarrow> bool" where
  "explained I \<longleftrightarrow> (\<forall>loc. derived (log_at loc (inv_log I)) =
     (case inv_levels I loc of None \<Rightarrow> (0, 0, 0) | Some b \<Rightarrow> bucket_triple b))"

lemma explainedD:
  "explained I \<Longrightarrow> derived (log_at loc (inv_log I)) =
     (case inv_levels I loc of None \<Rightarrow> (0, 0, 0) | Some b \<Rightarrow> bucket_triple b)"
  unfolding explained_def by blast

lemma explained_not_drifted: "explained I \<Longrightarrow> \<not> drifted I loc"
  using explainedD [of I loc] by (auto simp: drifted_def agrees_def bucket_triple_def split: option.splits)

text \<open>
  A request the contract of the header describes: releases say \<^verbatim>\<open>release\<close>, adjustments do not use a
  reason that stands for a reservation move.
\<close>

definition regular :: "stock_call \<Rightarrow> bool" where
  "regular call =
     (case call of
        CallAdjustStock req \<Rightarrow> adj_reason req \<notin> {''reserve'', ''release'', ''allocate'', ''fulfill''}
      | CallReleaseStock req \<Rightarrow> rls_reason req = ''release''
      | _ \<Rightarrow> True)"

definition regular_move :: "move \<Rightarrow> bool" where
  "regular_move k \<longleftrightarrow> (\<forall>rsn. k = MoveRelease rsn \<longrightarrow> rsn = ''release'')"

lemma sint_uminus_reserve:
  fixes q :: int32
  assumes "bucket_ok b" "bucket_ok (move_bucket MoveReserve (sint q) b)"
  shows "sint (- q) = - sint q"
proof -
  from assms have "- 2147483648 < sint q" by (auto simp: bucket_ok_def)
  then show ?thesis
    using sint_i32_less [of q] by (intro sint_eq_i32) (simp_all add: in_i32_def del: sint_i32_less)
qed

lemma log_at_append [simp]: "log_at loc (ms @ ns) = log_at loc ms @ log_at loc ns"
  by (simp add: log_at_def)

lemma explained_move:
  assumes "explained I" "\<forall>loc b. inv_levels I loc = Some b \<longrightarrow> bucket_ok b"
    and mv: "spec_move k c t ord l I = Some J" and "regular_move k"
  shows "explained J \<and> (\<forall>loc b. inv_levels J loc = Some b \<longrightarrow> bucket_ok b)"
proof -
  note d = spec_move_SomeD [OF mv]
  from d(2) obtain b where b: "inv_levels I (line_loc t l) = Some b" by auto
  from d(1,6) b have ok: "bucket_ok (move_bucket k (sint (sl_qty l)) b)" by simp
  have "derived (log_at (line_loc t l) [move_movement k t ord l]) =
      (bk_available (move_bucket k (sint (sl_qty l)) b) - bk_available b,
       bk_reserved (move_bucket k (sint (sl_qty l)) b) - bk_reserved b,
       bk_allocated (move_bucket k (sint (sl_qty l)) b) - bk_allocated b)"
    using assms(2,4) b ok sint_uminus_reserve [of b "sl_qty l"]
    by (cases k) (auto simp: log_at_def derived_Cons move_movement_def move_effect_def regular_move_def)
  moreover have "derived (log_at (line_loc t l) (inv_log I)) = bucket_triple b"
    using explainedD [OF assms(1), of "line_loc t l"] b by simp
  ultimately have here: "derived (log_at (line_loc t l) (inv_log J)) = bucket_triple (move_bucket k (sint (sl_qty l)) b)"
    by (simp add: d(3) bucket_triple_def)
  have "log_at loc (inv_log J) = log_at loc (inv_log I)" if "loc \<noteq> line_loc t l" for loc
    using that by (simp add: d(3)) (simp add: log_at_def move_movement_def)
  then have "derived (log_at loc (inv_log J)) =
      (case inv_levels J loc of None \<Rightarrow> (0, 0, 0) | Some b \<Rightarrow> bucket_triple b)" for loc
    using here d(1) b explainedD [OF assms(1), of loc] by (cases "loc = line_loc t l") simp_all
  then have "explained J" unfolding explained_def by blast
  moreover have "\<forall>loc b. inv_levels J loc = Some b \<longrightarrow> bucket_ok b" using d(1) assms(2) b ok by auto
  ultimately show ?thesis by blast
qed

lemma explained_run_moves:
  "run_moves k c t ord ls I = Some J \<Longrightarrow> explained I \<Longrightarrow> \<forall>loc b. inv_levels I loc = Some b \<longrightarrow> bucket_ok b \<Longrightarrow>
     regular_move k \<Longrightarrow> explained J"
proof (induction ls arbitrary: I)
  case (Cons l ls)
  then obtain K where K: "spec_move k c t ord l I = Some K" "run_moves k c t ord ls K = Some J"
    by (auto split: option.splits)
  from explained_move [OF Cons.prems(2,3) K(1) Cons.prems(4)] Cons.IH [OF K(2)] Cons.prems(4) show ?case by blast
qed simp

lemma explained_record_key [simp]: "explained (record_key t k I) = explained I"
  unfolding explained_def record_key_simps ..

definition in_bounds :: "inventory \<Rightarrow> bool" where
  "in_bounds I \<longleftrightarrow> (\<forall>loc b. inv_levels I loc = Some b \<longrightarrow> bucket_ok b)"

lemma in_bounds_record_key [simp]: "in_bounds (record_key t k I) = in_bounds I"
  by (simp add: in_bounds_def)

lemma stock_schema_in_bounds: "stock_schema d \<Longrightarrow> in_bounds (inventory_of d)"
  unfolding in_bounds_def by (auto dest: stock_schema_level)

lemma explained_add:
  assumes "explained I" "inv_levels J = (inv_levels I)(l \<mapsto> b)" "inv_log J = inv_log I @ [m]" "mv_loc m = l"
    and "bucket_triple b = (let (x, y, z) = (case inv_levels I l of None \<Rightarrow> (0, 0, 0) | Some b \<Rightarrow> bucket_triple b) in
      (x + fst (move_effect m), y + fst (snd (move_effect m)), z + snd (snd (move_effect m))))"
  shows "explained J"
proof -
  have "derived (log_at loc (inv_log J)) =
      (case inv_levels J loc of None \<Rightarrow> (0, 0, 0) | Some b \<Rightarrow> bucket_triple b)" for loc
  proof (cases "loc = l")
    case True
    then have "log_at loc (inv_log J) = log_at loc (inv_log I) @ [m]" using assms(3,4) by (simp add: log_at_def)
    with True assms(2,5) explainedD [OF assms(1), of l] show ?thesis
      by (simp add: derived_Cons Let_def split: prod.splits)
  next
    case False
    then have "log_at loc (inv_log J) = log_at loc (inv_log I)" using assms(3,4) by (simp add: log_at_def)
    with False assms(2) explainedD [OF assms(1), of loc] show ?thesis by simp
  qed
  then show ?thesis unfolding explained_def by blast
qed

lemma explained_serve:
  assumes ex: "explained I" and ib: "in_bounds I" and sp: "spec_serve L c call I a J" and rg: "regular call"
  shows "explained J"
proof (cases call)
  case (CallAdjustStock req)
  with sp obtain t eid r where "spec_AdjustStock c t req eid I = Some (r, J)" by auto
  then show ?thesis
  proof (cases rule: spec_AdjustStock_cases)
    case (adjusted b)
    from rg CallAdjustStock adjusted(4) ex show ?thesis
      by (intro explained_add [OF ex adjusted(5,6)])
        (auto simp: regular_def move_effect_def spec_adjust_bucket_def bucket_triple_def Let_def split: option.splits)
  qed (simp add: ex)
next
  case (CallReserveStock req)
  with sp obtain t r where "spec_ReserveStock c t req I = Some (r, J)" by auto
  then show ?thesis using ex ib
    by (cases rule: spec_ReserveStock_cases)
      (auto simp: in_bounds_def regular_move_def elim: explained_run_moves)
next
  case (CallReleaseStock req)
  with sp obtain t r where "spec_ReleaseStock c t req I = Some (r, J)" by auto
  then show ?thesis using ex ib rg CallReleaseStock
    by (cases rule: spec_ReleaseStock_cases)
      (auto simp: in_bounds_def regular_move_def regular_def elim: explained_run_moves)
next
  case (CallConfirmStockAllocation req)
  with sp obtain t r where "spec_ConfirmStockAllocation c t req I = Some (r, J)" by auto
  then show ?thesis using ex ib
    by (cases rule: spec_ConfirmStockAllocation_cases)
      (auto simp: in_bounds_def regular_move_def elim: explained_run_moves)
next
  case (CallFulfillStock req)
  with sp obtain t r where "spec_FulfillStock c t req I = Some (r, J)" by auto
  then show ?thesis using ex ib
    by (cases rule: spec_FulfillStock_cases)
      (auto simp: in_bounds_def regular_move_def elim: explained_run_moves)
next
  case (CallUnlockStockForAudit req)
  with sp obtain t r where sp': "spec_UnlockStockForAudit t req I = Some (r, J)" by auto
  show ?thesis
  proof (cases "inv_levels I (t, unl_sku req, unl_wh req)")
    case None
    with sp' ex show ?thesis by (simp add: spec_UnlockStockForAudit_def)
  next
    case (Some b)
    with sp' show ?thesis
      by (intro explained_add [OF ex, of J _ "b\<lparr>bk_locked := False\<rparr>"])
        (auto simp: spec_UnlockStockForAudit_def move_effect_def bucket_triple_def Let_def)
  qed
qed

lemma explained_deliveries:
  assumes "explained (stock_inv s)" "stock_schema (data s)" "\<forall>(c, call) \<in> set ops. regular call"
  shows "explained (stock_inv (fold (deliver L) ops s))"
  using assms
proof (induction ops arbitrary: s)
  case (Cons op ops)
  obtain c call where op: "op = (c, call)" by fastforce
  let ?s' = "deliver L op s"
  have s': "stock_serve L c call s = (fst (stock_serve L c call s), ?s')"
    by (simp add: op deliver_def)
  have "stock_schema (data ?s')" using keeps_step [OF keeps_stock_serve s'] Cons.prems(2) .
  moreover have "explained (stock_inv ?s')"
    using implements_outcome [OF stock_serve_implements [OF Cons.prems(2) s']]
      explained_serve [OF Cons.prems(1) stock_schema_in_bounds [OF Cons.prems(2)]] Cons.prems(1,3) op by auto
  ultimately show ?case using Cons.IH Cons.prems(3) by simp
qed simp

text \<open>
  C8: Reconciliation raises no false alarm on histories its contract describes. From a database whose
  log explains its rows (the empty one, say), after any sequence of requests in which releases carry
  the reason \<^verbatim>\<open>release\<close> and adjustments use none of the reserved reasons, with any faults, a pass
  reports nothing and changes no row.
\<close>

theorem reconcile_no_false_alarm:
  assumes "explained (stock_inv s)" and "stock_schema (data s)" and "\<forall>(c, call) \<in> set ops. regular call"
    and "Reconcile (fold (deliver L) ops s) = (r, s')"
  shows "stock_inv s' = stock_inv (fold (deliver L) ops s) \<and> (\<forall>ds. r = Inr ds \<longrightarrow> ds = [])"
proof -
  let ?I = "stock_inv (fold (deliver L) ops s)"
  have no: "\<not> drifted ?I loc" for loc
    using explained_deliveries [OF assms(1-3)] explained_not_drifted by blast
  have aud: "audits ?I (stock_inv s') \<and> (\<forall>ds. r = Inr ds \<longrightarrow> reports ?I (stock_inv s') ds)"
    using Reconcile_audits [OF assms(4)] .
  then have "inv_levels (stock_inv s') = inv_levels ?I"
    using no unfolding audits_def fun_eq_iff by metis
  with aud have "stock_inv s' = ?I" unfolding audits_def
    by (intro inventory.equality) (simp_all del: inventory_of_simps)
  moreover have "ds = []" if "r = Inr ds" for ds
    using aud that no by (cases ds) (auto simp: reports_def simp del: inventory_of_simps)
  ultimately show ?thesis by blast
qed

lemma explained_empty: "explained (inventory_of \<lparr>stock_levels = Map.empty, stock_events = [], stock_outbox = [], stock_keys = []\<rparr>)"
  unfolding explained_def by (simp add: log_at_def)

definition empty_stock :: stock_db where
  "empty_stock = \<lparr>stock_levels = Map.empty, stock_events = [], stock_outbox = [], stock_keys = []\<rparr>"

definition sample_adjust :: "string \<Rightarrow> int32 \<Rightarrow> AdjustStockRequest" where
  "sample_adjust k q = \<lparr>adj_tenant = ''t'', adj_sku = ''a'', adj_wh = ''w'', adj_delta = q,
     adj_reason = ''adjust'', adj_source = ''wms'', adj_key = k\<rparr>"

definition sample_release :: "string \<Rightarrow> int32 \<Rightarrow> ReleaseStockRequest" where
  "sample_release rsn q = \<lparr>rls_tenant = ''t'', rls_order = ''o'', rls_reason = rsn, rls_key = ''r'',
     rls_lines = [sample_line ''a'' q]\<rparr>"

definition sample_history :: "string \<Rightarrow> (ctx \<times> stock_call) list" where
  "sample_history rsn = [(sample_ctx, CallAdjustStock (sample_adjust ''k0'' 10)),
     (sample_ctx, CallReserveStock (sample_reserve [sample_line ''a'' 4])),
     (sample_ctx, CallReleaseStock (sample_release rsn 4))]"

lemma empty_stock_facts: "explained (inventory_of empty_stock)" "stock_schema empty_stock"
  using explained_empty
  by (simp_all add: empty_stock_def stock_schema_def keys_unique_def outbox_unique_def)

theorem reconcile_no_false_alarm_witness:
  "let s = fold (deliver sample_lib) (sample_history ''release'') (calm_sess empty_stock ()); (r, s') = Reconcile s in
   map ev_reason (stock_events (data s)) = [''adjust'', ''reserve'', ''release''] \<and> r = Inr [] \<and> stock_inv s' = stock_inv s"
proof -
  let ?s = "fold (deliver sample_lib) (sample_history ''release'') (calm_sess empty_stock ())"
  have h: "\<forall>(c, call) \<in> set (sample_history ''release''). regular call"
    by (simp add: sample_history_def regular_def sample_adjust_def sample_release_def)
  obtain r s' where R: "Reconcile ?s = (r, s')" by fastforce
  have "fst (Reconcile ?s) = Inr []" by code_simp
  moreover have "map ev_reason (stock_events (data ?s)) = [''adjust'', ''reserve'', ''release'']" by code_simp
  ultimately show ?thesis
    using reconcile_no_false_alarm [OF _ _ h R] empty_stock_facts R by (simp add: Let_def)
qed

section \<open>What a pass does and reports\<close>

text \<open>
  C25: Reconciliation only locks, and only what drifted. Whatever fails, a pass changes no bucket, no
  event, no outbox row and no key; the only change is that locations whose log does not explain
  their row become locked, and every location it reports has drifted and is locked afterwards.
\<close>

theorem reconcile_locks_only_drift:
  assumes "Reconcile s = (r, s')"
  shows "audits (stock_inv s) (stock_inv s') \<and> stock_events (data s') = stock_events (data s) \<and>
    (\<forall>ds. r = Inr ds \<longrightarrow> reports (stock_inv s) (stock_inv s') ds)"
proof -
  have "keeps (\<lambda>d. stock_events d = stock_events (data s)) Reconcile"
    unfolding Reconcile_def reconcile_location_def reconcile_rest_def reconcile_compare_def Let_def
    by (intro keeps_intros)
      (auto simp: ListDistinctEventLocations_def GetStockLevelAny_def SumDeltasByReason_def SetAuditLock_def Let_def
        intro!: keeps_stmt split: if_splits option.splits)
  from keeps_step [OF this assms] Reconcile_audits [OF assms] show ?thesis by simp
qed

theorem reconcile_locks_only_drift_witness:
  "let s = fold (deliver sample_lib) (sample_history ''ttl_expiry'') (calm_sess empty_stock ()); (r, s') = Reconcile s in
   map_sum id (map drift_loc) r = Inr [(''t'', ''a'', ''w'')] \<and> audits (stock_inv s) (stock_inv s') \<and>
   map_option bk_locked (inv_levels (stock_inv s') (''t'', ''a'', ''w'')) = Some True"
proof -
  let ?s = "fold (deliver sample_lib) (sample_history ''ttl_expiry'') (calm_sess empty_stock ())"
  obtain r s' where R: "Reconcile ?s = (r, s')" by fastforce
  have "map_sum id (map drift_loc) (fst (Reconcile ?s)) = Inr [(''t'', ''a'', ''w'')]" by code_simp
  with R obtain ds where ds: "r = Inr ds" "map drift_loc ds = [(''t'', ''a'', ''w'')]" by (cases r) auto
  with R reconcile_locks_only_drift [OF R] show ?thesis by (auto simp: reports_def simp del: inventory_of_simps)
qed

lemma reason_total_bound: "\<bar>reason_total rsn evs\<bar> \<le> 2147483648 * int (length evs)"
proof (induction evs)
  case (Cons e evs)
  have "\<bar>sint (ev_delta e)\<bar> \<le> 2147483648"
    using sint_in_i32 [of "ev_delta e"] by (simp only: in_i32_def) arith
  with Cons show ?case by (auto simp: reason_total_Cons algebra_simps abs_if split: if_splits)
qed (simp add: reason_total_def)

lemma sums_fit:
  assumes "length evs < 4294967296"
  shows "in_i64 (reason_total rsn (events_at loc evs))"
proof -
  have "length (events_at loc evs) \<le> length evs" by (simp add: events_at_def)
  with assms have "int (length (events_at loc evs)) \<le> 4294967295" by linarith
  with reason_total_bound [of rsn "events_at loc evs"] show ?thesis unfolding in_i64_def by linarith
qed

lemmas autocommit_quiet = autocommit_def with_scope_def in_tx_def stmt_simps rls_visible_def

lemma auto_Get_quiet:
  assumes "quiet s"
  shows "stock_levels (data s) loc = None \<Longrightarrow>
      \<exists>s'. autocommit (GetStockLevelAny loc) s = (Inl ErrNoRows, s') \<and> quiet s' \<and> data s' = data s"
    and "stock_levels (data s) loc = Some l \<Longrightarrow>
      \<exists>s'. autocommit (GetStockLevelAny loc) s = (Inr l, s') \<and> quiet s' \<and> data s' = data s"
  using assms by (simp_all add: GetStockLevelAny_def autocommit_quiet)

lemma auto_Sum_quiet:
  assumes "quiet s" "length (stock_events (data s)) < 4294967296"
  shows "\<exists>s'. autocommit (SumDeltasByReason loc) s =
      (Inr (reason_rows (events_at loc (stock_events (data s)))), s') \<and> quiet s' \<and> data s' = data s"
proof -
  have "list_all (in_i64 \<circ> snd) (map (\<lambda>rsn. (rsn, reason_total rsn (events_at loc (stock_events (data s)))))
      (remdups (map ev_reason (events_at loc (stock_events (data s))))))"
    using sums_fit [OF assms(2)] by (simp add: list_all_iff)
  then show ?thesis using assms(1) by (simp add: SumDeltasByReason_def autocommit_quiet Let_def reason_rows_def comp_def)
qed

text \<open>The inventory with some of its rows locked.\<close>

definition locked_where :: "StockLocation set \<Rightarrow> inventory \<Rightarrow> inventory" where
  "locked_where X I = I\<lparr>inv_levels := (\<lambda>loc. if loc \<in> X then map_option (\<lambda>b. b\<lparr>bk_locked := True\<rparr>) (inv_levels I loc)
     else inv_levels I loc)\<rparr>"

lemma locked_where_empty [simp]: "locked_where {} I = I"
  by (simp add: locked_where_def)

lemma locked_where_twice: "locked_where X (locked_where Y I) = locked_where (Y \<union> X) I"
  by (auto simp: locked_where_def fun_eq_iff option.map_comp comp_def intro: option.map_cong)

lemma drifted_locked_where [simp]: "drifted (locked_where X I) loc = drifted I loc"
  by (cases "inv_levels I loc") (auto simp: drifted_def locked_where_def)

lemma auto_Lock_quiet:
  assumes "quiet s" "stock_levels (data s) loc = Some l"
  shows "\<exists>s'. autocommit (SetAuditLock loc True) s = (Inr (), s') \<and> quiet s' \<and>
    stock_events (data s') = stock_events (data s) \<and> stock_inv s' = locked_where {loc} (stock_inv s)"
  using assms
  by (simp add: SetAuditLock_def autocommit_quiet)
    (auto simp: locked_where_def inventory_of_updates bucket_of_def fun_eq_iff)

lemma auto_List_quiet:
  assumes "quiet s"
  shows "\<exists>locs s'. autocommit ListDistinctEventLocations s = (Inr locs, s') \<and> quiet s' \<and> data s' = data s"
  using assms by (simp add: ListDistinctEventLocations_def autocommit_quiet)

lemma reconcile_location_quiet:
  assumes q: "quiet s" "length (stock_events (data s)) < 4294967296"
  shows "\<exists>ds s'. reconcile_location loc s = (Inr ds, s') \<and> quiet s' \<and> length (stock_events (data s')) < 4294967296 \<and>
    drift_loc ` set ds = {l. l = loc \<and> drifted (stock_inv s) l} \<and>
    stock_inv s' = locked_where {l. l = loc \<and> drifted (stock_inv s) l} (stock_inv s)"
proof (cases "stock_levels (data s) loc")
  case None
  with auto_Get_quiet(1) [OF q(1)] obtain s1 where
    "autocommit (GetStockLevelAny loc) s = (Inl ErrNoRows, s1)" "quiet s1" "data s1 = data s" by blast
  moreover have X: "{l. l = loc \<and> drifted (stock_inv s) l} = {}" using None by (auto simp: drifted_def)
  ultimately show ?thesis unfolding X using q by (simp add: reconcile_location_def reconcile_rest_def bindE_def attempt_def)
next
  case (Some level)
  with auto_Get_quiet(2) [OF q(1)] obtain s1 where
    s1: "autocommit (GetStockLevelAny loc) s = (Inr level, s1)" "quiet s1" "data s1 = data s" by blast
  let ?rows = "reason_rows (events_at loc (stock_events (data s)))"
  obtain s2 where s2: "autocommit (SumDeltasByReason loc) s1 = (Inr ?rows, s2)" "quiet s2" "data s2 = data s"
    using auto_Sum_quiet [OF s1(2), of loc] q(2) s1(3) by auto
  show ?thesis
  proof (cases "drifted (stock_inv s) loc")
    case True
    with Some have diff: "drift_differs (drift_of loc level ?rows)"
      by (simp add: drift_differs_iff log_at_events drifted_def)
    obtain u s3 where "autocommit (SetAuditLock loc True) s2 = (Inr u, s3)" "quiet s3"
      "stock_events (data s3) = stock_events (data s)" "stock_inv s3 = locked_where {loc} (stock_inv s)"
      using auto_Lock_quiet [OF s2(2), of loc level] s2(3) Some by auto
    moreover have X: "{l. l = loc \<and> drifted (stock_inv s) l} = {loc}" using True by blast
    ultimately show ?thesis unfolding X using s1 s2 diff q(2)
      by (simp add: reconcile_location_def reconcile_rest_def reconcile_compare_def Let_def bindE_def attempt_def)
  next
    case False
    with Some have "\<not> drift_differs (drift_of loc level ?rows)"
      by (simp add: drift_differs_iff log_at_events drifted_def)
    moreover have X: "{l. l = loc \<and> drifted (stock_inv s) l} = {}" using False by blast
    ultimately show ?thesis unfolding X using s1 s2 q(2)
      by (simp add: reconcile_location_def reconcile_rest_def reconcile_compare_def Let_def bindE_def attempt_def)
  qed
qed

lemma reconcile_locations_quiet:
  "quiet s \<Longrightarrow> length (stock_events (data s)) < 4294967296 \<Longrightarrow>
   \<exists>dss s'. forE locs reconcile_location s = (Inr dss, s') \<and>
     drift_loc ` set (concat dss) = {l \<in> set locs. drifted (stock_inv s) l} \<and>
     stock_inv s' = locked_where {l \<in> set locs. drifted (stock_inv s) l} (stock_inv s)"
proof (induction locs arbitrary: s)
  case (Cons loc locs)
  let ?X = "{l. l = loc \<and> drifted (stock_inv s) l}" and ?Y = "{l \<in> set locs. drifted (stock_inv s) l}"
  from reconcile_location_quiet [OF Cons.prems, of loc] obtain ds s1 where s1:
    "reconcile_location loc s = (Inr ds, s1)" "quiet s1" "length (stock_events (data s1)) < 4294967296"
    "drift_loc ` set ds = ?X" "stock_inv s1 = locked_where ?X (stock_inv s)" by blast
  from Cons.IH [OF s1(2,3)] obtain dss s2 where s2: "forE locs reconcile_location s1 = (Inr dss, s2)"
    "drift_loc ` set (concat dss) = ?Y" "stock_inv s2 = locked_where ?Y (stock_inv s1)"
    unfolding s1(5) drifted_locked_where by blast
  have XY: "{l \<in> set (loc # locs). drifted (stock_inv s) l} = ?X \<union> ?Y" by auto
  have run: "forE (loc # locs) reconcile_location s = (Inr (ds # dss), s2)" using s1(1) s2(1) by simp
  have "drift_loc ` set (concat (ds # dss)) = ?X \<union> ?Y" using s1(4) s2(2) by (simp add: image_Un)
  moreover have "stock_inv s2 = locked_where (?X \<union> ?Y) (stock_inv s)"
    unfolding s2(3) s1(5) locked_where_twice ..
  ultimately show ?case unfolding XY using run by blast
qed simp

lemma Reconcile_quiet:
  assumes "quiet s" and "length (stock_events (data s)) < 4294967296"
  shows "\<exists>ds s'. Reconcile s = (Inr ds, s') \<and>
    drift_loc ` set ds = {loc \<in> mv_loc ` set (inv_log (stock_inv s)). drifted (stock_inv s) loc} \<and>
    stock_inv s' = locked_where {loc \<in> mv_loc ` set (inv_log (stock_inv s)). drifted (stock_inv s) loc} (stock_inv s)"
proof -
  obtain locs s1 where list: "autocommit ListDistinctEventLocations s = (Inr locs, s1)" "quiet s1" "data s1 = data s"
    using auto_List_quiet [OF assms(1)] by blast
  with assms(2) reconcile_locations_quiet [of s1 locs] obtain dss s2 where
    s2: "forE locs reconcile_location s1 = (Inr dss, s2)"
    "drift_loc ` set (concat dss) = {l \<in> set locs. drifted (stock_inv s) l}"
    "stock_inv s2 = locked_where {l \<in> set locs. drifted (stock_inv s) l} (stock_inv s)" by auto
  have "Reconcile s = (Inr (concat dss), s2)" using list s2 by (simp add: Reconcile_def)
  with s2(2,3) show ?thesis unfolding auto_List [OF list(1)] by blast
qed

text \<open>
  C26: When no statement fails, a pass completes, and it finds exactly the drift there is: it reports the
  locations with events whose row the log does not explain, all of them and no other, and the rows it
  leaves are those it found, with exactly these locations locked for audit.
\<close>

theorem reconcile_finds_drift:
  assumes "quiet s" and "length (stock_events (data s)) < 4294967296"
  shows "\<exists>ds s'. Reconcile s = (Inr ds, s') \<and>
    drift_loc ` set ds = {loc \<in> mv_loc ` set (inv_log (stock_inv s)). drifted (stock_inv s) loc} \<and>
    stock_inv s' = locked_where {loc \<in> mv_loc ` set (inv_log (stock_inv s)). drifted (stock_inv s) loc} (stock_inv s)"
  using assms by (rule Reconcile_quiet)

lemma frame_err_case [frame_intros]:
  "(\<And>ss. frame g (m ss)) \<Longrightarrow> frame g n \<Longrightarrow> frame g (case e of InsufficientStock ss \<Rightarrow> m ss | _ \<Rightarrow> n)"
  by (cases e) auto

lemma frame_sched_serve: "frame sched (stock_serve L c call)"
  by (cases call; simp only: stock_serve.simps stock_handler_defs Let_def; intro frame_intros)

theorem reconcile_finds_drift_witness:
  "let s = fold (deliver sample_lib) (sample_history ''ttl_expiry'') (calm_sess empty_stock ()) in
   drifted (stock_inv s) (''t'', ''a'', ''w'') \<and>
   map_option bk_locked (inv_levels (stock_inv (snd (Reconcile s))) (''t'', ''a'', ''w'')) = Some True"
proof -
  let ?s = "fold (deliver sample_lib) (sample_history ''ttl_expiry'') (calm_sess empty_stock ())"
  have d: "drifted (stock_inv ?s) (''t'', ''a'', ''w'')" by code_simp
  have "map_option bk_reserved (inv_levels (stock_inv ?s) (''t'', ''a'', ''w'')) = Some 0" by code_simp
  then have "inv_levels (stock_inv ?s) (''t'', ''a'', ''w'') \<noteq> None" by auto
  moreover have "length (stock_events (data ?s)) = 3" by code_simp
  then have l: "length (stock_events (data ?s)) < 4294967296" by simp
  moreover have "(''t'', ''a'', ''w'') \<in> mv_loc ` set (inv_log (stock_inv ?s))" by code_simp
  moreover have "quiet ?s"
    by (simp add: sample_history_def deliver_def quiet_def calm_sess_def calm_def
        frame_sched_serve [unfolded frame_def, rule_format] del: stock_serve.simps)
  ultimately show ?thesis
    using reconcile_finds_drift [OF _ l] d
    by (fastforce simp: Let_def locked_where_def simp del: inventory_of_simps)
qed

section \<open>Releases for other reasons\<close>

definition contract_reasons :: "string set" where
  "contract_reasons = {''reserve'', ''release'', ''allocate'', ''fulfill''}"

lemma derived_other_releases:
  "rsn \<notin> contract_reasons \<Longrightarrow>
     derived (log_at loc (map (move_movement (MoveRelease rsn) t ord) ls)) = (demand t ls loc, 0, 0)"
  by (induction ls)
    (auto simp: log_at_def derived_Cons move_movement_def move_effect_def contract_reasons_def)

lemma demand_location: "demand t ls loc \<noteq> 0 \<Longrightarrow> \<exists>l \<in> set ls. (t, sl_sku l, sl_wh l) = loc"
  by (induction ls) (auto simp: demand_def split: if_splits)

text \<open>
  C36: A release with another reason is taken for drift. Whenever the log explains the rows and a
  \<^verbatim>\<open>ReleaseStock\<close> under a fresh key, with a reason other than \<^verbatim>\<open>reserve\<close>, \<^verbatim>\<open>release\<close>, \<^verbatim>\<open>allocate\<close> and
  \<^verbatim>\<open>fulfill\<close> (the callers use \<^verbatim>\<open>ttl_expiry\<close>, \<^verbatim>\<open>payment_failed\<close>, \<^verbatim>\<open>customer_cancel\<close> and
  \<^verbatim>\<open>reserve_failure\<close>), returns units at a location, the next pass in which no statement fails reports that
  location and locks it, although the row is right.
\<close>

theorem release_for_other_reason_drifts:
  assumes "ReleaseStock L c req s = (Inr resp, s')" and "stock_schema (data s)" and "explained (stock_inv s)"
    and "uuid_scan L (rls_tenant req) = Some t" and "\<not> key_seen t (rls_key req) (stock_inv s)"
    and "rls_reason req \<notin> contract_reasons"
    and "inv_levels (stock_inv s) loc \<noteq> None" and "demand t (rls_lines req) loc \<noteq> 0"
    and "quiet w" and "data w = data s'" and "length (stock_events (data w)) < 4294967296"
  shows "\<exists>ds w'. Reconcile w = (Inr ds, w') \<and> loc \<in> drift_loc ` set ds \<and>
    map_option bk_locked (inv_levels (stock_inv w') loc) = Some True"
proof -
  let ?I = "stock_inv s" and ?J = "stock_inv s'"
  obtain b where b: "inv_levels ?I loc = Some b" using assms(7) by auto
  have "spec_ReleaseStock c t req ?I = Some (resp, ?J)"
    using ReleaseStock_implements [OF assms(1,4,2)] by (simp add: det_def)
  then obtain ls where ls: "ls = known_lines t ?I (sortedLines (rls_lines req))"
    and mv: "run_moves (MoveRelease (rls_reason req)) c t (rls_order req) ls (record_key t (rls_key req) ?I) = Some ?J"
    using assms(5) by (cases rule: spec_ReleaseStock_cases) auto
  note d = run_moves_SomeD [OF mv]
  have q: "demand t ls loc = demand t (rls_lines req) loc" using demand_known [OF assms(7)] by (simp add: ls)
  have J: "inv_levels ?J loc = Some (move_bucket (MoveRelease (rls_reason req)) (demand t ls loc) b)"
    using d(1) [of loc] b by (simp del: inventory_of_simps)
  have "derived (log_at loc (inv_log ?J)) = (bk_available b + demand t ls loc, bk_reserved b, bk_allocated b)"
    using d(2) explainedD [OF assms(3), of loc] derived_other_releases [OF assms(6)] b
    by (simp add: bucket_triple_def del: inventory_of_simps)
  moreover have "(word_of_int (bk_reserved b) :: int32) \<noteq> word_of_int (bk_reserved b - demand t ls loc)"
  proof
    assume eq: "(word_of_int (bk_reserved b) :: int32) = word_of_int (bk_reserved b - demand t ls loc)"
    have "stock_schema (data s')"
      using keeps_step [OF keeps_stock_serve [of L c "CallReleaseStock req"], of s] assms(1,2) by simp
    from stock_schema_in_bounds [OF this] stock_schema_in_bounds [OF assms(2)] b J
    have "bucket_ok b" "bucket_ok (move_bucket (MoveRelease (rls_reason req)) (demand t ls loc) b)"
      unfolding in_bounds_def by blast+
    then have "in_i32 (bk_reserved b)" "in_i32 (bk_reserved b - demand t ls loc)"
      by (auto simp: bucket_ok_def in_i32_def)
    from word_of_int_inj_i32 [OF eq this] q assms(8) show False by simp
  qed
  ultimately have dr: "drifted ?J loc" using J by (auto simp: drifted_def agrees_def simp del: inventory_of_simps)
  obtain l where l: "l \<in> set ls" "(t, sl_sku l, sl_wh l) = loc" using demand_location [of t ls loc] q assms(8) by auto
  then have "move_movement (MoveRelease (rls_reason req)) t (rls_order req) l \<in> set (inv_log ?J)" unfolding d(2) by simp
  moreover have "mv_loc (move_movement (MoveRelease (rls_reason req)) t (rls_order req) l) = loc"
    using l(2) by (simp add: move_movement_def)
  ultimately have "loc \<in> mv_loc ` set (inv_log ?J)" by force
  with dr J Reconcile_quiet [OF assms(9,11)] show ?thesis
    unfolding assms(10) by (fastforce simp: locked_where_def simp del: inventory_of_simps)
qed

theorem release_for_other_reason_drifts_witness:
  "let h = [(sample_ctx, CallAdjustStock (sample_adjust ''k0'' 10)),
            (sample_ctx, CallReserveStock (sample_reserve [sample_line ''a'' 4]))];
       s = fold (deliver sample_lib) h (calm_sess empty_stock ());
       s' = snd (ReleaseStock sample_lib sample_ctx (sample_release ''payment_failed'' 4) s) in
   map_option bk_available (inv_levels (stock_inv s') (''t'', ''a'', ''w'')) = Some 10 \<and>
   map_option bk_locked (inv_levels (stock_inv (snd (Reconcile (calm_sess (data s') ())))) (''t'', ''a'', ''w'')) = Some True"
proof -
  let ?h = "[(sample_ctx, CallAdjustStock (sample_adjust ''k0'' 10)),
            (sample_ctx, CallReserveStock (sample_reserve [sample_line ''a'' 4]))]"
  let ?s = "fold (deliver sample_lib) ?h (calm_sess empty_stock ())"
  let ?req = "sample_release ''payment_failed'' 4"
  let ?r = "ReleaseStock sample_lib sample_ctx ?req ?s"
  have "fst ?r = Inr \<lparr>rlsr_success = True, rlsr_released = [''a'']\<rparr>" by code_simp
  then have r: "?r = (Inr \<lparr>rlsr_success = True, rlsr_released = [''a'']\<rparr>, snd ?r)" by (metis prod.collapse)
  have reg: "\<forall>(c, call) \<in> set ?h. regular call" by (simp add: regular_def sample_adjust_def)
  have ex: "explained (stock_inv ?s)"
    using explained_deliveries [of "calm_sess empty_stock ()" ?h sample_lib] reg empty_stock_facts by simp
  have "stock_schema (data (deliver sample_lib op x))" if "stock_schema (data x)" for op and x :: "(stock_db, unit) sess"
    using that keepsD [OF keeps_stock_serve] by (auto simp: deliver_def split: prod.splits)
  then have sch: "stock_schema (data ?s)" using empty_stock_facts(2) by simp
  have k: "uuid_scan sample_lib (rls_tenant ?req) = Some ''t''" "\<not> key_seen ''t'' (rls_key ?req) (stock_inv ?s)"
    "rls_reason ?req \<notin> contract_reasons" "demand ''t'' (rls_lines ?req) (''t'', ''a'', ''w'') \<noteq> 0" by code_simp+
  have "map_option bk_reserved (inv_levels (stock_inv ?s) (''t'', ''a'', ''w'')) = Some 4" by code_simp
  then have "inv_levels (stock_inv ?s) (''t'', ''a'', ''w'') \<noteq> None" by auto
  moreover have "quiet (calm_sess (data (snd ?r)) ())" "data (calm_sess (data (snd ?r)) ()) = data (snd ?r)"
    by (simp_all add: quiet_def calm_sess_def calm_def)
  moreover have "length (stock_events (data (calm_sess (data (snd ?r)) ()))) = 3" by code_simp
  then have "length (stock_events (data (calm_sess (data (snd ?r)) ()))) < 4294967296" by simp
  moreover have "map_option bk_available (inv_levels (stock_inv (snd ?r)) (''t'', ''a'', ''w'')) = Some 10" by code_simp
  ultimately show ?thesis
    using release_for_other_reason_drifts [OF r sch ex k(1,2,3) _ k(4)] by (fastforce simp: Let_def simp del: inventory_of_simps)
qed

section \<open>A request between the two reads\<close>

text \<open>
  A visit whose two reads have a request between them: each statement of the worker is its own
  transaction, so anything can commit there.
\<close>

definition visit_around :: "('x, 'a) stx \<Rightarrow> StockLocation \<Rightarrow> ('x, Drift list) stx" where
  "visit_around request loc =
     bindE (attempt (autocommit (GetStockLevelAny loc))) (\<lambda>r. bindE (attempt request) (\<lambda>_. reconcile_rest loc r))"

lemma visit_around_nothing: "visit_around (returnE a) = reconcile_location"
  by (simp add: fun_eq_iff visit_around_def reconcile_location_def bindE_def attempt_def split: prod.split sum.split)

lemma stale_level_differs:
  assumes "explained (stock_inv s')" "stock_levels (data s) loc = Some level" "inv_levels (stock_inv s') loc = Some b'"
    and "in_bounds (stock_inv s')" "bucket_triple b' \<noteq> bucket_triple (bucket_of level)"
  shows "drift_differs (drift_of loc level (reason_rows (events_at loc (stock_events (data s')))))"
proof -
  have d: "derived (log_at loc (inv_log (stock_inv s'))) = bucket_triple b'"
    using explainedD [OF assms(1), of loc] assms(3) by (simp del: inventory_of_simps)
  have "bucket_ok b'" using assms(3,4) unfolding in_bounds_def by blast
  then have i: "in_i32 (bk_available b')" "in_i32 (bk_reserved b')" "in_i32 (bk_allocated b')"
    by (auto simp: bucket_ok_def in_i32_def)
  have "\<not> agrees (bucket_of level) (bucket_triple b')"
  proof
    assume "agrees (bucket_of level) (bucket_triple b')"
    then have "(word_of_int (bk_available b') :: int32) = word_of_int (sint (lv_available level))"
      "(word_of_int (bk_reserved b') :: int32) = word_of_int (sint (lv_reserved level))"
      "(word_of_int (bk_allocated b') :: int32) = word_of_int (sint (lv_allocated level))"
      by (simp_all add: agrees_def bucket_triple_def bucket_of_def)
    from this [THEN word_of_int_inj_i32] i assms(5) show False by (simp add: bucket_triple_def bucket_of_def)
  qed
  with d show ?thesis by (simp add: drift_differs_iff log_at_events)
qed

text \<open>
  C37: A pass that runs beside the service takes a commit for drift. A visit reads the row and the sums by
  two statements with no transaction around them. Whenever the log explains the rows and between the two
  some regular request changes the buckets of the location, the visit, though nothing fails, reports the
  location and locks its row, although the log explains the rows after the request as well.
\<close>

theorem reconcile_race_locks:
  assumes "quiet s" "explained (stock_inv s)" "stock_schema (data s)" "regular call"
    and "autocommit (GetStockLevelAny loc) s = (Inr level, s1)" "stock_serve L c call s1 = (r, s2)"
    and "inv_levels (stock_inv s2) loc = Some b" "bucket_triple b \<noteq> bucket_triple (bucket_of level)"
    and "length (stock_events (data s2)) < 4294967296"
  shows "reconcile_location loc = visit_around (returnE ()) loc \<and> explained (stock_inv s2) \<and>
    (\<exists>d s'. visit_around (stock_serve L c call) loc s = (Inr [d], s') \<and> drift_loc d = loc \<and>
       stock_inv s' = locked_where {loc} (stock_inv s2))"
proof -
  have s1: "quiet s1" "data s1 = data s" "stock_levels (data s) loc = Some level"
    using auto_Get_quiet(2) [OF assms(1), of loc level] auto_Get [OF assms(5)] assms(5) by auto
  have q2: "quiet s2" using frameD [OF frame_sched_serve assms(6)] s1(1) by (simp add: quiet_def)
  have sch: "stock_schema (data s2)" using keeps_step [OF keeps_stock_serve assms(6)] s1(2) assms(3) by simp
  have ex: "explained (stock_inv s2)"
    using explained_deliveries [of s1 "[(c, call)]" L] assms(2,3,4,6) s1(2) by (simp add: deliver_def)
  let ?rows = "reason_rows (events_at loc (stock_events (data s2)))"
  have diff: "drift_differs (drift_of loc level ?rows)"
    using stale_level_differs [OF ex s1(3) assms(7) stock_schema_in_bounds [OF sch] assms(8)] .
  obtain s3 where s3: "autocommit (SumDeltasByReason loc) s2 = (Inr ?rows, s3)" "quiet s3" "data s3 = data s2"
    using auto_Sum_quiet [OF q2 assms(9)] by blast
  obtain l where l: "stock_levels (data s3) loc = Some l" using assms(7) s3(3) by auto
  obtain s4 where s4: "autocommit (SetAuditLock loc True) s3 = (Inr (), s4)" "stock_inv s4 = locked_where {loc} (stock_inv s2)"
    using auto_Lock_quiet [OF s3(2) l] s3(3) by auto
  have "visit_around (stock_serve L c call) loc s = (Inr [drift_of loc level ?rows], s4)"
    using assms(5,6) s3(1) s4(1) diff
    by (simp add: visit_around_def reconcile_rest_def reconcile_compare_def Let_def bindE_def attempt_def del: stock_serve.simps)
  with ex s4(2) drift_loc_of show ?thesis unfolding visit_around_nothing by blast
qed

theorem reconcile_race_locks_witness:
  "let s = deliver sample_lib (sample_ctx, CallAdjustStock (sample_adjust ''k0'' 10)) (calm_sess empty_stock ());
       v = visit_around (stock_serve sample_lib sample_ctx (CallAdjustStock (sample_adjust ''k1'' 5))) (''t'', ''a'', ''w'') s in
   map_option bk_available (inv_levels (stock_inv (snd v)) (''t'', ''a'', ''w'')) = Some 15 \<and>
   map_option bk_locked (inv_levels (stock_inv (snd v)) (''t'', ''a'', ''w'')) = Some True"
proof -
  let ?s = "deliver sample_lib (sample_ctx, CallAdjustStock (sample_adjust ''k0'' 10)) (calm_sess empty_stock ())"
  let ?loc = "(''t'', ''a'', ''w'')" and ?call = "CallAdjustStock (sample_adjust ''k1'' 5)"
  have q: "quiet ?s"
    by (simp add: deliver_def quiet_def calm_sess_def calm_def frame_sched_serve [unfolded frame_def, rule_format] del: stock_serve.simps)
  have ex: "explained (stock_inv ?s)"
    using explained_deliveries [of "calm_sess empty_stock ()" "[(sample_ctx, CallAdjustStock (sample_adjust ''k0'' 10))]" sample_lib]
      empty_stock_facts by (simp add: regular_def sample_adjust_def)
  have sch: "stock_schema (data ?s)"
    using keepsD [OF keeps_stock_serve, of "calm_sess empty_stock ()"] empty_stock_facts(2)
    by (simp add: deliver_def del: stock_serve.simps)
  have reg: "regular ?call" by (simp add: regular_def sample_adjust_def)
  have "map_option lv_available (stock_levels (data ?s) ?loc) = Some 10" by code_simp
  then obtain level where level: "stock_levels (data ?s) ?loc = Some level" "lv_available level = 10" by auto
  then obtain s1 where get: "autocommit (GetStockLevelAny ?loc) ?s = (Inr level, s1)"
    using auto_Get_quiet(2) [OF q] by blast
  let ?s1 = "snd (autocommit (GetStockLevelAny ?loc) ?s)"
  have s1: "s1 = ?s1" using get by simp
  obtain r s2 where s2: "stock_serve sample_lib sample_ctx ?call s1 = (r, s2)" by fastforce
  have e2: "s2 = snd (stock_serve sample_lib sample_ctx ?call ?s1)" using s2 s1 by (metis snd_conv)
  have "map_option bk_available (inv_levels (stock_inv s2) ?loc) = Some 15" unfolding e2 by code_simp
  then obtain b where b: "inv_levels (stock_inv s2) ?loc = Some b" "bk_available b = 15" by auto
  have "length (stock_events (data s2)) = 2" unfolding e2 by code_simp
  then have len: "length (stock_events (data s2)) < 4294967296" by simp
  have "bucket_triple b \<noteq> bucket_triple (bucket_of level)" using b(2) level(2) by (simp add: bucket_triple_def bucket_of_def)
  from reconcile_race_locks [OF q ex sch reg get s2 b(1) this len] b show ?thesis
    by (auto simp: Let_def locked_where_def simp del: inventory_of_simps stock_serve.simps)
qed

end
