(* ===== verification/ReservationDB.thy ===== *)
theory ReservationDB
  imports Ledger
begin

text \<open>
  The reservation database: the tables of \<^verbatim>\<open>db/migrations/reservation\<close> and the generated queries of
  \<^verbatim>\<open>gen/go/db/reservation/reservation.sql.go\<close>.
\<close>

section \<open>Tables\<close>

record Reservation =
  rv_id :: uuid
  rv_tenant :: uuid
  rv_order :: string
  rv_sku :: string
  rv_wh :: string
  rv_qty :: int32
  rv_status :: string
  rv_expires :: int
  rv_created :: int

definition StatusActive :: string where "StatusActive = ''ACTIVE''"

definition StatusAllocated :: string where "StatusAllocated = ''ALLOCATED''"

definition StatusReleased :: string where "StatusReleased = ''RELEASED''"

definition StatusExpired :: string where "StatusExpired = ''EXPIRED''"

lemmas status_defs = StatusActive_def StatusAllocated_def StatusReleased_def StatusExpired_def

text \<open>The rows of \<^verbatim>\<open>reservations\<close> in the order in which a scan meets them.\<close>

record reservation_db =
  reservations :: "Reservation list"
  res_outbox :: "Outbox list"
  res_keys :: "ProcessedIdempotencyKey list"

type_synonym ('x, 'a) rtx = "(reservation_db, 'x, 'a) tx"

text \<open>The \<^verbatim>\<open>CHECK\<close> constraints of \<^verbatim>\<open>000003_indexes_constraints.up.sql\<close>.\<close>

definition reservation_check :: "Reservation \<Rightarrow> bool" where
  "reservation_check r \<longleftrightarrow>
     rv_status r \<in> {''ACTIVE'', ''ALLOCATED'', ''RELEASED'', ''EXPIRED''} \<and> 0 < sint (rv_qty r)"

section \<open>Queries\<close>

definition res_CheckAndInsertIdempotencyKey :: "uuid \<Rightarrow> string \<Rightarrow> string \<Rightarrow> ('x, string) rtx" where
  "res_CheckAndInsertIdempotencyKey t k h = stmt (\<lambda>e sc d.
     case insert_key t k h e sc (res_keys d) of
       Inl er \<Rightarrow> Inl er
     | Inr (x, ks) \<Rightarrow> Inr (x, d\<lparr>res_keys := ks\<rparr>))"

text \<open>\<^verbatim>\<open>FOR UPDATE SKIP LOCKED\<close>: rows that other transactions hold locked are left out.\<close>

definition GetActiveReservationsByOrder :: "string \<Rightarrow> ('x, Reservation list) rtx" where
  "GetActiveReservationsByOrder orderID = stmt (\<lambda>e sc d.
     Inr (sort_key rv_id (filter (\<lambda>r. rls_visible sc (rv_tenant r) \<and> rv_order r = orderID
            \<and> rv_status r = ''ACTIVE'' \<and> \<not> busy e (rv_id r)) (reservations d)), d))"

definition GetExpiredReservations :: "int \<Rightarrow> int32 \<Rightarrow> ('x, Reservation list) rtx" where
  "GetExpiredReservations t limit = stmt (\<lambda>e sc d.
     if sint limit < 0 then Inl (PgErr ''LIMIT must not be negative'')
     else Inr (take (nat (sint limit)) (filter (\<lambda>r. rls_visible sc (rv_tenant r) \<and> rv_expires r < t
            \<and> rv_status r = ''ACTIVE'' \<and> \<not> busy e (rv_id r)) (reservations d)), d))"

definition GetReservation :: "uuid \<Rightarrow> ('x, Reservation) rtx" where
  "GetReservation i = stmt (\<lambda>e sc d.
     case find (\<lambda>r. rls_visible sc (rv_tenant r) \<and> rv_id r = i) (reservations d) of
       None \<Rightarrow> Inl ErrNoRows
     | Some r \<Rightarrow> Inr (r, d))"

text \<open>The payload arrives as text and goes through the \<^verbatim>\<open>jsonb\<close> input function.\<close>

definition res_InsertOutboxEvent ::
  "lib \<Rightarrow> uuid \<Rightarrow> string \<Rightarrow> string \<Rightarrow> string \<Rightarrow> string \<Rightarrow> string option \<Rightarrow> ('x, Outbox) rtx" where
  "res_InsertOutboxEvent L t aggtype aggid etype payload trace = stmt (\<lambda>e sc d.
     case jsonb_in L payload of
       None \<Rightarrow> Inl (PgErr ''invalid input syntax for type json'')
     | Some j \<Rightarrow>
         (case insert_outbox t aggtype aggid etype j trace e sc (res_outbox d) of
            Inl er \<Rightarrow> Inl er
          | Inr (r, rows) \<Rightarrow> Inr (r, d\<lparr>res_outbox := rows\<rparr>)))"

definition InsertReservation ::
  "uuid \<Rightarrow> string \<Rightarrow> string \<Rightarrow> string \<Rightarrow> int32 \<Rightarrow> string \<Rightarrow> int \<Rightarrow> ('x, Reservation) rtx" where
  "InsertReservation t orderID sku wh qty st expires = stmt (\<lambda>e sc d.
     let r = \<lparr>rv_id = fresh e, rv_tenant = t, rv_order = orderID, rv_sku = sku, rv_wh = wh, rv_qty = qty,
              rv_status = st, rv_expires = expires, rv_created = clock e\<rparr> in
     if \<not> (varchar 255 orderID \<and> varchar 255 sku \<and> varchar 255 wh \<and> varchar 50 st) then Inl value_too_long
     else if \<not> rls_visible sc t then Inl rls_violation
     else if \<not> reservation_check r then Inl (check_violation ''reservations'')
     else if list_ex (\<lambda>r'. rv_id r' = fresh e) (reservations d)
       then Inl (unique_violation ''reservations_pkey'')
     else Inr (r, d\<lparr>reservations := reservations d @ [r]\<rparr>))"

definition set_status :: "uuid \<Rightarrow> string \<Rightarrow> Reservation list \<Rightarrow> Reservation list" where
  "set_status i st rs = map (\<lambda>r. if rv_id r = i then r\<lparr>rv_status := st\<rparr> else r) rs"

definition UpdateReservationStatus :: "uuid \<Rightarrow> string \<Rightarrow> ('x, Reservation) rtx" where
  "UpdateReservationStatus i st = stmt (\<lambda>e sc d.
     case find (\<lambda>r. rls_visible sc (rv_tenant r) \<and> rv_id r = i) (reservations d) of
       None \<Rightarrow> Inl ErrNoRows
     | Some r \<Rightarrow>
         if \<not> varchar 50 st then Inl value_too_long
         else if \<not> reservation_check (r\<lparr>rv_status := st\<rparr>) then Inl (check_violation ''reservations'')
         else Inr (r\<lparr>rv_status := st\<rparr>, d\<lparr>reservations := set_status i st (reservations d)\<rparr>))"

lemmas res_query_defs = res_CheckAndInsertIdempotencyKey_def GetActiveReservationsByOrder_def
  GetExpiredReservations_def GetReservation_def res_InsertOutboxEvent_def InsertReservation_def
  UpdateReservationStatus_def

lemma frame_res_queries [frame_intros]:
  assumes "aside g"
  shows "frame g (res_CheckAndInsertIdempotencyKey t k h)"
    "frame g (GetActiveReservationsByOrder ord)"
    "frame g (GetExpiredReservations n lim)"
    "frame g (GetReservation i)"
    "frame g (res_InsertOutboxEvent L t at ai et pl tr)"
    "frame g (InsertReservation t ord sku wh q st x)"
    "frame g (UpdateReservationStatus i st)"
  unfolding res_query_defs by (intro frame_stmt assms)+

lemma raises_res_queries [raises_intros]:
  "raises pg_err (res_CheckAndInsertIdempotencyKey t k h)"
  "raises pg_err (GetActiveReservationsByOrder ord)"
  "raises pg_err (GetExpiredReservations n lim)"
  "raises pg_err (GetReservation i)"
  "raises pg_err (res_InsertOutboxEvent L t at ai et pl tr)"
  "raises pg_err (InsertReservation t ord sku wh q st x)"
  "raises pg_err (UpdateReservationStatus i st)"
  unfolding res_query_defs Let_def
  by (rule raises_stmt; auto split: option.splits sum.splits if_splits dest: insert_pg_err)+

section \<open>The ledger of the reservation database\<close>

interpretation res_ledger: idempotency_ledger
  res_CheckAndInsertIdempotencyKey res_keys "\<lambda>d ks. d\<lparr>res_keys := ks\<rparr>"
  by unfold_locales (simp_all add: res_CheckAndInsertIdempotencyKey_def)

section \<open>The rows satisfy the schema\<close>

definition reservation_schema :: "reservation_db \<Rightarrow> bool" where
  "reservation_schema d \<longleftrightarrow>
     list_all reservation_check (reservations d) \<and> distinct (map rv_id (reservations d)) \<and>
     keys_unique (res_keys d) \<and> outbox_unique (res_outbox d)"

lemma set_status_ids [simp]: "map rv_id (set_status i st rs) = map rv_id rs"
  by (simp add: set_status_def)

lemma set_status_check:
  "list_all reservation_check rs \<Longrightarrow> reservation_check (r\<lparr>rv_status := st\<rparr>) \<Longrightarrow>
     list_all reservation_check (set_status i st rs)"
  by (auto simp: list_all_iff set_status_def reservation_check_def)

lemma keeps_res_queries [keeps_intros]:
  "keeps reservation_schema (res_CheckAndInsertIdempotencyKey t k h)"
  "keeps reservation_schema (GetActiveReservationsByOrder ord)"
  "keeps reservation_schema (GetExpiredReservations n lim)"
  "keeps reservation_schema (GetReservation i)"
  "keeps reservation_schema (res_InsertOutboxEvent L t at ai et pl tr)"
  "keeps reservation_schema (InsertReservation t ord sku wh q st x)"
  "keeps reservation_schema (UpdateReservationStatus i st)"
proof -
  show "keeps reservation_schema (res_CheckAndInsertIdempotencyKey t k h)"
    unfolding res_query_defs
    by (rule keeps_stmt) (auto simp: reservation_schema_def split: sum.splits dest: insert_key_unique)
  show "keeps reservation_schema (res_InsertOutboxEvent L t at ai et pl tr)"
    unfolding res_query_defs
    by (rule keeps_stmt)
      (auto simp: reservation_schema_def split: option.splits sum.splits dest: insert_outbox_unique)
  show "keeps reservation_schema (InsertReservation t ord sku wh q st x)"
    unfolding res_query_defs
    by (rule keeps_stmt) (auto simp: reservation_schema_def Let_def list_ex_iff split: if_splits)
  show "keeps reservation_schema (UpdateReservationStatus i st)"
    unfolding res_query_defs
    by (rule keeps_stmt)
      (auto simp: reservation_schema_def set_status_check split: option.splits if_splits)
qed (auto simp: res_query_defs intro!: keeps_stmt split: if_splits option.splits)

end
