(* ===== verification/ReservationService.thy ===== *)
theory ReservationService
  imports ReservationDB StockService
begin

text \<open>
  \<^verbatim>\<open>internal/reservationservice\<close>: the handlers of \<^verbatim>\<open>reservation.v1.ReservationService\<close>
  (\<^verbatim>\<open>server.go\<close>) and the sweeper (\<^verbatim>\<open>sweeper.go\<close>). The stock service they call is \<^verbatim>\<open>ext\<close>: its
  whole session, so a call runs the stock handler on the stock tables, with the faults of both
  databases and of the call.
\<close>

type_synonym ('y, 'a) resx = "((stock_db, 'y) sess, 'a) rtx"

section \<open>Helpers\<close>

definition partitionKey :: "uuid \<Rightarrow> string \<Rightarrow> string" where
  "partitionKey tenantUUID entityID = tenantUUID @ '':'' @ entityID"

definition quoted :: "string \<Rightarrow> string" where
  "quoted x = CHR 0x22 # x @ [CHR 0x22]"

definition order_payload :: "string \<Rightarrow> string" where
  "order_payload orderID = ''{'' @ quoted ''order_id'' @ '':'' @ quoted orderID @ ''}''"

definition order_sku_payload :: "string \<Rightarrow> string \<Rightarrow> string" where
  "order_sku_payload orderID sku =
     ''{'' @ quoted ''order_id'' @ '':'' @ quoted orderID @ '','' @ quoted ''sku_id'' @ '':'' @ quoted sku @ ''}''"

definition defaultTTL :: int where
  "defaultTTL = 15 * 60 * 1000000"

definition reserve_ttl :: "int32 \<Rightarrow> int" where
  "reserve_ttl secs = (if 0 < sint secs then sint secs * 1000000 else defaultTTL)"

definition item_line :: "ReservationItem \<Rightarrow> StockLine" where
  "item_line it = \<lparr>sl_sku = it_sku it, sl_wh = it_wh it, sl_qty = it_qty it\<rparr>"

definition row_line :: "Reservation \<Rightarrow> StockLine" where
  "row_line r = \<lparr>sl_sku = rv_sku r, sl_wh = rv_wh r, sl_qty = rv_qty r\<rparr>"

section \<open>Reserve\<close>

definition insert_reservation_line ::
  "lib \<Rightarrow> ctx \<Rightarrow> uuid \<Rightarrow> ReserveRequest \<Rightarrow> int \<Rightarrow> ReservationItem \<Rightarrow> ('x, uuid) rtx" where
  "insert_reservation_line L c t req expiresAt it =
     bindE (InsertReservation t (rq_order req) (it_sku it) (it_wh it) (it_qty it) StatusActive expiresAt) (\<lambda>row.
     bindE (res_InsertOutboxEvent L t ''reservation'' (partitionKey t (rq_order req)) ''reservation.created''
              (order_sku_payload (rq_order req) (it_sku it)) (TraceparentText c)) (\<lambda>_.
     returnE (rv_id row)))"

text \<open>\<^verbatim>\<open>firstID\<close>: the first identifier that is not empty.\<close>

fun first_id :: "uuid list \<Rightarrow> string" where
  "first_id [] = ''''"
| "first_id (i # is) = (if i = '''' then first_id is else i)"

definition insert_body :: "lib \<Rightarrow> ctx \<Rightarrow> uuid \<Rightarrow> ReserveRequest \<Rightarrow> int \<Rightarrow> ('x, string) rtx" where
  "insert_body L c t req expiresAt =
     bindE (seen_key res_CheckAndInsertIdempotencyKey t (rq_key req) (PayloadHash L (M_Reserve req))) (\<lambda>dup.
     if dup then failE ErrAlreadyProcessed
     else bindE (forE (rq_items req) (insert_reservation_line L c t req expiresAt)) (\<lambda>ids.
       returnE (first_id ids)))"

definition insertReservations :: "lib \<Rightarrow> ctx \<Rightarrow> uuid \<Rightarrow> ReserveRequest \<Rightarrow> int \<Rightarrow> ('x, string) rtx" where
  "insertReservations L c t req expiresAt = ExecTxWithTenant L c (insert_body L c t req expiresAt)"

definition firstReservationID :: "lib \<Rightarrow> ctx \<Rightarrow> string \<Rightarrow> ('x, string) rtx" where
  "firstReservationID L c orderID =
     bindE (with_var '''' (ExecTxWithTenant L c
       (bindE (attempt (GetActiveReservationsByOrder orderID)) (\<lambda>r.
        case r of
          Inr (row # _) \<Rightarrow> set_var (rv_id row)
        | _ \<Rightarrow> returnE ())))) (\<lambda>(_, i). returnE i)"

definition reserve_stock_request :: "ReserveRequest \<Rightarrow> ReserveStockRequest" where
  "reserve_stock_request req =
     \<lparr>rsv_tenant = rq_tenant req, rsv_order = rq_order req, rsv_key = rq_key req,
      rsv_lines = map item_line (rq_items req)\<rparr>"

definition reserve_failure_request :: "ReserveRequest \<Rightarrow> ReleaseStockRequest" where
  "reserve_failure_request req =
     \<lparr>rls_tenant = rq_tenant req, rls_order = rq_order req, rls_reason = ''reserve_failure'',
      rls_key = CompensationKey (rq_tenant req) (rq_order req), rls_lines = map item_line (rq_items req)\<rparr>"

text \<open>What follows a successful hold: persist, or compensate.\<close>

definition persist_reservation :: "lib \<Rightarrow> ctx \<Rightarrow> uuid \<Rightarrow> ReserveRequest \<Rightarrow> ('y, ReserveResponse) resx" where
  "persist_reservation L c t req =
     bindE now (\<lambda>t0. let expiresAt = t0 + reserve_ttl (rq_ttl req) in
     bindE (attempt (insertReservations L c t req expiresAt)) (\<lambda>r.
     case r of
       Inr reservationID \<Rightarrow>
         returnE \<lparr>rqr_success = True, rqr_reservation = reservationID, rqr_failed = [],
                  rqr_expires = word_of_int (Unix expiresAt)\<rparr>
     | Inl e \<Rightarrow>
         if err_is e ErrAlreadyProcessed
         then bindE (firstReservationID L c (rq_order req)) (\<lambda>i.
           returnE \<lparr>rqr_success = True, rqr_reservation = i, rqr_failed = [], rqr_expires = 0\<rparr>)
         else bindE (attempt (rpc (ReleaseStock L (incoming L Background) (reserve_failure_request req)))) (\<lambda>_.
           internal_error ''persist reservation: '' e)))"

definition Reserve :: "lib \<Rightarrow> ctx \<Rightarrow> ReserveRequest \<Rightarrow> ('y, ReserveResponse) resx" where
  "Reserve L c req =
     (case ParseUUID L (rq_tenant req) of
        Inl e \<Rightarrow> invalid_argument (err_text e)
      | Inr t \<Rightarrow>
          (let c' = WithTenantID c (rq_tenant req) in
           if rq_items req = [] then invalid_argument ''no items provided''
           else bindE (attempt (rpc (ReserveStock L (incoming L c') (reserve_stock_request req)))) (\<lambda>r.
             case r of
               Inl e \<Rightarrow> internal_error ''reserve stock: '' e
             | Inr resp \<Rightarrow>
                 if \<not> rsvr_success resp
                 then returnE \<lparr>rqr_success = False, rqr_reservation = '''', rqr_failed = rsvr_failed resp,
                               rqr_expires = 0\<rparr>
                 else persist_reservation L c' t req)))"

section \<open>Release\<close>

definition release_stock_request :: "ReleaseRequest \<Rightarrow> Reservation list \<Rightarrow> ReleaseStockRequest" where
  "release_stock_request req rows =
     \<lparr>rls_tenant = rl_tenant req, rls_order = rl_order req, rls_reason = rl_reason req,
      rls_key = rl_key req, rls_lines = map row_line rows\<rparr>"

definition mark_row :: "lib \<Rightarrow> ctx \<Rightarrow> uuid \<Rightarrow> string \<Rightarrow> string \<Rightarrow> string \<Rightarrow> Reservation \<Rightarrow> ('x, unit) rtx" where
  "mark_row L c t orderID st etype r =
     bindE (UpdateReservationStatus (rv_id r) st) (\<lambda>_.
     bindE (res_InsertOutboxEvent L t ''reservation'' (partitionKey t orderID) etype
              (order_payload orderID) (TraceparentText c)) (\<lambda>_.
     returnE ()))"

definition release_rows :: "lib \<Rightarrow> ctx \<Rightarrow> uuid \<Rightarrow> ReleaseRequest \<Rightarrow> ('y, string list) resx" where
  "release_rows L c t req =
     bindE (GetActiveReservationsByOrder (rl_order req)) (\<lambda>rows.
     if rows = [] then returnE []
     else
       bindE (rpc (ReleaseStock L (incoming L c) (release_stock_request req rows))) (\<lambda>stockResp.
       bindE (forE rows (mark_row L c t (rl_order req) StatusReleased ''reservation.released'')) (\<lambda>_.
       returnE (rlsr_released stockResp))))"

definition res_release_body :: "lib \<Rightarrow> ctx \<Rightarrow> uuid \<Rightarrow> ReleaseRequest \<Rightarrow> ('y, string list) resx" where
  "res_release_body L c t req =
     bindE (seen_key res_CheckAndInsertIdempotencyKey t (rl_key req) (PayloadHash L (M_Release req))) (\<lambda>dup.
     if dup then failE ErrAlreadyProcessed else release_rows L c t req)"

definition Release :: "lib \<Rightarrow> ctx \<Rightarrow> ReleaseRequest \<Rightarrow> ('y, ReleaseResponse) resx" where
  "Release L c req =
     (case ParseUUID L (rl_tenant req) of
        Inl e \<Rightarrow> invalid_argument (err_text e)
      | Inr t \<Rightarrow>
          (let c' = WithTenantID c (rl_tenant req) in
           catchE
             (bindE (ExecTxWithTenant L c' (res_release_body L c' t req)) (\<lambda>released.
              returnE \<lparr>rlr_success = True, rlr_released = released\<rparr>))
             (\<lambda>e. if err_is e ErrAlreadyProcessed
                  then returnE \<lparr>rlr_success = True, rlr_released = []\<rparr>
                  else internal_error ''release: '' e)))"

section \<open>AllocateReservation\<close>

definition allocate_body :: "lib \<Rightarrow> ctx \<Rightarrow> uuid \<Rightarrow> AllocateReservationRequest \<Rightarrow> ('x, int32) rtx" where
  "allocate_body L c t req =
     bindE (seen_key res_CheckAndInsertIdempotencyKey t (ar_key req) (PayloadHash L (M_AllocateReservation req))) (\<lambda>dup.
     if dup then returnE 0
     else
       bindE (GetActiveReservationsByOrder (ar_order req)) (\<lambda>rows.
       bindE (forE rows (mark_row L c t (ar_order req) StatusAllocated ''reservation.allocated'')) (\<lambda>us.
       returnE (word_of_nat (length us)))))"

definition AllocateReservation ::
  "lib \<Rightarrow> ctx \<Rightarrow> AllocateReservationRequest \<Rightarrow> ('x, AllocateReservationResponse) rtx" where
  "AllocateReservation L c req =
     (case ParseUUID L (ar_tenant req) of
        Inl e \<Rightarrow> invalid_argument (err_text e)
      | Inr t \<Rightarrow>
          (let c' = WithTenantID c (ar_tenant req) in
           catchE
             (bindE (ExecTxWithTenant L c' (allocate_body L c' t req)) (\<lambda>count.
              returnE \<lparr>arr_success = True, arr_count = count\<rparr>))
             (internal_error ''allocate reservation: '')))"

section \<open>The service\<close>

datatype reservation_call =
    CallReserve ReserveRequest
  | CallRelease ReleaseRequest
  | CallAllocateReservation AllocateReservationRequest

datatype reservation_reply =
    ReplyReserve ReserveResponse
  | ReplyRelease ReleaseResponse
  | ReplyAllocateReservation AllocateReservationResponse

fun reservation_serve :: "lib \<Rightarrow> ctx \<Rightarrow> reservation_call \<Rightarrow> ('y, reservation_reply) resx" where
  "reservation_serve L c (CallReserve req) = bindE (Reserve L c req) (\<lambda>r. returnE (ReplyReserve r))"
| "reservation_serve L c (CallRelease req) = bindE (Release L c req) (\<lambda>r. returnE (ReplyRelease r))"
| "reservation_serve L c (CallAllocateReservation req) =
     bindE (AllocateReservation L c req) (\<lambda>r. returnE (ReplyAllocateReservation r))"

section \<open>The sweeper\<close>

definition sweep_batch :: int32 where
  "sweep_batch = 100"

type_synonym groupKey = "string \<times> string"

fun add_to_group :: "groupKey \<Rightarrow> 'r \<Rightarrow> (groupKey \<times> 'r list) list \<Rightarrow> (groupKey \<times> 'r list) list" where
  "add_to_group k r [] = [(k, [r])]"
| "add_to_group k r ((k', rs) # gs) =
     (if k' = k then (k', rs @ [r]) # gs else (k', rs) # add_to_group k r gs)"

definition groupByOrder :: "Reservation list \<Rightarrow> (groupKey \<times> Reservation list) list" where
  "groupByOrder rows = foldl (\<lambda>groups r. add_to_group (rv_tenant r, rv_order r) r groups) [] rows"

definition releaseRequest :: "string \<Rightarrow> string \<Rightarrow> Reservation list \<Rightarrow> ReleaseStockRequest" where
  "releaseRequest tenant orderID rows =
     \<lparr>rls_tenant = tenant, rls_order = orderID, rls_reason = ''ttl_expiry'',
      rls_key = CompensationKey tenant orderID, rls_lines = map row_line rows\<rparr>"

definition markExpired :: "lib \<Rightarrow> ctx \<Rightarrow> Reservation \<Rightarrow> ('x, unit) rtx" where
  "markExpired L c r =
     catchE
       (bindE (autocommit (UpdateReservationStatus (rv_id r) StatusExpired)) (\<lambda>_.
        bindE (autocommit (res_InsertOutboxEvent L (rv_tenant r) ''reservation''
                 (partitionKey (rv_tenant r) (rv_order r)) ''reservation.expired''
                 (order_sku_payload (rv_order r) (rv_sku r)) (TraceparentText c))) (\<lambda>_.
        returnE ())))
       (\<lambda>_. returnE ())"

definition sweep_group :: "lib \<Rightarrow> ctx \<Rightarrow> groupKey \<times> Reservation list \<Rightarrow> ('y, unit) resx" where
  "sweep_group L c = (\<lambda>((tenant, orderID), rows).
     bindE (attempt (rpc (ReleaseStock L (incoming L c) (releaseRequest tenant orderID rows)))) (\<lambda>r.
     case r of
       Inl _ \<Rightarrow> returnE ()
     | Inr _ \<Rightarrow> bindE (forE rows (markExpired L c)) (\<lambda>_. returnE ())))"

text \<open>
  \<^verbatim>\<open>range\<close> over a map visits the groups in an order the language leaves open: \<^verbatim>\<open>ord\<close> is the order of
  one sweep.
\<close>

type_synonym group_order = "(groupKey \<times> Reservation list) list \<Rightarrow> (groupKey \<times> Reservation list) list"

definition sweep_fetch :: "('x, Reservation list) rtx" where
  "sweep_fetch = bindE now (\<lambda>t. autocommit (GetExpiredReservations t sweep_batch))"

definition sweep_release :: "lib \<Rightarrow> ctx \<Rightarrow> group_order \<Rightarrow> Reservation list \<Rightarrow> ('y, unit) resx" where
  "sweep_release L c ord expired =
     bindE (forE (ord (groupByOrder expired)) (sweep_group L c)) (\<lambda>_. returnE ())"

definition sweepOnce :: "lib \<Rightarrow> ctx \<Rightarrow> group_order \<Rightarrow> ('y, unit) resx" where
  "sweepOnce L c ord =
     bindE (attempt sweep_fetch) (\<lambda>r.
     case r of
       Inl _ \<Rightarrow> returnE ()
     | Inr expired \<Rightarrow> sweep_release L c ord expired)"

end
