(* ===== verification/ReservationProps.thy ===== *)
theory ReservationProps
  imports ReservationService StockDelivery
begin

text \<open>
  The reservation service: what a reservation, a release and an allocation do to the reservations
  and to the stock behind them, under every fault of the two databases and of the calls between
  the services.
\<close>

section \<open>Marking rows\<close>

definition mark_ids :: "uuid set \<Rightarrow> string \<Rightarrow> Reservation list \<Rightarrow> Reservation list" where
  "mark_ids I st rs = map (\<lambda>r. if rv_id r \<in> I then r\<lparr>rv_status := st\<rparr> else r) rs"

lemma mark_ids_empty [simp]: "mark_ids {} st rs = rs"
  by (simp add: mark_ids_def)

lemma mark_ids_ids [simp]: "map rv_id (mark_ids I st rs) = map rv_id rs"
  by (simp add: mark_ids_def)

lemma set_status_mark [simp]: "set_status i st (mark_ids I st rs) = mark_ids (insert i I) st rs"
  by (auto simp: set_status_def mark_ids_def)

lemma set_status_eq: "set_status i st rs = mark_ids {i} st rs"
  by (simp add: set_status_def mark_ids_def)

lemma mark_ids_twice: "mark_ids J st (mark_ids I st rs) = mark_ids (I \<union> J) st rs"
  by (auto simp: mark_ids_def)

lemma UpdateReservationStatus_Inr:
  assumes "UpdateReservationStatus i st s = (Inr r, s')"
  shows "reservations (data s') = mark_ids {i} st (reservations (data s)) \<and>
      ext s' = ext s \<and> sched s' = sched s \<and> scope s' = scope s"
  using assms unfolding UpdateReservationStatus_def
  by (auto elim!: stmt_InrE simp: set_status_eq split: option.splits if_splits)

lemma res_InsertOutboxEvent_Inr:
  assumes "res_InsertOutboxEvent L t at ai et pl tr s = (Inr r, s')"
  shows "reservations (data s') = reservations (data s) \<and>
      ext s' = ext s \<and> sched s' = sched s \<and> scope s' = scope s"
  using assms unfolding res_InsertOutboxEvent_def
  by (auto elim!: stmt_InrE split: option.splits sum.splits)

lemma mark_row_Inr:
  assumes "mark_row L c t ord st et r s = (Inr u, s')"
  shows "reservations (data s') = mark_ids {rv_id r} st (reservations (data s)) \<and>
      ext s' = ext s \<and> sched s' = sched s \<and> scope s' = scope s"
  using assms unfolding mark_row_def
  by (auto elim!: bindE_InrE dest!: UpdateReservationStatus_Inr res_InsertOutboxEvent_Inr)

lemma mark_rows_Inr:
  assumes "forE rows (mark_row L c t ord st et) s = (Inr us, s')"
  shows "reservations (data s') = mark_ids (rv_id ` set rows) st (reservations (data s))"
    and "ext s' = ext s" and "length us = length rows"
proof -
  have "reservations (data s') = mark_ids (rv_id ` set rows) st (reservations (data s)) \<and> ext s' = ext s \<and>
      length us = length rows"
    using assms
  proof (induction rows arbitrary: s us)
    case (Cons r rows)
    then obtain u s1 us1 where *: "mark_row L c t ord st et r s = (Inr u, s1)"
      "forE rows (mark_row L c t ord st et) s1 = (Inr us1, s')" "us = u # us1"
      by (auto elim!: bindE_InrE)
    from Cons.IH [OF *(2)] mark_row_Inr [OF *(1)] *(3) show ?case
      by (simp add: mark_ids_twice)
  qed simp
  then show "reservations (data s') = mark_ids (rv_id ` set rows) st (reservations (data s))"
    and "ext s' = ext s" and "length us = length rows" by auto
qed

section \<open>The active rows of an order\<close>

text \<open>The rows a release or an allocation works on: those not locked by others at that moment.\<close>

definition active_rows :: "(uuid \<Rightarrow> bool) \<Rightarrow> uuid \<Rightarrow> string \<Rightarrow> reservation_db \<Rightarrow> Reservation list" where
  "active_rows locked t ord d = sort_key rv_id (filter (\<lambda>r. rv_tenant r = t \<and> rv_order r = ord
     \<and> rv_status r = StatusActive \<and> \<not> locked (rv_id r)) (reservations d))"

lemma set_active_rows:
  "set (active_rows locked t ord d) =
     {r \<in> set (reservations d). rv_tenant r = t \<and> rv_order r = ord \<and> rv_status r = StatusActive \<and> \<not> locked (rv_id r)}"
  by (auto simp: active_rows_def)

lemma rls_visible_Scoped: "rls_visible (Scoped (Some t)) u \<longleftrightarrow> u = t"
  by (auto simp: rls_visible_def)

lemma GetActive_Inr:
  assumes "GetActiveReservationsByOrder ord s = (Inr rows, s')" "scope s = Scoped (Some t)"
  shows "rows = active_rows (busy (sched s (pos s))) t ord (data s)"
    and "data s' = data s" and "ext s' = ext s" and "sched s' = sched s"
  using assms unfolding GetActiveReservationsByOrder_def active_rows_def
  by (auto elim!: stmt_InrE simp: rls_visible_Scoped StatusActive_def)

section \<open>Reserve\<close>

definition row_of :: "uuid \<Rightarrow> ReserveRequest \<Rightarrow> int \<Rightarrow> ReservationItem \<Rightarrow> Reservation \<Rightarrow> bool" where
  "row_of t req expiresAt it r \<longleftrightarrow> rv_tenant r = t \<and> rv_order r = rq_order req \<and> row_line r = item_line it \<and>
     rv_status r = StatusActive \<and> rv_expires r = expiresAt"

definition recorded :: "uuid \<Rightarrow> ReserveRequest \<Rightarrow> int \<Rightarrow> reservation_db \<Rightarrow> Reservation list \<Rightarrow> reservation_db \<Rightarrow> bool" where
  "recorded t req expiresAt d rows d' \<longleftrightarrow>
     reservations d' = reservations d @ rows \<and> list_all2 (row_of t req expiresAt) (rq_items req) rows"

lemma insert_reservation_line_Inr:
  assumes "insert_reservation_line L c t req ex it s = (Inr i, s')"
  shows "\<exists>r. reservations (data s') = reservations (data s) @ [r] \<and> row_of t req ex it r \<and> i = rv_id r"
    and "ext s' = ext s"
proof -
  from assms obtain r s1 where r: "InsertReservation t (rq_order req) (it_sku it) (it_wh it) (it_qty it) StatusActive ex s = (Inr r, s1)"
    "reservations (data s') = reservations (data s1)" "ext s' = ext s1" "i = rv_id r"
    unfolding insert_reservation_line_def by (auto elim!: bindE_InrE dest!: res_InsertOutboxEvent_Inr)
  then show "\<exists>r. reservations (data s') = reservations (data s) @ [r] \<and> row_of t req ex it r \<and> i = rv_id r"
    and "ext s' = ext s"
    unfolding InsertReservation_def
    by (auto elim!: stmt_InrE simp: Let_def row_of_def row_line_def item_line_def split: if_splits)
qed

lemma insert_lines_Inr:
  assumes "forE its (insert_reservation_line L c t req ex) s = (Inr ids, s')"
  shows "\<exists>rows. reservations (data s') = reservations (data s) @ rows \<and>
    list_all2 (row_of t req ex) its rows \<and> ids = map rv_id rows" and "ext s' = ext s"
proof -
  have "(\<exists>rows. reservations (data s') = reservations (data s) @ rows \<and>
    list_all2 (row_of t req ex) its rows \<and> ids = map rv_id rows) \<and> ext s' = ext s"
    using assms
  proof (induction its arbitrary: s ids)
    case (Cons it its)
    then obtain i s1 ids1 where *: "insert_reservation_line L c t req ex it s = (Inr i, s1)"
      "forE its (insert_reservation_line L c t req ex) s1 = (Inr ids1, s')" "ids = i # ids1"
      by (auto elim!: bindE_InrE)
    from insert_reservation_line_Inr [OF *(1)] obtain r where
      r: "reservations (data s1) = reservations (data s) @ [r]" "row_of t req ex it r" "i = rv_id r" "ext s1 = ext s"
      by blast
    from Cons.IH [OF *(2)] obtain rows where "reservations (data s') = reservations (data s1) @ rows"
      "list_all2 (row_of t req ex) its rows" "ids1 = map rv_id rows" "ext s' = ext s1" by blast
    with r *(3) show ?case by (intro conjI exI [of _ "r # rows"]) auto
  qed simp
  then show "\<exists>rows. reservations (data s') = reservations (data s) @ rows \<and>
    list_all2 (row_of t req ex) its rows \<and> ids = map rv_id rows" and "ext s' = ext s" by auto
qed

lemma frame_ext_insert [frame_intros]: "frame ext (insert_body L c t req ex)"
  unfolding insert_body_def insert_reservation_line_def by (intro frame_intros)

lemma frame_insertReservations [frame_intros]:
  "frame ext (insertReservations L c t req ex)" "frame scope (insertReservations L c t req ex)"
  "frame sched (insertReservations L c t req ex)"
  unfolding insertReservations_def insert_body_def insert_reservation_line_def by (intro frame_intros)+

lemma insertReservations_Inr:
  fixes s :: "(reservation_db, 'x) sess"
  assumes "insertReservations L c t req ex s = (Inr i, s')"
    and "rq_key req = '''' \<or> find_key t (rq_key req) (res_keys (data s)) = None"
  obtains rows where "recorded t req ex (data s) rows (data s')" "i = first_id (map rv_id rows)"
proof -
  from assms(1) obtain s1 s2 :: "(reservation_db, 'x) sess" where b: "insert_body L c t req ex s1 = (Inr i, s2)" "data s1 = data s"
    "data s' = data s2" unfolding insertReservations_def by (rule ExecTxWithTenant_Inr) blast
  then obtain s3 ids where *: "seen_key res_CheckAndInsertIdempotencyKey t (rq_key req) (PayloadHash L (M_Reserve req)) s1 = (Inr False, s3)"
    "forE (rq_items req) (insert_reservation_line L c t req ex) s3 = (Inr ids, s2)" "i = first_id ids"
    unfolding insert_body_def by (auto elim!: bindE_InrE split: if_splits)
  have "reservations (data s3) = reservations (data s1)"
    using res_ledger.seen_key_fresh(2) [OF *(1)] assms(2) b(2) by auto
  with insert_lines_Inr(1) [OF *(2)] *(3) b(2,3) that show ?thesis
    by (auto simp: recorded_def)
qed

abbreviation hold_call :: "lib \<Rightarrow> ctx \<Rightarrow> ReserveRequest \<Rightarrow> ('y, ReserveStockResponse) resx" where
  "hold_call L c req \<equiv>
     rpc (ReserveStock L (incoming L (WithTenantID c (rq_tenant req))) (reserve_stock_request req))"

lemma Reserve_run:
  fixes s :: "(reservation_db, (stock_db, 'y) sess) sess"
  assumes "Reserve L c req s = (r, s')" "uuid_scan L (rq_tenant req) = Some t" "rq_items req \<noteq> []"
  obtains (failed) e where "hold_call L c req s = (Inl e, s')" "isl r"
  | (short) resp where "hold_call L c req s = (Inr resp, s')" "\<not> rsvr_success resp"
      "r = Inr \<lparr>rqr_success = False, rqr_reservation = '''', rqr_failed = rsvr_failed resp, rqr_expires = 0\<rparr>"
  | (held) resp s1 where "hold_call L c req s = (Inr resp, s1)" "rsvr_success resp"
      "persist_reservation L (WithTenantID c (rq_tenant req)) t req s1 = (r, s')"
proof -
  obtain q s1 where q: "hold_call L c req s = (q, s1)" by fastforce
  then have att: "attempt (hold_call L c req) s = (Inr q, s1)" by (simp add: attempt_def)
  show ?thesis
  proof (cases q)
    case (Inl e)
    with assms att q failed show ?thesis by (auto simp: Reserve_def Let_def internal_error_def)
  next
    case (Inr resp)
    with assms att q short held show ?thesis by (auto simp: Reserve_def Let_def split: if_splits)
  qed
qed

lemma frame_data_GetActive [frame_intros]: "frame data (GetActiveReservationsByOrder ord)"
  unfolding frame_def GetActiveReservationsByOrder_def stmt_def Let_def by (auto split: option.splits)

lemma frame_data_ExecTx: "frame data m \<Longrightarrow> frame data (ExecTxWithTenant L c m)"
  unfolding frame_def by (metis commits_def ExecTxWithTenant_atomic snd_conv surjective_pairing)

lemma firstReservationID_Inr:
  obtains i s' where "firstReservationID L c ord s = (Inr i, s')" "data s' = data s" "ext s' = ext s"
proof -
  let ?m = "with_var '''' (ExecTxWithTenant L c
       (bindE (attempt (GetActiveReservationsByOrder ord)) (\<lambda>r.
        case r of Inr (row # _) \<Rightarrow> set_var (rv_id row) | _ \<Rightarrow> returnE ())))"
  have "\<exists>v s'. ?m s = (Inr v, s')" unfolding with_var_def by (simp split: prod.split)
  then obtain v s' where v: "?m s = (Inr v, s')" by blast
  have lists: "frame g (case r of Inr (row # _) \<Rightarrow> set_var (rv_id row) | _ \<Rightarrow> returnE ())"
    if "\<And>v. frame g (set_var v)" for g :: "(reservation_db, 'x \<times> string) sess \<Rightarrow> 'b" and r :: "err + Reservation list"
    using that by (auto intro: frame_intros split: sum.splits list.splits)
  have "frame data ?m"
    by (intro frame_intros frame_data_ExecTx lists)
  moreover have "frame ext ?m"
    by (intro frame_with_var_ext frame_ExecTx_beside frame_intros lists)
  ultimately have "data s' = data s" "ext s' = ext s" using v by (auto dest: frameD)
  with v that show ?thesis by (cases v) (simp add: firstReservationID_def)
qed

lemma persist_run:
  fixes s :: "(reservation_db, (stock_db, 'y) sess) sess"
  assumes "persist_reservation L c t req s = (r, s')"
    and "s0 = s\<lparr>pos := Suc (pos s)\<rparr>" "ex = clock (sched s (pos s)) + reserve_ttl (rq_ttl req)"
  obtains (stored) i where "insertReservations L c t req ex s0 = (Inr i, s')"
      "r = Inr \<lparr>rqr_success = True, rqr_reservation = i, rqr_failed = [], rqr_expires = word_of_int (Unix ex)\<rparr>"
  | (replay) e s1 i where "insertReservations L c t req ex s0 = (Inl e, s1)" "err_is e ErrAlreadyProcessed"
      "data s' = data s1" "ext s' = ext s1"
      "r = Inr \<lparr>rqr_success = True, rqr_reservation = i, rqr_failed = [], rqr_expires = 0\<rparr>"
  | (compensated) e s1 q where "insertReservations L c t req ex s0 = (Inl e, s1)" "\<not> err_is e ErrAlreadyProcessed"
      "rpc (ReleaseStock L (incoming L Background) (reserve_failure_request req)) s1 = (q, s')" "isl r"
proof -
  obtain q s1 where q: "insertReservations L c t req ex s0 = (q, s1)" by fastforce
  then have att: "attempt (insertReservations L c t req ex) s0 = (Inr q, s1)" by (simp add: attempt_def)
  have "now s = (Inr (clock (sched s (pos s))), s0)" by (simp add: now_def assms(2))
  with assms(1,3) att have run: "(case q of
       Inr reservationID \<Rightarrow>
         returnE \<lparr>rqr_success = True, rqr_reservation = reservationID, rqr_failed = [],
                  rqr_expires = word_of_int (Unix ex)\<rparr>
     | Inl e \<Rightarrow>
         if err_is e ErrAlreadyProcessed
         then bindE (firstReservationID L c (rq_order req)) (\<lambda>i.
           returnE \<lparr>rqr_success = True, rqr_reservation = i, rqr_failed = [], rqr_expires = 0\<rparr>)
         else bindE (attempt (rpc (ReleaseStock L (incoming L Background) (reserve_failure_request req)))) (\<lambda>_.
           internal_error ''persist reservation: '' e)) s1 = (r, s')"
    by (simp add: persist_reservation_def Let_def cong del: sum.case_cong_weak)
  show ?thesis
  proof (cases q)
    case (Inl e)
    show ?thesis
    proof (cases "err_is e ErrAlreadyProcessed")
      case True
      obtain i s2 where "firstReservationID L c (rq_order req) s1 = (Inr i, s2)" "data s2 = data s1" "ext s2 = ext s1"
        by (rule firstReservationID_Inr)
      with True run q Inl that(2) show ?thesis by auto
    next
      case False
      with run q Inl that(3) show ?thesis
        by (auto simp: internal_error_def attempt_def bindE_def split: prod.splits)
    qed
  next
    case (Inr i)
    with run q that(1) show ?thesis by auto
  qed
qed

section \<open>The hold behind a reservation\<close>

lemma stock_schema_rpc:
  assumes "rpc srv s = (r, s')" "keeps stock_schema srv" "stock_schema (data (ext s))"
  shows "stock_schema (data (ext s'))"
proof (cases "fault (sched s (pos s))")
  case (Some f)
  with assms keepsD [OF assms(2,3)] show ?thesis by (cases f) (auto simp: rpc_def Let_def)
qed (use assms keepsD [OF assms(2,3)] in \<open>auto simp: rpc_def Let_def split: prod.splits\<close>)

lemma mapE_snd: "snd (bindE m (\<lambda>a. returnE (f a)) s) = snd (m s)"
  by (auto simp: bindE_def split: prod.splits sum.splits)

lemma keeps_ReserveStock [keeps_intros]: "keeps stock_schema (ReserveStock L c req)"
  using keeps_stock_serve [of L c "CallReserveStock req"]
  by (simp add: keeps_def mapE_data)

lemma keeps_ReleaseStock [keeps_intros]: "keeps stock_schema (ReleaseStock L c req)"
  using keeps_stock_serve [of L c "CallReleaseStock req"]
  by (simp add: keeps_def mapE_data)

lemma key_seen_find: "key_seen t k (inventory_of d) \<longleftrightarrow> k \<noteq> '''' \<and> find_key t k (stock_keys d) \<noteq> None"
  by (cases "find_key t k (stock_keys d)")
    (auto simp: key_seen_def inventory_of_def find_key_None image_iff dest: find_key_Some)

lemma keeps_ext_stock_calls [ext_intros]:
  "keeps_ext (\<lambda>x. stock_schema (data x)) (rpc (ReserveStock L c rr))"
  "keeps_ext (\<lambda>x. stock_schema (data x)) (rpc (ReleaseStock L c rl))"
  by (rule keeps_ext_rpc, erule keepsD [rotated], rule keeps_intros)+

lemma keeps_ext_res_queries [ext_intros]:
  "keeps_ext P (res_CheckAndInsertIdempotencyKey t k h)"
  "keeps_ext P (GetActiveReservationsByOrder ord)"
  "keeps_ext P (GetExpiredReservations n lim)"
  "keeps_ext P (res_InsertOutboxEvent L t at ai et pl tr)"
  "keeps_ext P (UpdateReservationStatus i st)"
  "keeps_ext P (insertReservations L c t req ex)"
  "keeps_ext P (mark_row L c t ord st et r)"
  unfolding mark_row_def by (intro keeps_ext_frame frame_intros)+

lemma keeps_ext_seen_key [ext_intros]: "keeps_ext P (ci t k h) \<Longrightarrow> keeps_ext P (seen_key ci t k h)"
  unfolding seen_key_def by (intro ext_intros)

lemma keeps_ext_firstReservationID [ext_intros]: "keeps_ext P (firstReservationID L c ord)"
  unfolding keeps_ext_def by (metis firstReservationID_Inr snd_conv)

lemma keeps_ext_status [ext_intros]: "keeps_ext P (internal_error w e)" "keeps_ext P (invalid_argument m)"
  by (intro keeps_ext_frame frame_intros)+

lemma keeps_stock_reservation_serve:
  "keeps_ext (\<lambda>x. stock_schema (data x)) (reservation_serve L c call)"
  by (cases call; simp only: reservation_serve.simps Reserve_def persist_reservation_def Release_def
      res_release_body_def release_rows_def AllocateReservation_def allocate_body_def Let_def;
      intro ext_intros)

lemma hold_call_implements:
  assumes "hold_call L c req s = (r, s')" "uuid_scan L (rq_tenant req) = Some t" "rq_items req \<noteq> []"
    and "stock_schema (data (ext s))"
  shows "implements (det (spec_ReserveStock (incoming L (WithTenantID c (rq_tenant req))) t (reserve_stock_request req)))
    (stock_inv (ext s)) r (stock_inv (ext s'))"
  using assms(1) by (rule rpc_implements [where \<alpha> = "\<lambda>x. stock_inv x"])
    (rule ReserveStock_implements, use assms in \<open>auto simp: reserve_stock_request_def\<close>)

lemma release_call_implements:
  assumes "rpc (ReleaseStock L c req) s = (r, s')" "uuid_scan L (rls_tenant req) = Some t"
    and "stock_schema (data (ext s))"
  shows "implements (det (spec_ReleaseStock c t req)) (stock_inv (ext s)) r (stock_inv (ext s'))"
  using assms(1) by (rule rpc_implements [where \<alpha> = "\<lambda>x. stock_inv x"])
    (rule ReleaseStock_implements, use assms in auto)

text \<open>\<^verbatim>\<open>moved k ls I J\<close>: at every location the demanded quantity has moved as \<^verbatim>\<open>k\<close> says.\<close>

definition moved :: "move \<Rightarrow> uuid \<Rightarrow> StockLine list \<Rightarrow> inventory \<Rightarrow> inventory \<Rightarrow> bool" where
  "moved k t ls I J \<longleftrightarrow>
     (\<forall>loc. inv_levels J loc = map_option (move_bucket k (demand t ls loc)) (inv_levels I loc))"

lemma spec_ReserveStock_moved:
  assumes "spec_ReserveStock c t req I = Some (resp, J)" "\<not> key_seen t (rsv_key req) I"
  shows "if rsvr_success resp then moved MoveReserve t (rsv_lines req) I J else J = I \<and> rsvr_failed resp \<noteq> []"
  using assms by (cases rule: spec_ReserveStock_cases) (auto simp: moved_def run_moves_SomeD(1))

lemma spec_ReleaseStock_moved:
  assumes "spec_ReleaseStock c t req I = Some (resp, J)" "\<not> key_seen t (rls_key req) I"
  shows "moved (MoveRelease (rls_reason req)) t (rls_lines req) I J"
  using assms
proof (cases rule: spec_ReleaseStock_cases)
  case (moved ls)
  show ?thesis
    unfolding moved_def
  proof
    fix loc show "inv_levels J loc = map_option (move_bucket (MoveRelease (rls_reason req)) (demand t (rls_lines req) loc)) (inv_levels I loc)"
      using run_moves_SomeD(1) [OF moved(4), of loc] demand_known [of I loc t "sortedLines (rls_lines req)"] moved(2)
      by (cases "inv_levels I loc") auto
  qed
qed simp

lemma moved_back:
  assumes "moved MoveReserve t ls I J" "moved (MoveRelease rsn) t ls J K"
  shows "inv_levels K = inv_levels I"
proof
  fix loc show "inv_levels K loc = inv_levels I loc"
    using assms [unfolded moved_def, THEN spec, of loc] by (cases "inv_levels I loc") simp_all
qed

section \<open>Properties of Reserve\<close>

lemma Reserve_rejects:
  "uuid_scan L (rq_tenant req) = None \<or> rq_items req = [] \<Longrightarrow>
     \<exists>m. Reserve L c req s = (Inl (StatusErr InvalidArgument m), s)"
  by (auto simp: Reserve_def invalid_argument_def bad_tenant Let_def split: sum.splits)

lemma ErrAlreadyProcessed_known:
  fixes s :: "(reservation_db, 'x) sess"
  assumes "insertReservations L c t req ex s = (Inl e, s')" "err_is e ErrAlreadyProcessed"
  shows "rq_key req \<noteq> '''' \<and> find_key t (rq_key req) (res_keys (data s)) \<noteq> None"
proof -
  from assms(2) have "e \<noteq> ErrTenantIDMissing" "\<And>m m'. e \<noteq> Wrapped m (PgErr m')" by auto
  with assms(1) obtain s1 s2 :: "(reservation_db, 'x) sess" where
    b: "insert_body L c t req ex s1 = (Inl e, s2)" "data s1 = data s"
    unfolding insertReservations_def by (elim ExecTxWithTenant_Inl) auto
  have raise: "\<not> pg_err e" using assms(2) by (auto simp: pg_err_def)
  have lines: "raises pg_err (forE (rq_items req) (insert_reservation_line L c t req ex))"
    unfolding insert_reservation_line_def by (intro raises_intros)
  have key: "raises pg_err (seen_key res_CheckAndInsertIdempotencyKey t k h)" for k h
    by (intro raises_seen_key raises_intros)
  from b(1) raise obtain s3 where
    "seen_key res_CheckAndInsertIdempotencyKey t (rq_key req) (PayloadHash L (M_Reserve req)) s1 = (Inr True, s3)"
    unfolding insert_body_def
    by (auto elim!: bindE_InlE split: if_splits dest: raisesD [OF key] raisesD [OF lines])
  moreover from this have "rq_key req \<noteq> ''''" by (auto simp: seen_key_def)
  ultimately show ?thesis using res_ledger.seen_key_Inr(1) b(2) by metis
qed

text \<open>
  C11: A successful reservation holds stock and is on record. When \<^verbatim>\<open>Reserve\<close> under fresh keys answers
  that it succeeded, the stock service has moved exactly the demanded quantity of every item from available to
  reserved, and the reservation database has one active row per item, in order, with the item's SKU,
  warehouse and quantity and the expiry that the response announces; when it answers that it did not,
  neither database has changed and the response names the SKUs that are short.
\<close>

theorem reserve_holds_and_records:
  fixes s :: "(reservation_db, (stock_db, 'y) sess) sess"
  assumes "Reserve L c req s = (Inr resp, s')" and "stock_schema (data (ext s))"
    and "uuid_scan L (rq_tenant req) = Some t" and "\<not> key_seen t (rq_key req) (stock_inv (ext s))"
    and "rq_key req = '''' \<or> find_key t (rq_key req) (res_keys (data s)) = None"
  shows "if rqr_success resp
    then moved MoveReserve t (map item_line (rq_items req)) (stock_inv (ext s)) (stock_inv (ext s')) \<and>
      (\<exists>rows i ex. ex = clock (sched s i) + reserve_ttl (rq_ttl req) \<and> recorded t req ex (data s) rows (data s') \<and>
         rqr_reservation resp = first_id (map rv_id rows) \<and> rqr_expires resp = word_of_int (Unix ex))
    else stock_inv (ext s') = stock_inv (ext s) \<and> data s' = data s \<and> rqr_failed resp \<noteq> []"
proof -
  have ne: "rq_items req \<noteq> []" using assms(1) Reserve_rejects [of L req c s] by force
  from assms(1,3) ne show ?thesis
  proof (cases rule: Reserve_run)
    case (short r1)
    from hold_call_implements [OF short(1) assms(3) ne assms(2)]
    have "spec_ReserveStock (incoming L (WithTenantID c (rq_tenant req))) t (reserve_stock_request req) (stock_inv (ext s)) =
      Some (r1, stock_inv (ext s'))" by (simp add: det_def)
    from spec_ReserveStock_moved [OF this] short assms(4) frameD [OF frame_rpc(1) short(1)] show ?thesis
      by (simp add: reserve_stock_request_def)
  next
    case (held r1 s1)
    from hold_call_implements [OF held(1) assms(3) ne assms(2)]
    have "spec_ReserveStock (incoming L (WithTenantID c (rq_tenant req))) t (reserve_stock_request req) (stock_inv (ext s)) =
      Some (r1, stock_inv (ext s1))" by (simp add: det_def)
    from spec_ReserveStock_moved [OF this] held(2) assms(4)
    have mv: "moved MoveReserve t (map item_line (rq_items req)) (stock_inv (ext s)) (stock_inv (ext s1))"
      by (simp add: reserve_stock_request_def)
    have s1: "data s1 = data s" "sched s1 = sched s" using held(1) by (auto dest: frameD [OF frame_rpc(1)] frameD [OF frame_rpc(3)])
    from held(3) refl refl show ?thesis
    proof (cases rule: persist_run)
      case (stored i)
      have "ext s' = ext s1" using frameD [OF frame_insertReservations(1) stored(1)] by simp
      moreover obtain rows where "recorded t req (clock (sched s1 (pos s1)) + reserve_ttl (rq_ttl req)) (data s) rows (data s')"
        "i = first_id (map rv_id rows)"
        using insertReservations_Inr [OF stored(1)] assms(5) s1 by auto
      ultimately show ?thesis using stored(2) mv s1(2) by auto
    next
      case (replay e s2 i)
      with ErrAlreadyProcessed_known [OF replay(1,2)] assms(5) s1 show ?thesis by simp
    qed simp
  qed simp
qed

text \<open>A reservation service over the sample stock.\<close>

definition empty_reservations :: reservation_db where
  "empty_reservations = \<lparr>reservations = [], res_outbox = [], res_keys = []\<rparr>"

definition sample_item :: "string \<Rightarrow> int32 \<Rightarrow> ReservationItem" where
  "sample_item sku q = \<lparr>it_sku = sku, it_wh = ''w'', it_qty = q\<rparr>"

definition sample_hold :: "ReservationItem list \<Rightarrow> ReserveRequest" where
  "sample_hold its = \<lparr>rq_tenant = ''t'', rq_order = ''o'', rq_key = ''k'', rq_items = its, rq_ttl = 60\<rparr>"

abbreviation sample_shop :: "(reservation_db, (stock_db, unit) sess) sess" where
  "sample_shop \<equiv> calm_sess empty_reservations (calm_sess sample_stock ())"

lemma ext_calm_sess [simp]: "ext (calm_sess d x) = x"
  by (simp add: calm_sess_def)

lemma sample_hold_simps [simp]:
  "rq_tenant (sample_hold its) = ''t''" "rq_order (sample_hold its) = ''o''" "rq_key (sample_hold its) = ''k''"
  "rq_items (sample_hold its) = its" "res_keys empty_reservations = []" "reservations empty_reservations = []"
  by (simp_all add: sample_hold_def empty_reservations_def)

lemma find_key_Nil [simp]: "find_key t k [] = None"
  by (simp add: find_key_def)

theorem reserve_holds_and_records_witness:
  "let req = sample_hold [sample_item ''a'' 4, sample_item ''a'' 1]; out = Reserve sample_lib sample_ctx req sample_shop in
   moved MoveReserve ''t'' [sample_line ''a'' 4, sample_line ''a'' 1] (stock_inv (ext sample_shop)) (stock_inv (ext (snd out))) \<and>
   map rv_qty (reservations (data (snd out))) = [4, 1]"
proof -
  let ?req = "sample_hold [sample_item ''a'' 4, sample_item ''a'' 1]"
  obtain resp where run: "Reserve sample_lib sample_ctx ?req sample_shop =
      (Inr resp, snd (Reserve sample_lib sample_ctx ?req sample_shop))" "rqr_success resp"
  proof -
    have "map_sum (\<lambda>_. ()) rqr_success (fst (Reserve sample_lib sample_ctx ?req sample_shop)) = Inr True"
      by code_simp
    then show ?thesis using that
      by (cases "fst (Reserve sample_lib sample_ctx ?req sample_shop)") (auto simp: prod_eq_iff)
  qed
  have "map rv_qty (reservations (data (snd (Reserve sample_lib sample_ctx ?req sample_shop)))) = [4, 1]"
    by code_simp
  with reserve_holds_and_records [OF run(1), of "''t''"] run(2) show ?thesis
    by (simp add: sample_schema sample_simps Let_def item_line_def sample_item_def sample_line_def)
qed

lemma hold_call_outcome:
  assumes "hold_call L c req s = (r, s')" "uuid_scan L (rq_tenant req) = Some t" "rq_items req \<noteq> []"
    and "stock_schema (data (ext s))" "\<not> key_seen t (rq_key req) (stock_inv (ext s))"
  shows "stock_inv (ext s') = stock_inv (ext s) \<or>
    moved MoveReserve t (map item_line (rq_items req)) (stock_inv (ext s)) (stock_inv (ext s'))"
proof -
  have "\<not> key_seen t (rsv_key (reserve_stock_request req)) (stock_inv (ext s))"
    using assms(5) by (simp add: reserve_stock_request_def)
  moreover have "rsv_lines (reserve_stock_request req) = map item_line (rq_items req)"
    by (simp add: reserve_stock_request_def)
  ultimately show ?thesis
    using implements_outcome [OF hold_call_implements [OF assms(1-4)]] spec_ReserveStock_moved
    unfolding det_def by (metis (full_types))
qed

lemma release_call_outcome:
  assumes "rpc (ReleaseStock L c req) s = (r, s')" "uuid_scan L (rls_tenant req) = Some t"
    and "stock_schema (data (ext s))"
  shows "stock_inv (ext s') = stock_inv (ext s) \<or>
    moved (MoveRelease (rls_reason req)) t (rls_lines req) (stock_inv (ext s)) (stock_inv (ext s'))"
  using implements_outcome [OF release_call_implements [OF assms]]
proof (elim disjE exE)
  fix a assume "det (spec_ReleaseStock c t req) (stock_inv (ext s)) a (stock_inv (ext s'))"
  then have sp: "spec_ReleaseStock c t req (stock_inv (ext s)) = Some (a, stock_inv (ext s'))"
    by (simp add: det_def)
  show ?thesis
  proof (cases "key_seen t (rls_key req) (stock_inv (ext s))")
    case True
    with sp show ?thesis by (auto elim: spec_ReleaseStock_cases simp del: inventory_of_simps)
  qed (use spec_ReleaseStock_moved [OF sp] in simp)
qed simp


text \<open>A schedule on which exactly the step at one position fails.\<close>

definition failing_at :: "nat \<Rightarrow> fault \<Rightarrow> ('d, 'x) sess \<Rightarrow> ('d, 'x) sess" where
  "failing_at n f s = s\<lparr>sched := (\<lambda>i. if i = n then (sched s i)\<lparr>fault := Some f\<rparr> else sched s i)\<rparr>"

lemma failing_at_simps [simp]: "data (failing_at n f s) = data s" "ext (failing_at n f s) = ext s"
  by (simp_all add: failing_at_def)


text \<open>
  C38: A retry after a compensated failure is granted without a hold. When the stock ledger already
  has the request's key (a first attempt reserved and then compensated) but the reservation ledger
  does not (that attempt rolled back), \<^verbatim>\<open>Reserve\<close> can only answer that it succeeded; it records one
  active reservation per item and moves no stock, since the stock service takes the retry for a
  duplicate of the attempt it has released.
\<close>

theorem reserve_retry_has_no_hold:
  fixes s :: "(reservation_db, (stock_db, 'y) sess) sess"
  assumes "Reserve L c req s = (Inr resp, s')" and "stock_schema (data (ext s))"
    and "uuid_scan L (rq_tenant req) = Some t" and "key_seen t (rq_key req) (stock_inv (ext s))"
    and "find_key t (rq_key req) (res_keys (data s)) = None"
  shows "rqr_success resp \<and> stock_inv (ext s') = stock_inv (ext s) \<and>
    (\<exists>rows ex. recorded t req ex (data s) rows (data s'))"
proof -
  have ne: "rq_items req \<noteq> []" using assms(1) Reserve_rejects [of L req c s] by force
  have dup: "r1 = \<lparr>rsvr_success = True, rsvr_failed = []\<rparr> \<and> stock_inv (ext s1) = stock_inv (ext s)"
    if "hold_call L c req s = (Inr r1, s1)" for r1 s1
    using hold_call_implements [OF that assms(3) ne assms(2)] assms(4)
    by (auto simp: det_def reserve_stock_request_def elim: spec_ReserveStock_cases simp del: inventory_of_simps)
  from assms(1,3) ne show ?thesis
  proof (cases rule: Reserve_run)
    case (short r1)
    with dup [OF short(1)] show ?thesis by simp
  next
    case (held r1 s1)
    note d = dup [OF held(1)]
    have s1: "data s1 = data s" using held(1) by (auto dest: frameD [OF frame_rpc(1)])
    from held(3) refl refl show ?thesis
    proof (cases rule: persist_run)
      case (stored i)
      have "ext s' = ext s1" using frameD [OF frame_insertReservations(1) stored(1)] by simp
      moreover obtain rows where "recorded t req (clock (sched s1 (pos s1)) + reserve_ttl (rq_ttl req)) (data s) rows (data s')"
        using insertReservations_Inr [OF stored(1)] assms(5) s1 by auto
      ultimately show ?thesis using stored(2) d by auto
    next
      case (replay e s2 i)
      with ErrAlreadyProcessed_known [OF replay(1,2)] assms(5) s1 show ?thesis by simp
    qed simp
  qed simp
qed

theorem reserve_retry_has_no_hold_witness:
  "let req = sample_hold [sample_item ''a'' 4]; s0 = failing_at 5 (Failed ''disk full'') sample_shop;
       s1 = snd (Reserve sample_lib sample_ctx req s0); out = Reserve sample_lib sample_ctx req s1 in
   stock_inv (ext (snd out)) = stock_inv (ext s1) \<and>
   inv_levels (stock_inv (ext s1)) (''t'', ''a'', ''w'') = inv_levels (stock_inv (ext s0)) (''t'', ''a'', ''w'') \<and>
   map (\<lambda>r. (rv_status r, rv_qty r)) (reservations (data (snd out))) = [(StatusActive, 4)]"
proof -
  let ?req = "sample_hold [sample_item ''a'' 4]" and ?s0 = "failing_at 5 (Failed ''disk full'') sample_shop"
  let ?s1 = "snd (Reserve sample_lib sample_ctx ?req ?s0)"
  let ?out = "Reserve sample_lib sample_ctx ?req ?s1"
  have "\<not> isl (fst ?out)" by code_simp
  then obtain resp where run: "?out = (Inr resp, snd ?out)"
    by (cases "fst ?out") (auto simp: prod_eq_iff)
  have "inv_levels (stock_inv (ext ?s1)) (''t'', ''a'', ''w'') = inv_levels (stock_inv (ext ?s0)) (''t'', ''a'', ''w'')"
    "map (\<lambda>r. (rv_status r, rv_qty r)) (reservations (data (snd ?out))) = [(StatusActive, 4)]"
    "find_key ''t'' ''k'' (stock_keys (data (ext ?s1))) \<noteq> None"
    "find_key ''t'' ''k'' (res_keys (data ?s1)) = None" by code_simp+
  moreover have "stock_schema (data (ext ?s1))"
    using keeps_extD [OF keeps_stock_reservation_serve [of sample_lib sample_ctx "CallReserve ?req"], of ?s0]
    by (simp add: mapE_snd sample_schema)
  ultimately show ?thesis
    using reserve_retry_has_no_hold [OF run, of "''t''"]
    by (simp add: sample_simps key_seen_find Let_def del: inventory_of_simps)
qed

end
