(* ===== verification/ReservationLifecycle.thy ===== *)
theory ReservationLifecycle
  imports ReservationProps
begin

text \<open>
  The life of a reservation: releasing and allocating its rows, the round trip of a hold, at most
  one effect per key, and the statuses a row can go through.
\<close>

section \<open>Release and allocation\<close>

lemma moved_none [simp]: "moved k t [] I I"
  unfolding moved_def by (metis demand_simps(1) move_bucket_0 option.map_ident_strong)

lemma moved_mset: "mset ls = mset ls' \<Longrightarrow> moved k t ls = moved k t ls'"
proof -
  assume "mset ls = mset ls'"
  then have "demand t ls loc = demand t ls' loc" for loc
    unfolding demand_def by (intro sum_list_mset_cong) (metis mset_filter)
  then show ?thesis by (simp add: fun_eq_iff moved_def)
qed

definition released_rows ::
  "uuid \<Rightarrow> ReleaseRequest \<Rightarrow> Reservation list \<Rightarrow> (reservation_db, (stock_db, 'y) sess) sess
    \<Rightarrow> (reservation_db, (stock_db, 'y) sess) sess \<Rightarrow> bool" where
  "released_rows t req rows s s' \<longleftrightarrow>
     reservations (data s') = mark_ids (rv_id ` set rows) StatusReleased (reservations (data s)) \<and>
     moved (MoveRelease (rl_reason req)) t (map row_line rows) (stock_inv (ext s)) (stock_inv (ext s'))"

lemma release_rows_Inr:
  fixes s :: "(reservation_db, (stock_db, 'y) sess) sess"
  assumes run: "release_rows L c t req s = (Inr out, s')" and "scope s = Scoped (Some t)"
    and scan: "uuid_scan L (rl_tenant req) = Some t" and sch: "stock_schema (data (ext s))"
    and key: "\<not> key_seen t (rl_key req) (stock_inv (ext s))"
  shows "released_rows t req (active_rows (busy (sched s (pos s))) t (rl_order req) (data s)) s s'"
proof -
  let ?rows = "active_rows (busy (sched s (pos s))) t (rl_order req) (data s)"
  from run obtain rows s1 where get: "GetActiveReservationsByOrder (rl_order req) s = (Inr rows, s1)"
    and rest: "(if rows = [] then returnE []
      else bindE (rpc (ReleaseStock L (incoming L c) (release_stock_request req rows))) (\<lambda>stockResp.
       bindE (forE rows (mark_row L c t (rl_order req) StatusReleased ''reservation.released'')) (\<lambda>_.
       returnE (rlsr_released stockResp)))) s1 = (Inr out, s')"
    unfolding release_rows_def by (elim bindE_InrE)
  note g = GetActive_Inr [OF get assms(2)]
  show ?thesis
  proof (cases "rows = []")
    case True
    with rest g show ?thesis by (simp add: released_rows_def)
  next
    case False
    with rest obtain resp s2 us where call: "rpc (ReleaseStock L (incoming L c) (release_stock_request req rows)) s1 = (Inr resp, s2)"
      and marks: "forE rows (mark_row L c t (rl_order req) StatusReleased ''reservation.released'') s2 = (Inr us, s')"
      by (auto elim!: bindE_InrE)
    have "spec_ReleaseStock (incoming L c) t (release_stock_request req rows) (stock_inv (ext s1)) = Some (resp, stock_inv (ext s2))"
      using release_call_implements [OF call, of t] scan sch g by (simp add: det_def release_stock_request_def)
    from spec_ReleaseStock_moved [OF this] key g
    have "moved (MoveRelease (rl_reason req)) t (map row_line rows) (stock_inv (ext s)) (stock_inv (ext s2))"
      by (simp add: release_stock_request_def)
    with mark_rows_Inr [OF marks] frameD [OF frame_rpc(1) call] g show ?thesis
      by (simp add: released_rows_def)
  qed
qed

lemma raises_status: "raises (\<lambda>e. \<exists>c m. e = StatusErr c m) (ReleaseStock L c req)"
  unfolding ReleaseStock_def Let_def raises_def internal_error_def invalid_argument_def
  by (auto simp: catchE_def split: sum.splits prod.splits)

lemma raises_rpc:
  assumes "\<And>x e x'. srv x = (Inl e, x') \<Longrightarrow> E e" "\<And>c m. E (StatusErr c m)"
  shows "raises E (rpc srv)"
  using assms unfolding raises_def rpc_def Let_def
  by (auto split: option.splits fault.splits prod.splits)

definition call_err :: "err \<Rightarrow> bool" where
  "call_err e \<longleftrightarrow> pg_err e \<or> (\<exists>c m. e = StatusErr c m)"

lemma raises_pg: "raises pg_err m \<Longrightarrow> raises call_err m"
  by (erule raises_mono) (simp add: call_err_def)

lemma raises_call_queries [raises_intros]:
  "raises call_err (GetActiveReservationsByOrder ord)"
  "raises call_err (mark_row L c t ord st et r)"
  "raises call_err (seen_key res_CheckAndInsertIdempotencyKey t k h)"
  unfolding mark_row_def by (rule raises_pg, intro raises_intros raises_seen_key)+

lemma raises_ReleaseStock_call [raises_intros]: "raises call_err (rpc (ReleaseStock L c req))"
  by (rule raises_rpc) (auto simp: call_err_def dest: raisesD [OF raises_status])

lemma raises_release_rows: "raises call_err (release_rows L c t req)"
  unfolding release_rows_def by (intro raises_intros)

lemma Release_fresh_run:
  fixes s :: "(reservation_db, (stock_db, 'y) sess) sess"
  assumes "Release L c req s = (Inr resp, s')" and scan: "uuid_scan L (rl_tenant req) = Some t"
    and fresh: "rl_key req = '''' \<or> find_key t (rl_key req) (res_keys (data s)) = None"
  obtains s1 s2 out where "release_rows L (WithTenantID c (rl_tenant req)) t req s1 = (Inr out, s2)"
    "reservations (data s1) = reservations (data s)" "ext s1 = ext s" "scope s1 = Scoped (Some t)" "sched s1 = sched s"
    "data s' = data s2" "ext s' = ext s2" "resp = \<lparr>rlr_success = True, rlr_released = out\<rparr>"
proof -
  let ?c = "WithTenantID c (rl_tenant req)"
  let ?tx = "ExecTxWithTenant L ?c (res_release_body L ?c t req)"
  obtain r0 s0 where tx: "?tx s = (r0, s0)" by fastforce
  have no: "\<not> err_is e ErrAlreadyProcessed" if "r0 = Inl e" for e
  proof
    assume dup: "err_is e ErrAlreadyProcessed"
    then have own: "e \<noteq> ErrTenantIDMissing" "\<And>m m'. e \<noteq> Wrapped m (PgErr m')" and ne: "\<not> call_err e"
      by (auto simp: call_err_def pg_err_def)
    from tx that have "?tx s = (Inl e, s0)" by simp
    then obtain s1 s2 :: "(reservation_db, (stock_db, 'y) sess) sess" where
      b: "res_release_body L ?c t req s1 = (Inl e, s2)" "data s1 = data s"
      using ExecTxWithTenant_Inl [OF _ own, of L ?c "res_release_body L ?c t req" s s0] by metis
    with ne obtain s3 where
      "seen_key res_CheckAndInsertIdempotencyKey t (rl_key req) (PayloadHash L (M_Release req)) s1 = (Inr True, s3)"
      unfolding res_release_body_def
      by (auto elim!: bindE_InlE split: if_splits dest: raisesD [OF raises_call_queries(3)] raisesD [OF raises_release_rows])
    from res_ledger.seen_key_fresh(1) [OF this] fresh b(2) show False by simp
  qed
  from assms(1) scan tx no obtain out where out: "r0 = Inr out" "s' = s0" "resp = \<lparr>rlr_success = True, rlr_released = out\<rparr>"
    by (cases r0) (auto simp: Release_def Let_def catchE_def internal_error_def bindE_def split: if_splits)
  with tx obtain s1 s2 :: "(reservation_db, (stock_db, 'y) sess) sess" where
    b: "res_release_body L ?c t req s1 = (Inr out, s2)" "data s1 = data s" "ext s1 = ext s"
      "scope s1 = Scoped (Some t)" "sched s1 = sched s" "data s0 = data s2" "ext s0 = ext s2"
    using scan by (auto elim!: ExecTxWithTenant_Inr simp: WithTenantID_def)
  then obtain s3 where s3: "seen_key res_CheckAndInsertIdempotencyKey t (rl_key req) (PayloadHash L (M_Release req)) s1 = (Inr False, s3)"
    "release_rows L ?c t req s3 = (Inr out, s2)"
    unfolding res_release_body_def by (auto elim!: bindE_InrE split: if_splits)
  from res_ledger.seen_key_fresh(2-5) [OF s3(1)] fresh b(2)
  have "reservations (data s3) = reservations (data s1)" "scope s3 = scope s1" "ext s3 = ext s1" "sched s3 = sched s1"
    by auto
  with that [OF s3(2)] b out show ?thesis by simp
qed

lemma AllocateReservation_Inr:
  fixes s :: "(reservation_db, 'x) sess"
  assumes "AllocateReservation L c req s = (Inr resp, s')" "uuid_scan L (ar_tenant req) = Some t"
    and "find_key t (ar_key req) (res_keys (data s)) = None"
  obtains i where "reservations (data s') =
      mark_ids (rv_id ` set (active_rows (busy (sched s i)) t (ar_order req) (data s))) StatusAllocated (reservations (data s))"
    "ext s' = ext s"
proof -
  let ?c = "WithTenantID c (ar_tenant req)"
  from assms(1,2) obtain n where "ExecTxWithTenant L ?c (allocate_body L ?c t req) s = (Inr n, s')"
    by (auto simp: AllocateReservation_def ParseUUID_def Let_def internal_error_def elim!: catchE_InrE bindE_InrE)
  then obtain s1 s2 :: "(reservation_db, 'x) sess" where body: "allocate_body L ?c t req s1 = (Inr n, s2)"
    and s1: "data s1 = data s" "ext s1 = ext s" "scope s1 = Scoped (Some t)" "sched s1 = sched s"
    and s2: "data s' = data s2" "ext s' = ext s2"
    using assms(2) by (auto elim!: ExecTxWithTenant_Inr simp: WithTenantID_def)
  from body obtain dup s3 where
    key: "seen_key res_CheckAndInsertIdempotencyKey t (ar_key req) (PayloadHash L (M_AllocateReservation req)) s1 = (Inr dup, s3)"
    and rest: "(if dup then returnE 0
     else
       bindE (GetActiveReservationsByOrder (ar_order req)) (\<lambda>rows.
       bindE (forE rows (mark_row L ?c t (ar_order req) StatusAllocated ''reservation.allocated'')) (\<lambda>us.
       returnE (word_of_nat (length us))))) s3 = (Inr n, s2)"
    unfolding allocate_body_def by (elim bindE_InrE)
  have k: "\<not> dup" "reservations (data s3) = reservations (data s1)" "scope s3 = scope s1" "ext s3 = ext s1" "sched s3 = sched s1"
    using res_ledger.seen_key_fresh [OF key] assms(3) s1(1) by auto
  with rest obtain rows s4 us where get: "GetActiveReservationsByOrder (ar_order req) s3 = (Inr rows, s4)"
    and mark: "forE rows (mark_row L ?c t (ar_order req) StatusAllocated ''reservation.allocated'') s4 = (Inr us, s2)"
    by (auto elim!: bindE_InrE)
  from k s1 have "scope s3 = Scoped (Some t)" by simp
  from GetActive_Inr [OF get this] mark_rows_Inr(1,2) [OF mark] k s1 s2
  show ?thesis by (intro that [of "pos s3"]) (simp_all add: active_rows_def)
qed

text \<open>
  C21: A release returns what the reservation holds, as far as no other transaction has it locked. When
  \<^verbatim>\<open>Release\<close> under fresh keys answers, the active rows of the order that were not locked elsewhere when it
  read them are marked released, no other row changes, and the stock service has moved exactly the
  quantities of those rows from reserved back to available.
\<close>

theorem release_returns_hold:
  fixes s :: "(reservation_db, (stock_db, 'y) sess) sess"
  assumes "Release L c req s = (Inr resp, s')" and "stock_schema (data (ext s))"
    and "uuid_scan L (rl_tenant req) = Some t" and "\<not> key_seen t (rl_key req) (stock_inv (ext s))"
    and "rl_key req = '''' \<or> find_key t (rl_key req) (res_keys (data s)) = None"
  shows "rlr_success resp \<and>
    (\<exists>i. released_rows t req (active_rows (busy (sched s i)) t (rl_order req) (data s)) s s')"
proof -
  obtain s1 s2 out where r: "release_rows L (WithTenantID c (rl_tenant req)) t req s1 = (Inr out, s2)"
    "reservations (data s1) = reservations (data s)" "ext s1 = ext s" "scope s1 = Scoped (Some t)" "sched s1 = sched s"
    "data s' = data s2" "ext s' = ext s2" "resp = \<lparr>rlr_success = True, rlr_released = out\<rparr>"
    by (rule Release_fresh_run [OF assms(1,3,5)])
  from release_rows_Inr [OF r(1,4) assms(3)] assms(2,4) r(2-8) show ?thesis
    by (auto simp: released_rows_def active_rows_def)
qed

definition sample_free :: ReleaseRequest where
  "sample_free = \<lparr>rl_tenant = ''t'', rl_reservation = '''', rl_order = ''o'', rl_reason = ''customer_cancel'', rl_key = ''k2''\<rparr>"

lemma sample_free_simps [simp]:
  "rl_tenant sample_free = ''t''" "rl_order sample_free = ''o''" "rl_key sample_free = ''k2''"
  "rl_reason sample_free = ''customer_cancel''"
  by (simp_all add: sample_free_def)

abbreviation sample_held :: "(reservation_db, (stock_db, unit) sess) sess" where
  "sample_held \<equiv> snd (Reserve sample_lib sample_ctx (sample_hold [sample_item ''a'' 4]) sample_shop)"

lemma sample_held_schema: "stock_schema (data (ext sample_held))"
  using keeps_extD [OF keeps_stock_reservation_serve [of sample_lib sample_ctx "CallReserve (sample_hold [sample_item ''a'' 4])"],
      of sample_shop]
  by (simp add: mapE_snd sample_schema)

lemma Inr_run:
  assumes "\<not> isl (fst x)"
  obtains a where "x = (Inr a, snd x)"
  using assms by (metis prod.collapse sum.collapse(2))

lemma Inr_run_with:
  assumes "map_sum (\<lambda>_. ()) f (fst x) = Inr v"
  obtains a where "x = (Inr a, snd x)" "f a = v"
  using assms by (cases x; cases "fst x") auto

theorem release_returns_hold_witness:
  "let out = Release sample_lib sample_ctx sample_free sample_held in
   (\<exists>i. released_rows ''t'' sample_free (active_rows (busy (sched sample_held i)) ''t'' ''o'' (data sample_held)) sample_held (snd out)) \<and>
   map rv_status (reservations (data sample_held)) = [StatusActive] \<and>
   map rv_status (reservations (data (snd out))) = [StatusReleased]"
proof -
  let ?out = "Release sample_lib sample_ctx sample_free sample_held"
  have "\<not> isl (fst ?out)" by code_simp
  then obtain resp where run: "?out = (Inr resp, snd ?out)" by (rule Inr_run)
  have "map rv_status (reservations (data sample_held)) = [StatusActive]"
    "map rv_status (reservations (data (snd ?out))) = [StatusReleased]"
    "find_key ''t'' ''k2'' (stock_keys (data (ext sample_held))) = None"
    "find_key ''t'' ''k2'' (res_keys (data sample_held)) = None" by code_simp+
  with release_returns_hold [OF run sample_held_schema, of "''t''"] show ?thesis
    by (simp add: sample_simps key_seen_find Let_def)
qed

section \<open>The round trip of a hold\<close>

definition key_state :: "uuid \<Rightarrow> string \<Rightarrow> ProcessedIdempotencyKey option \<Rightarrow> reservation_db \<Rightarrow> bool" where
  "key_state t k x d \<longleftrightarrow> find_key t k (res_keys d) = x"

lemma keeps_key_state [keeps_intros]:
  "keeps (key_state t k x) (GetActiveReservationsByOrder ord)"
  "keeps (key_state t k x) (GetExpiredReservations n lim)"
  "keeps (key_state t k x) (res_InsertOutboxEvent L t' at ai et pl tr)"
  "keeps (key_state t k x) (InsertReservation t' ord sku wh q st ex)"
  "keeps (key_state t k x) (UpdateReservationStatus i st)"
  by (auto simp: res_query_defs key_state_def Let_def intro!: keeps_stmt split: if_splits option.splits sum.splits)

lemma keeps_key_state_other:
  "k' \<noteq> k \<Longrightarrow> keeps (key_state t k x) (res_CheckAndInsertIdempotencyKey t' k' h)"
  by (auto simp: res_query_defs key_state_def intro!: keeps_stmt split: sum.splits dest!: insert_key_Inr)

lemma insertReservations_other_key:
  "rq_key req \<noteq> k \<Longrightarrow> insertReservations L c t' req ex s = (r, s') \<Longrightarrow>
     find_key t k (res_keys (data s')) = find_key t k (res_keys (data s))"
  using keeps_step [of "key_state t k (find_key t k (res_keys (data s)))" "insertReservations L c t' req ex" s r s']
  unfolding insertReservations_def insert_body_def insert_reservation_line_def
  by (simp add: keeps_intros keeps_key_state_other key_state_def [of t k "find_key t k (res_keys (data s))"])

lemma recorded_active:
  assumes "recorded t req ex d rows d'" "active_rows (\<lambda>_. False) t (rq_order req) d = []" "\<And>i. \<not> lk i"
  shows "mset (map row_line (active_rows lk t (rq_order req) d')) = mset (map item_line (rq_items req))"
    and "set (active_rows lk t (rq_order req) d') = set rows"
proof -
  have rows: "\<forall>r \<in> set rows. rv_tenant r = t \<and> rv_order r = rq_order req \<and> rv_status r = StatusActive"
    "map row_line rows = map item_line (rq_items req)"
    using assms(1) unfolding recorded_def row_of_def
    by (auto simp: list_all2_conv_all_nth in_set_conv_nth list_eq_iff_nth_eq)
  have none: "\<forall>r \<in> set (reservations d). \<not> (rv_tenant r = t \<and> rv_order r = rq_order req \<and> rv_status r = StatusActive)"
    using set_active_rows [of "\<lambda>_. False" t "rq_order req" d] assms(2) by auto
  let ?P = "\<lambda>r. rv_tenant r = t \<and> rv_order r = rq_order req \<and> rv_status r = StatusActive \<and> \<not> lk (rv_id r)"
  have "filter ?P (reservations d) = []" using none by (auto simp: filter_empty_conv)
  moreover have "filter ?P rows = rows" using rows(1) assms(3) by (simp add: filter_id_conv)
  ultimately have "active_rows lk t (rq_order req) d' = sort_key rv_id rows"
    using assms(1) by (simp add: recorded_def active_rows_def)
  then show "mset (map row_line (active_rows lk t (rq_order req) d')) = mset (map item_line (rq_items req))"
    and "set (active_rows lk t (rq_order req) d') = set rows"
    using rows(2) by (metis mset_map mset_sort, simp)
qed

lemma Reserve_fresh_run:
  fixes s :: "(reservation_db, (stock_db, 'y) sess) sess"
  assumes "Reserve L c req s = (Inr resp, s')" "rqr_success resp" and sch: "stock_schema (data (ext s))"
    and scan: "uuid_scan L (rq_tenant req) = Some t" and keys: "\<not> key_seen t (rq_key req) (stock_inv (ext s))"
      "rq_key req = '''' \<or> find_key t (rq_key req) (res_keys (data s)) = None"
  obtains ex rows where "moved MoveReserve t (map item_line (rq_items req)) (stock_inv (ext s)) (stock_inv (ext s'))"
    "recorded t req ex (data s) rows (data s')" "stock_schema (data (ext s'))" "sched s' = sched s"
    "\<forall>k. k \<noteq> rq_key req \<longrightarrow> find_key t k (res_keys (data s')) = find_key t k (res_keys (data s))"
    "\<forall>k. k \<noteq> rq_key req \<longrightarrow> key_seen t k (stock_inv (ext s')) = key_seen t k (stock_inv (ext s))"
proof -
  have ne: "rq_items req \<noteq> []" using assms(1) Reserve_rejects [of L req c s] by force
  from assms(1) scan ne show ?thesis
  proof (cases rule: Reserve_run)
    case (held r1 s1)
    have sp: "spec_ReserveStock (incoming L (WithTenantID c (rq_tenant req))) t (reserve_stock_request req) (stock_inv (ext s)) =
      Some (r1, stock_inv (ext s1))"
      using hold_call_implements [OF held(1) scan ne sch] by (simp add: det_def)
    have nk: "\<not> key_seen t (rsv_key (reserve_stock_request req)) (stock_inv (ext s))"
      using keys by (simp add: reserve_stock_request_def)
    from spec_ReserveStock_moved [OF sp nk] held(2)
    have mv: "moved MoveReserve t (map item_line (rq_items req)) (stock_inv (ext s)) (stock_inv (ext s1))"
      by (simp add: reserve_stock_request_def)
    have other: "key_seen t k (stock_inv (ext s1)) = key_seen t k (stock_inv (ext s))" if "k \<noteq> rq_key req" for k
      using sp
    proof (cases rule: spec_ReserveStock_cases)
      case moved
      from run_moves_SomeD(4) [OF moved(3)] that show ?thesis
        by (auto simp: key_seen_def record_key_keys reserve_stock_request_def simp del: inventory_of_simps)
    qed (simp_all del: inventory_of_simps)
    have s1: "data s1 = data s" "sched s1 = sched s" using held(1) by (auto dest: frameD [OF frame_rpc(1)] frameD [OF frame_rpc(3)])
    have sch1: "stock_schema (data (ext s1))" using stock_schema_rpc [OF held(1) _ sch] by (simp add: keeps_intros)
    from held(3) refl refl show ?thesis
    proof (cases rule: persist_run)
      case (stored i)
      have x: "ext s' = ext s1" "sched s' = sched s1"
        using frameD [OF frame_insertReservations(1) stored(1)] frameD [OF frame_insertReservations(3) stored(1)] by simp_all
      obtain rows where "recorded t req (clock (sched s1 (pos s1)) + reserve_ttl (rq_ttl req)) (data s) rows (data s')"
        using insertReservations_Inr [OF stored(1)] keys(2) s1 by auto
      with that [of "clock (sched s1 (pos s1)) + reserve_ttl (rq_ttl req)" rows] mv other sch1 x s1
        insertReservations_other_key [OF _ stored(1), of _ t]
      show ?thesis by (simp del: inventory_of_simps)
    next
      case (replay e s2 i)
      with ErrAlreadyProcessed_known [OF replay(1,2)] keys(2) s1 show ?thesis by simp
    qed simp
  qed (use assms(2) in simp_all)
qed

lemma round_trip:
  fixes s :: "(reservation_db, (stock_db, 'y) sess) sess"
  assumes "Reserve L c req s = (Inr resp, s1)" and "rqr_success resp" and "Release L c' rel s1 = (Inr resp', s2)"
    and "stock_schema (data (ext s))" and "uuid_scan L (rq_tenant req) = Some t"
    and "uuid_scan L (rl_tenant rel) = Some t" and "rl_order rel = rq_order req" and "rl_key rel \<noteq> rq_key req"
    and "\<forall>k \<in> {rq_key req, rl_key rel}. \<not> key_seen t k (stock_inv (ext s)) \<and> (k = '''' \<or> find_key t k (res_keys (data s)) = None)"
    and "active_rows (\<lambda>_. False) t (rq_order req) (data s) = []" and "\<forall>i r. \<not> busy (sched s i) r"
  shows "inv_levels (stock_inv (ext s2)) = inv_levels (stock_inv (ext s)) \<and>
    active_rows (\<lambda>_. False) t (rq_order req) (data s2) = []"
proof -
  have k: "\<not> key_seen t (rq_key req) (stock_inv (ext s))" "rq_key req = '''' \<or> find_key t (rq_key req) (res_keys (data s)) = None"
    using bspec [OF assms(9), of "rq_key req"] by (simp_all del: inventory_of_simps)
  obtain ex rows where r: "moved MoveReserve t (map item_line (rq_items req)) (stock_inv (ext s)) (stock_inv (ext s1))"
    "recorded t req ex (data s) rows (data s1)" "stock_schema (data (ext s1))" "sched s1 = sched s"
    "\<forall>k. k \<noteq> rq_key req \<longrightarrow> find_key t k (res_keys (data s1)) = find_key t k (res_keys (data s))"
    "\<forall>k. k \<noteq> rq_key req \<longrightarrow> key_seen t k (stock_inv (ext s1)) = key_seen t k (stock_inv (ext s))"
    by (rule Reserve_fresh_run [OF assms(1,2,4,5) k])
  have f: "rl_key rel = '''' \<or> find_key t (rl_key rel) (res_keys (data s1)) = None"
    "\<not> key_seen t (rl_key rel) (stock_inv (ext s1))"
    unfolding r(5,6) [rule_format, OF assms(8)] using bspec [OF assms(9), of "rl_key rel"] by (simp_all del: inventory_of_simps)
  obtain t1 t2 out where l: "release_rows L (WithTenantID c' (rl_tenant rel)) t rel t1 = (Inr out, t2)"
    "reservations (data t1) = reservations (data s1)" "ext t1 = ext s1" "scope t1 = Scoped (Some t)" "sched t1 = sched s1"
    "data s2 = data t2" "ext s2 = ext t2" "resp' = \<lparr>rlr_success = True, rlr_released = out\<rparr>"
    by (rule Release_fresh_run [OF assms(3,6) f(1)])
  let ?act = "active_rows (busy (sched t1 (pos t1))) t (rq_order req) (data s1)"
  have act: "mset (map row_line ?act) = mset (map item_line (rq_items req))" "set ?act = set rows"
    using recorded_active [OF r(2) assms(10), of "busy (sched t1 (pos t1))"] assms(11) l(5) r(4) by simp_all
  have rel: "released_rows t rel ?act t1 t2"
    using release_rows_Inr [OF l(1,4) assms(6)] r(3) f(2) l(2,3) assms(7) by (simp add: active_rows_def del: inventory_of_simps)
  then have "moved (MoveRelease (rl_reason rel)) t (map item_line (rq_items req)) (stock_inv (ext s1)) (stock_inv (ext s2))"
    using moved_mset [OF act(1)] l(3,7) by (simp add: released_rows_def)
  with moved_back [OF r(1)] have "inv_levels (stock_inv (ext s2)) = inv_levels (stock_inv (ext s))" .
  moreover have "active_rows (\<lambda>_. False) t (rq_order req) (data s2) = []"
  proof -
    have "reservations (data s2) = mark_ids (rv_id ` set rows) StatusReleased (reservations (data s) @ rows)"
      using rel act(2) l(2,6) r(2) by (simp add: released_rows_def recorded_def)
    moreover have "\<forall>r \<in> set (reservations (data s)). \<not> (rv_tenant r = t \<and> rv_order r = rq_order req \<and> rv_status r = StatusActive)"
      using set_active_rows [of "\<lambda>_. False" t "rq_order req" "data s"] assms(10) by auto
    ultimately have "set (active_rows (\<lambda>_. False) t (rq_order req) (data s2)) = {}"
      unfolding set_active_rows by (auto simp: mark_ids_def status_defs split: if_splits)
    then show ?thesis by simp
  qed
  ultimately show ?thesis ..
qed

text \<open>
  C22: Reserving and then releasing an order restores the stock, under these conditions: the order has no
  active reservation before, the two requests carry different keys, neither service has seen either key
  (an empty key counts as unseen by the reservation service), and no other transaction has rows locked.
  Then, when \<^verbatim>\<open>Reserve\<close> succeeds and \<^verbatim>\<open>Release\<close> for the order answers, every stock level is back where it
  was and the order has no active reservation.
\<close>

theorem reserve_release_round_trip:
  fixes s :: "(reservation_db, (stock_db, 'y) sess) sess"
  assumes "Reserve L c req s = (Inr resp, s1)" and "rqr_success resp" and "Release L c' rel s1 = (Inr resp', s2)"
    and "stock_schema (data (ext s))" and "uuid_scan L (rq_tenant req) = Some t"
    and "uuid_scan L (rl_tenant rel) = Some t" and "rl_order rel = rq_order req" and "rl_key rel \<noteq> rq_key req"
    and "\<forall>k \<in> {rq_key req, rl_key rel}. \<not> key_seen t k (stock_inv (ext s)) \<and> (k = '''' \<or> find_key t k (res_keys (data s)) = None)"
    and "active_rows (\<lambda>_. False) t (rq_order req) (data s) = []" and "\<forall>i r. \<not> busy (sched s i) r"
  shows "inv_levels (stock_inv (ext s2)) = inv_levels (stock_inv (ext s)) \<and>
    active_rows (\<lambda>_. False) t (rq_order req) (data s2) = []"
  using assms by (rule round_trip)

lemma active_rows_empty: "active_rows lk t ord empty_reservations = []"
  by (simp add: active_rows_def)

theorem reserve_release_round_trip_witness:
  "let s2 = snd (Release sample_lib sample_ctx sample_free sample_held) in
   inv_levels (stock_inv (ext s2)) = inv_levels (stock_inv (ext sample_shop)) \<and>
   active_rows (\<lambda>_. False) ''t'' ''o'' (data s2) = [] \<and>
   map_option bk_reserved (inv_levels (stock_inv (ext sample_held)) (''t'', ''a'', ''w'')) = Some 6"
proof -
  let ?res = "Reserve sample_lib sample_ctx (sample_hold [sample_item ''a'' 4]) sample_shop"
  let ?rel = "Release sample_lib sample_ctx sample_free sample_held"
  have "map_sum (\<lambda>_. ()) rqr_success (fst ?res) = Inr True" by code_simp
  then obtain a where a: "?res = (Inr a, sample_held)" "rqr_success a = True" by (rule Inr_run_with)
  have "\<not> isl (fst ?rel)" by code_simp
  then obtain b where b: "?rel = (Inr b, snd ?rel)" by (rule Inr_run)
  have "rqr_success a" using a(2) by simp
  moreover have "\<forall>i r. \<not> busy (sched sample_shop i) r" by (simp add: calm_sess_def calm_def)
  moreover have "map_option bk_reserved (inv_levels (stock_inv (ext sample_held)) (''t'', ''a'', ''w'')) = Some 6"
    by code_simp
  ultimately show ?thesis
    using reserve_release_round_trip [OF a(1) _ b, of "''t''"]
    by (simp add: sample_schema sample_simps Let_def active_rows_empty del: inventory_of_simps)
qed

section \<open>At most one effect\<close>

definition res_key_in :: "uuid \<Rightarrow> string \<Rightarrow> reservation_db \<Rightarrow> bool" where
  "res_key_in t k d \<longleftrightarrow> find_key t k (res_keys d) \<noteq> None"

lemma keeps_res_key_in [keeps_intros]:
  "keeps (res_key_in t k) (res_CheckAndInsertIdempotencyKey t' k' h)"
  "keeps (res_key_in t k) (GetActiveReservationsByOrder ord)"
  "keeps (res_key_in t k) (GetExpiredReservations n lim)"
  "keeps (res_key_in t k) (res_InsertOutboxEvent L t' at ai et pl tr)"
  "keeps (res_key_in t k) (InsertReservation t' ord sku wh q st ex)"
  "keeps (res_key_in t k) (UpdateReservationStatus i st)"
proof -
  show "keeps (res_key_in t k) (res_CheckAndInsertIdempotencyKey t' k' h)"
    unfolding res_query_defs res_key_in_def
    by (rule keeps_stmt) (auto split: sum.splits dest: insert_key_keeps)
qed (auto simp: res_query_defs res_key_in_def Let_def intro!: keeps_stmt split: if_splits option.splits sum.splits)

lemma keeps_firstReservationID [keeps_intros]: "keeps P (firstReservationID L c ord)"
  unfolding keeps_def by (metis firstReservationID_Inr snd_conv)

lemma keeps_res_bodies:
  assumes "\<And>t k h. keeps P (res_CheckAndInsertIdempotencyKey t k h :: ('y, string) resx)"
    and "\<And>ord. keeps P (GetActiveReservationsByOrder ord :: ('y, Reservation list) resx)"
    and "\<And>t at ai et pl tr. keeps P (res_InsertOutboxEvent L t at ai et pl tr :: ('y, Outbox) resx)"
    and "\<And>t ord sku wh q st ex. keeps P (InsertReservation t ord sku wh q st ex :: ('y, Reservation) resx)"
    and "\<And>i st. keeps P (UpdateReservationStatus i st :: ('y, Reservation) resx)"
  shows "keeps P (reservation_serve L c call :: ('y, reservation_reply) resx)"
proof (cases call)
  case (CallReserve req)
  show ?thesis
    unfolding CallReserve reservation_serve.simps Reserve_def persist_reservation_def insertReservations_def
      insert_body_def insert_reservation_line_def Let_def
    by (intro keeps_intros assms)
next
  case (CallRelease req)
  show ?thesis
    unfolding CallRelease reservation_serve.simps Release_def res_release_body_def release_rows_def mark_row_def Let_def
    by (intro keeps_intros assms)
next
  case (CallAllocateReservation req)
  show ?thesis
    unfolding CallAllocateReservation reservation_serve.simps AllocateReservation_def allocate_body_def mark_row_def Let_def
    by (intro keeps_intros assms)
qed

lemma keeps_res_key_in_serve: "keeps (res_key_in t k) (reservation_serve L c call)"
  by (intro keeps_res_bodies keeps_intros)

lemma keeps_reservation_serve: "keeps reservation_schema (reservation_serve L c call)"
  by (intro keeps_res_bodies keeps_intros)

definition res_call_key :: "lib \<Rightarrow> reservation_call \<Rightarrow> (uuid \<times> string) option" where
  "res_call_key L call =
     (case call of
        CallReserve req \<Rightarrow> map_option (\<lambda>t. (t, rq_key req)) (uuid_scan L (rq_tenant req))
      | CallRelease req \<Rightarrow> map_option (\<lambda>t. (t, rl_key req)) (uuid_scan L (rl_tenant req))
      | CallAllocateReservation req \<Rightarrow> map_option (\<lambda>t. (t, ar_key req)) (uuid_scan L (ar_tenant req)))"

abbreviation recorded_once :: "uuid \<Rightarrow> string \<Rightarrow> (reservation_db, 'x) sess \<Rightarrow> (reservation_db, 'x) sess \<Rightarrow> bool" where
  "recorded_once t k s s' \<equiv> data s' = data s \<or> res_key_in t k (data s') \<and> \<not> res_key_in t k (data s)"

lemma res_keyed_tx:
  assumes "ExecTxWithTenant L c (bindE (seen_key res_CheckAndInsertIdempotencyKey t k h) F) s = (r, s')" "k \<noteq> ''''"
    and "frame data (F True)" "keeps (res_key_in t k) (F False)"
  shows "recorded_once t k s s'"
  using res_ledger.keyed_tx [OF assms(1-3)] assms(4) by (auto simp: res_key_in_def [abs_def])

lemma insertReservations_once:
  assumes "insertReservations L c t req ex s = (r, s')" "rq_key req \<noteq> ''''"
  shows "recorded_once t (rq_key req) s s'"
  using assms unfolding insertReservations_def insert_body_def insert_reservation_line_def
  by (intro res_keyed_tx) (auto intro!: keeps_intros frame_intros)

lemma Reserve_once:
  fixes s :: "(reservation_db, (stock_db, 'y) sess) sess"
  assumes "uuid_scan L (rq_tenant req) = Some t" "rq_key req \<noteq> ''''" "Reserve L c req s = (r, s')"
  shows "recorded_once t (rq_key req) s s'"
proof (cases "rq_items req = []")
  case True
  with Reserve_rejects [of L req c s] assms(3) show ?thesis by auto
next
  case False
  from assms(3,1) False show ?thesis
  proof (cases rule: Reserve_run)
    case (held resp s1)
    have d: "data s1 = data s" using held(1) by (auto dest: frameD [OF frame_rpc(1)])
    from held(3) refl refl show ?thesis
    proof (cases rule: persist_run)
      case (stored i)
      from insertReservations_once [OF stored(1) assms(2)] d show ?thesis by simp
    next
      case (replay e s2 i)
      from insertReservations_once [OF replay(1) assms(2)] d replay(3) show ?thesis by simp
    next
      case (compensated e s2 q)
      from insertReservations_once [OF compensated(1) assms(2)] d frameD [OF frame_rpc(1) compensated(3)]
      show ?thesis by simp
    qed
  qed (auto dest: frameD [OF frame_rpc(1)])
qed

lemma caught_once:
  assumes "catchE (bindE (ExecTxWithTenant L c (bindE (seen_key res_CheckAndInsertIdempotencyKey t k h) F)) (\<lambda>a. returnE (g a))) er s = (r, s')"
    and "k \<noteq> ''''" "frame data (F True)" "keeps (res_key_in t k) (F False)" "\<And>e. frame data (er e)"
  shows "recorded_once t k s s'"
proof -
  let ?tx = "ExecTxWithTenant L c (bindE (seen_key res_CheckAndInsertIdempotencyKey t k h) F)"
  obtain r0 s0 where run: "bindE ?tx (\<lambda>a. returnE (g a)) s = (r0, s0)" "data s' = data s0"
    using catchE_data [OF assms(1,5)] by blast
  from run(1) obtain r1 where "?tx s = (r1, s0)" by (auto simp: mapE_iff)
  from res_keyed_tx [OF this assms(2-4)] run(2) show ?thesis by simp
qed

lemma res_keyed_call:
  assumes "res_call_key L call = Some (t, k)" "k \<noteq> ''''"
  shows "recorded_once t k s (snd (reservation_serve L c call s))"
proof (cases call)
  case (CallReserve req)
  with assms Reserve_once [OF _ _ surjective_pairing, of L req t c s] show ?thesis
    by (auto simp: res_call_key_def mapE_data)
next
  case (CallRelease req)
  with assms have t: "uuid_scan L (rl_tenant req) = Some t" "rl_key req = k" by (auto simp: res_call_key_def)
  have "recorded_once t k s (snd (Release L c req s))"
    using t assms(2) unfolding Release_def res_release_body_def Let_def
    by (simp only: ParseUUID_simps(2) sum.case, intro caught_once [OF surjective_pairing])
      (auto simp: release_rows_def mark_row_def intro!: keeps_intros frame_intros)
  with CallRelease show ?thesis by (simp add: mapE_data)
next
  case (CallAllocateReservation req)
  with assms have t: "uuid_scan L (ar_tenant req) = Some t" "ar_key req = k" by (auto simp: res_call_key_def)
  have "recorded_once t k s (snd (AllocateReservation L c req s))"
    using t assms(2) unfolding AllocateReservation_def allocate_body_def Let_def
    by (simp only: ParseUUID_simps(2) sum.case, intro caught_once [OF surjective_pairing])
      (auto simp: mark_row_def intro!: keeps_intros frame_intros)
  with CallAllocateReservation show ?thesis by (simp add: mapE_data)
qed

definition res_deliver ::
  "lib \<Rightarrow> ctx \<times> reservation_call \<Rightarrow> (reservation_db, (stock_db, 'y) sess) sess
    \<Rightarrow> (reservation_db, (stock_db, 'y) sess) sess" where
  "res_deliver L = (\<lambda>(c, call) s. snd (reservation_serve L c call s))"

interpretation res_once: retry_safe
  "res_deliver L" "\<lambda>op. res_call_key L (snd op) = Some (t, ch # k)" "\<lambda>s. res_key_in t (ch # k) (data s)" data
  for L t ch k
proof unfold_locales
  fix op :: "ctx \<times> reservation_call" and s :: "(reservation_db, (stock_db, 'a) sess) sess"
  obtain c call where op: "op = (c, call)" by fastforce
  show "res_key_in t (ch # k) (data s) \<Longrightarrow> res_key_in t (ch # k) (data (res_deliver L op s))"
    unfolding op res_deliver_def by (auto intro: keepsD [OF keeps_res_key_in_serve])
  assume "res_call_key L (snd op) = Some (t, ch # k)"
  then have *: "recorded_once t (ch # k) s (res_deliver L op s)"
    using res_keyed_call [of L call t "ch # k" c s] by (simp add: op res_deliver_def)
  show "res_key_in t (ch # k) (data s) \<Longrightarrow> data (res_deliver L op s) = data s" using * by blast
  show "data (res_deliver L op s) \<noteq> data s \<Longrightarrow> res_key_in t (ch # k) (data (res_deliver L op s))" using * by blast
qed

text \<open>
  C12: A keyed reservation request has at most one effect. In any sequence of requests to the
  reservation service, with anything failing in it, in the stock service or between the two, at most
  one delivery that carries a given tenant's non-empty key changes a reservation table.
\<close>

theorem reservation_key_at_most_once:
  assumes "k \<noteq> ''''"
  shows "effects (res_deliver L) (\<lambda>(c, call). res_call_key L call = Some (t, k)) data ops s \<le> 1"
proof -
  from assms obtain ch k' where "k = ch # k'" by (cases k) auto
  then show ?thesis
    using res_once.at_most_one_effect [of L t ch k' ops s] by (simp add: case_prod_beta')
qed

theorem reservation_key_at_most_once_witness:
  "let call = CallReserve (sample_hold [sample_item ''a'' 4]); ops = [(sample_ctx, call), (sample_ctx, call)] in
   effects (res_deliver sample_lib) (\<lambda>(c, call). res_call_key sample_lib call = Some (''t'', ''k'')) data ops sample_shop \<le> 1 \<and>
   length (reservations (data (fold (res_deliver sample_lib) ops sample_shop))) = 1 \<and>
   res_call_key sample_lib call = Some (''t'', ''k'')"
proof -
  let ?call = "CallReserve (sample_hold [sample_item ''a'' 4])"
  let ?ops = "[(sample_ctx, ?call), (sample_ctx, ?call)]"
  have "length (reservations (data (fold (res_deliver sample_lib) ?ops sample_shop))) = 1" by code_simp
  moreover have "res_call_key sample_lib ?call = Some (''t'', ''k'')" by (simp add: res_call_key_def sample_simps)
  ultimately show ?thesis
    using reservation_key_at_most_once [of "''k''" sample_lib "''t''" ?ops sample_shop] by (simp add: Let_def)
qed

end
