(* ===== verification/Sweeper.thy ===== *)
theory Sweeper
  imports ReservationLifecycle
begin

text \<open>
  The statuses of a reservation and the sweeper: which rows any sequence of requests and sweeps can
  change and how, how expired rows are grouped, and what a sweep leaves behind.
\<close>

section \<open>The status of a row\<close>

inductive status_step :: "string \<Rightarrow> string \<Rightarrow> bool" where
  allocate: "status_step StatusActive StatusAllocated"
| release: "status_step StatusActive StatusReleased"
| expire: "status_step StatusActive StatusExpired"

inductive_cases status_stepE: "status_step st st'"

definition row_step :: "Reservation \<Rightarrow> Reservation \<Rightarrow> bool" where
  "row_step r r' \<longleftrightarrow> r' = r \<or> (\<exists>st. status_step (rv_status r) st \<and> r' = r\<lparr>rv_status := st\<rparr>)"

text \<open>\<^verbatim>\<open>evolves d d'\<close>: every row of \<^verbatim>\<open>d\<close> is still there, unchanged or one status further, and new rows
  are active.\<close>

definition evolves :: "reservation_db \<Rightarrow> reservation_db \<Rightarrow> bool" where
  "evolves d d' \<longleftrightarrow>
     (\<exists>old new. reservations d' = old @ new \<and> list_all2 row_step (reservations d) old \<and>
        (\<forall>r \<in> set new. rv_status r \<in> {StatusActive, StatusAllocated, StatusReleased, StatusExpired}))"

lemma evolvesI:
  "reservations d' = old @ new \<Longrightarrow> list_all2 row_step (reservations d) old \<Longrightarrow>
     \<forall>r \<in> set new. rv_status r \<in> {StatusActive, StatusAllocated, StatusReleased, StatusExpired} \<Longrightarrow> evolves d d'"
  by (auto simp: evolves_def)

lemma row_step_refl [simp]: "row_step r r"
  by (simp add: row_step_def)

lemma status_step_final: "status_step st st' \<Longrightarrow> \<not> status_step st' st''"
  by (auto simp: status_defs elim!: status_stepE)

lemma row_step_trans: "row_step a b \<Longrightarrow> row_step b c \<Longrightarrow> row_step a c"
  by (auto simp: row_step_def dest: status_step_final)

lemma row_step_status:
  "row_step r r' \<Longrightarrow> rv_status r \<in> {StatusActive, StatusAllocated, StatusReleased, StatusExpired} \<Longrightarrow>
     rv_status r' \<in> {StatusActive, StatusAllocated, StatusReleased, StatusExpired}"
  by (auto simp: row_step_def elim!: status_stepE)

lemma evolves_refl: "reservations d' = reservations d \<Longrightarrow> evolves d d'"
  by (rule evolvesI [of _ "reservations d" "[]"]) (auto intro: list_all2_refl)

lemma evolves_trans:
  assumes "evolves a b" "evolves b c"
  shows "evolves a c"
proof -
  from assms(1) obtain o1 n1 where 1: "reservations b = o1 @ n1" "list_all2 row_step (reservations a) o1"
    "\<forall>r \<in> set n1. rv_status r \<in> {StatusActive, StatusAllocated, StatusReleased, StatusExpired}"
    by (auto simp: evolves_def)
  from assms(2) obtain o2 n2 where 2: "reservations c = o2 @ n2" "list_all2 row_step (o1 @ n1) o2"
    "\<forall>r \<in> set n2. rv_status r \<in> {StatusActive, StatusAllocated, StatusReleased, StatusExpired}"
    by (auto simp: evolves_def 1(1))
  from 2(2) obtain o3 n3 where 3: "o2 = o3 @ n3" "list_all2 row_step o1 o3" "list_all2 row_step n1 n3"
    by (auto simp: list_all2_append1)
  have "list_all2 row_step (reservations a) o3"
    by (rule list_all2_trans [OF _ 1(2) 3(2)]) (rule row_step_trans)
  moreover have "\<forall>r \<in> set n3. rv_status r \<in> {StatusActive, StatusAllocated, StatusReleased, StatusExpired}"
    using 3(3) 1(3) row_step_status by (metis in_set_conv_nth list_all2_conv_all_nth)
  ultimately show ?thesis
    using 2(1,3) 3(1) by (intro evolvesI [of c o3 "n3 @ n2"]) auto
qed

lemma evolves_mark:
  assumes "reservation_schema d" "reservations d' = mark_ids I st (reservations d)"
    and "\<forall>r \<in> set (reservations d). rv_id r \<in> I \<longrightarrow> rv_status r = StatusActive" "status_step StatusActive st"
  shows "evolves d d'"
proof (rule evolvesI)
  show "reservations d' = mark_ids I st (reservations d) @ []" using assms(2) by simp
  show "list_all2 row_step (reservations d) (mark_ids I st (reservations d))"
    using assms(3,4) by (auto simp: mark_ids_def list_all2_conv_all_nth row_step_def)
qed simp

lemma evolves_append:
  "reservations d' = reservations d @ rows \<Longrightarrow> \<forall>r \<in> set rows. rv_status r = StatusActive \<Longrightarrow> evolves d d'"
  by (rule evolvesI [of _ "reservations d" rows]) (auto intro: list_all2_refl)

text \<open>Marking rows that were read as active: identifiers are unique, so no other row is hit.\<close>

lemma ids_of_active:
  assumes "reservation_schema d" "set rows \<subseteq> {r \<in> set (reservations d). rv_status r = StatusActive}"
  shows "\<forall>r \<in> set (reservations d). rv_id r \<in> rv_id ` set rows \<longrightarrow> rv_status r = StatusActive"
proof -
  have "inj_on rv_id (set (reservations d))" using assms(1) by (simp add: reservation_schema_def distinct_map)
  with assms(2) show ?thesis by (auto dest: inj_onD)
qed

section \<open>Requests\<close>

definition res_rows :: "Reservation list \<Rightarrow> reservation_db \<Rightarrow> bool" where
  "res_rows rs d \<longleftrightarrow> reservations d = rs"

lemma keeps_res_rows [keeps_intros]:
  "keeps (res_rows rs) (res_CheckAndInsertIdempotencyKey t k h)"
  "keeps (res_rows rs) (res_InsertOutboxEvent L t at ai et pl tr)"
  "keeps (res_rows rs) (GetActiveReservationsByOrder ord)"
  "keeps (res_rows rs) (GetExpiredReservations n lim)"
  by (auto simp: res_query_defs res_rows_def Let_def intro!: keeps_stmt split: if_splits option.splits sum.splits)

lemma seen_key_rows:
  "seen_key res_CheckAndInsertIdempotencyKey t k h s = (r, s') \<Longrightarrow> reservations (data s') = reservations (data s)"
  using keeps_step [of "res_rows (reservations (data s))" "seen_key res_CheckAndInsertIdempotencyKey t k h" s r s']
  by (simp add: keeps_intros res_rows_def)

lemma GetActive_subset:
  "GetActiveReservationsByOrder ord s = (Inr rows, s') \<Longrightarrow>
     set rows \<subseteq> {r \<in> set (reservations (data s)). rv_status r = StatusActive} \<and> data s' = data s"
  unfolding GetActiveReservationsByOrder_def by (auto elim!: stmt_InrE simp: StatusActive_def)

lemma release_rows_evolve:
  assumes "release_rows L c t req s = (Inr out, s')" "reservation_schema (data s)"
  shows "evolves (data s) (data s')"
proof -
  from assms(1) obtain rows s1 where get: "GetActiveReservationsByOrder (rl_order req) s = (Inr rows, s1)"
    and rest: "(if rows = [] then returnE []
      else bindE (rpc (ReleaseStock L (incoming L c) (release_stock_request req rows))) (\<lambda>stockResp.
       bindE (forE rows (mark_row L c t (rl_order req) StatusReleased ''reservation.released'')) (\<lambda>_.
       returnE (rlsr_released stockResp)))) s1 = (Inr out, s')"
    unfolding release_rows_def by (elim bindE_InrE)
  note g = GetActive_subset [OF get]
  show ?thesis
  proof (cases "rows = []")
    case True
    with rest g show ?thesis by (auto intro: evolves_refl)
  next
    case False
    with rest obtain resp s2 us where call: "rpc (ReleaseStock L (incoming L c) (release_stock_request req rows)) s1 = (Inr resp, s2)"
      and marks: "forE rows (mark_row L c t (rl_order req) StatusReleased ''reservation.released'') s2 = (Inr us, s')"
      by (auto elim!: bindE_InrE)
    have "reservations (data s') = mark_ids (rv_id ` set rows) StatusReleased (reservations (data s))"
      using mark_rows_Inr(1) [OF marks] frameD [OF frame_rpc(1) call] g by simp
    with ids_of_active [OF assms(2)] g show ?thesis
      by (intro evolves_mark [OF assms(2)]) (auto intro: status_step.intros)
  qed
qed

lemma allocate_body_evolve:
  assumes "allocate_body L c t req s = (Inr n, s')" "reservation_schema (data s)"
  shows "evolves (data s) (data s')"
proof -
  from assms(1) obtain dup s1 where key:
    "seen_key res_CheckAndInsertIdempotencyKey t (ar_key req) (PayloadHash L (M_AllocateReservation req)) s = (Inr dup, s1)"
    and rest: "dup \<or> (\<exists>rows s2 us. GetActiveReservationsByOrder (ar_order req) s1 = (Inr rows, s2) \<and>
      forE rows (mark_row L c t (ar_order req) StatusAllocated ''reservation.allocated'') s2 = (Inr us, s'))"
      "dup \<Longrightarrow> s' = s1"
    unfolding allocate_body_def by (auto elim!: bindE_InrE split: if_splits)
  note k = seen_key_rows [OF key]
  show ?thesis
  proof (cases dup)
    case True
    with rest(2) k show ?thesis by (simp add: evolves_refl)
  next
    case False
    with rest(1) obtain rows s2 us where get: "GetActiveReservationsByOrder (ar_order req) s1 = (Inr rows, s2)"
      and marks: "forE rows (mark_row L c t (ar_order req) StatusAllocated ''reservation.allocated'') s2 = (Inr us, s')"
      by blast
    note g = GetActive_subset [OF get]
    have "reservations (data s') = mark_ids (rv_id ` set rows) StatusAllocated (reservations (data s))"
      using mark_rows_Inr(1) [OF marks] g k by simp
    with ids_of_active [OF assms(2), of rows] g k show ?thesis
      by (intro evolves_mark [OF assms(2)]) (auto intro: status_step.intros)
  qed
qed

lemma insert_body_evolve:
  assumes "insert_body L c t req ex s = (Inr i, s')"
  shows "evolves (data s) (data s')"
proof -
  from assms obtain s1 ids where
    k: "seen_key res_CheckAndInsertIdempotencyKey t (rq_key req) (PayloadHash L (M_Reserve req)) s = (Inr False, s1)"
    "forE (rq_items req) (insert_reservation_line L c t req ex) s1 = (Inr ids, s')"
    unfolding insert_body_def by (auto elim!: bindE_InrE split: if_splits)
  from insert_lines_Inr(1) [OF k(2)] obtain rows where
    "reservations (data s') = reservations (data s1) @ rows" "list_all2 (row_of t req ex) (rq_items req) rows" by blast
  with seen_key_rows [OF k(1)] show ?thesis
    by (intro evolves_append [of _ _ rows]) (auto simp: row_of_def list_all2_conv_all_nth in_set_conv_nth)
qed

lemma committed_evolve:
  assumes "ExecTxWithTenant L c fn s = (r, s')" "reservation_schema (data s)"
    and "\<And>s a s'. fn s = (Inr a, s') \<Longrightarrow> reservation_schema (data s) \<Longrightarrow> evolves (data s) (data s')"
  shows "evolves (data s) (data s')"
  using ExecTxWithTenant_atomic [OF assms(1)]
proof
  assume "commits (Scoped (uuid_scan L (ctx_tenant c))) fn (data s) (data s')"
  with assms(2,3) show ?thesis unfolding commits_def by metis
qed (simp add: evolves_refl)

section \<open>Groups of expired rows\<close>

abbreviation row_group :: "Reservation \<Rightarrow> groupKey" where
  "row_group r \<equiv> (rv_tenant r, rv_order r)"

lemma add_to_group_keys:
  "fst ` set (add_to_group k r gs) = insert k (fst ` set gs)"
  "distinct (map fst gs) \<Longrightarrow> distinct (map fst (add_to_group k r gs))"
  by (induction k r gs rule: add_to_group.induct) force+

lemma map_of_add_to_group:
  "map_of (add_to_group k r gs) k' =
     (if k' = k then Some ((case map_of gs k of None \<Rightarrow> [] | Some rs \<Rightarrow> rs) @ [r]) else map_of gs k')"
  by (induction k r gs rule: add_to_group.induct) auto

lemma groupByOrder_snoc:
  "groupByOrder (rows @ [r]) = add_to_group (row_group r) r (groupByOrder rows)"
  by (simp add: groupByOrder_def)

lemma distinct_groups: "distinct (map fst (groupByOrder rows))"
  by (induction rows rule: rev_induct) (simp_all add: groupByOrder_snoc add_to_group_keys(2), simp add: groupByOrder_def)

lemma map_of_groups:
  "map_of (groupByOrder rows) k =
     (if filter (\<lambda>r. row_group r = k) rows = [] then None else Some (filter (\<lambda>r. row_group r = k) rows))"
proof (induction rows rule: rev_induct)
  case Nil
  then show ?case by (simp add: groupByOrder_def)
next
  case (snoc r rows)
  then show ?case
    by (cases "k = row_group r") (auto simp: groupByOrder_snoc map_of_add_to_group split: if_splits)
qed

lemma group_rows:
  assumes "(k, rs) \<in> set (groupByOrder rows)"
  shows "rs = filter (\<lambda>r. row_group r = k) rows" and "rs \<noteq> []"
proof -
  have "map_of (groupByOrder rows) k = Some rs" using distinct_groups assms by (simp add: map_of_is_SomeI)
  then show "rs = filter (\<lambda>r. row_group r = k) rows" and "rs \<noteq> []"
    by (simp_all add: map_of_groups split: if_splits)
qed

text \<open>
  The sweeper's groups partition the expired rows by tenant and order. No two groups have the same
  key; the group of a key has exactly the rows of that tenant and order, in the order they were
  fetched, and exists exactly if there are any. So each order of a batch gets one release request,
  with one line per row and the compensation key of the order.
\<close>

theorem sweep_groups_partition:
  "distinct (map fst (groupByOrder rows)) \<and>
   map_of (groupByOrder rows) (tenant, orderID) =
     (let rs = filter (\<lambda>r. rv_tenant r = tenant \<and> rv_order r = orderID) rows in if rs = [] then None else Some rs) \<and>
   (\<forall>k rs. map_of (groupByOrder rows) k = Some rs \<longrightarrow>
      length (rls_lines (releaseRequest (fst k) (snd k) rs)) = length rs \<and>
      (\<forall>r \<in> set rs. rls_key (releaseRequest (fst k) (snd k) rs) = CompensationKey (rv_tenant r) (rv_order r)))"
  using distinct_groups [of rows] map_of_groups [of rows]
  by (auto simp: Let_def releaseRequest_def split: if_splits)

section \<open>What a sweep does to the rows\<close>

definition expired_rows :: "int \<Rightarrow> reservation_db \<Rightarrow> Reservation set" where
  "expired_rows t d = {r \<in> set (reservations d). rv_status r = StatusActive \<and> rv_expires r < t}"

lemma sweep_fetch_Inr:
  assumes "sweep_fetch s = (Inr rows, s')"
  shows "set rows \<subseteq> expired_rows (clock (sched s (pos s))) (data s)" and "data s' = data s" and "ext s' = ext s"
    and "sched s' = sched s" and "length rows \<le> 100"
proof -
  have lim: "nat (sint sweep_batch) = 100" by (simp add: sweep_batch_def)
  from assms obtain s1 where "autocommit (GetExpiredReservations (clock (sched s (pos s))) sweep_batch) (s\<lparr>pos := Suc (pos s)\<rparr>) = (Inr rows, s')"
    unfolding sweep_fetch_def by (auto simp: now_def elim!: bindE_InrE)
  then obtain s2 where get: "GetExpiredReservations (clock (sched s (pos s))) sweep_batch (s\<lparr>pos := Suc (pos s), scope := Bypass\<rparr>) = (Inr rows, s2)"
    "data s' = data s2" "ext s' = ext s2" "sched s' = sched s2"
    unfolding autocommit_def by (auto simp: with_scope_eq elim!: in_tx_Inr)
  from get(1) show "set rows \<subseteq> expired_rows (clock (sched s (pos s))) (data s)" "length rows \<le> 100"
    unfolding GetExpiredReservations_def
    by (auto elim!: stmt_InrE simp: expired_rows_def StatusActive_def lim split: if_splits dest!: in_set_takeD)
  from get show "data s' = data s" "ext s' = ext s" "sched s' = sched s"
    unfolding GetExpiredReservations_def by (auto elim!: stmt_InrE split: if_splits)
qed

definition marked_within :: "uuid set \<Rightarrow> Reservation list \<Rightarrow> reservation_db \<Rightarrow> bool" where
  "marked_within ids rs d \<longleftrightarrow> (\<exists>I \<subseteq> ids. reservations d = mark_ids I StatusExpired rs)"

lemma keeps_marked_within [keeps_intros]:
  "keeps (marked_within ids rs) (res_InsertOutboxEvent L t at ai et pl tr)"
  "keeps (marked_within ids rs) (GetExpiredReservations n lim)"
  unfolding res_query_defs marked_within_def
  by (rule keeps_stmt; auto split: if_splits option.splits sum.splits; blast)+

lemma keeps_marked_update:
  assumes "i \<in> ids"
  shows "keeps (marked_within ids rs) (UpdateReservationStatus i StatusExpired)"
proof -
  have "marked_within ids rs (d\<lparr>reservations := set_status i StatusExpired (reservations d)\<rparr>)"
    if "marked_within ids rs d" for d
    using that assms unfolding marked_within_def by (metis insert_subset reservation_db.select_convs(1) reservation_db.surjective reservation_db.update_convs(1) set_status_mark)
  then show ?thesis
    unfolding UpdateReservationStatus_def
    by (intro keeps_stmt) (auto split: option.splits if_splits)
qed

lemma keeps_marked_sweep:
  assumes "rv_id ` set expired \<subseteq> ids" "\<And>gs. set (ord gs) \<subseteq> set gs"
  shows "keeps (marked_within ids rs) (sweep_release L c ord expired)"
  unfolding sweep_release_def
proof (rule keeps_bindE, rule keeps_forE_set)
  fix g assume "g \<in> set (ord (groupByOrder expired))"
  with assms(2) obtain k rows where g: "g = (k, rows)" "(k, rows) \<in> set (groupByOrder expired)" by (cases g) blast
  from group_rows(1) [OF g(2)] assms(1) have "rv_id ` set rows \<subseteq> ids" by auto
  then show "keeps (marked_within ids rs) (sweep_group L c g)"
    unfolding g(1) sweep_group_def prod.case case_prod_beta markExpired_def
    by (intro keeps_bindE keeps_attempt keeps_rpc keeps_case_sum keeps_returnE keeps_forE_set keeps_catchE
        keeps_autocommit keeps_marked_update keeps_marked_within) auto
qed (rule keeps_returnE)

lemma sweepOnce_rows:
  assumes "sweepOnce L c ord s = (r, s')" "\<And>gs. set (ord gs) \<subseteq> set gs"
  obtains I where "I \<subseteq> rv_id ` expired_rows (clock (sched s (pos s))) (data s)"
    "reservations (data s') = mark_ids I StatusExpired (reservations (data s))"
proof -
  obtain q s1 where q: "sweep_fetch s = (q, s1)" by fastforce
  then have att: "attempt sweep_fetch s = (Inr q, s1)" by (simp add: attempt_def)
  show ?thesis
  proof (cases q)
    case (Inl e)
    have "keeps (res_rows (reservations (data s))) sweep_fetch" unfolding sweep_fetch_def by (intro keeps_intros)
    from keeps_step [OF this q] have "reservations (data s1) = reservations (data s)" by (simp add: res_rows_def)
    with assms(1) att Inl that [of "{}"] show ?thesis by (simp add: sweepOnce_def)
  next
    case (Inr expired)
    with q have f: "set expired \<subseteq> expired_rows (clock (sched s (pos s))) (data s)" "data s1 = data s"
      using sweep_fetch_Inr [of s expired s1] by auto
    let ?ids = "rv_id ` expired_rows (clock (sched s (pos s))) (data s)"
    from f(1) have "rv_id ` set expired \<subseteq> ?ids" by blast
    note keep = keeps_marked_sweep [OF this assms(2), of "reservations (data s)" L c]
    have "marked_within ?ids (reservations (data s)) (data s1)"
      unfolding marked_within_def f(2) by (intro exI [of _ "{}"]) simp
    from keeps_step [OF keep _ this] assms(1) att Inr that show ?thesis
      by (auto simp: sweepOnce_def marked_within_def)
  qed
qed

section \<open>Any sequence of requests and sweeps\<close>

datatype res_op = Request ctx reservation_call | Sweep ctx group_order

fun res_exec :: "lib \<Rightarrow> res_op \<Rightarrow> (reservation_db, (stock_db, 'y) sess) sess \<Rightarrow> (reservation_db, (stock_db, 'y) sess) sess" where
  "res_exec L (Request c call) s = snd (reservation_serve L c call s)"
| "res_exec L (Sweep c ord) s = snd (sweepOnce L c ord s)"

text \<open>A sweep visits every group once, in some order.\<close>

fun visits_all :: "res_op \<Rightarrow> bool" where
  "visits_all (Request c call) \<longleftrightarrow> True"
| "visits_all (Sweep c ord) \<longleftrightarrow> (\<forall>gs. mset (ord gs) = mset gs)"

lemma Reserve_evolves:
  fixes s :: "(reservation_db, (stock_db, 'y) sess) sess"
  assumes "Reserve L c req s = (r, s')" "reservation_schema (data s)"
  shows "evolves (data s) (data s')"
proof (cases "uuid_scan L (rq_tenant req) = None \<or> rq_items req = []")
  case True
  with Reserve_rejects [OF True, of c s] assms(1) show ?thesis by (auto intro: evolves_refl)
next
  case False
  then obtain t where t: "uuid_scan L (rq_tenant req) = Some t" "rq_items req \<noteq> []" by auto
  from assms(1) t show ?thesis
  proof (cases rule: Reserve_run)
    case (held resp s1)
    have d: "data s1 = data s" using held(1) by (auto dest: frameD [OF frame_rpc(1)])
    have ins: "evolves (data s) (data s2)"
      if ins: "insertReservations L (WithTenantID c (rq_tenant req)) t req ex (s1\<lparr>pos := Suc (pos s1)\<rparr>) = (q, s2)" for ex q s2
    proof -
      have "evolves (data (s1\<lparr>pos := Suc (pos s1)\<rparr>)) (data s2)"
        by (rule committed_evolve [OF ins [unfolded insertReservations_def]])
          (use assms(2) d in \<open>auto intro: insert_body_evolve\<close>)
      with d show ?thesis by simp
    qed
    from held(3) refl refl show ?thesis
    proof (cases rule: persist_run)
      case (compensated e s2 q)
      from ins [OF compensated(1)] frameD [OF frame_rpc(1) compensated(3)] show ?thesis by simp
    qed (use ins in auto)
  qed (auto dest!: frameD [OF frame_rpc(1)] intro: evolves_refl)
qed

lemma caught_evolve:
  assumes "catchE (bindE (ExecTxWithTenant L c fn) (\<lambda>a. returnE (g a))) er s = (r, s')" "\<And>e. frame data (er e)"
    and "reservation_schema (data s)"
    and "\<And>s a s'. fn s = (Inr a, s') \<Longrightarrow> reservation_schema (data s) \<Longrightarrow> evolves (data s) (data s')"
  shows "evolves (data s) (data s')"
proof -
  obtain r0 s0 where run: "bindE (ExecTxWithTenant L c fn) (\<lambda>a. returnE (g a)) s = (r0, s0)" "data s' = data s0"
    using catchE_data [OF assms(1,2)] by blast
  then obtain r1 where "ExecTxWithTenant L c fn s = (r1, s0)" by (auto simp: mapE_iff)
  from committed_evolve [OF this assms(3,4)] run(2) show ?thesis by simp
qed

lemma res_release_body_evolve:
  assumes "res_release_body L c t req s = (Inr out, s')" "reservation_schema (data s)"
  shows "evolves (data s) (data s')"
proof -
  from assms(1) obtain s1 where k: "seen_key res_CheckAndInsertIdempotencyKey t (rl_key req) (PayloadHash L (M_Release req)) s = (Inr False, s1)"
    "release_rows L c t req s1 = (Inr out, s')"
    unfolding res_release_body_def by (auto elim!: bindE_InrE split: if_splits)
  have "keeps reservation_schema (seen_key res_CheckAndInsertIdempotencyKey t (rl_key req) (PayloadHash L (M_Release req)))"
    by (intro keeps_intros)
  with k(1) assms(2) have "reservation_schema (data s1)" by (auto dest: keeps_step)
  from release_rows_evolve [OF k(2) this] evolves_refl [OF seen_key_rows [OF k(1)]] show ?thesis
    by (rule evolves_trans [rotated])
qed

lemma serve_evolves:
  assumes "reservation_schema (data s)"
  shows "evolves (data s) (data (snd (reservation_serve L c call s)))"
proof (cases call)
  case (CallReserve req)
  then show ?thesis using Reserve_evolves [OF surjective_pairing assms] by (simp add: mapE_data)
next
  case (CallRelease req)
  have "evolves (data s) (data (snd (Release L c req s)))"
  proof (cases "uuid_scan L (rl_tenant req)")
    case None
    then show ?thesis by (simp add: Release_def bad_tenant invalid_argument_def evolves_refl)
  next
    case (Some t)
    then show ?thesis
      unfolding Release_def Let_def
      by (simp only: ParseUUID_simps(2) sum.case, intro caught_evolve [OF surjective_pairing _ assms])
        (auto intro!: frame_intros res_release_body_evolve)
  qed
  with CallRelease show ?thesis by (simp add: mapE_data)
next
  case (CallAllocateReservation req)
  have "evolves (data s) (data (snd (AllocateReservation L c req s)))"
  proof (cases "uuid_scan L (ar_tenant req)")
    case None
    then show ?thesis by (simp add: AllocateReservation_def bad_tenant invalid_argument_def evolves_refl)
  next
    case (Some t)
    then show ?thesis
      unfolding AllocateReservation_def Let_def
      by (simp only: ParseUUID_simps(2) sum.case, intro caught_evolve [OF surjective_pairing _ assms])
        (auto intro!: frame_intros allocate_body_evolve)
  qed
  with CallAllocateReservation show ?thesis by (simp add: mapE_data)
qed

lemma visits_subset: "(\<And>gs. mset (ord gs) = mset gs) \<Longrightarrow> set (ord gs) \<subseteq> set gs"
  by (metis set_mset_mset subset_refl)

lemma sweep_evolves:
  assumes "reservation_schema (data s)" "\<And>gs. mset (ord gs) = mset gs"
  shows "evolves (data s) (data (snd (sweepOnce L c ord s)))"
proof -
  obtain I where "I \<subseteq> rv_id ` expired_rows (clock (sched s (pos s))) (data s)"
    "reservations (data (snd (sweepOnce L c ord s))) = mark_ids I StatusExpired (reservations (data s))"
    using sweepOnce_rows [OF surjective_pairing visits_subset [OF assms(2)]] by blast
  moreover have "inj_on rv_id (set (reservations (data s)))" using assms(1) by (simp add: reservation_schema_def distinct_map)
  ultimately show ?thesis
    by (intro evolves_mark [OF assms(1)]) (auto simp: expired_rows_def dest: inj_onD intro: status_step.intros)
qed

lemma keeps_schema_sweep: "keeps reservation_schema (sweepOnce L c ord)"
proof -
  have g: "keeps reservation_schema (sweep_group L c g)" for g
    unfolding sweep_group_def markExpired_def case_prod_beta by (intro keeps_intros)
  show ?thesis unfolding sweepOnce_def sweep_fetch_def sweep_release_def by (intro keeps_intros g)
qed

lemma res_exec_evolves:
  assumes "reservation_schema (data s)" "list_all visits_all ops"
  shows "reservation_schema (data (fold (res_exec L) ops s)) \<and> evolves (data s) (data (fold (res_exec L) ops s))"
  using assms
proof (induction ops arbitrary: s)
  case Nil
  then show ?case by (simp add: evolves_refl)
next
  case (Cons op ops)
  have "reservation_schema (data (res_exec L op s)) \<and> evolves (data s) (data (res_exec L op s))"
    using Cons.prems
    by (cases op) (auto simp del: reservation_serve.simps
        intro: serve_evolves sweep_evolves keepsD [OF keeps_reservation_serve] keepsD [OF keeps_schema_sweep])
  with Cons.IH [of "res_exec L op s"] Cons.prems show ?case by (auto intro: evolves_trans)
qed

text \<open>
  C20: A reservation changes its status once and nothing else. Through any sequence of requests and
  sweeps, each completed or failed before the next one starts and with anything failing anywhere, no row of
  \<^verbatim>\<open>reservations\<close> disappears, each one keeps its identifier, order, SKU, warehouse, quantity and expiry, and
  its status stays as it is or goes from active to allocated, released or expired. The schema (unique
  identifiers, positive quantities) holds throughout. A sweep interleaved with a request is another
  matter: the last theorem of this theory has one that expires allocated rows.
\<close>

theorem reservation_status_machine:
  assumes "reservation_schema (data s)" and "list_all visits_all ops"
  shows "reservation_schema (data (fold (res_exec L) ops s)) \<and> evolves (data s) (data (fold (res_exec L) ops s))"
  using res_exec_evolves [OF assms] .

definition no_reorder :: group_order where
  "no_reorder gs = gs"

abbreviation sample_allocate :: AllocateReservationRequest where
  "sample_allocate \<equiv> \<lparr>ar_tenant = ''t'', ar_order = ''o'', ar_key = ''k3''\<rparr>"

lemma empty_reservations_schema: "reservation_schema empty_reservations"
  by (simp add: reservation_schema_def empty_reservations_def keys_unique_def outbox_unique_def)

theorem reservation_status_machine_witness:
  "let ops = [Request sample_ctx (CallReserve ((sample_hold [sample_item ''a'' 4])\<lparr>rq_ttl := 1\<rparr>)),
         Request sample_ctx (CallAllocateReservation sample_allocate), Sweep sample_ctx no_reorder] in
   reservation_schema (data (fold (res_exec sample_lib) ops sample_shop)) \<and>
   evolves (data sample_shop) (data (fold (res_exec sample_lib) ops sample_shop)) \<and>
   map rv_status (reservations (data (fold (res_exec sample_lib) ops sample_shop))) = [StatusAllocated]"
proof -
  let ?ops = "[Request sample_ctx (CallReserve ((sample_hold [sample_item ''a'' 4])\<lparr>rq_ttl := 1\<rparr>)),
         Request sample_ctx (CallAllocateReservation sample_allocate), Sweep sample_ctx no_reorder]"
  have "map rv_status (reservations (data (fold (res_exec sample_lib) ?ops sample_shop))) = [StatusAllocated]"
    by code_simp
  moreover have "list_all visits_all ?ops" by (simp add: no_reorder_def)
  ultimately show ?thesis
    using reservation_status_machine [of sample_shop ?ops sample_lib] unfolding Let_def
    by (simp only: data_calm_sess empty_reservations_schema simp_thms)
qed

theorem sweep_groups_partition_witness:
  "let row = (\<lambda>i ord. \<lparr>rv_id = i, rv_tenant = ''t'', rv_order = ord, rv_sku = ''a'', rv_wh = ''w'', rv_qty = 1,
         rv_status = StatusActive, rv_expires = 0, rv_created = 0\<rparr>);
       rows = [row ''1'' ''x'', row ''2'' ''y'', row ''3'' ''x''] in
   map_of (groupByOrder rows) (''t'', ''x'') = Some [row ''1'' ''x'', row ''3'' ''x''] \<and>
   length (groupByOrder rows) = 2"
proof -
  let ?row = "\<lambda>i ord. \<lparr>rv_id = i, rv_tenant = ''t'', rv_order = ord, rv_sku = ''a'', rv_wh = ''w'', rv_qty = 1,
         rv_status = StatusActive, rv_expires = 0, rv_created = 0\<rparr>"
  let ?rows = "[?row ''1'' ''x'', ?row ''2'' ''y'', ?row ''3'' ''x'']"
  have "length (groupByOrder ?rows) = 2" by code_simp
  then show ?thesis
    using sweep_groups_partition [of ?rows "''t''" "''x''"] by (simp add: Let_def)
qed

section \<open>A row is expired only after its stock was released\<close>

lemma ReleaseStock_records_key:
  fixes x :: "(stock_db, 'y) sess"
  assumes "ReleaseStock L c req x = (Inr resp, x')" "uuid_scan L (rls_tenant req) = Some t" "rls_key req \<noteq> ''''"
  shows "key_in t (rls_key req) (data x')"
proof -
  let ?c = "WithTenantID c (rls_tenant req)"
  from assms(1,2) have "ExecTxWithTenant L ?c (release_body L ?c t req) x = (Inr resp, x')"
    by (auto simp: ReleaseStock_def Let_def catchE_def internal_error_def split: prod.splits sum.splits)
  then obtain x1 x2 :: "(stock_db, 'y) sess" where "release_body L ?c t req x1 = (Inr resp, x2)" "data x' = data x2"
    by (auto elim: ExecTxWithTenant_Inr)
  then obtain dup x3 where k: "tryIdempotency L t (rls_key req) (M_ReleaseStock req) x1 = (Inr dup, x3)"
    and rest: "dup \<and> x2 = x3 \<or> (\<exists>rs. forE (sortedLines (rls_lines req)) (release_line ?c t (rls_order req) (rls_reason req)) x3 = (Inr rs, x2))"
    unfolding release_body_def by (auto elim!: bindE_InrE split: if_splits)
  have "key_in t (rls_key req) (data x3)"
    using stock_ledger.seen_key_Inr(2) [OF k [unfolded tryIdempotency_eq] assms(3)] by (simp add: key_in_def)
  moreover have "keeps (key_in t (rls_key req)) (forE (sortedLines (rls_lines req)) (release_line ?c t (rls_order req) (rls_reason req)))"
    by (intro keeps_intros)
  ultimately have "key_in t (rls_key req) (data x2)" using rest by (auto dest: keeps_step)
  with \<open>data x' = data x2\<close> show ?thesis by simp
qed

lemma keeps_ext_key_in: "keeps_ext (\<lambda>x. key_in t k (data x)) (rpc (ReleaseStock L c req))"
proof (rule keeps_ext_rpc)
  fix x :: "(stock_db, 'a) sess" assume "key_in t k (data x)"
  then show "key_in t k (data (snd (ReleaseStock L c req x)))"
    using keepsD [OF keeps_key_in_serve [of t k L c "CallReleaseStock req"], of x] by (simp add: mapE_data)
qed

lemma frame_markExpired: "frame ext (forE rows (markExpired L c))"
  unfolding markExpired_def autocommit_def by (intro frame_intros)

lemma sweep_group_run:
  fixes s :: "(reservation_db, (stock_db, 'y) sess) sess"
  assumes "sweep_group L c ((t, ord), rows) s = (r, s')" "uuid_scan L t = Some t"
  shows "\<exists>I \<subseteq> rv_id ` set rows. reservations (data s') = mark_ids I StatusExpired (reservations (data s)) \<and>
    (I \<noteq> {} \<longrightarrow> key_in t (CompensationKey t ord) (data (ext s'))) \<and>
    (\<forall>u k. key_in u k (data (ext s)) \<longrightarrow> key_in u k (data (ext s')))"
proof -
  let ?call = "rpc (ReleaseStock L (incoming L c) (releaseRequest t ord rows))"
  obtain q s1 where q: "?call s = (q, s1)" by fastforce
  then have att: "attempt ?call s = (Inr q, s1)" by (simp add: attempt_def)
  have d: "data s1 = data s" using frameD [OF frame_rpc(1) q] .
  have keys: "\<forall>u k. key_in u k (data (ext s)) \<longrightarrow> key_in u k (data (ext s1))"
    using keeps_ext_step [OF keeps_ext_key_in q] by blast
  show ?thesis
  proof (cases q)
    case (Inl e)
    with assms(1) att d keys show ?thesis by (intro exI [of _ "{}"]) (simp add: sweep_group_def)
  next
    case (Inr resp)
    with assms(1) att obtain us where loop: "forE rows (markExpired L c) s1 = (us, s')"
      unfolding sweep_group_def by (auto simp: bindE_def split: prod.splits sum.splits)
    have "keeps (marked_within (rv_id ` set rows) (reservations (data s))) (forE rows (markExpired L c))"
      unfolding markExpired_def
      by (intro keeps_bindE keeps_returnE keeps_forE_set keeps_catchE keeps_autocommit keeps_marked_update keeps_marked_within) auto
    moreover have "marked_within (rv_id ` set rows) (reservations (data s)) (data s1)"
      unfolding marked_within_def d by (intro exI [of _ "{}"]) simp
    ultimately have "marked_within (rv_id ` set rows) (reservations (data s)) (data s')" using loop by (auto dest: keeps_step)
    moreover have "key_in t (CompensationKey t ord) (data (ext s1))"
      using rpc_Inr [OF q [unfolded Inr]] assms(2)
      by (auto simp: releaseRequest_def CompensationKey_def dest: ReleaseStock_records_key)
    ultimately show ?thesis
      using keys frameD [OF frame_markExpired loop] unfolding marked_within_def by auto
  qed
qed

definition stock_released :: "groupKey \<Rightarrow> (stock_db, 'y) sess \<Rightarrow> bool" where
  "stock_released k x \<longleftrightarrow> key_in (fst k) (CompensationKey (fst k) (snd k)) (data x)"

lemma sweep_groups_run:
  fixes s :: "(reservation_db, (stock_db, 'y) sess) sess"
  assumes "forE gs (sweep_group L c) s = (r, s')" "\<forall>(k, rows) \<in> set gs. uuid_scan L (fst k) = Some (fst k)"
  shows "\<exists>I \<subseteq> rv_id ` {r. \<exists>k rows. (k, rows) \<in> set gs \<and> r \<in> set rows \<and> stock_released k (ext s')}.
      reservations (data s') = mark_ids I StatusExpired (reservations (data s)) \<and>
      (\<forall>u k. key_in u k (data (ext s)) \<longrightarrow> key_in u k (data (ext s')))"
  using assms
proof (induction gs arbitrary: s r)
  case Nil
  then show ?case by (intro exI [of _ "{}"]) simp
next
  case (Cons g gs)
  obtain t ord rows where g: "g = ((t, ord), rows)" by (metis prod.exhaust_sel)
  obtain q s1 where q: "sweep_group L c g s = (q, s1)" by fastforce
  with Cons.prems(2) obtain I where I: "I \<subseteq> rv_id ` set rows" "reservations (data s1) = mark_ids I StatusExpired (reservations (data s))"
    "I \<noteq> {} \<longrightarrow> key_in t (CompensationKey t ord) (data (ext s1))"
    "\<forall>u k. key_in u k (data (ext s)) \<longrightarrow> key_in u k (data (ext s1))"
    using sweep_group_run [of L c t ord rows s q s1] g by auto
  have sub: "I \<subseteq> rv_id ` {r. \<exists>k rows. (k, rows) \<in> set (g # gs) \<and> r \<in> set rows \<and> stock_released k (ext s2)}"
    if "\<forall>u k. key_in u k (data (ext s1)) \<longrightarrow> key_in u k (data (ext s2))" for s2 :: "(reservation_db, (stock_db, 'y) sess) sess"
  proof (cases "I = {}")
    case False
    with I(3) that have "stock_released (t, ord) (ext s2)" by (simp add: stock_released_def)
    then have "set rows \<subseteq> {r. \<exists>k rows. (k, rows) \<in> set (g # gs) \<and> r \<in> set rows \<and> stock_released k (ext s2)}"
      using g by auto
    with I(1) show ?thesis by blast
  qed simp
  show ?case
  proof (cases q)
    case (Inl e)
    with Cons.prems(1) q have "s' = s1" by (simp add: bindE_def)
    with I(2,4) sub show ?thesis by (intro exI [of _ I]) auto
  next
    case (Inr u)
    with Cons.prems(1) q obtain r' where "forE gs (sweep_group L c) s1 = (r', s')"
      by (auto simp: bindE_def split: prod.splits sum.splits)
    with Cons.IH Cons.prems(2) obtain J where J:
      "J \<subseteq> rv_id ` {r. \<exists>k rows. (k, rows) \<in> set gs \<and> r \<in> set rows \<and> stock_released k (ext s')}"
      "reservations (data s') = mark_ids J StatusExpired (reservations (data s1))"
      "\<forall>u k. key_in u k (data (ext s1)) \<longrightarrow> key_in u k (data (ext s'))"
      by (metis (no_types, lifting) list.set_intros(2))
    have "I \<union> J \<subseteq> rv_id ` {r. \<exists>k rows. (k, rows) \<in> set (g # gs) \<and> r \<in> set rows \<and> stock_released k (ext s')}"
      by (intro Un_least sub [OF J(3)] order_trans [OF J(1)] image_mono) auto
    with I J show ?thesis
      by (intro exI [of _ "I \<union> J"]) (simp add: mark_ids_twice)
  qed
qed

text \<open>
  C24: A sweep expires only what has expired, and only after the stock was released. Whatever fails, the
  rows a sweep marks expired were active, past their expiry when the sweep read the clock, at most a
  hundred, and for each of them the release of its order is on record in the stock ledger under the
  order's compensation key; every other row is as it was.
\<close>

theorem sweep_expires_released_rows:
  fixes s :: "(reservation_db, (stock_db, 'y) sess) sess"
  assumes "sweepOnce L c ord s = (r, s')" and "\<And>gs. mset (ord gs) = mset gs"
    and "\<And>row. row \<in> set (reservations (data s)) \<Longrightarrow> uuid_scan L (rv_tenant row) = Some (rv_tenant row)"
  shows "\<exists>I \<subseteq> rv_id ` {row \<in> expired_rows (clock (sched s (pos s))) (data s). stock_released (row_group row) (ext s')}.
    card I \<le> 100 \<and> reservations (data s') = mark_ids I StatusExpired (reservations (data s))"
proof -
  obtain q s1 where q: "sweep_fetch s = (q, s1)" by fastforce
  then have att: "attempt sweep_fetch s = (Inr q, s1)" by (simp add: attempt_def)
  show ?thesis
  proof (cases q)
    case (Inl e)
    have "keeps (res_rows (reservations (data s))) sweep_fetch" unfolding sweep_fetch_def by (intro keeps_intros)
    from keeps_step [OF this q] have "reservations (data s1) = reservations (data s)" by (simp add: res_rows_def)
    with assms(1) att Inl show ?thesis by (intro exI [of _ "{}"]) (simp add: sweepOnce_def)
  next
    case (Inr expired)
    note f = sweep_fetch_Inr [OF q [unfolded Inr]]
    let ?gs = "ord (groupByOrder expired)"
    have gs: "set ?gs = set (groupByOrder expired)" using assms(2) by (metis set_mset_mset)
    from assms(1) att Inr obtain r' where loop: "forE ?gs (sweep_group L c) s1 = (r', s')"
      by (auto simp: sweepOnce_def sweep_release_def bindE_def split: prod.splits sum.splits)
    have grp: "row_group row = k \<and> row \<in> set expired" if "(k, rows) \<in> set ?gs" "row \<in> set rows" for k rows row
      using that group_rows(1) [of k rows expired] gs by auto
    have "uuid_scan L (fst k) = Some (fst k)" if "(k, rows) \<in> set ?gs" for k rows
    proof -
      have "rows \<noteq> []" using group_rows(2) that gs by simp
      then obtain row where "row \<in> set rows" by (cases rows) auto
      with grp [OF that] f(1) have "row_group row = k" "row \<in> set (reservations (data s))" by (auto simp: expired_rows_def)
      with assms(3) [of row] show ?thesis by auto
    qed
    then have "\<forall>(k, rows) \<in> set ?gs. uuid_scan L (fst k) = Some (fst k)" by auto
    from sweep_groups_run [OF loop this] obtain I where
      I: "I \<subseteq> rv_id ` {r. \<exists>k rows. (k, rows) \<in> set ?gs \<and> r \<in> set rows \<and> stock_released k (ext s')}"
      "reservations (data s') = mark_ids I StatusExpired (reservations (data s))"
      using f(2) by auto
    have "I \<subseteq> rv_id ` set expired" using I(1) grp by fastforce
    then have "card I \<le> length expired" by (metis card_length card_image_le card_mono finite_imageI finite_set le_trans)
    moreover have "I \<subseteq> rv_id ` {row \<in> expired_rows (clock (sched s (pos s))) (data s). stock_released (row_group row) (ext s')}"
      using I(1) grp f(1) by fastforce
    ultimately show ?thesis using I(2) f(5) by (intro exI [of _ I]) auto
  qed
qed

text \<open>The same session at a later time.\<close>

definition later :: "int \<Rightarrow> ('d, 'x) sess \<Rightarrow> ('d, 'x) sess" where
  "later t s = s\<lparr>sched := (\<lambda>i. (sched s i)\<lparr>clock := t\<rparr>)\<rparr>"

lemma later_simps [simp]: "data (later t s) = data s" "ext (later t s) = ext s"
  by (simp_all add: later_def)

lemma sched_later: "sched (later t s) = (\<lambda>i. (sched s i)\<lparr>clock := t\<rparr>)"
  by (simp add: later_def)

theorem sweep_expires_released_rows_witness:
  "let s = later 1000000000 sample_held; s' = snd (sweepOnce sample_lib sample_ctx no_reorder s) in
   (\<exists>I \<subseteq> rv_id ` {row \<in> expired_rows (clock (sched s (pos s))) (data s). stock_released (row_group row) (ext s')}.
      card I \<le> 100 \<and> reservations (data s') = mark_ids I StatusExpired (reservations (data s))) \<and>
   map rv_status (reservations (data s')) = [StatusExpired] \<and>
   inv_levels (stock_inv (ext s')) (''t'', ''a'', ''w'') = inv_levels (stock_inv (ext sample_shop)) (''t'', ''a'', ''w'')"
proof -
  let ?s = "later 1000000000 sample_held"
  let ?run = "sweepOnce sample_lib sample_ctx no_reorder ?s"
  have "\<forall>row \<in> set (reservations (data ?s)). rv_tenant row = ''t''" by code_simp
  then have "\<And>row. row \<in> set (reservations (data ?s)) \<Longrightarrow> uuid_scan sample_lib (rv_tenant row) = Some (rv_tenant row)"
    by (simp add: sample_simps)
  moreover have "\<And>gs. mset (no_reorder gs) = mset gs" by (simp add: no_reorder_def)
  moreover have "map rv_status (reservations (data (snd ?run))) = [StatusExpired]"
    "inv_levels (stock_inv (ext (snd ?run))) (''t'', ''a'', ''w'') = inv_levels (stock_inv (ext sample_shop)) (''t'', ''a'', ''w'')"
    by code_simp+
  ultimately show ?thesis
    using sweep_expires_released_rows [OF surjective_pairing [of ?run]] unfolding Let_def by blast
qed

lemma mark_ids_mem: "r \<in> set rs \<Longrightarrow> rv_id r \<in> I \<Longrightarrow> r\<lparr>rv_status := st\<rparr> \<in> set (mark_ids I st rs)"
  unfolding mark_ids_def set_map by (rule image_eqI [of _ _ r]) simp_all

text \<open>A sweep of one group in which nothing fails.\<close>

lemma markExpired_quiet:
  fixes s :: "(reservation_db, 'x) sess"
  assumes "quiet s" "reservation_schema (data s)" "rv_id r \<in> rv_id ` set (reservations (data s))"
  shows "\<exists>s'. markExpired L c r s = (Inr (), s') \<and> quiet s' \<and> reservation_schema (data s') \<and>
    reservations (data s') = mark_ids {rv_id r} StatusExpired (reservations (data s))"
proof -
  let ?upd = "autocommit (UpdateReservationStatus (rv_id r) StatusExpired) :: ('x, Reservation) rtx"
  let ?out = "autocommit (res_InsertOutboxEvent L (rv_tenant r) ''reservation'' (partitionKey (rv_tenant r) (rv_order r))
    ''reservation.expired'' (order_sku_payload (rv_order r) (rv_sku r)) (TraceparentText c)) :: ('x, Outbox) rtx"
  have "find (\<lambda>q. rv_id q = rv_id r) (reservations (data s)) \<noteq> None"
    using assms(3) by (auto simp: find_None_iff)
  then obtain q where q: "find (\<lambda>q. rv_id q = rv_id r) (reservations (data s)) = Some q" by blast
  then have "q \<in> set (reservations (data s))" by (auto simp: find_Some_iff)
  with assms(2) have "reservation_check (q\<lparr>rv_status := StatusExpired\<rparr>)"
    by (auto simp: reservation_schema_def list_all_iff reservation_check_def StatusExpired_def)
  with q assms(1) obtain u s1 where s1: "?upd s = (Inr u, s1)" "quiet s1"
    "reservations (data s1) = mark_ids {rv_id r} StatusExpired (reservations (data s))"
    by (simp add: UpdateReservationStatus_def autocommit_def with_scope_def in_tx_def stmt_simps rls_visible_def
        varchar_def StatusExpired_def set_status_eq)
  obtain o1 s2 where s2: "?out s1 = (o1, s2)" by fastforce
  have "keeps (res_rows (reservations (data s1))) ?out" by (intro keeps_intros)
  from keeps_step [OF this s2] have r2: "reservations (data s2) = reservations (data s1)" by (simp add: res_rows_def)
  have "frame sched ?out" unfolding autocommit_def by (intro frame_intros)
  from frameD [OF this s2] s1(2) have q2: "quiet s2" by (simp add: quiet_def)
  have run: "markExpired L c r s = (Inr (), s2)"
    using s1(1) s2 by (cases o1) (simp_all add: markExpired_def bindE_def catchE_def)
  have "keeps reservation_schema (markExpired L c r :: ('x, unit) rtx)"
    unfolding markExpired_def by (intro keeps_intros)
  from keeps_step [OF this run assms(2)] have "reservation_schema (data s2)" .
  with run q2 r2 s1(3) show ?thesis by auto
qed

lemma mark_all_quiet:
  fixes s :: "(reservation_db, 'x) sess"
  assumes "quiet s" "reservation_schema (data s)" "rv_id ` set rows \<subseteq> rv_id ` set (reservations (data s))"
  shows "\<exists>us s'. forE rows (markExpired L c) s = (Inr us, s') \<and>
    reservations (data s') = mark_ids (rv_id ` set rows) StatusExpired (reservations (data s))"
  using assms
proof (induction rows arbitrary: s)
  case (Cons r rows)
  from markExpired_quiet [OF Cons.prems(1,2), of r L c] Cons.prems(3) obtain s1 where
    s1: "markExpired L c r s = (Inr (), s1)" "quiet s1" "reservation_schema (data s1)"
      "reservations (data s1) = mark_ids {rv_id r} StatusExpired (reservations (data s))" by auto
  have "rv_id ` set (reservations (data s1)) = rv_id ` set (reservations (data s))"
    unfolding s1(4) by (metis mark_ids_ids set_map)
  with Cons.IH [OF s1(2,3)] Cons.prems(3) obtain us s2 where "forE rows (markExpired L c) s1 = (Inr us, s2)"
    "reservations (data s2) = mark_ids (rv_id ` set rows) StatusExpired (reservations (data s1))" by auto
  with s1(1,4) show ?case by (simp add: mark_ids_twice)
qed simp

lemma sweep_group_quiet:
  fixes s :: "(reservation_db, (stock_db, 'y) sess) sess"
  assumes "quiet s" "reservation_schema (data s)" "rv_id ` set rows \<subseteq> rv_id ` set (reservations (data s))"
    and "ReleaseStock L (incoming L c) (releaseRequest t ord rows) (ext s) = (Inr rel, x)"
  shows "\<exists>s'. sweep_group L c ((t, ord), rows) s = (Inr (), s') \<and> ext s' = x \<and>
    reservations (data s') = mark_ids (rv_id ` set rows) StatusExpired (reservations (data s))"
proof -
  let ?call = "rpc (ReleaseStock L (incoming L c) (releaseRequest t ord rows))"
  have call: "?call s = (Inr rel, s\<lparr>pos := Suc (pos s), ext := x\<rparr>)"
    using assms(1,4) by (simp add: rpc_def quiet_def Let_def)
  let ?s = "s\<lparr>pos := Suc (pos s), ext := x\<rparr>"
  obtain us s' where s': "forE rows (markExpired L c) ?s = (Inr us, s')"
    "reservations (data s') = mark_ids (rv_id ` set rows) StatusExpired (reservations (data s))"
    using mark_all_quiet [of ?s rows L c] assms(1-3) by auto
  have "ext s' = x" using frameD [OF frame_markExpired s'(1)] by simp
  with s' call show ?thesis by (simp add: sweep_group_def attempt_def bindE_def)
qed

lemma ReleaseStock_seen_quiet:
  fixes x :: "(stock_db, 'y) sess"
  assumes "quiet x" "uuid_scan L (rls_tenant req) = Some t" "rls_tenant req \<noteq> ''''" "rls_key req \<noteq> ''''"
    and "find_key t (rls_key req) (stock_keys (data x)) \<noteq> None"
    and "varchar 255 (rls_key req)" "varchar 255 (PayloadHash L (M_ReleaseStock req))"
  shows "\<not> isl (fst (ReleaseStock L c req x))"
proof -
  let ?c = "WithTenantID c (rls_tenant req)"
  let ?x = "x\<lparr>scope := Scoped (Some t), pos := Suc (Suc (pos x))\<rparr>"
  have sched: "frame sched (release_body L ?c t req :: ('y, ReleaseStockResponse) stx)"
    unfolding release_body_def tryIdempotency_def release_line_def Let_def by (intro frame_intros)
  have "insert_key t (rls_key req) (PayloadHash L (M_ReleaseStock req)) e (Scoped (Some t)) (stock_keys (data x)) = Inl ErrNoRows" for e
    using assms(5-7) by (simp add: insert_key_NoRows rls_visible_def)
  then have "fst (release_body L ?c t req ?x) = Inr \<lparr>rlsr_success = True, rlsr_released = []\<rparr>"
    using assms(1,4) by (simp add: release_body_def tryIdempotency_def CheckAndInsertIdempotencyKey_def bindE_def attempt_def stmt_simps)
  with ExecTx_quiet [OF assms(1) _ sched, where L = L] assms(2,3)
  have "fst (ExecTxWithTenant L ?c (release_body L ?c t req) x) = Inr \<lparr>rlsr_success = True, rlsr_released = []\<rparr>"
    by (simp add: WithTenantID_def)
  then show ?thesis using assms(2)
    by (auto simp: ReleaseStock_def ParseUUID_def Let_def catchE_def split: prod.splits)
qed

lemma stock_released_seen:
  "stock_released (t, ord) x \<longleftrightarrow> find_key t (rls_key (releaseRequest t ord rows)) (stock_keys (data x)) \<noteq> None"
  by (simp add: stock_released_def key_in_def releaseRequest_def CompensationKey_def)

text \<open>
  C39: A second expiry of an order releases nothing. Once the compensation key of an order is in the stock
  ledger (an earlier sweep, or a compensated \<^verbatim>\<open>Reserve\<close>), sweeping rows of that order leaves the stock
  exactly as it is, whatever fails; and when nothing fails all the rows are marked expired all the same.
  The key does not name the rows it covers, so what a later reservation of the order holds, or the part of
  it that did not fit into the first batch, stays reserved for good: no later sweep sees the rows.
\<close>

theorem sweep_skips_released_order:
  fixes s :: "(reservation_db, (stock_db, 'y) sess) sess"
  assumes "sweep_group L c ((t, ord), rows) s = (r, s')" and "uuid_scan L t = Some t" and "t \<noteq> ''''"
    and "stock_schema (data (ext s))" and "stock_released (t, ord) (ext s)"
    and "reservation_schema (data s)" and "rv_id ` set rows \<subseteq> rv_id ` set (reservations (data s))"
  defines "req \<equiv> releaseRequest t ord rows"
  shows "stock_inv (ext s') = stock_inv (ext s) \<and>
    (quiet s \<and> quiet (ext s) \<and> varchar 255 (rls_key req) \<and> varchar 255 (PayloadHash L (M_ReleaseStock req)) \<longrightarrow>
       r = Inr () \<and> reservations (data s') = mark_ids (rv_id ` set rows) StatusExpired (reservations (data s)))"
proof -
  let ?call = "rpc (ReleaseStock L (incoming L c) req)"
  obtain q s1 where q: "?call s = (q, s1)" by fastforce
  have seen: "key_seen t (rls_key req) (stock_inv (ext s))"
    using assms(5) by (simp add: key_seen_find stock_released_def key_in_def req_def releaseRequest_def CompensationKey_def)
  have "stock_inv (ext s1) = stock_inv (ext s)"
    using implements_outcome [OF release_call_implements [OF q _ assms(4), of t]] seen assms(2)
    by (auto simp: req_def releaseRequest_def det_def elim: spec_ReleaseStock_cases simp del: inventory_of_simps)
  moreover have "ext s' = ext s1"
    using assms(1) q frameD [OF frame_markExpired]
    by (auto simp: req_def sweep_group_def attempt_def bindE_def split: prod.splits sum.splits)
  moreover have "r = Inr () \<and> reservations (data s') = mark_ids (rv_id ` set rows) StatusExpired (reservations (data s))"
    if "quiet s" "quiet (ext s)" "varchar 255 (rls_key req)" "varchar 255 (PayloadHash L (M_ReleaseStock req))"
  proof -
    have "\<not> isl (fst (ReleaseStock L (incoming L c) req (ext s)))"
      by (rule ReleaseStock_seen_quiet [of _ _ _ t])
        (use that assms(2,3,5) stock_released_seen [of t ord "ext s" rows] in \<open>auto simp: req_def releaseRequest_def CompensationKey_def\<close>)
    then obtain rel x where "ReleaseStock L (incoming L c) req (ext s) = (Inr rel, x)" by (rule Inr_run)
    from sweep_group_quiet [OF that(1) assms(6,7) this [unfolded req_def]] assms(1) show ?thesis by auto
  qed
  ultimately show ?thesis by simp
qed

abbreviation sample_resold :: "(reservation_db, (stock_db, unit) sess) sess" where
  "sample_resold \<equiv> snd (Reserve sample_lib sample_ctx ((sample_hold [sample_item ''a'' 4])\<lparr>rq_key := ''k4''\<rparr>)
     (snd (sweepOnce sample_lib sample_ctx no_reorder (later 1000000000 sample_held))))"

lemma keeps_ext_sweep: "keeps_ext (\<lambda>x. stock_schema (data x)) (sweepOnce L c ord)"
proof -
  have "keeps_ext (\<lambda>x. stock_schema (data x)) (sweep_group L c g)" for g
    unfolding sweep_group_def markExpired_def case_prod_beta by (intro ext_intros)
  then show ?thesis unfolding sweepOnce_def sweep_fetch_def sweep_release_def by (intro ext_intros)
qed

theorem sweep_skips_released_order_witness:
  "let rows = filter (\<lambda>r. rv_status r = StatusActive) (reservations (data sample_resold));
       s' = snd (sweep_group sample_lib sample_ctx ((''t'', ''o''), rows) sample_resold) in
   stock_inv (ext s') = stock_inv (ext sample_resold) \<and>
   map rv_status (reservations (data s')) = [StatusExpired, StatusExpired] \<and>
   map_option bk_reserved (inv_levels (stock_inv (ext s')) (''t'', ''a'', ''w'')) = Some 6"
proof -
  let ?s = sample_resold
  let ?rows = "filter (\<lambda>r. rv_status r = StatusActive) (reservations (data ?s))"
  let ?run = "sweep_group sample_lib sample_ctx ((''t'', ''o''), ?rows) ?s"
  have "stock_released (''t'', ''o'') (ext ?s)"
    "map rv_status (reservations (data (snd ?run))) = [StatusExpired, StatusExpired]"
    "map_option bk_reserved (inv_levels (stock_inv (ext (snd ?run))) (''t'', ''a'', ''w'')) = Some 6" by code_simp+
  moreover have "reservation_schema (data ?s)" "rv_id ` set ?rows \<subseteq> rv_id ` set (reservations (data ?s))" by code_simp+
  moreover have "stock_schema (data (ext ?s))"
    using keeps_extD [OF keeps_stock_reservation_serve [of sample_lib sample_ctx
        "CallReserve ((sample_hold [sample_item ''a'' 4])\<lparr>rq_key := ''k4''\<rparr>)"],
        OF keeps_extD [OF keeps_ext_sweep [of sample_lib sample_ctx no_reorder], of "later 1000000000 sample_held"]]
      sample_held_schema
    by (simp add: mapE_snd)
  ultimately show ?thesis
    using sweep_skips_released_order [OF surjective_pairing [of ?run]] unfolding Let_def
    by (simp add: sample_simps del: inventory_of_simps)
qed



end
