(* ===== verification/OrderDB.thy ===== *)
theory OrderDB
  imports Ledger
begin

text \<open>
  The order database: the tables of \<^verbatim>\<open>db/migrations/order\<close> and the generated queries of
  \<^verbatim>\<open>gen/go/db/order/order.sql.go\<close>.
\<close>

section \<open>Tables\<close>

record OrderRow =
  or_id :: uuid
  or_tenant :: uuid
  or_order :: string
  or_status :: string
  or_total :: int64
  or_currency :: string
  or_txn :: string
  or_created :: int
  or_updated :: int

record OrderLineRow =
  olr_id :: uuid
  olr_tenant :: uuid
  olr_order :: string
  olr_sku :: string
  olr_wh :: string
  olr_qty :: int32
  olr_price :: int64
  olr_created :: int

record SagaInstance =
  sg_id :: uuid
  sg_tenant :: uuid
  sg_order :: string
  sg_state :: string
  sg_step :: int32
  sg_key :: string
  sg_error :: string
  sg_created :: int
  sg_updated :: int

record order_db =
  orders :: "OrderRow list"
  order_lines :: "OrderLineRow list"
  sagas :: "SagaInstance list"
  order_outbox :: "Outbox list"
  order_keys :: "ProcessedIdempotencyKey list"

type_synonym ('x, 'a) otx = "(order_db, 'x, 'a) tx"

definition SagaPendingPayment :: string where "SagaPendingPayment = ''PENDING_PAYMENT''"

definition SagaReserved :: string where "SagaReserved = ''RESERVED''"

definition SagaAllocated :: string where "SagaAllocated = ''ALLOCATED''"

definition SagaConfirmed :: string where "SagaConfirmed = ''CONFIRMED''"

definition SagaCompensated :: string where "SagaCompensated = ''COMPENSATED''"

definition SagaFailed :: string where "SagaFailed = ''FAILED''"

definition OrderPending :: string where "OrderPending = ''PENDING''"

definition OrderConfirmed :: string where "OrderConfirmed = ''CONFIRMED''"

definition OrderFulfilled :: string where "OrderFulfilled = ''FULFILLED''"

definition OrderCompensated :: string where "OrderCompensated = ''COMPENSATED''"

definition OrderFailed :: string where "OrderFailed = ''FAILED''"

lemmas saga_states = SagaPendingPayment_def SagaReserved_def SagaAllocated_def SagaConfirmed_def
  SagaCompensated_def SagaFailed_def

lemmas order_states = OrderPending_def OrderConfirmed_def OrderFulfilled_def OrderCompensated_def
  OrderFailed_def

text \<open>The \<^verbatim>\<open>CHECK\<close> constraints of \<^verbatim>\<open>000003_indexes_constraints.up.sql\<close>.\<close>

definition order_check :: "OrderRow \<Rightarrow> bool" where
  "order_check o' \<longleftrightarrow>
     or_status o' \<in> {''PENDING'', ''CONFIRMED'', ''FULFILLED'', ''COMPENSATED'', ''FAILED''} \<and>
     0 \<le> sint (or_total o')"

definition saga_check :: "SagaInstance \<Rightarrow> bool" where
  "saga_check g \<longleftrightarrow>
     sg_state g \<in> {''PENDING_PAYMENT'', ''RESERVED'', ''ALLOCATED'', ''CONFIRMED'', ''COMPENSATED'', ''FAILED''}"

definition order_line_check :: "OrderLineRow \<Rightarrow> bool" where
  "order_line_check l \<longleftrightarrow> 0 < sint (olr_qty l) \<and> 0 \<le> sint (olr_price l)"

section \<open>Queries\<close>

definition order_CheckAndInsertIdempotencyKey :: "uuid \<Rightarrow> string \<Rightarrow> string \<Rightarrow> ('x, string) otx" where
  "order_CheckAndInsertIdempotencyKey t k h = stmt (\<lambda>e sc d.
     case insert_key t k h e sc (order_keys d) of
       Inl er \<Rightarrow> Inl er
     | Inr (x, ks) \<Rightarrow> Inr (x, d\<lparr>order_keys := ks\<rparr>))"

definition GetIdempotencyKey :: "uuid \<Rightarrow> string \<Rightarrow> ('x, string) otx" where
  "GetIdempotencyKey t k = stmt (\<lambda>e sc d.
     case (if rls_visible sc t then find_key t k (order_keys d) else None) of
       None \<Rightarrow> Inl ErrNoRows
     | Some r \<Rightarrow> Inr (ik_hash r, d))"

definition order_at :: "rls \<Rightarrow> string \<Rightarrow> OrderRow \<Rightarrow> bool" where
  "order_at sc orderID o' \<longleftrightarrow> rls_visible sc (or_tenant o') \<and> or_order o' = orderID"

definition saga_at :: "rls \<Rightarrow> string \<Rightarrow> SagaInstance \<Rightarrow> bool" where
  "saga_at sc orderID g \<longleftrightarrow> rls_visible sc (sg_tenant g) \<and> sg_order g = orderID"

definition GetOrderById :: "string \<Rightarrow> ('x, OrderRow) otx" where
  "GetOrderById orderID = stmt (\<lambda>e sc d.
     case find (order_at sc orderID) (orders d) of
       None \<Rightarrow> Inl ErrNoRows
     | Some o' \<Rightarrow> Inr (o', d))"

definition GetOrderLines :: "string \<Rightarrow> ('x, OrderLineRow list) otx" where
  "GetOrderLines orderID = stmt (\<lambda>e sc d.
     Inr (sort_key (\<lambda>l. (olr_sku l, olr_wh l))
            (filter (\<lambda>l. rls_visible sc (olr_tenant l) \<and> olr_order l = orderID) (order_lines d)), d))"

definition GetResumableSagas :: "int32 \<Rightarrow> ('x, SagaInstance list) otx" where
  "GetResumableSagas limit = stmt (\<lambda>e sc d.
     if sint limit < 0 then Inl (PgErr ''LIMIT must not be negative'')
     else Inr (take (nat (sint limit)) (sort_key sg_created
            (filter (\<lambda>g. rls_visible sc (sg_tenant g) \<and> sg_state g \<in> {''PENDING_PAYMENT'', ''RESERVED''}
               \<and> \<not> busy e (sg_id g)) (sagas d))), d))"

definition GetSagaInstance :: "string \<Rightarrow> ('x, SagaInstance) otx" where
  "GetSagaInstance orderID = stmt (\<lambda>e sc d.
     case find (saga_at sc orderID) (sagas d) of
       None \<Rightarrow> Inl ErrNoRows
     | Some g \<Rightarrow> Inr (g, d))"

definition InsertOrderLine ::
  "uuid \<Rightarrow> string \<Rightarrow> string \<Rightarrow> string \<Rightarrow> int32 \<Rightarrow> int64 \<Rightarrow> ('x, OrderLineRow) otx" where
  "InsertOrderLine t orderID sku wh qty price = stmt (\<lambda>e sc d.
     let l = \<lparr>olr_id = fresh e, olr_tenant = t, olr_order = orderID, olr_sku = sku, olr_wh = wh,
              olr_qty = qty, olr_price = price, olr_created = clock e\<rparr> in
     if \<not> (varchar 255 orderID \<and> varchar 255 sku \<and> varchar 255 wh) then Inl value_too_long
     else if \<not> rls_visible sc t then Inl rls_violation
     else if \<not> order_line_check l then Inl (check_violation ''order_lines'')
     else if list_ex (\<lambda>l'. olr_id l' = fresh e) (order_lines d)
       then Inl (unique_violation ''order_lines_pkey'')
     else if list_ex (\<lambda>l'. olr_tenant l' = t \<and> olr_order l' = orderID \<and> olr_sku l' = sku \<and> olr_wh l' = wh)
            (order_lines d)
       then Inl (unique_violation ''order_lines_tenant_id_order_id_sku_id_warehouse_id_key'')
     else Inr (l, d\<lparr>order_lines := order_lines d @ [l]\<rparr>))"

definition order_InsertOutboxEvent ::
  "uuid \<Rightarrow> string \<Rightarrow> string \<Rightarrow> string \<Rightarrow> json \<Rightarrow> string option \<Rightarrow> ('x, Outbox) otx" where
  "order_InsertOutboxEvent t aggtype aggid etype payload trace = stmt (\<lambda>e sc d.
     case insert_outbox t aggtype aggid etype payload trace e sc (order_outbox d) of
       Inl er \<Rightarrow> Inl er
     | Inr (r, rows) \<Rightarrow> Inr (r, d\<lparr>order_outbox := rows\<rparr>))"

definition set_order :: "rls \<Rightarrow> string \<Rightarrow> string \<Rightarrow> string \<Rightarrow> int \<Rightarrow> OrderRow \<Rightarrow> OrderRow" where
  "set_order sc orderID st txn at o' =
     (if order_at sc orderID o' then o'\<lparr>or_status := st, or_txn := txn, or_updated := at\<rparr> else o')"

definition UpdateOrderStatus :: "string \<Rightarrow> string \<Rightarrow> string \<Rightarrow> ('x, OrderRow) otx" where
  "UpdateOrderStatus orderID st txn = stmt (\<lambda>e sc d.
     case find (order_at sc orderID) (orders d) of
       None \<Rightarrow> Inl ErrNoRows
     | Some o' \<Rightarrow>
         if \<not> (varchar 50 st \<and> varchar 255 txn) then Inl value_too_long
         else if \<not> order_check (o'\<lparr>or_status := st\<rparr>) then Inl (check_violation ''orders'')
         else Inr (set_order sc orderID st txn (clock e) o',
                   d\<lparr>orders := map (set_order sc orderID st txn (clock e)) (orders d)\<rparr>))"

definition set_saga :: "rls \<Rightarrow> string \<Rightarrow> string \<Rightarrow> int32 \<Rightarrow> string \<Rightarrow> int \<Rightarrow> SagaInstance \<Rightarrow> SagaInstance" where
  "set_saga sc orderID st step er at g =
     (if saga_at sc orderID g
      then g\<lparr>sg_state := st, sg_step := step, sg_error := er, sg_updated := at\<rparr> else g)"

definition UpdateSagaState :: "string \<Rightarrow> string \<Rightarrow> int32 \<Rightarrow> string \<Rightarrow> ('x, SagaInstance) otx" where
  "UpdateSagaState orderID st step er = stmt (\<lambda>e sc d.
     case find (saga_at sc orderID) (sagas d) of
       None \<Rightarrow> Inl ErrNoRows
     | Some g \<Rightarrow>
         if \<not> (varchar 50 st \<and> varchar 1024 er) then Inl value_too_long
         else if \<not> saga_check (g\<lparr>sg_state := st\<rparr>) then Inl (check_violation ''saga_instances'')
         else Inr (set_saga sc orderID st step er (clock e) g,
                   d\<lparr>sagas := map (set_saga sc orderID st step er (clock e)) (sagas d)\<rparr>))"

text \<open>\<^verbatim>\<open>ON CONFLICT (tenant_id, order_id) DO NOTHING RETURNING ...\<close>: a conflict returns no row.\<close>

definition UpsertOrder :: "uuid \<Rightarrow> string \<Rightarrow> string \<Rightarrow> int64 \<Rightarrow> string \<Rightarrow> ('x, OrderRow) otx" where
  "UpsertOrder t orderID st amount currency = stmt (\<lambda>e sc d.
     let o' = \<lparr>or_id = fresh e, or_tenant = t, or_order = orderID, or_status = st, or_total = amount,
               or_currency = currency, or_txn = '''', or_created = clock e, or_updated = clock e\<rparr> in
     if \<not> (varchar 255 orderID \<and> varchar 50 st \<and> varchar 3 currency) then Inl value_too_long
     else if \<not> rls_visible sc t then Inl rls_violation
     else if \<not> order_check o' then Inl (check_violation ''orders'')
     else if list_ex (\<lambda>r. or_tenant r = t \<and> or_order r = orderID) (orders d) then Inl ErrNoRows
     else if list_ex (\<lambda>r. or_id r = fresh e) (orders d) then Inl (unique_violation ''orders_pkey'')
     else Inr (o', d\<lparr>orders := orders d @ [o']\<rparr>))"

definition UpsertSagaInstance :: "uuid \<Rightarrow> string \<Rightarrow> string \<Rightarrow> int32 \<Rightarrow> string \<Rightarrow> ('x, SagaInstance) otx" where
  "UpsertSagaInstance t orderID st step key = stmt (\<lambda>e sc d.
     let g = \<lparr>sg_id = fresh e, sg_tenant = t, sg_order = orderID, sg_state = st, sg_step = step,
              sg_key = key, sg_error = '''', sg_created = clock e, sg_updated = clock e\<rparr> in
     if \<not> (varchar 255 orderID \<and> varchar 50 st \<and> varchar 255 key) then Inl value_too_long
     else if \<not> rls_visible sc t then Inl rls_violation
     else if \<not> saga_check g then Inl (check_violation ''saga_instances'')
     else if list_ex (\<lambda>r. sg_tenant r = t \<and> sg_order r = orderID) (sagas d) then Inl ErrNoRows
     else if list_ex (\<lambda>r. sg_id r = fresh e) (sagas d) then Inl (unique_violation ''saga_instances_pkey'')
     else Inr (g, d\<lparr>sagas := sagas d @ [g]\<rparr>))"

lemmas order_query_defs = order_CheckAndInsertIdempotencyKey_def GetIdempotencyKey_def GetOrderById_def
  GetOrderLines_def GetResumableSagas_def GetSagaInstance_def InsertOrderLine_def
  order_InsertOutboxEvent_def UpdateOrderStatus_def UpdateSagaState_def UpsertOrder_def
  UpsertSagaInstance_def

lemma frame_order_queries [frame_intros]:
  assumes "aside g"
  shows "frame g (order_CheckAndInsertIdempotencyKey t k h)"
    "frame g (GetIdempotencyKey t k)" "frame g (GetOrderById ord)" "frame g (GetOrderLines ord)"
    "frame g (GetResumableSagas lim)" "frame g (GetSagaInstance ord)"
    "frame g (InsertOrderLine t ord sku wh q p)" "frame g (order_InsertOutboxEvent t at ai et pl tr)"
    "frame g (UpdateOrderStatus ord st txn)" "frame g (UpdateSagaState ord st step er)"
    "frame g (UpsertOrder t ord st tot cur)" "frame g (UpsertSagaInstance t ord st step k)"
  unfolding order_query_defs by (intro frame_stmt assms)+

lemma raises_order_queries [raises_intros]:
  "raises pg_err (order_CheckAndInsertIdempotencyKey t k h)"
  "raises pg_err (GetIdempotencyKey t k)" "raises pg_err (GetOrderById ord)"
  "raises pg_err (GetOrderLines ord)" "raises pg_err (GetResumableSagas lim)"
  "raises pg_err (GetSagaInstance ord)" "raises pg_err (InsertOrderLine t ord sku wh q p)"
  "raises pg_err (order_InsertOutboxEvent t at ai et pl tr)"
  "raises pg_err (UpdateOrderStatus ord st txn)" "raises pg_err (UpdateSagaState ord st step er)"
  "raises pg_err (UpsertOrder t ord st tot cur)" "raises pg_err (UpsertSagaInstance t ord st step k)"
  unfolding order_query_defs Let_def
  by (rule raises_stmt; auto split: option.splits sum.splits if_splits dest: insert_pg_err)+

section \<open>The ledger of the order database\<close>

interpretation order_ledger: idempotency_ledger
  order_CheckAndInsertIdempotencyKey order_keys "\<lambda>d ks. d\<lparr>order_keys := ks\<rparr>"
  by unfold_locales (simp_all add: order_CheckAndInsertIdempotencyKey_def)

end
