(* ===== verification/Payment.thy ===== *)
theory Payment
  imports Database
begin

text \<open>
  \<^verbatim>\<open>pkg/payment\<close>: the sandbox gateway. \<^verbatim>\<open>fail_orders\<close> is the value of the environment variable
  \<^verbatim>\<open>TAPER_SANDBOX_FAIL_ORDERS\<close>; \<^verbatim>\<open>uuid\<close> and \<^verbatim>\<open>at\<close> are what \<^verbatim>\<open>uuid.NewString()\<close> and \<^verbatim>\<open>time.Now()\<close> give.
  \<^verbatim>\<open>ErrPaymentDeclined m\<close> is the sentinel (\<^verbatim>\<open>m\<close> empty) or the sentinel wrapped with a text.
\<close>

record ChargeRequest =
  ch_order :: string
  ch_tenant :: string
  ch_amount :: int64
  ch_currency :: string
  ch_key :: string
  ch_force_fail :: bool

record ChargeResult =
  chr_txn :: string
  chr_at :: int

definition sandboxFailListed :: "string \<Rightarrow> string \<Rightarrow> bool" where
  "sandboxFailListed fail_orders orderID \<longleftrightarrow>
     fail_orders \<noteq> '''' \<and> list_ex (\<lambda>i. i = orderID) (split_on (CHR '','') fail_orders)"

definition Charge :: "string \<Rightarrow> uuid \<Rightarrow> int \<Rightarrow> ChargeRequest \<Rightarrow> err + ChargeResult" where
  "Charge fail_orders uuid at req =
     (if sint (ch_amount req) \<le> 0 then Inl (ErrPaymentDeclined '': amount must be positive'')
      else if ch_force_fail req \<or> sandboxFailListed fail_orders (ch_order req)
        then Inl (ErrPaymentDeclined ('': order '' @ ch_order req))
      else Inr \<lparr>chr_txn = ''sbx_'' @ uuid, chr_at = at\<rparr>)"

text \<open>\<^verbatim>\<open>errors.Is(err, payment.ErrPaymentDeclined)\<close>.\<close>

primrec declined :: "err \<Rightarrow> bool" where
  "declined ErrNoRows = False"
| "declined (PgErr m) = False"
| "declined ErrTenantIDMissing = False"
| "declined ErrAlreadyProcessed = False"
| "declined ErrIdempotentReplay = False"
| "declined (InsufficientStock ss) = False"
| "declined (ErrPaymentDeclined m) = True"
| "declined ErrCircuitOpen = False"
| "declined (StatusErr c m) = False"
| "declined (Wrapped m e) = declined e"

lemma Charge_declines: "Charge fo u at req = Inl e \<Longrightarrow> declined e"
  by (auto simp: Charge_def split: if_splits)

lemma Charge_txn: "Charge fo u at req = Inr res \<Longrightarrow> chr_txn res = ''sbx_'' @ u \<and> 0 < sint (ch_amount req)"
  by (auto simp: Charge_def split: if_splits)

end
