(* ===== verification/OrderService.thy ===== *)
theory OrderService
  imports OrderDB ReservationService CircuitBreaker Payment
begin

text \<open>
  \<^verbatim>\<open>internal/orderservice\<close>: the saga orchestrator behind \<^verbatim>\<open>order.v1.OrderService\<close>. What lies
  outside its database (\<^verbatim>\<open>ext\<close>) is the rest of the \<^verbatim>\<open>Saga\<close> struct: the session of the reservation
  service, in whose \<^verbatim>\<open>ext\<close> the stock service's session sits, and the three breakers; with it the
  environment variable the sandbox gateway reads. A crash of the orchestrator is a schedule in which
  every statement and call after some position fails.
\<close>

type_synonym 'y res_session = "(reservation_db, (stock_db, 'y) sess) sess"

record 'y saga_ext =
  res_service :: "'y res_session"
  resBreaker :: Breaker
  payBreaker :: Breaker
  stockBreaker :: Breaker
  fail_orders :: string

type_synonym ('y, 'a) sagatx = "('y saga_ext, 'a) otx"

type_synonym 'y order_session = "(order_db, 'y saga_ext) sess"

definition saga_breaker :: Breaker where
  "saga_breaker = New \<lparr>FailureThreshold = 3, Cooldown = 10 * 1000000\<rparr>"

definition NewSaga :: "'y res_session \<Rightarrow> string \<Rightarrow> 'y saga_ext" where
  "NewSaga res env =
     \<lparr>res_service = res, resBreaker = saga_breaker, payBreaker = saga_breaker, stockBreaker = saga_breaker,
      fail_orders = env\<rparr>"

section \<open>Calls out of the service\<close>

definition res_call :: "('y res_session \<Rightarrow> (err + 'a) \<times> 'y res_session) \<Rightarrow> 'y saga_ext \<Rightarrow> (err + 'a) \<times> 'y saga_ext" where
  "res_call srv x = (case srv (res_service x) of (r, s) \<Rightarrow> (r, x\<lparr>res_service := s\<rparr>))"

definition stock_call ::
  "((stock_db, 'y) sess \<Rightarrow> (err + 'a) \<times> (stock_db, 'y) sess) \<Rightarrow> 'y saga_ext \<Rightarrow> (err + 'a) \<times> 'y saga_ext" where
  "stock_call srv x =
     (case srv (ext (res_service x)) of (r, s) \<Rightarrow> (r, x\<lparr>res_service := (res_service x)\<lparr>ext := s\<rparr>\<rparr>))"

definition breaker_allow :: "('x \<Rightarrow> Breaker) \<Rightarrow> ((Breaker \<Rightarrow> Breaker) \<Rightarrow> 'x \<Rightarrow> 'x) \<Rightarrow> ('d, 'x, unit) tx" where
  "breaker_allow get upd =
     bindE now (\<lambda>t s. case Allow t (get (ext s)) of (r, b) \<Rightarrow> (r, s\<lparr>ext := upd (\<lambda>_. b) (ext s)\<rparr>))"

definition breaker_success :: "((Breaker \<Rightarrow> Breaker) \<Rightarrow> 'x \<Rightarrow> 'x) \<Rightarrow> ('d, 'x, unit) tx" where
  "breaker_success upd s = (Inr (), s\<lparr>ext := upd RecordSuccess (ext s)\<rparr>)"

definition breaker_failure :: "((Breaker \<Rightarrow> Breaker) \<Rightarrow> 'x \<Rightarrow> 'x) \<Rightarrow> ('d, 'x, unit) tx" where
  "breaker_failure upd = bindE now (\<lambda>t s. (Inr (), s\<lparr>ext := upd (RecordFailure t) (ext s)\<rparr>))"

definition gateway_Charge :: "ChargeRequest \<Rightarrow> ('y, ChargeResult) sagatx" where
  "gateway_Charge req s =
     (let e = sched s (pos s) in
      (Charge (fail_orders (ext s)) (fresh e) (clock e) req, s\<lparr>pos := Suc (pos s)\<rparr>))"

definition unavailable :: "err \<Rightarrow> ('d, 'x, 'a) tx" where
  "unavailable e = failE (StatusErr Unavailable (err_text e))"

section \<open>Helpers\<close>

definition orderTotal :: "OrderLine list \<Rightarrow> int64" where
  "orderTotal lines = foldl (\<lambda>acc l. acc + scast (ol_qty l) * ol_price l) 0 lines"

definition event_line :: "OrderLine \<Rightarrow> json" where
  "event_line l =
     JObj [(''sku_id'', JStr (ol_sku l)), (''warehouse_id'', JStr (ol_wh l)), (''quantity'', JInt (sint (ol_qty l)))]"

text \<open>\<^verbatim>\<open>omitempty\<close> leaves the lines out when there are none.\<close>

definition marshalOrderEvent :: "string \<Rightarrow> string \<Rightarrow> int64 \<Rightarrow> OrderLine list \<Rightarrow> json" where
  "marshalOrderEvent state orderID amount lines =
     JObj ([(''event_type'', JStr (''order.'' @ to_lower state)), (''order_id'', JStr orderID),
            (''total_amount'', JInt (sint amount))] @
           (if lines = [] then [] else [(''lines'', JArr (map event_line lines))]))"

definition reserveItems :: "OrderLine list \<Rightarrow> ReservationItem list" where
  "reserveItems lines = map (\<lambda>l. \<lparr>it_sku = ol_sku l, it_wh = ol_wh l, it_qty = ol_qty l\<rparr>) lines"

definition stockLines :: "OrderLine list \<Rightarrow> StockLine list" where
  "stockLines lines = map (\<lambda>l. \<lparr>sl_sku = ol_sku l, sl_wh = ol_wh l, sl_qty = ol_qty l\<rparr>) lines"

definition reasonOrDefault :: "string \<Rightarrow> string \<Rightarrow> string" where
  "reasonOrDefault r def = (if r = '''' then def else r)"

definition line_of_row :: "OrderLineRow \<Rightarrow> OrderLine" where
  "line_of_row l = \<lparr>ol_sku = olr_sku l, ol_wh = olr_wh l, ol_qty = olr_qty l, ol_price = olr_price l\<rparr>"

record sagaInput =
  in_tenant :: string
  in_uuid :: uuid
  in_order :: string
  in_lines :: "OrderLine list"
  in_key :: string
  in_ttl :: int
  in_force_fail :: bool

section \<open>The transactions of the saga\<close>

definition mirror_status :: "string \<Rightarrow> string \<Rightarrow> OrderRow \<Rightarrow> ('x, unit) otx" where
  "mirror_status orderID state cur =
     (if state = SagaConfirmed
      then bindE (UpdateOrderStatus orderID OrderConfirmed (or_txn cur)) (\<lambda>_. returnE ())
      else if state = SagaCompensated
      then bindE (UpdateOrderStatus orderID OrderCompensated '''') (\<lambda>_. returnE ())
      else if state = SagaFailed
      then bindE (UpdateOrderStatus orderID OrderFailed '''') (\<lambda>_. returnE ())
      else returnE ())"

definition transition_body ::
  "ctx \<Rightarrow> uuid \<Rightarrow> string \<Rightarrow> string \<Rightarrow> int32 \<Rightarrow> string \<Rightarrow> ('x, unit) otx" where
  "transition_body c t orderID state step errMsg =
     bindE (GetOrderById orderID) (\<lambda>cur.
     bindE (UpdateSagaState orderID state step errMsg) (\<lambda>_.
     bindE (order_InsertOutboxEvent t ''order'' (t @ '':'' @ orderID) (''order.'' @ to_lower state)
              (marshalOrderEvent state orderID (or_total cur) []) (TraceparentText c)) (\<lambda>_.
     mirror_status orderID state cur)))"

definition transition ::
  "lib \<Rightarrow> ctx \<Rightarrow> uuid \<Rightarrow> string \<Rightarrow> string \<Rightarrow> int32 \<Rightarrow> string \<Rightarrow> ('x, unit) otx" where
  "transition L c t orderID state step errMsg =
     ExecTxWithTenant L c (transition_body c t orderID state step errMsg)"

definition failSaga :: "lib \<Rightarrow> ctx \<Rightarrow> string \<Rightarrow> string \<Rightarrow> string \<Rightarrow> ('x, unit) otx" where
  "failSaga L c tenantID orderID msg =
     (case ParseUUID L tenantID of
        Inl e \<Rightarrow> failE e
      | Inr t \<Rightarrow> transition L c t orderID SagaFailed (-1) msg)"

definition compensation_request :: "string \<Rightarrow> string \<Rightarrow> string \<Rightarrow> ReleaseRequest" where
  "compensation_request tenantID orderID reason =
     \<lparr>rl_tenant = tenantID, rl_reservation = '''', rl_order = orderID, rl_reason = reason,
      rl_key = CompensationKey tenantID orderID\<rparr>"

definition compensate :: "lib \<Rightarrow> ctx \<Rightarrow> string \<Rightarrow> string \<Rightarrow> string \<Rightarrow> ('y, unit) sagatx" where
  "compensate L c tenantID orderID reason =
     (case ParseUUID L tenantID of
        Inl e \<Rightarrow> failE e
      | Inr t \<Rightarrow>
          bindE (mapErr (Wrapped ''release: '')
                   (rpc (res_call (Release L (incoming L c) (compensation_request tenantID orderID reason))))) (\<lambda>_.
          transition L c t orderID SagaCompensated (-1) reason))"

definition recordTransaction :: "lib \<Rightarrow> ctx \<Rightarrow> string \<Rightarrow> string \<Rightarrow> ('x, unit) otx" where
  "recordTransaction L c orderID txn =
     ExecTxWithTenant L c (bindE (UpdateOrderStatus orderID OrderPending txn) (\<lambda>_. returnE ()))"

definition getSaga :: "lib \<Rightarrow> ctx \<Rightarrow> string \<Rightarrow> ('x, SagaInstance) otx" where
  "getSaga L c orderID = ExecTxWithTenant L c (GetSagaInstance orderID)"

section \<open>runSaga\<close>

definition saga_reserve_request :: "sagaInput \<Rightarrow> ReserveRequest" where
  "saga_reserve_request inp =
     \<lparr>rq_tenant = in_tenant inp, rq_order = in_order inp, rq_key = in_key inp @ '':reserve'',
      rq_items = reserveItems (in_lines inp), rq_ttl = word_of_int (in_ttl inp div 1000000)\<rparr>"

definition saga_charge_request :: "sagaInput \<Rightarrow> ChargeRequest" where
  "saga_charge_request inp =
     \<lparr>ch_order = in_order inp, ch_tenant = in_tenant inp, ch_amount = orderTotal (in_lines inp),
      ch_currency = ''USD'', ch_key = in_key inp @ '':charge'', ch_force_fail = False\<rparr>"

definition saga_allocate_request :: "sagaInput \<Rightarrow> AllocateReservationRequest" where
  "saga_allocate_request inp =
     \<lparr>ar_tenant = in_tenant inp, ar_order = in_order inp, ar_key = in_key inp @ '':allocate''\<rparr>"

definition saga_confirm_request :: "sagaInput \<Rightarrow> ConfirmStockAllocationRequest" where
  "saga_confirm_request inp =
     \<lparr>cnf_tenant = in_tenant inp, cnf_order = in_order inp, cnf_key = in_key inp @ '':confirm'',
      cnf_lines = stockLines (in_lines inp)\<rparr>"

text \<open>A step that failed: mark the saga \<^verbatim>\<open>FAILED\<close>, ignoring the outcome of that, and answer \<^verbatim>\<open>Internal\<close>.\<close>

definition fail_step :: "lib \<Rightarrow> ctx \<Rightarrow> sagaInput \<Rightarrow> string \<Rightarrow> err \<Rightarrow> ('x, 'a) otx" where
  "fail_step L c inp what e =
     bindE (attempt (failSaga L c (in_tenant inp) (in_order inp) (what @ err_text e))) (\<lambda>_.
     internal_error what e)"

text \<open>Step 3: allocate the reservation rows, then the stock, then confirm.\<close>

definition saga_confirm :: "lib \<Rightarrow> ctx \<Rightarrow> sagaInput \<Rightarrow> string \<Rightarrow> ('y, CreateOrderResponse) sagatx" where
  "saga_confirm L c inp txnID =
     bindE (catchE (breaker_allow stockBreaker stockBreaker_update) unavailable) (\<lambda>_.
     bindE (attempt (rpc (stock_call (ConfirmStockAllocation L (incoming L c) (saga_confirm_request inp))))) (\<lambda>r.
     case r of
       Inl e \<Rightarrow> bindE (breaker_failure stockBreaker_update) (\<lambda>_. fail_step L c inp ''confirm: '' e)
     | Inr _ \<Rightarrow>
         bindE (breaker_success stockBreaker_update) (\<lambda>_.
         bindE (catchE (transition L c (in_uuid inp) (in_order inp) SagaConfirmed 3 '''')
                  (internal_error ''saga transition: '')) (\<lambda>_.
         returnE \<lparr>cor_order = in_order inp, cor_status = SagaConfirmed, cor_total = orderTotal (in_lines inp),
                  cor_txn = txnID\<rparr>))))"

definition saga_allocate :: "lib \<Rightarrow> ctx \<Rightarrow> sagaInput \<Rightarrow> string \<Rightarrow> ('y, CreateOrderResponse) sagatx" where
  "saga_allocate L c inp txnID =
     bindE (attempt (rpc (res_call (AllocateReservation L (incoming L c) (saga_allocate_request inp))))) (\<lambda>r.
     case r of
       Inl e \<Rightarrow> bindE (breaker_failure resBreaker_update) (\<lambda>_. fail_step L c inp ''allocate: '' e)
     | Inr _ \<Rightarrow> bindE (breaker_success resBreaker_update) (\<lambda>_. saga_confirm L c inp txnID))"

text \<open>Step 2: charge; the value is \<^verbatim>\<open>chargeErr\<close> or the transaction id.\<close>

definition charge_order :: "sagaInput \<Rightarrow> ('y, err + string) sagatx" where
  "charge_order inp =
     (if in_force_fail inp then returnE (Inl (ErrPaymentDeclined ''''))
      else
        bindE (catchE (breaker_allow payBreaker payBreaker_update) unavailable) (\<lambda>_.
        bindE (attempt (gateway_Charge (saga_charge_request inp))) (\<lambda>r.
        case r of
          Inl e \<Rightarrow>
            bindE (if \<not> declined e then breaker_failure payBreaker_update else breaker_success payBreaker_update) (\<lambda>_.
            returnE (Inl e))
        | Inr res \<Rightarrow> bindE (breaker_success payBreaker_update) (\<lambda>_. returnE (Inr (chr_txn res))))))"

definition compensate_order :: "lib \<Rightarrow> ctx \<Rightarrow> sagaInput \<Rightarrow> ('y, CreateOrderResponse) sagatx" where
  "compensate_order L c inp =
     bindE (attempt (compensate L c (in_tenant inp) (in_order inp) ''payment_failed'')) (\<lambda>r.
     case r of
       Inl compErr \<Rightarrow>
         bindE (attempt (failSaga L c (in_tenant inp) (in_order inp)
                  (''payment failed AND compensation error: '' @ err_text compErr))) (\<lambda>_.
         internal_error ''compensate: '' compErr)
     | Inr _ \<Rightarrow>
         returnE \<lparr>cor_order = in_order inp, cor_status = SagaCompensated, cor_total = orderTotal (in_lines inp),
                  cor_txn = ''''\<rparr>)"

definition saga_pay :: "lib \<Rightarrow> ctx \<Rightarrow> sagaInput \<Rightarrow> ('y, CreateOrderResponse) sagatx" where
  "saga_pay L c inp =
     bindE (charge_order inp) (\<lambda>r.
     case r of
       Inl _ \<Rightarrow> compensate_order L c inp
     | Inr txnID \<Rightarrow>
         bindE (catchE (recordTransaction L c (in_order inp) txnID) (internal_error ''record transaction: '')) (\<lambda>_.
         saga_allocate L c inp txnID))"

definition runSaga :: "lib \<Rightarrow> ctx \<Rightarrow> sagaInput \<Rightarrow> ('y, CreateOrderResponse) sagatx" where
  "runSaga L c inp =
     bindE (catchE (breaker_allow resBreaker resBreaker_update) unavailable) (\<lambda>_.
     bindE (attempt (rpc (res_call (Reserve L (incoming L c) (saga_reserve_request inp))))) (\<lambda>r.
     case r of
       Inl e \<Rightarrow> bindE (breaker_failure resBreaker_update) (\<lambda>_. fail_step L c inp ''reserve: '' e)
     | Inr resResp \<Rightarrow>
         bindE (breaker_success resBreaker_update) (\<lambda>_.
         if \<not> rqr_success resResp
         then bindE (attempt (failSaga L c (in_tenant inp) (in_order inp) ''insufficient stock'')) (\<lambda>_.
           returnE \<lparr>cor_order = in_order inp, cor_status = SagaFailed, cor_total = 0, cor_txn = ''''\<rparr>)
         else
           bindE (catchE (transition L c (in_uuid inp) (in_order inp) SagaReserved 1 '''')
                    (internal_error ''saga transition: '')) (\<lambda>_.
           saga_pay L c inp))))"

section \<open>CreateOrder\<close>

definition insert_order_line :: "uuid \<Rightarrow> CreateOrderRequest \<Rightarrow> OrderLine \<Rightarrow> ('x, unit) otx" where
  "insert_order_line t req l =
     bindE (InsertOrderLine t (co_order req) (ol_sku l) (ol_wh l) (ol_qty l) (ol_price l)) (\<lambda>_. returnE ())"

definition create_body :: "lib \<Rightarrow> uuid \<Rightarrow> CreateOrderRequest \<Rightarrow> int64 \<Rightarrow> ('x, uuid) otx" where
  "create_body L t req amount =
     bindE (seen_key order_CheckAndInsertIdempotencyKey t (co_key req) (PayloadHash L (M_CreateOrder req))) (\<lambda>dup.
     if dup then failE ErrIdempotentReplay
     else
       bindE (UpsertOrder t (co_order req) OrderPending amount ''USD'') (\<lambda>o'.
       bindE (forE (co_lines req) (insert_order_line t req)) (\<lambda>_.
       bindE (UpsertSagaInstance t (co_order req) SagaPendingPayment 0 (co_key req)) (\<lambda>_.
       returnE (or_id o')))))"

definition createOrderRow :: "lib \<Rightarrow> ctx \<Rightarrow> uuid \<Rightarrow> CreateOrderRequest \<Rightarrow> int64 \<Rightarrow> ('x, uuid) otx" where
  "createOrderRow L c t req amount = ExecTxWithTenant L c (create_body L t req amount)"

definition replayCreateOrder :: "lib \<Rightarrow> ctx \<Rightarrow> CreateOrderRequest \<Rightarrow> ('x, CreateOrderResponse) otx" where
  "replayCreateOrder L c req =
     catchE
       (bindE (getSaga L c (co_order req)) (\<lambda>saga.
        returnE \<lparr>cor_order = co_order req, cor_status = sg_state saga, cor_total = 0, cor_txn = ''''\<rparr>))
       (internal_error ''replay: '')"

definition create_input :: "uuid \<Rightarrow> CreateOrderRequest \<Rightarrow> sagaInput" where
  "create_input t req =
     \<lparr>in_tenant = co_tenant req, in_uuid = t, in_order = co_order req, in_lines = co_lines req,
      in_key = co_key req, in_ttl = reserve_ttl (co_ttl req), in_force_fail = co_force_fail req\<rparr>"

definition CreateOrder :: "lib \<Rightarrow> ctx \<Rightarrow> CreateOrderRequest \<Rightarrow> ('y, CreateOrderResponse) sagatx" where
  "CreateOrder L c req =
     (case ParseUUID L (co_tenant req) of
        Inl e \<Rightarrow> invalid_argument (err_text e)
      | Inr t \<Rightarrow>
          (let c' = WithTenantID c (co_tenant req) in
           if co_order req = '''' then invalid_argument ''order_id is required''
           else if co_lines req = [] then invalid_argument ''no lines provided''
           else if sint (orderTotal (co_lines req)) \<le> 0 then invalid_argument ''order total must be positive''
           else
             bindE (attempt (createOrderRow L c' t req (orderTotal (co_lines req)))) (\<lambda>r.
             case r of
               Inl e \<Rightarrow>
                 if err_is e ErrIdempotentReplay then replayCreateOrder L c' req
                 else internal_error ''create order: '' e
             | Inr _ \<Rightarrow> runSaga L c' (create_input t req))))"

section \<open>ResumePendingSagas\<close>

definition resume_input :: "SagaInstance \<Rightarrow> OrderLineRow list \<Rightarrow> sagaInput" where
  "resume_input g ls =
     \<lparr>in_tenant = sg_tenant g, in_uuid = sg_tenant g, in_order = sg_order g, in_lines = map line_of_row ls,
      in_key = sg_key g, in_ttl = defaultTTL, in_force_fail = False\<rparr>"

definition resume_saga :: "lib \<Rightarrow> ctx \<Rightarrow> SagaInstance \<Rightarrow> ('y, unit) sagatx" where
  "resume_saga L c g =
     (let c' = WithTenantID c (sg_tenant g) in
      bindE (mapErr (Wrapped (''resume '' @ sg_order g @ '': load lines: ''))
               (ExecTxWithTenant L c' (GetOrderLines (sg_order g)))) (\<lambda>ls.
      bindE (attempt (runSaga L c' (resume_input g ls))) (\<lambda>_.
      returnE ())))"

definition ResumePendingSagas :: "lib \<Rightarrow> ctx \<Rightarrow> int32 \<Rightarrow> ('y, unit) sagatx" where
  "ResumePendingSagas L c limit =
     bindE (mapErr (Wrapped ''scan resumable sagas: '') (ExecTxNoTenant (GetResumableSagas limit))) (\<lambda>rows.
     bindE (forE rows (resume_saga L c)) (\<lambda>_.
     returnE ()))"

section \<open>GetOrder, CancelOrder, FulfillOrder\<close>

definition get_order_body :: "GetOrderRequest \<Rightarrow> ('x, GetOrderResponse) otx" where
  "get_order_body req =
     bindE (catchE (GetOrderById (go_order req))
              (\<lambda>e. if err_is e ErrNoRows then failE (StatusErr NotFound ''order not found'') else failE e)) (\<lambda>o'.
     bindE (GetOrderLines (go_order req)) (\<lambda>lines.
     bindE (GetSagaInstance (go_order req)) (\<lambda>saga.
     returnE \<lparr>gor_order = or_order o', gor_status = or_status o', gor_total = or_total o',
              gor_lines = map line_of_row lines, gor_saga = sg_state saga, gor_txn = or_txn o',
              gor_created = word_of_int (Unix (or_created o'))\<rparr>)))"

definition GetOrder :: "lib \<Rightarrow> ctx \<Rightarrow> GetOrderRequest \<Rightarrow> ('x, GetOrderResponse) otx" where
  "GetOrder L c req =
     (case ParseUUID L (go_tenant req) of
        Inl e \<Rightarrow> invalid_argument (err_text e)
      | Inr t \<Rightarrow> ExecTxWithTenant L (WithTenantID c (go_tenant req)) (get_order_body req))"

definition CancelOrder :: "lib \<Rightarrow> ctx \<Rightarrow> CancelOrderRequest \<Rightarrow> ('y, CancelOrderResponse) sagatx" where
  "CancelOrder L c req =
     (case ParseUUID L (can_tenant req) of
        Inl e \<Rightarrow> invalid_argument (err_text e)
      | Inr t \<Rightarrow>
          (let c' = WithTenantID c (can_tenant req) in
           bindE (catchE (getSaga L c' (can_order req)) (internal_error ''get saga: '')) (\<lambda>saga.
           if sg_state saga = SagaAllocated \<or> sg_state saga = SagaConfirmed
           then returnE \<lparr>canr_success = False, canr_status = sg_state saga\<rparr>
           else if sg_state saga = SagaCompensated \<or> sg_state saga = SagaFailed
           then returnE \<lparr>canr_success = True, canr_status = sg_state saga\<rparr>
           else
             bindE (catchE (compensate L c' (can_tenant req) (can_order req)
                              (reasonOrDefault (can_reason req) ''customer_cancel''))
                      (internal_error ''compensate: '')) (\<lambda>_.
             returnE \<lparr>canr_success = True, canr_status = SagaCompensated\<rparr>))))"

definition fulfilled_reply :: FulfillOrderResponse where
  "fulfilled_reply = \<lparr>for_success = True, for_status = OrderFulfilled\<rparr>"

definition failed_precondition :: "string \<Rightarrow> ('d, 'x, 'a) tx" where
  "failed_precondition m = failE (StatusErr FailedPrecondition m)"

text \<open>The order is already \<^verbatim>\<open>FULFILLED\<close>: only the original request, replayed, succeeds.\<close>

definition fulfill_replay :: "lib \<Rightarrow> uuid \<Rightarrow> FulfillOrderRequest \<Rightarrow> ('x, FulfillOrderResponse) otx" where
  "fulfill_replay L t req =
     (if fo_key req = '''' then failed_precondition (''order '' @ fo_order req @ '' is already FULFILLED'')
      else
        bindE (catchE (GetIdempotencyKey t (fo_key req))
                 (\<lambda>e. if err_is e ErrNoRows
                      then failed_precondition (''order '' @ fo_order req @ '' is already FULFILLED'')
                      else failE e)) (\<lambda>storedHash.
        if storedHash \<noteq> PayloadHash L (M_FulfillOrder req)
        then failed_precondition (''order '' @ fo_order req @ '' is already FULFILLED (payload mismatch)'')
        else returnE fulfilled_reply))"

text \<open>The key is on record already: a replay, or a collision with another request.\<close>

definition fulfill_known_key :: "lib \<Rightarrow> uuid \<Rightarrow> FulfillOrderRequest \<Rightarrow> ('x, FulfillOrderResponse) otx" where
  "fulfill_known_key L t req =
     bindE (GetIdempotencyKey t (fo_key req)) (\<lambda>storedHash.
     if storedHash = PayloadHash L (M_FulfillOrder req) then returnE fulfilled_reply
     else failed_precondition (''idempotency key '' @ fo_key req @ '' already used with a different payload''))"

definition fulfill_event_line :: "OrderLineRow \<Rightarrow> OrderLine" where
  "fulfill_event_line l = \<lparr>ol_sku = olr_sku l, ol_wh = olr_wh l, ol_qty = olr_qty l, ol_price = 0\<rparr>"

definition fulfill_write :: "ctx \<Rightarrow> uuid \<Rightarrow> FulfillOrderRequest \<Rightarrow> OrderRow \<Rightarrow> ('x, FulfillOrderResponse) otx" where
  "fulfill_write c t req o' =
     bindE (GetOrderLines (fo_order req)) (\<lambda>lines.
     bindE (UpdateOrderStatus (fo_order req) OrderFulfilled (or_txn o')) (\<lambda>_.
     bindE (order_InsertOutboxEvent t ''order'' (t @ '':'' @ fo_order req) ''order.fulfilled''
              (marshalOrderEvent OrderFulfilled (fo_order req) (or_total o') (map fulfill_event_line lines))
              (TraceparentText c)) (\<lambda>_.
     returnE fulfilled_reply)))"

definition fulfill_order_body :: "lib \<Rightarrow> ctx \<Rightarrow> uuid \<Rightarrow> FulfillOrderRequest \<Rightarrow> ('x, FulfillOrderResponse) otx" where
  "fulfill_order_body L c t req =
     bindE (catchE (GetOrderById (fo_order req))
              (\<lambda>e. if err_is e ErrNoRows then failE (StatusErr NotFound ''order not found'') else failE e)) (\<lambda>o'.
     if or_status o' = OrderFulfilled then fulfill_replay L t req
     else if or_status o' \<noteq> OrderConfirmed
     then failed_precondition (''order '' @ fo_order req @ '' is '' @ or_status o' @ '', must be CONFIRMED'')
     else
       bindE (seen_key order_CheckAndInsertIdempotencyKey t (fo_key req) (PayloadHash L (M_FulfillOrder req))) (\<lambda>dup.
       if dup then fulfill_known_key L t req else fulfill_write c t req o'))"

definition FulfillOrder :: "lib \<Rightarrow> ctx \<Rightarrow> FulfillOrderRequest \<Rightarrow> ('x, FulfillOrderResponse) otx" where
  "FulfillOrder L c req =
     (case ParseUUID L (fo_tenant req) of
        Inl e \<Rightarrow> invalid_argument (err_text e)
      | Inr t \<Rightarrow>
          (let c' = WithTenantID c (fo_tenant req) in
           ExecTxWithTenant L c' (fulfill_order_body L c' t req)))"

section \<open>The service\<close>

datatype order_op =
    OpCreate CreateOrderRequest
  | OpGet GetOrderRequest
  | OpCancel CancelOrderRequest
  | OpFulfill FulfillOrderRequest
  | OpResume int32

datatype order_reply =
    ReplyCreate CreateOrderResponse
  | ReplyGet GetOrderResponse
  | ReplyCancel CancelOrderResponse
  | ReplyFulfill FulfillOrderResponse
  | ReplyResume

fun order_serve :: "lib \<Rightarrow> ctx \<Rightarrow> order_op \<Rightarrow> ('y, order_reply) sagatx" where
  "order_serve L c (OpCreate req) = bindE (CreateOrder L c req) (\<lambda>r. returnE (ReplyCreate r))"
| "order_serve L c (OpGet req) = bindE (GetOrder L c req) (\<lambda>r. returnE (ReplyGet r))"
| "order_serve L c (OpCancel req) = bindE (CancelOrder L c req) (\<lambda>r. returnE (ReplyCancel r))"
| "order_serve L c (OpFulfill req) = bindE (FulfillOrder L c req) (\<lambda>r. returnE (ReplyFulfill r))"
| "order_serve L c (OpResume limit) = bindE (ResumePendingSagas L c limit) (\<lambda>_. returnE ReplyResume)"

end
