(* ===== verification/Hoare.thy ===== *)
theory Hoare
  imports TxLogic
begin

text \<open>
  Hoare triples for transactions: what holds of the tables after a run that returns and after one
  that fails, from a session with a given tenant scope. The rule of \<^verbatim>\<open>ExecTxWithTenant\<close> says what a
  transaction that reports an error can have done: nothing, or everything when only the
  acknowledgement of its commit was lost.
\<close>

definition triple ::
  "rls \<Rightarrow> ('d \<Rightarrow> bool) \<Rightarrow> ('d, 'x, 'a) tx \<Rightarrow> ('a \<Rightarrow> 'd \<Rightarrow> bool) \<Rightarrow> ('d \<Rightarrow> bool) \<Rightarrow> bool" where
  "triple sc P m Q R \<longleftrightarrow>
     (\<forall>s. scope s = sc \<and> P (data s) \<longrightarrow>
        scope (snd (m s)) = sc \<and>
        (case fst (m s) of Inl e \<Rightarrow> R (data (snd (m s))) | Inr a \<Rightarrow> Q a (data (snd (m s)))))"

lemma tripleD:
  assumes "triple sc P m Q R" "scope s = sc" "P (data s)" "m s = (r, s')"
  shows "scope s' = sc" and "\<And>a. r = Inr a \<Longrightarrow> Q a (data s')" and "\<And>e. r = Inl e \<Longrightarrow> R (data s')"
proof -
  from assms(1-3) have "scope (snd (m s)) = sc \<and>
        (case fst (m s) of Inl e \<Rightarrow> R (data (snd (m s))) | Inr a \<Rightarrow> Q a (data (snd (m s))))"
    unfolding triple_def by blast
  with assms(4) show "scope s' = sc" and "\<And>a. r = Inr a \<Longrightarrow> Q a (data s')" and "\<And>e. r = Inl e \<Longrightarrow> R (data s')"
    by auto
qed

lemma triple_run: "triple sc P m (\<lambda>_. Q) Q \<Longrightarrow> scope s = sc \<Longrightarrow> P (data s) \<Longrightarrow> Q (data (snd (m s)))"
  unfolding triple_def by (metis (mono_tags, lifting) sum.case_eq_if)

lemma tripleI:
  fixes m :: "('d, 'x, 'a) tx"
  assumes "\<And>s r s'. scope s = sc \<Longrightarrow> P (data s) \<Longrightarrow> m s = (r, s') \<Longrightarrow>
     scope s' = sc \<and> (\<forall>a. r = Inr a \<longrightarrow> Q a (data s')) \<and> (\<forall>e. r = Inl e \<longrightarrow> R (data s'))"
  shows "triple sc P m Q R"
  unfolding triple_def
proof (intro allI impI)
  fix s :: "('d, 'x) sess" assume "scope s = sc \<and> P (data s)"
  with assms [of s "fst (m s)" "snd (m s)"]
  show "scope (snd (m s)) = sc \<and> (case fst (m s) of Inl e \<Rightarrow> R (data (snd (m s))) | Inr a \<Rightarrow> Q a (data (snd (m s))))"
    by (auto split: sum.split)
qed

lemma triple_conseq:
  assumes "triple sc P m Q R" "\<And>d. P' d \<Longrightarrow> P d" "\<And>a d. Q a d \<Longrightarrow> Q' a d" "\<And>d. R d \<Longrightarrow> R' d"
  shows "triple sc P' m Q' R'"
proof (rule tripleI)
  fix s r s' assume s: "scope s = sc" "P' (data s)" "m s = (r, s')"
  from tripleD [OF assms(1) s(1) assms(2) [OF s(2)] s(3)] assms(3,4)
  show "scope s' = sc \<and> (\<forall>a. r = Inr a \<longrightarrow> Q' a (data s')) \<and> (\<forall>e. r = Inl e \<longrightarrow> R' (data s'))"
    by blast
qed

lemma triple_weaken: "triple sc P m Q R \<Longrightarrow> (\<And>d. R d \<Longrightarrow> R' d) \<Longrightarrow> triple sc P m Q R'"
  by (erule triple_conseq) auto

lemma triple_strengthen: "triple sc P m Q R \<Longrightarrow> (\<And>d. P' d \<Longrightarrow> P d) \<Longrightarrow> triple sc P' m Q R"
  by (erule triple_conseq) auto

lemma triple_returnE: "(\<And>d. P d \<Longrightarrow> Q a d) \<Longrightarrow> triple sc P (returnE a) Q R"
  by (rule tripleI) auto

lemma triple_failE: "(\<And>d. P d \<Longrightarrow> R d) \<Longrightarrow> triple sc P (failE e) Q R"
  by (rule tripleI) auto

lemma triple_bindE:
  assumes m: "triple sc P m Q R" and f: "\<And>a. triple sc (Q a) (f a) Q' R"
  shows "triple sc P (bindE m f) Q' R"
proof (rule tripleI)
  fix s r s' assume s: "scope s = sc" "P (data s)" "bindE m f s = (r, s')"
  obtain r1 s1 where m1: "m s = (r1, s1)" by fastforce
  note first = tripleD [OF m s(1,2) m1]
  show "scope s' = sc \<and> (\<forall>a. r = Inr a \<longrightarrow> Q' a (data s')) \<and> (\<forall>e. r = Inl e \<longrightarrow> R (data s'))"
  proof (cases r1)
    case (Inl e)
    with m1 s(3) first show ?thesis by (auto simp: bindE_def)
  next
    case (Inr a)
    with m1 s(3) have "f a s1 = (r, s')" by (simp add: bindE_def)
    from tripleD [OF f first(1) first(2) [OF Inr] this] show ?thesis by blast
  qed
qed

lemma triple_attempt:
  "triple sc P m (\<lambda>a. Q (Inr a)) (\<lambda>d. \<forall>e. Q (Inl e) d) \<Longrightarrow> triple sc P (attempt m) Q R"
  unfolding triple_def attempt_def by (auto simp: case_prod_beta split: sum.split_asm) (metis sum.exhaust)

lemma triple_catchE:
  assumes m: "triple sc P m Q R'" and h: "\<And>e. triple sc R' (h e) Q R"
  shows "triple sc P (catchE m h) Q R"
proof (rule tripleI)
  fix s r s' assume s: "scope s = sc" "P (data s)" "catchE m h s = (r, s')"
  obtain r1 s1 where m1: "m s = (r1, s1)" by fastforce
  note first = tripleD [OF m s(1,2) m1]
  show "scope s' = sc \<and> (\<forall>a. r = Inr a \<longrightarrow> Q a (data s')) \<and> (\<forall>e. r = Inl e \<longrightarrow> R (data s'))"
  proof (cases r1)
    case (Inl e)
    with m1 s(3) have "h e s1 = (r, s')" by (simp add: catchE_def)
    from tripleD [OF h first(1) first(3) [OF Inl] this] show ?thesis by blast
  next
    case (Inr a)
    with m1 s(3) first show ?thesis by (auto simp: catchE_def)
  qed
qed

lemma triple_mapErr: "triple sc P m Q R \<Longrightarrow> triple sc P (mapErr g m) Q R"
  unfolding triple_def mapErr_def by (auto simp: case_prod_beta split: sum.split sum.split_asm)

lemma triple_if:
  "(b \<Longrightarrow> triple sc P m Q R) \<Longrightarrow> (\<not> b \<Longrightarrow> triple sc P n Q R) \<Longrightarrow> triple sc P (if b then m else n) Q R"
  by simp

lemma triple_case_sum:
  "(\<And>e. r = Inl e \<Longrightarrow> triple sc P (f e) Q R) \<Longrightarrow> (\<And>a. r = Inr a \<Longrightarrow> triple sc P (g a) Q R) \<Longrightarrow>
     triple sc P (case r of Inl e \<Rightarrow> f e | Inr a \<Rightarrow> g a) Q R"
  by (cases r) auto

lemma triple_stmt:
  assumes "\<And>e d a d'. P d \<Longrightarrow> f e sc d = Inr (a, d') \<Longrightarrow> Q a d'" "\<And>d. P d \<Longrightarrow> R d"
  shows "triple sc P (stmt f) Q R"
  by (rule tripleI) (auto simp: stmt_def Let_def assms split: option.splits sum.splits prod.splits)

text \<open>An operation that leaves the tables and the scope alone.\<close>

lemma triple_frame:
  assumes "frame data m" "frame scope m"
  shows "triple sc P m (\<lambda>_. P) P"
  by (rule tripleI) (metis assms frameD)

lemma triple_keeps: "keeps P m \<Longrightarrow> frame scope m \<Longrightarrow> triple sc P m (\<lambda>_. P) P"
  by (rule tripleI) (auto dest: keeps_step frameD)

text \<open>A precondition that pins the tables down can be proved table by table.\<close>

lemma triple_from: "(\<And>d. P d \<Longrightarrow> triple sc (\<lambda>d'. d' = d) m Q R) \<Longrightarrow> triple sc P m Q R"
  unfolding triple_def by blast

lemma triple_skip:
  assumes "frame data m" "frame scope m" "\<And>d. P d \<Longrightarrow> R d" "\<And>a. triple sc P (f a) Q R"
  shows "triple sc P (bindE m f) Q R"
  by (rule triple_bindE [OF triple_conseq [OF triple_frame [OF assms(1,2), of sc P]] assms(4)]) (simp_all add: assms(3))

lemma triple_step:
  assumes "triple sc P m Q R'" "\<And>d. R' d \<Longrightarrow> R d" "\<And>a. triple sc (Q a) (f a) Q' R"
  shows "triple sc P (bindE m f) Q' R"
  by (rule triple_bindE [OF triple_weaken [OF assms(1,2)] assms(3)])

lemma triple_forE:
  assumes "\<And>l ls. triple sc (I (l # ls)) (f l) (\<lambda>_. I ls) R"
  shows "triple sc (I ls) (forE ls f) (\<lambda>_. I []) R"
proof (induction ls)
  case Nil
  show ?case unfolding forE.simps by (rule triple_returnE)
next
  case (Cons l ls)
  show ?case unfolding forE.simps
    by (rule triple_bindE [OF assms], rule triple_bindE [OF Cons.IH], rule triple_returnE, assumption)
qed

lemma triple_in_tx:
  assumes "triple sc P m Q R'"
  shows "triple sc P (in_tx m) Q (\<lambda>d. P d \<or> (\<exists>a. Q a d))"
proof (rule tripleI)
  fix s :: "('a, 'b) sess" and r s' assume s: "scope s = sc" "P (data s)" and run: "in_tx m s = (r, s')"
  obtain r1 s1 where m1: "m s = (r1, s1)" by fastforce
  note first = tripleD [OF assms s m1]
  show "scope s' = sc \<and> (\<forall>a. r = Inr a \<longrightarrow> Q a (data s')) \<and> (\<forall>e. r = Inl e \<longrightarrow> P (data s') \<or> (\<exists>a. Q a (data s')))"
    using run m1 s(2) first
    by (auto simp: in_tx_def commit_or_rollback_def Let_def split: sum.splits option.splits fault.splits)
qed

lemma triple_with_scope:
  fixes m :: "('d, 'x, 'a) tx"
  assumes "triple sc' P m Q R"
  shows "triple sc P (with_scope sc' m) Q R"
proof (rule tripleI)
  fix s :: "('d, 'x) sess" and r s' assume s: "scope s = sc" "P (data s)" "with_scope sc' m s = (r, s')"
  then obtain s1 where s1: "m (s\<lparr>scope := sc'\<rparr>) = (r, s1)" "s' = s1\<lparr>scope := sc\<rparr>"
    by (auto simp: with_scope_eq)
  from tripleD [OF assms _ _ s1(1)] s(2) s1(2)
  show "scope s' = sc \<and> (\<forall>a. r = Inr a \<longrightarrow> Q a (data s')) \<and> (\<forall>e. r = Inl e \<longrightarrow> R (data s'))" by simp
qed

lemma triple_begin: "triple sc P begin_tx (\<lambda>_. P) P" "triple sc P SetTenantRLS (\<lambda>_. P) P"
  by (rule triple_keeps; intro keeps_intros frame_intros)+

lemma triple_ExecTxNoTenant:
  assumes "triple Bypass P m Q R'"
  shows "triple sc P (ExecTxNoTenant m) Q (\<lambda>d. P d \<or> (\<exists>a. Q a d))"
  unfolding ExecTxNoTenant_def
  by (rule triple_step [OF triple_begin(1) _ triple_with_scope [OF triple_in_tx [OF assms]]]) simp

lemma triple_ExecTxWithTenant:
  assumes "triple (Scoped (uuid_scan L (ctx_tenant c))) P m Q R'"
  shows "triple sc P (ExecTxWithTenant L c m) Q (\<lambda>d. P d \<or> (\<exists>a. Q a d))"
proof -
  have "triple (Scoped (uuid_scan L (ctx_tenant c))) P (bindE SetTenantRLS (\<lambda>_. m)) Q (\<lambda>d. P d \<or> R' d)"
    by (rule triple_step [OF triple_begin(2)], simp, rule triple_weaken [OF assms], simp)
  note body = triple_with_scope [OF triple_in_tx [OF this], of sc]
  have tenant: "triple sc P (liftE (TenantIDFromContext c)) (\<lambda>x d. x = ctx_tenant c \<and> P d) P"
    by (rule tripleI) auto
  have "triple sc (\<lambda>d. x = ctx_tenant c \<and> P d)
      (bindE begin_tx (\<lambda>_. with_scope (Scoped (uuid_scan L x)) (in_tx (bindE SetTenantRLS (\<lambda>_. m))))) Q
      (\<lambda>d. P d \<or> (\<exists>a. Q a d))" for x
  proof (rule triple_from, elim conjE)
    fix d assume "x = ctx_tenant c" "P d"
    have "triple sc P (bindE begin_tx (\<lambda>_. with_scope (Scoped (uuid_scan L x)) (in_tx (bindE SetTenantRLS (\<lambda>_. m))))) Q
      (\<lambda>d. P d \<or> (\<exists>a. Q a d))"
      unfolding \<open>x = ctx_tenant c\<close> by (rule triple_step [OF triple_begin(1) _ body]) simp
    then show "triple sc (\<lambda>d'. d' = d) (bindE begin_tx (\<lambda>_. with_scope (Scoped (uuid_scan L x)) (in_tx (bindE SetTenantRLS (\<lambda>_. m))))) Q
      (\<lambda>d. P d \<or> (\<exists>a. Q a d))" by (rule triple_strengthen) (simp add: \<open>P d\<close>)
  qed
  from triple_step [OF tenant _ this] show ?thesis unfolding ExecTxWithTenant_def by simp
qed

end
