(* ===== verification/OrderRecords.thy ===== *)
theory OrderRecords
  imports OrderService Hoare
begin

text \<open>
  The records of an order: what the rows of \<^verbatim>\<open>orders\<close>, \<^verbatim>\<open>saga_instances\<close> and \<^verbatim>\<open>outbox\<close> say about it,
  and the state machine they move along under every operation of the order service, whatever
  statement, commit or call fails.
\<close>

section \<open>The view of one order\<close>

definition order_of :: "uuid \<Rightarrow> string \<Rightarrow> order_db \<Rightarrow> OrderRow option" where
  "order_of t ord d = find (\<lambda>r. or_tenant r = t \<and> or_order r = ord) (orders d)"

definition saga_of :: "uuid \<Rightarrow> string \<Rightarrow> order_db \<Rightarrow> SagaInstance option" where
  "saga_of t ord d = find (\<lambda>g. sg_tenant g = t \<and> sg_order g = ord) (sagas d)"

definition fulfilled_event :: "uuid \<Rightarrow> string \<Rightarrow> Outbox \<Rightarrow> bool" where
  "fulfilled_event t ord e \<longleftrightarrow>
     ob_tenant e = t \<and> ob_aggid e = t @ '':'' @ ord \<and> ob_type e = ''order.fulfilled''"

text \<open>The state of the saga, the status of the order, the number of \<^verbatim>\<open>order.fulfilled\<close> events.\<close>

type_synonym order_view = "string option \<times> string option \<times> nat"

definition view :: "order_db \<Rightarrow> uuid \<times> string \<Rightarrow> order_view" where
  "view d k =
     (map_option sg_state (saga_of (fst k) (snd k) d), map_option or_status (order_of (fst k) (snd k) d),
      length (filter (fulfilled_event (fst k) (snd k)) (order_outbox d)))"

inductive saga_step :: "order_view \<Rightarrow> order_view \<Rightarrow> bool" where
  Created: "saga_step (None, None, 0) (Some SagaPendingPayment, Some OrderPending, 0)"
| Reserved: "st \<in> {SagaPendingPayment, SagaReserved} \<Longrightarrow>
    saga_step (Some st, Some OrderPending, 0) (Some SagaReserved, Some OrderPending, 0)"
| Confirmed: "saga_step (Some SagaReserved, Some OrderPending, 0) (Some SagaConfirmed, Some OrderConfirmed, 0)"
| Compensated: "st \<in> {SagaPendingPayment, SagaReserved} \<Longrightarrow>
    saga_step (Some st, Some OrderPending, 0) (Some SagaCompensated, Some OrderCompensated, 0)"
| Abandoned: "st \<in> {SagaPendingPayment, SagaReserved} \<Longrightarrow>
    saga_step (Some st, Some OrderPending, 0) (Some SagaFailed, Some OrderFailed, 0)"
| CompensationUnacknowledged:
    "saga_step (Some SagaCompensated, Some OrderCompensated, 0) (Some SagaFailed, Some OrderFailed, 0)"
| Fulfilled: "saga_step (Some SagaConfirmed, Some OrderConfirmed, 0) (Some SagaConfirmed, Some OrderFulfilled, 1)"

text \<open>The views in which the three tables agree.\<close>

definition agreeing :: "order_view \<Rightarrow> bool" where
  "agreeing v \<longleftrightarrow>
     v \<in> {(None, None, 0), (Some SagaPendingPayment, Some OrderPending, 0), (Some SagaReserved, Some OrderPending, 0),
          (Some SagaConfirmed, Some OrderConfirmed, 0), (Some SagaConfirmed, Some OrderFulfilled, 1),
          (Some SagaCompensated, Some OrderCompensated, 0), (Some SagaFailed, Some OrderFailed, 0)}"

definition records_agree :: "order_db \<Rightarrow> bool" where
  "records_agree d \<longleftrightarrow> (\<forall>k. agreeing (view d k))"

lemma saga_states_distinct [simp]:
  "SagaPendingPayment \<noteq> SagaReserved" "SagaPendingPayment \<noteq> SagaConfirmed" "SagaPendingPayment \<noteq> SagaCompensated"
  "SagaPendingPayment \<noteq> SagaFailed" "SagaReserved \<noteq> SagaConfirmed" "SagaReserved \<noteq> SagaCompensated"
  "SagaReserved \<noteq> SagaFailed" "SagaConfirmed \<noteq> SagaCompensated" "SagaConfirmed \<noteq> SagaFailed"
  "SagaCompensated \<noteq> SagaFailed" "SagaReserved \<noteq> SagaPendingPayment" "SagaConfirmed \<noteq> SagaPendingPayment"
  "SagaCompensated \<noteq> SagaPendingPayment" "SagaFailed \<noteq> SagaPendingPayment" "SagaConfirmed \<noteq> SagaReserved"
  "SagaCompensated \<noteq> SagaReserved" "SagaFailed \<noteq> SagaReserved" "SagaCompensated \<noteq> SagaConfirmed"
  "SagaFailed \<noteq> SagaConfirmed" "SagaFailed \<noteq> SagaCompensated" "SagaAllocated \<noteq> SagaConfirmed"
  by (simp_all add: saga_states)

lemma order_states_distinct [simp]:
  "OrderPending \<noteq> OrderConfirmed" "OrderPending \<noteq> OrderFulfilled" "OrderPending \<noteq> OrderCompensated"
  "OrderPending \<noteq> OrderFailed" "OrderConfirmed \<noteq> OrderFulfilled" "OrderConfirmed \<noteq> OrderCompensated"
  "OrderConfirmed \<noteq> OrderFailed" "OrderFulfilled \<noteq> OrderCompensated" "OrderFulfilled \<noteq> OrderFailed"
  "OrderCompensated \<noteq> OrderFailed" "OrderConfirmed \<noteq> OrderPending" "OrderFulfilled \<noteq> OrderPending"
  "OrderCompensated \<noteq> OrderPending" "OrderFailed \<noteq> OrderPending" "OrderFulfilled \<noteq> OrderConfirmed"
  "OrderCompensated \<noteq> OrderConfirmed" "OrderFailed \<noteq> OrderConfirmed" "OrderCompensated \<noteq> OrderFulfilled"
  "OrderFailed \<noteq> OrderFulfilled" "OrderFailed \<noteq> OrderCompensated"
  by (simp_all add: order_states)

lemma saga_step_agreeing: "saga_step v v' \<Longrightarrow> agreeing v'"
  by (cases rule: saga_step.cases) (auto simp: agreeing_def)

lemma saga_steps_agreeing: "saga_step\<^sup>*\<^sup>* v v' \<Longrightarrow> agreeing v \<Longrightarrow> agreeing v'"
  by (induction rule: rtranclp_induct) (auto intro: saga_step_agreeing)

section \<open>What the statements do to the view\<close>

lemma order_at_scoped [simp]: "order_at (Scoped (Some t)) ord = (\<lambda>r. or_tenant r = t \<and> or_order r = ord)"
  by (auto simp: order_at_def rls_visible_def fun_eq_iff)

lemma saga_at_scoped [simp]: "saga_at (Scoped (Some t)) ord = (\<lambda>g. sg_tenant g = t \<and> sg_order g = ord)"
  by (auto simp: saga_at_def rls_visible_def fun_eq_iff)

lemma find_map_same: "(\<And>x. P (f x) = P x) \<Longrightarrow> find P (map f xs) = map_option f (find P xs)"
  by (induction xs) auto

lemma order_of_set:
  "order_of t' ord' (d\<lparr>orders := map (set_order (Scoped (Some t)) ord st txn n) (orders d)\<rparr>) =
     map_option (set_order (Scoped (Some t)) ord st txn n) (order_of t' ord' d)"
  unfolding order_of_def by (simp add: find_map_same set_order_def)

lemma saga_of_set:
  "saga_of t' ord' (d\<lparr>sagas := map (set_saga (Scoped (Some t)) ord st step er n) (sagas d)\<rparr>) =
     map_option (set_saga (Scoped (Some t)) ord st step er n) (saga_of t' ord' d)"
  unfolding saga_of_def by (simp add: find_map_same set_saga_def)

lemma find_append: "find P (xs @ ys) = (case find P xs of None \<Rightarrow> find P ys | Some x \<Rightarrow> Some x)"
  by (induction xs) auto

lemma of_update [simp]:
  "order_of t ord (d\<lparr>sagas := gs\<rparr>) = order_of t ord d" "order_of t ord (d\<lparr>order_outbox := es\<rparr>) = order_of t ord d"
  "order_of t ord (d\<lparr>order_keys := ks\<rparr>) = order_of t ord d" "order_of t ord (d\<lparr>order_lines := ls\<rparr>) = order_of t ord d"
  "saga_of t ord (d\<lparr>orders := os\<rparr>) = saga_of t ord d" "saga_of t ord (d\<lparr>order_outbox := es\<rparr>) = saga_of t ord d"
  "saga_of t ord (d\<lparr>order_keys := ks\<rparr>) = saga_of t ord d" "saga_of t ord (d\<lparr>order_lines := ls\<rparr>) = saga_of t ord d"
  by (simp_all add: order_of_def saga_of_def)

lemma order_of_keys: "order_of t ord d = Some r \<Longrightarrow> or_tenant r = t \<and> or_order r = ord"
  by (auto simp: order_of_def find_Some_iff)

lemma saga_of_keys: "saga_of t ord d = Some g \<Longrightarrow> sg_tenant g = t \<and> sg_order g = ord"
  by (auto simp: saga_of_def find_Some_iff)

lemma GetOrderById_Inr:
  "GetOrderById ord s = (Inr r, s') \<Longrightarrow> scope s = Scoped (Some t) \<Longrightarrow>
     order_of t ord (data s) = Some r \<and> data s' = data s \<and> scope s' = scope s"
  unfolding GetOrderById_def order_of_def by (auto elim!: stmt_InrE split: option.splits)

lemma GetSagaInstance_Inr:
  "GetSagaInstance ord s = (Inr g, s') \<Longrightarrow> scope s = Scoped (Some t) \<Longrightarrow>
     saga_of t ord (data s) = Some g \<and> data s' = data s \<and> scope s' = scope s"
  unfolding GetSagaInstance_def saga_of_def by (auto elim!: stmt_InrE split: option.splits)

lemma UpdateSagaState_Inr:
  assumes "UpdateSagaState ord st step er s = (Inr g', s')" "scope s = Scoped (Some t)"
  obtains v n where "view (data s) (t, ord) = (Some v, n)" "view (data s') = (view (data s))((t, ord) := (Some st, n))"
    "scope s' = scope s"
    "\<And>t' ord'. order_of t' ord' (data s') = order_of t' ord' (data s)"
proof -
  from assms obtain g where g: "saga_of t ord (data s) = Some g"
    and d: "data s' = (data s)\<lparr>sagas := map (set_saga (Scoped (Some t)) ord st step er (clock (sched s (pos s)))) (sagas (data s))\<rparr>"
    and sc: "scope s' = scope s"
    unfolding UpdateSagaState_def saga_of_def by (auto elim!: stmt_InrE split: option.splits if_splits)
  have "view (data s') = (view (data s))((t, ord) := (Some st, snd (view (data s) (t, ord))))"
  proof
    fix k :: "uuid \<times> string"
    show "view (data s') k = ((view (data s))((t, ord) := (Some st, snd (view (data s) (t, ord))))) k"
      using g unfolding d view_def saga_of_set
      by (cases "saga_of (fst k) (snd k) (data s)") (auto simp: set_saga_def dest: saga_of_keys)
  qed
  moreover have "view (data s) (t, ord) = (Some (sg_state g), snd (view (data s) (t, ord)))"
    using g by (simp add: view_def)
  moreover have "order_of t' ord' (data s') = order_of t' ord' (data s)" for t' ord' by (simp add: d)
  ultimately show ?thesis using that sc by blast
qed

lemma UpdateOrderStatus_Inr:
  assumes "UpdateOrderStatus ord st txn s = (Inr o', s')" "scope s = Scoped (Some t)"
  obtains v os n where "view (data s) (t, ord) = (v, Some os, n)"
    "view (data s') = (view (data s))((t, ord) := (v, Some st, n))" "scope s' = scope s"
proof -
  from assms obtain g where g: "order_of t ord (data s) = Some g"
    and d: "data s' = (data s)\<lparr>orders := map (set_order (Scoped (Some t)) ord st txn (clock (sched s (pos s)))) (orders (data s))\<rparr>"
    and sc: "scope s' = scope s"
    unfolding UpdateOrderStatus_def order_of_def by (auto elim!: stmt_InrE split: option.splits if_splits)
  let ?v = "fst (view (data s) (t, ord))" and ?n = "snd (snd (view (data s) (t, ord)))"
  have "view (data s') = (view (data s))((t, ord) := (?v, Some st, ?n))"
  proof
    fix k :: "uuid \<times> string"
    show "view (data s') k = ((view (data s))((t, ord) := (?v, Some st, ?n))) k"
      using g unfolding d view_def order_of_set
      by (cases "order_of (fst k) (snd k) (data s)") (auto simp: set_order_def dest: order_of_keys)
  qed
  moreover have "view (data s) (t, ord) = (?v, Some (or_status g), ?n)"
    using g by (simp add: view_def)
  ultimately show ?thesis using that sc by blast
qed

lemma order_InsertOutboxEvent_Inr:
  assumes "order_InsertOutboxEvent t ''order'' (t @ '':'' @ ord) et pl tr s = (Inr r, s')"
  shows "view (data s') = (\<lambda>k. if et = ''order.fulfilled'' \<and> k = (t, ord)
           then map_prod id (map_prod id Suc) (view (data s) k) else view (data s) k)"
    and "scope s' = scope s" and "\<And>t' ord'. order_of t' ord' (data s') = order_of t' ord' (data s)"
proof -
  from assms have d: "data s' = (data s)\<lparr>order_outbox := order_outbox (data s) @ [r]\<rparr>"
    and r: "ob_tenant r = t" "ob_aggid r = t @ '':'' @ ord" "ob_type r = et" and sc: "scope s' = scope s"
    unfolding order_InsertOutboxEvent_def
    by (auto elim!: stmt_InrE split: sum.splits dest!: insert_outbox_Inr)
  show "view (data s') = (\<lambda>k. if et = ''order.fulfilled'' \<and> k = (t, ord)
           then map_prod id (map_prod id Suc) (view (data s) k) else view (data s) k)"
    by (rule ext) (auto simp: d view_def fulfilled_event_def r)
  show "scope s' = scope s" by (rule sc)
  show "order_of t' ord' (data s') = order_of t' ord' (data s)" for t' ord' by (simp add: d)
qed

section \<open>The transactions of the saga move along the machine\<close>

definition saga_edge :: "string \<Rightarrow> string \<Rightarrow> bool" where
  "saga_edge a b \<longleftrightarrow>
     b = SagaReserved \<and> a \<in> {SagaPendingPayment, SagaReserved} \<or>
     b = SagaConfirmed \<and> a = SagaReserved \<or>
     b = SagaCompensated \<and> a \<in> {SagaPendingPayment, SagaReserved} \<or>
     b = SagaFailed \<and> a \<in> {SagaPendingPayment, SagaReserved, SagaCompensated}"

text \<open>The status that \<^verbatim>\<open>transition\<close> leaves on the order row.\<close>

definition mirrored :: "string \<Rightarrow> string option \<Rightarrow> string option" where
  "mirrored st os =
     (if st = SagaConfirmed then Some OrderConfirmed else if st = SagaCompensated then Some OrderCompensated
      else if st = SagaFailed then Some OrderFailed else os)"

text \<open>
  From the tables \<^verbatim>\<open>d0\<close> only the order \<^verbatim>\<open>(t, ord)\<close> has moved, along the machine, into one of the states
  of \<^verbatim>\<open>A\<close>.
\<close>

definition progress :: "order_db \<Rightarrow> uuid \<Rightarrow> string \<Rightarrow> string set \<Rightarrow> order_db \<Rightarrow> bool" where
  "progress d0 t ord A d \<longleftrightarrow>
     agreeing (view d0 (t, ord)) \<and> (\<forall>k. k \<noteq> (t, ord) \<longrightarrow> view d k = view d0 k) \<and>
     saga_step\<^sup>*\<^sup>* (view d0 (t, ord)) (view d (t, ord)) \<and> (\<exists>st \<in> A. fst (view d (t, ord)) = Some st)"

lemma progress_mono: "progress d0 t ord A d \<Longrightarrow> A \<subseteq> B \<Longrightarrow> progress d0 t ord B d"
  by (auto simp: progress_def)

lemma saga_edge_step:
  assumes "agreeing (Some a, os, n)" "saga_edge a b"
  shows "saga_step (Some a, os, n) (Some b, mirrored b os, n)"
proof -
  have "a \<in> {SagaPendingPayment, SagaReserved} \<and> os = Some OrderPending \<and> n = 0 \<or>
      a = SagaCompensated \<and> os = Some OrderCompensated \<and> n = 0 \<and> b = SagaFailed"
    using assms by (auto simp: saga_edge_def agreeing_def)
  with assms(2) show ?thesis
    by (auto simp: saga_edge_def mirrored_def intro: saga_step.intros)
qed

lemma progress_move:
  assumes "progress d0 t ord A d" "\<forall>a \<in> A. saga_edge a b" "view d (t, ord) = (v, os, n)"
    and "view d' = (view d)((t, ord) := (Some b, mirrored b os, n))"
  shows "progress d0 t ord {b} d'"
proof -
  from assms(1,3) obtain a where a: "a \<in> A" "v = Some a" by (auto simp: progress_def)
  from assms(1) have "agreeing (view d (t, ord))" by (auto simp: progress_def intro: saga_steps_agreeing)
  with a assms(2,3) have "saga_step (view d (t, ord)) (view d' (t, ord))"
    by (simp add: assms(4) saga_edge_step)
  with assms(1) have "saga_step\<^sup>*\<^sup>* (view d0 (t, ord)) (view d' (t, ord))"
    by (auto simp: progress_def)
  with assms(1,4) show ?thesis by (simp add: progress_def)
qed

lemma progress_same:
  "progress d0 t ord A d \<Longrightarrow> view d' = view d \<Longrightarrow> progress d0 t ord A d'"
  by (simp add: progress_def)

lemma to_lower_states:
  "to_lower SagaReserved = ''reserved''" "to_lower SagaConfirmed = ''confirmed''"
  "to_lower SagaCompensated = ''compensated''" "to_lower SagaFailed = ''failed''"
  by code_simp+

lemma saga_event_type: "saga_edge a st \<Longrightarrow> to_lower st \<noteq> ''fulfilled''"
  by (auto simp: saga_edge_def to_lower_states)

lemma mirror_status_Inr:
  assumes "mirror_status ord st cur s = (Inr u, s')" "scope s = Scoped (Some t)" "view (data s) (t, ord) = (v, os, n)"
  shows "view (data s') = (view (data s))((t, ord) := (v, mirrored st os, n))"
  using assms unfolding mirror_status_def
  by (auto simp: mirrored_def elim!: bindE_InrE UpdateOrderStatus_Inr split: if_splits)

lemma transition_body_Inr:
  assumes run: "transition_body c t ord st step msg s = (Inr u, s')" and sc: "scope s = Scoped (Some t)"
    and "saga_edge a st" and v: "view (data s) (t, ord) = (v, os, n)"
  shows "view (data s') = (view (data s))((t, ord) := (Some st, mirrored st os, n))"
proof -
  from run obtain cur s1 g s2 r s3 where get: "GetOrderById ord s = (Inr cur, s1)"
    and upd: "UpdateSagaState ord st step msg s1 = (Inr g, s2)"
    and ev: "order_InsertOutboxEvent t ''order'' (t @ '':'' @ ord) (''order.'' @ to_lower st)
              (marshalOrderEvent st ord (or_total cur) []) (TraceparentText c) s2 = (Inr r, s3)"
    and mir: "mirror_status ord st cur s3 = (Inr u, s')"
    unfolding transition_body_def by (elim bindE_InrE)
  note g = GetOrderById_Inr [OF get sc]
  from g sc have "scope s1 = Scoped (Some t)" by simp
  from UpdateSagaState_Inr [OF upd this] g v obtain v' where
    s2: "view (data s2) = (view (data s))((t, ord) := (Some st, os, n))" "scope s2 = Scoped (Some t)"
    using sc by (metis Pair_inject prod.inject)
  from order_InsertOutboxEvent_Inr(1,2) [OF ev] s2 saga_event_type [OF assms(3)]
  have s3: "view (data s3) = view (data s2)" "scope s3 = Scoped (Some t)" by (simp_all add: fun_eq_iff)
  from mirror_status_Inr [OF mir s3(2), of "Some st" os n] s2 s3 show ?thesis by simp
qed

lemma triple_transition:
  assumes "uuid_scan L (ctx_tenant c) = Some t" "A \<noteq> {}" "\<forall>a \<in> A. saga_edge a st"
  shows "triple sc (progress d0 t ord A) (transition L c t ord st step msg)
           (\<lambda>_. progress d0 t ord {st}) (progress d0 t ord (insert st A))"
proof -
  have "triple (Scoped (uuid_scan L (ctx_tenant c))) (progress d0 t ord A) (transition_body c t ord st step msg)
           (\<lambda>_. progress d0 t ord {st}) (\<lambda>_. True)"
  proof (rule tripleI, intro conjI allI impI TrueI)
    fix s :: "(order_db, 'b) sess" and r s'
    assume s: "scope s = Scoped (uuid_scan L (ctx_tenant c))" "progress d0 t ord A (data s)"
      and run: "transition_body c t ord st step msg s = (r, s')"
    have "frame scope (transition_body c t ord st step msg :: ('b, unit) otx)"
      unfolding transition_body_def mirror_status_def by (intro frame_intros)
    from frameD [OF this run] s show "scope s' = Scoped (uuid_scan L (ctx_tenant c))" by simp
    fix u assume "r = Inr u"
    obtain v os n where v: "view (data s) (t, ord) = (v, os, n)" by (metis prod_cases3)
    from s(2) obtain a where "a \<in> A" by (auto simp: progress_def)
    with assms(3) have "saga_edge a st" by blast
    with run \<open>r = Inr u\<close> s assms(1) v
    have "view (data s') = (view (data s))((t, ord) := (Some st, mirrored st os, n))"
      by (intro transition_body_Inr) simp_all
    from progress_move [OF s(2) assms(3) v this] show "progress d0 t ord {st} (data s')" .
  qed
  from triple_ExecTxWithTenant [OF this] show ?thesis unfolding transition_def
    by (rule triple_conseq) (auto intro: progress_mono)
qed

section \<open>The steps of the saga\<close>

lemma frame_saga_parts [frame_intros]:
  "frame data (breaker_allow get upd)" "frame scope (breaker_allow get upd)"
  "frame data (breaker_success upd)" "frame scope (breaker_success upd)"
  "frame data (breaker_failure upd)" "frame scope (breaker_failure upd)"
  "frame data (gateway_Charge req)" "frame scope (gateway_Charge req)"
  "frame data (unavailable e)" "frame scope (unavailable e)"
  "frame data (internal_error what e)" "frame scope (internal_error what e)"
  by (auto simp: frame_def breaker_allow_def breaker_success_def breaker_failure_def gateway_Charge_def now_def
      bindE_def unavailable_def internal_error_def Let_def case_prod_beta)

lemma frame_charge_order [frame_intros]: "frame data (charge_order inp)" "frame scope (charge_order inp)"
  unfolding charge_order_def by (intro frame_intros)+

lemma triple_internal: "(\<And>d. P d \<Longrightarrow> R d) \<Longrightarrow> triple sc P (internal_error what e) Q R"
  unfolding internal_error_def by (rule triple_failE)

lemma triple_failSaga:
  assumes "uuid_scan L (ctx_tenant c) = Some t" "ctx_tenant c = tenant"
    and "A \<noteq> {}" "A \<subseteq> {SagaPendingPayment, SagaReserved, SagaCompensated}"
  shows "triple sc (progress d0 t ord A) (failSaga L c tenant ord msg)
           (\<lambda>_. progress d0 t ord {SagaFailed}) (progress d0 t ord (insert SagaFailed A))"
proof -
  have "\<forall>a \<in> A. saga_edge a SagaFailed" using assms(4) by (auto simp: saga_edge_def)
  from triple_transition [OF assms(1,3) this] assms(1,2) show ?thesis
    by (simp add: failSaga_def ParseUUID_def)
qed

text \<open>Where a saga that started in \<^verbatim>\<open>A\<close> may be when the run failed.\<close>

lemma triple_fail_attempt:
  assumes "uuid_scan L (ctx_tenant c) = Some t" "ctx_tenant c = tenant"
    and "A \<noteq> {}" "A \<subseteq> {SagaPendingPayment, SagaReserved, SagaCompensated}"
    and "\<And>a. triple sc (progress d0 t ord (insert SagaFailed A)) (f a) Q R"
  shows "triple sc (progress d0 t ord A) (bindE (attempt (failSaga L c tenant ord msg)) f) Q R"
  by (rule triple_bindE [OF triple_attempt assms(5)],
      rule triple_conseq [OF triple_failSaga [OF assms(1-4)]]) (auto intro: progress_mono)

lemma triple_fail_step:
  assumes "uuid_scan L (ctx_tenant c) = Some t" "ctx_tenant c = in_tenant inp" "in_order inp = ord"
    and "A \<noteq> {}" "A \<subseteq> {SagaPendingPayment, SagaReserved, SagaCompensated}"
  shows "triple sc (progress d0 t ord A) (fail_step L c inp what e) Q (progress d0 t ord (insert SagaFailed A))"
  unfolding fail_step_def assms(3) by (rule triple_fail_attempt [OF assms(1,2,4,5) triple_internal])

lemma triple_compensate:
  assumes "uuid_scan L (ctx_tenant c) = Some t" "ctx_tenant c = tenant"
    and "A \<noteq> {}" "A \<subseteq> {SagaPendingPayment, SagaReserved}"
  shows "triple sc (progress d0 t ord A) (compensate L c tenant ord reason)
           (\<lambda>_. progress d0 t ord {SagaCompensated}) (progress d0 t ord (insert SagaCompensated A))"
proof -
  have "\<forall>a \<in> A. saga_edge a SagaCompensated" using assms(4) by (auto simp: saga_edge_def)
  note tr = triple_transition [OF assms(1,3) this]
  have comp: "compensate L c tenant ord reason =
      bindE (mapErr (Wrapped ''release: '') (rpc (res_call (Release L (incoming L c) (compensation_request tenant ord reason)))))
        (\<lambda>_. transition L c t ord SagaCompensated (-1) reason)"
    using assms(1,2) by (simp add: compensate_def ParseUUID_def)
  show ?thesis unfolding comp
    by (rule triple_skip [OF _ _ _ tr], (intro frame_intros)+, rule progress_mono, assumption, blast)
qed

lemma triple_recordTransaction:
  assumes "uuid_scan L (ctx_tenant c) = Some t" "A \<subseteq> {SagaPendingPayment, SagaReserved}"
  shows "triple sc (progress d0 t ord A) (recordTransaction L c ord txn)
           (\<lambda>_. progress d0 t ord A) (progress d0 t ord A)"
proof -
  have "triple (Scoped (uuid_scan L (ctx_tenant c))) (progress d0 t ord A)
      (bindE (UpdateOrderStatus ord OrderPending txn) (\<lambda>_. returnE ())) (\<lambda>_. progress d0 t ord A) (\<lambda>_. True)"
  proof (rule triple_bindE [OF tripleI triple_returnE])
    fix s :: "(order_db, 'b) sess" and r s'
    assume s: "scope s = Scoped (uuid_scan L (ctx_tenant c))" "progress d0 t ord A (data s)"
      and run: "UpdateOrderStatus ord OrderPending txn s = (r, s')"
    have "scope s' = Scoped (uuid_scan L (ctx_tenant c))"
      using frameD [OF frame_order_queries(9) [OF aside_parts(1)] run] s by simp
    moreover have "progress d0 t ord A (data s')" if "r = Inr o'" for o'
    proof -
      from that run s(1) assms(1) obtain v os n where v: "view (data s) (t, ord) = (v, Some os, n)"
        "view (data s') = (view (data s))((t, ord) := (v, Some OrderPending, n))"
        by (auto elim: UpdateOrderStatus_Inr [where t = t])
      from s(2) obtain a where "a \<in> A" "v = Some a" using v(1) by (auto simp: progress_def)
      moreover from s(2) have "agreeing (view (data s) (t, ord))"
        by (auto simp: progress_def intro: saga_steps_agreeing)
      ultimately have "os = OrderPending" using v(1) assms(2) by (auto simp: agreeing_def)
      with v have "view (data s') = view (data s)" by (simp add: fun_upd_idem)
      with s(2) show ?thesis by (rule progress_same)
    qed
    ultimately show "scope s' = Scoped (uuid_scan L (ctx_tenant c)) \<and>
        (\<forall>o'. r = Inr o' \<longrightarrow> progress d0 t ord A (data s')) \<and> (\<forall>e. r = Inl e \<longrightarrow> True)" by blast
  qed simp
  from triple_ExecTxWithTenant [OF this] show ?thesis unfolding recordTransaction_def
    by (rule triple_conseq) auto
qed

definition all_states :: "string set" where
  "all_states = {SagaPendingPayment, SagaReserved, SagaConfirmed, SagaCompensated, SagaFailed}"

definition told :: "string \<Rightarrow> string set" where
  "told st = (if st = SagaFailed then {SagaPendingPayment, SagaReserved, SagaFailed} else {st})"

text \<open>The input of the saga belongs to the order \<^verbatim>\<open>(t, ord)\<close> of the context's tenant.\<close>

definition saga_for :: "lib \<Rightarrow> ctx \<Rightarrow> sagaInput \<Rightarrow> uuid \<Rightarrow> string \<Rightarrow> bool" where
  "saga_for L c inp t ord \<longleftrightarrow>
     uuid_scan L (ctx_tenant c) = Some t \<and> ctx_tenant c = in_tenant inp \<and> in_uuid inp = t \<and> in_order inp = ord"

lemma to_all_states: "progress d0 t ord A d \<Longrightarrow> A \<subseteq> all_states \<Longrightarrow> progress d0 t ord all_states d"
  by (rule progress_mono)

lemma triple_or_internal:
  assumes "triple sc P m Q R'" "\<And>d. R' d \<Longrightarrow> R d"
  shows "triple sc P (catchE m (internal_error what)) Q R"
  by (rule triple_catchE [OF assms(1)]) (rule triple_internal, rule assms(2))

lemma triple_fail_all:
  assumes "saga_for L c inp t ord" "A \<noteq> {}" "A \<subseteq> {SagaPendingPayment, SagaReserved, SagaCompensated}"
  shows "triple sc (progress d0 t ord A) (fail_step L c inp what e) Q (progress d0 t ord all_states)"
proof -
  from assms(1) have "uuid_scan L (ctx_tenant c) = Some t" "ctx_tenant c = in_tenant inp" "in_order inp = ord"
    unfolding saga_for_def by blast+
  from triple_fail_step [OF this assms(2,3)] show ?thesis
    by (rule triple_weaken) (erule to_all_states, use assms(3) in \<open>auto simp: all_states_def\<close>)
qed

lemma triple_transition_all:
  assumes "saga_for L c inp t ord" "A \<noteq> {}" "\<forall>a \<in> A. saga_edge a st" "insert st A \<subseteq> all_states"
  shows "triple sc (progress d0 t ord A)
           (catchE (transition L c (in_uuid inp) (in_order inp) st step msg) (internal_error what))
           (\<lambda>_. progress d0 t ord {st}) (progress d0 t ord all_states)"
proof -
  from assms(1) have "uuid_scan L (ctx_tenant c) = Some t" and eq: "in_uuid inp = t" "in_order inp = ord"
    unfolding saga_for_def by blast+
  from triple_transition [OF this(1) assms(2,3)] show ?thesis unfolding eq
    by (rule triple_or_internal) (erule to_all_states, rule assms(4))
qed

lemma saga_skip:
  assumes "frame data m" "frame scope m" "A \<subseteq> all_states"
    and "\<And>a. triple sc (progress d0 t ord A) (f a) Q (progress d0 t ord all_states)"
  shows "triple sc (progress d0 t ord A) (bindE m f) Q (progress d0 t ord all_states)"
  by (rule triple_skip [OF assms(1,2) _ assms(4)]) (erule to_all_states, rule assms(3))

lemma states_in [simp]:
  "SagaPendingPayment \<in> all_states" "SagaReserved \<in> all_states" "SagaConfirmed \<in> all_states"
  "SagaCompensated \<in> all_states" "SagaFailed \<in> all_states"
  by (simp_all add: all_states_def)

lemma triple_saga_confirm:
  assumes "saga_for L c inp t ord"
  shows "triple sc (progress d0 t ord {SagaReserved}) (saga_confirm L c inp txn)
           (\<lambda>resp. progress d0 t ord (told (cor_status resp))) (progress d0 t ord all_states)"
proof -
  have tr: "triple sc (progress d0 t ord {SagaReserved})
      (catchE (transition L c (in_uuid inp) (in_order inp) SagaConfirmed 3 '''') (internal_error ''saga transition: ''))
      (\<lambda>_. progress d0 t ord {SagaConfirmed}) (progress d0 t ord all_states)"
    by (rule triple_transition_all [OF assms]) (simp_all add: saga_edge_def all_states_def)
  show ?thesis unfolding saga_confirm_def
    apply (rule saga_skip, (intro frame_intros)+, simp)
    apply (rule saga_skip, (intro frame_intros)+, simp)
    apply (rule triple_case_sum)
     apply (rule saga_skip, (intro frame_intros)+, simp, rule triple_fail_all [OF assms], simp, simp)
    apply (rule saga_skip, (intro frame_intros)+, simp)
    apply (rule triple_bindE [OF tr], rule triple_returnE, simp add: told_def)
    done
qed

lemma triple_saga_allocate:
  assumes "saga_for L c inp t ord"
  shows "triple sc (progress d0 t ord {SagaReserved}) (saga_allocate L c inp txn)
           (\<lambda>resp. progress d0 t ord (told (cor_status resp))) (progress d0 t ord all_states)"
  unfolding saga_allocate_def
  apply (rule saga_skip, (intro frame_intros)+, simp)
  apply (rule triple_case_sum)
   apply (rule saga_skip, (intro frame_intros)+, simp, rule triple_fail_all [OF assms], simp, simp)
  apply (rule saga_skip, (intro frame_intros)+, simp, rule triple_saga_confirm [OF assms])
  done

lemma triple_compensate_order:
  assumes "saga_for L c inp t ord"
  shows "triple sc (progress d0 t ord {SagaReserved}) (compensate_order L c inp)
           (\<lambda>resp. progress d0 t ord (told (cor_status resp))) (progress d0 t ord all_states)"
proof -
  from assms have inp: "uuid_scan L (ctx_tenant c) = Some t" "ctx_tenant c = in_tenant inp"
    and eq: "in_order inp = ord" unfolding saga_for_def by blast+
  let ?after = "\<lambda>r. case r of Inl _ \<Rightarrow> progress d0 t ord {SagaCompensated, SagaReserved}
      | Inr _ \<Rightarrow> progress d0 t ord {SagaCompensated}"
  have comp: "triple sc (progress d0 t ord {SagaReserved})
      (attempt (compensate L c (in_tenant inp) ord ''payment_failed'')) ?after (progress d0 t ord all_states)"
    by (rule triple_attempt, rule triple_conseq [OF triple_compensate [OF inp]]) auto
  have after: "triple sc (?after r)
      (case r of Inl e \<Rightarrow> bindE (attempt (failSaga L c (in_tenant inp) ord
                  (''payment failed AND compensation error: '' @ err_text e))) (\<lambda>_. internal_error ''compensate: '' e)
       | Inr u \<Rightarrow> returnE \<lparr>cor_order = ord, cor_status = SagaCompensated, cor_total = orderTotal (in_lines inp), cor_txn = ''''\<rparr>)
      (\<lambda>resp. progress d0 t ord (told (cor_status resp))) (progress d0 t ord all_states)" for r
  proof (cases r)
    case (Inl e)
    then show ?thesis
      by (simp, intro triple_fail_attempt [OF inp] triple_internal) (auto intro: to_all_states)
  next
    case (Inr u)
    then show ?thesis by (simp, intro triple_returnE) (simp add: told_def)
  qed
  show ?thesis unfolding compensate_order_def eq by (rule triple_bindE [OF comp after])
qed

lemma triple_saga_pay:
  assumes "saga_for L c inp t ord"
  shows "triple sc (progress d0 t ord {SagaReserved}) (saga_pay L c inp)
           (\<lambda>resp. progress d0 t ord (told (cor_status resp))) (progress d0 t ord all_states)"
proof -
  from assms have inp: "uuid_scan L (ctx_tenant c) = Some t" and eq: "in_order inp = ord"
    unfolding saga_for_def by blast+
  have rec: "triple sc (progress d0 t ord {SagaReserved})
      (catchE (recordTransaction L c (in_order inp) txn) (internal_error ''record transaction: ''))
      (\<lambda>_. progress d0 t ord {SagaReserved}) (progress d0 t ord all_states)" for txn
    unfolding eq by (rule triple_or_internal [OF triple_recordTransaction [OF inp]]) (simp, erule to_all_states, simp)
  show ?thesis unfolding saga_pay_def
    by (rule saga_skip, (intro frame_intros)+, simp, rule triple_case_sum, rule triple_compensate_order [OF assms])
      (rule triple_bindE [OF rec triple_saga_allocate [OF assms]])
qed

lemma triple_runSaga:
  assumes "saga_for L c inp t ord"
  shows "triple sc (progress d0 t ord {SagaPendingPayment, SagaReserved}) (runSaga L c inp)
           (\<lambda>resp. progress d0 t ord (told (cor_status resp))) (progress d0 t ord all_states)"
proof -
  from assms have inp: "uuid_scan L (ctx_tenant c) = Some t" "ctx_tenant c = in_tenant inp"
    and eq: "in_order inp = ord" unfolding saga_for_def by blast+
  have tr: "triple sc (progress d0 t ord {SagaPendingPayment, SagaReserved})
      (catchE (transition L c (in_uuid inp) (in_order inp) SagaReserved 1 '''') (internal_error ''saga transition: ''))
      (\<lambda>_. progress d0 t ord {SagaReserved}) (progress d0 t ord all_states)"
    by (rule triple_transition_all [OF assms]) (simp_all add: saga_edge_def all_states_def)
  have short: "triple sc (progress d0 t ord {SagaPendingPayment, SagaReserved})
      (bindE (attempt (failSaga L c (in_tenant inp) (in_order inp) ''insufficient stock'')) (\<lambda>_.
         returnE \<lparr>cor_order = in_order inp, cor_status = SagaFailed, cor_total = 0, cor_txn = ''''\<rparr>))
      (\<lambda>resp. progress d0 t ord (told (cor_status resp))) (progress d0 t ord all_states)"
    unfolding eq by (intro triple_fail_attempt [OF inp] triple_returnE) (auto simp: told_def intro: progress_mono)
  show ?thesis unfolding runSaga_def
    apply (rule saga_skip, (intro frame_intros)+, simp)
    apply (rule saga_skip, (intro frame_intros)+, simp)
    apply (rule triple_case_sum)
     apply (rule saga_skip, (intro frame_intros)+, simp, rule triple_fail_all [OF assms], simp, simp)
    apply (rule saga_skip, (intro frame_intros)+, simp)
    apply (rule triple_if, rule short, rule triple_bindE [OF tr triple_saga_pay [OF assms]])
    done
qed

section \<open>The operations\<close>

lemma keeps_view [keeps_intros]:
  "keeps (\<lambda>d. view d = v) (order_CheckAndInsertIdempotencyKey t k h)"
  "keeps (\<lambda>d. view d = v) (GetIdempotencyKey t k)" "keeps (\<lambda>d. view d = v) (GetOrderById ord)"
  "keeps (\<lambda>d. view d = v) (GetOrderLines ord)" "keeps (\<lambda>d. view d = v) (GetSagaInstance ord)"
  "keeps (\<lambda>d. view d = v) (GetResumableSagas lim)" "keeps (\<lambda>d. view d = v) (InsertOrderLine t ord sku wh q p)"
  unfolding order_query_defs Let_def
  by (rule keeps_stmt; auto simp: view_def fun_eq_iff split: sum.splits option.splits if_splits)+

definition advance :: "order_db \<Rightarrow> order_db \<Rightarrow> bool" where
  "advance d0 d \<longleftrightarrow> (\<forall>k. saga_step\<^sup>*\<^sup>* (view d0 k) (view d k))"

lemma advance_refl [simp]: "advance d d"
  by (simp add: advance_def)

lemma advance_trans: "advance d0 d1 \<Longrightarrow> advance d1 d2 \<Longrightarrow> advance d0 d2"
  unfolding advance_def by (meson rtranclp_trans)

lemma advance_view: "view d = view d' \<Longrightarrow> advance d0 d' \<Longrightarrow> advance d0 d"
  by (simp add: advance_def)

lemma advance_agree: "advance d0 d \<Longrightarrow> records_agree d0 \<Longrightarrow> records_agree d"
  unfolding advance_def records_agree_def by (blast intro: saga_steps_agreeing)

lemma progress_advance: "progress d0 t ord A d \<Longrightarrow> advance d0 d"
  unfolding advance_def progress_def by (metis rtranclp.rtrancl_refl)

lemma progress_start:
  "agreeing (view d (t, ord)) \<Longrightarrow> fst (view d (t, ord)) = Some st \<Longrightarrow> st \<in> A \<Longrightarrow> progress d t ord A d"
  by (auto simp: progress_def)

lemma UpsertOrder_Inr:
  assumes "UpsertOrder t ord st amount cur s = (Inr r, s')"
  shows "order_of t ord (data s) = None" "scope s' = scope s"
    and "view (data s') = (view (data s))((t, ord) := (fst (view (data s) (t, ord)), Some st, snd (snd (view (data s) (t, ord)))))"
proof -
  from assms have d: "data s' = (data s)\<lparr>orders := orders (data s) @ [r]\<rparr>"
    and r: "or_tenant r = t" "or_order r = ord" "or_status r = st"
    and none: "order_of t ord (data s) = None" and sc: "scope s' = scope s"
    unfolding UpsertOrder_def order_of_def Let_def
    by (auto elim!: stmt_InrE simp: list_ex_iff find_None_iff split: if_splits)
  show "order_of t ord (data s) = None" "scope s' = scope s" by (fact none, fact sc)
  have "order_of t' ord' (data s') = (if t' = t \<and> ord' = ord then Some r else order_of t' ord' (data s))" for t' ord'
    using none r by (auto simp: d order_of_def find_append split: option.splits)
  then show "view (data s') = (view (data s))((t, ord) := (fst (view (data s) (t, ord)), Some st, snd (snd (view (data s) (t, ord)))))"
    by (auto simp: view_def r d)
qed

lemma UpsertSagaInstance_Inr:
  assumes "UpsertSagaInstance t ord st step key s = (Inr g, s')"
  shows "saga_of t ord (data s) = None" "scope s' = scope s"
    and "view (data s') = (view (data s))((t, ord) := (Some st, snd (view (data s) (t, ord))))"
proof -
  from assms have d: "data s' = (data s)\<lparr>sagas := sagas (data s) @ [g]\<rparr>"
    and g: "sg_tenant g = t" "sg_order g = ord" "sg_state g = st"
    and none: "saga_of t ord (data s) = None" and sc: "scope s' = scope s"
    unfolding UpsertSagaInstance_def saga_of_def Let_def
    by (auto elim!: stmt_InrE simp: list_ex_iff find_None_iff split: if_splits)
  show "saga_of t ord (data s) = None" "scope s' = scope s" by (fact none, fact sc)
  have "saga_of t' ord' (data s') = (if t' = t \<and> ord' = ord then Some g else saga_of t' ord' (data s))" for t' ord'
    using none g by (auto simp: d saga_of_def find_append split: option.splits)
  then show "view (data s') = (view (data s))((t, ord) := (Some st, snd (view (data s) (t, ord))))"
    by (auto simp: view_def g d)
qed

lemma create_body_Inr:
  assumes run: "create_body L t req amount s = (Inr i, s')" and "agreeing (view (data s) (t, co_order req))"
  shows "progress (data s) t (co_order req) {SagaPendingPayment} (data s')"
proof -
  let ?ord = "co_order req" and ?v = "view (data s)"
  from run obtain s1 o' s2 us s3 g where
    key: "seen_key order_CheckAndInsertIdempotencyKey t (co_key req) (PayloadHash L (M_CreateOrder req)) s = (Inr False, s1)"
    and ins: "UpsertOrder t ?ord OrderPending amount ''USD'' s1 = (Inr o', s2)"
    and lines: "forE (co_lines req) (insert_order_line t req) s2 = (Inr us, s3)"
    and saga: "UpsertSagaInstance t ?ord SagaPendingPayment 0 (co_key req) s3 = (Inr g, s')"
    unfolding create_body_def by (auto elim!: bindE_InrE split: if_splits)
  have "keeps (\<lambda>d. view d = ?v) (seen_key order_CheckAndInsertIdempotencyKey t (co_key req) (PayloadHash L (M_CreateOrder req)))"
    by (intro keeps_intros)
  from keeps_step [OF this key refl] have v1: "view (data s1) = ?v" .
  have "keeps (\<lambda>d. view d = view (data s2)) (forE (co_lines req) (insert_order_line t req))"
    unfolding insert_order_line_def by (intro keeps_intros)
  from keeps_step [OF this lines refl] have v3: "view (data s3) = view (data s2)" .
  note o = UpsertOrder_Inr [OF ins] and g = UpsertSagaInstance_Inr [OF saga]
  have "fst (snd (?v (t, ?ord))) = None" using o(1) v1 by (metis fst_conv option.map_disc_iff snd_conv view_def)
  with assms(2) have new: "?v (t, ?ord) = (None, None, 0)" by (auto simp: agreeing_def)
  with o(3) g(3) v1 v3
  have "view (data s') = ?v((t, ?ord) := (Some SagaPendingPayment, Some OrderPending, 0))" by simp
  with new assms(2) show ?thesis
    by (auto simp: progress_def intro: r_into_rtranclp Created)
qed

lemma frame_create [frame_intros]: "frame scope (create_body L t req amount)"
  unfolding create_body_def insert_order_line_def by (intro frame_intros)

lemma triple_createOrderRow:
  assumes "agreeing (view d0 (t, co_order req))" "uuid_scan L (ctx_tenant c) = Some t"
  shows "triple sc (\<lambda>d. d = d0) (createOrderRow L c t req amount)
           (\<lambda>_. progress d0 t (co_order req) {SagaPendingPayment})
           (\<lambda>d. d = d0 \<or> progress d0 t (co_order req) {SagaPendingPayment} d)"
proof -
  have "triple (Scoped (uuid_scan L (ctx_tenant c))) (\<lambda>d. d = d0) (create_body L t req amount)
           (\<lambda>_. progress d0 t (co_order req) {SagaPendingPayment}) (\<lambda>_. True)"
    using create_body_Inr assms(1) by (intro tripleI) (auto dest: frameD [OF frame_create])
  from triple_ExecTxWithTenant [OF this] show ?thesis
    unfolding createOrderRow_def by (rule triple_weaken) auto
qed

lemma frame_getSaga [frame_intros]: "frame scope (getSaga L c ord)"
  unfolding getSaga_def by (intro frame_intros)

lemma triple_getSaga:
  assumes "uuid_scan L (ctx_tenant c) = Some t"
  shows "triple sc (\<lambda>d. d = d0) (getSaga L c ord)
           (\<lambda>g d. d = d0 \<and> fst (view d0 (t, ord)) = Some (sg_state g)) (\<lambda>d. d = d0)"
proof -
  have "triple (Scoped (uuid_scan L (ctx_tenant c))) (\<lambda>d. d = d0) (GetSagaInstance ord)
           (\<lambda>g d. d = d0 \<and> fst (view d0 (t, ord)) = Some (sg_state g)) (\<lambda>_. True)"
    unfolding GetSagaInstance_def
    by (rule triple_stmt) (auto simp: assms view_def saga_of_def split: option.splits)
  from triple_ExecTxWithTenant [OF this] show ?thesis
    unfolding getSaga_def by (rule triple_weaken) auto
qed

lemma ctx_WithTenantID [simp]: "ctx_tenant (WithTenantID c x) = x"
  by (simp add: WithTenantID_def)

text \<open>What the client was told is what the saga's row says.\<close>

definition recorded_as :: "uuid \<Rightarrow> CreateOrderRequest \<Rightarrow> CreateOrderResponse \<Rightarrow> order_db \<Rightarrow> bool" where
  "recorded_as t req resp d \<longleftrightarrow> (\<exists>st \<in> told (cor_status resp). fst (view d (t, co_order req)) = Some st)"

lemma progress_recorded: "progress d0 t (co_order req) (told (cor_status resp)) d \<Longrightarrow> recorded_as t req resp d"
  by (simp add: progress_def recorded_as_def)

lemma triple_CreateOrder_told:
  assumes "records_agree d0" and tenant: "uuid_scan L (co_tenant req) = Some t"
  shows "triple sc (\<lambda>d. d = d0) (CreateOrder L c req) (\<lambda>resp d. advance d0 d \<and> recorded_as t req resp d) (advance d0)"
proof -
  let ?c = "WithTenantID c (co_tenant req)" and ?ord = "co_order req"
  let ?Q = "\<lambda>resp d. advance d0 d \<and> recorded_as t req resp d"
  from tenant have scan: "uuid_scan L (ctx_tenant ?c) = Some t" and Inr: "ParseUUID L (co_tenant req) = Inr t"
    by (simp_all add: ParseUUID_def)
  have ag: "agreeing (view d0 (t, ?ord))" using assms by (simp add: records_agree_def)
  have rows: "triple sc (\<lambda>d. d = d0) (attempt (createOrderRow L ?c t req (orderTotal (co_lines req))))
      (\<lambda>r. case r of Inl _ \<Rightarrow> advance d0 | Inr _ \<Rightarrow> progress d0 t ?ord {SagaPendingPayment}) (advance d0)"
    by (rule triple_attempt, rule triple_conseq [OF triple_createOrderRow [OF ag scan]])
      (auto intro: progress_advance)
  have replay: "triple sc (advance d0) (replayCreateOrder L ?c req) ?Q (advance d0)"
  proof (rule triple_from)
    fix d assume d: "advance d0 d"
    show "triple sc (\<lambda>d'. d' = d) (replayCreateOrder L ?c req) ?Q (advance d0)"
      unfolding replayCreateOrder_def
      by (rule triple_or_internal, rule triple_bindE [OF triple_getSaga [OF scan]], rule triple_returnE)
        (auto simp: d recorded_as_def told_def)
  qed
  have "saga_for L ?c (create_input t req) t ?ord" using scan by (simp add: saga_for_def create_input_def)
  note saga = triple_runSaga [OF this, of sc d0]
  have run: "triple sc (progress d0 t ?ord {SagaPendingPayment}) (runSaga L ?c (create_input t req)) ?Q (advance d0)"
    by (rule triple_conseq [OF saga]) (auto intro: progress_mono progress_advance progress_recorded)
  have rest: "triple sc (case r of Inl _ \<Rightarrow> advance d0 | Inr _ \<Rightarrow> progress d0 t ?ord {SagaPendingPayment})
      (case r of Inl e \<Rightarrow> if err_is e ErrIdempotentReplay then replayCreateOrder L ?c req else internal_error ''create order: '' e
       | Inr _ \<Rightarrow> runSaga L ?c (create_input t req)) ?Q (advance d0)" for r :: "err + uuid"
    by (cases r) (simp_all add: replay run triple_internal)
  show ?thesis unfolding CreateOrder_def Inr sum.case Let_def invalid_argument_def
    by (intro triple_if triple_failE triple_bindE [OF rows rest]) simp_all
qed

lemma triple_CreateOrder:
  assumes "records_agree d0"
  shows "triple sc (\<lambda>d. d = d0) (CreateOrder L c req) (\<lambda>_. advance d0) (advance d0)"
proof (cases "uuid_scan L (co_tenant req)")
  case None
  then show ?thesis by (auto simp: CreateOrder_def ParseUUID_def invalid_argument_def intro: triple_failE)
next
  case (Some t)
  then show ?thesis by (rule triple_conseq [OF triple_CreateOrder_told [OF assms]]) simp_all
qed

lemma triple_CancelOrder:
  assumes "records_agree d0"
  shows "triple sc (\<lambda>d. d = d0) (CancelOrder L c req) (\<lambda>_. advance d0) (advance d0)"
proof (cases "ParseUUID L (can_tenant req)")
  case (Inl e)
  then show ?thesis by (auto simp: CancelOrder_def invalid_argument_def intro: triple_failE)
next
  case (Inr t)
  let ?c = "WithTenantID c (can_tenant req)" and ?ord = "can_order req"
  from Inr have scan: "uuid_scan L (ctx_tenant ?c) = Some t" by (simp add: ParseUUID_def split: option.splits)
  have ag: "agreeing (view d0 (t, ?ord))" using assms by (simp add: records_agree_def)
  have get: "triple sc (\<lambda>d. d = d0) (catchE (getSaga L ?c ?ord) (internal_error ''get saga: ''))
      (\<lambda>g d. d = d0 \<and> fst (view d0 (t, ?ord)) = Some (sg_state g)) (advance d0)"
    by (rule triple_or_internal [OF triple_getSaga [OF scan]]) simp
  have comp: "triple sc (progress d0 t ?ord {SagaPendingPayment, SagaReserved})
      (catchE (compensate L ?c (can_tenant req) ?ord reason) (internal_error ''compensate: ''))
      (\<lambda>_. advance d0) (advance d0)" for reason
    by (rule triple_or_internal, rule triple_conseq [OF triple_compensate [OF scan]]) (auto intro: progress_advance)
  have "triple sc (\<lambda>d. d = d0 \<and> fst (view d0 (t, ?ord)) = Some (sg_state g))
      (if sg_state g = SagaAllocated \<or> sg_state g = SagaConfirmed
           then returnE \<lparr>canr_success = False, canr_status = sg_state g\<rparr>
           else if sg_state g = SagaCompensated \<or> sg_state g = SagaFailed
           then returnE \<lparr>canr_success = True, canr_status = sg_state g\<rparr>
           else
             bindE (catchE (compensate L ?c (can_tenant req) ?ord (reasonOrDefault (can_reason req) ''customer_cancel''))
                      (internal_error ''compensate: '')) (\<lambda>_.
             returnE \<lparr>canr_success = True, canr_status = SagaCompensated\<rparr>))
      (\<lambda>_. advance d0) (advance d0)" for g
  proof (intro triple_if)
    assume no: "\<not> (sg_state g = SagaAllocated \<or> sg_state g = SagaConfirmed)" "\<not> (sg_state g = SagaCompensated \<or> sg_state g = SagaFailed)"
    have "progress d0 t ?ord {SagaPendingPayment, SagaReserved} d"
      if "d = d0 \<and> fst (view d0 (t, ?ord)) = Some (sg_state g)" for d
      using that ag no by (auto simp: progress_def agreeing_def)
    then show "triple sc (\<lambda>d. d = d0 \<and> fst (view d0 (t, ?ord)) = Some (sg_state g))
       (bindE (catchE (compensate L ?c (can_tenant req) ?ord (reasonOrDefault (can_reason req) ''customer_cancel''))
                      (internal_error ''compensate: '')) (\<lambda>_.
             returnE \<lparr>canr_success = True, canr_status = SagaCompensated\<rparr>)) (\<lambda>_. advance d0) (advance d0)"
      by (intro triple_strengthen [OF triple_bindE [OF comp]] triple_returnE)
  qed (auto intro: triple_returnE)
  from triple_bindE [OF get this] Inr show ?thesis by (simp add: CancelOrder_def Let_def)
qed

lemma GetOrder_queries_keep:
  "keeps P (GetIdempotencyKey t k)" "keeps P (GetOrderById ord)" "keeps P (GetOrderLines ord)" "keeps P (GetSagaInstance ord)"
  unfolding order_query_defs by (rule keeps_stmt; auto split: option.splits)+

lemma frame_fulfill [frame_intros]:
  "frame scope (fulfill_replay L t req)" "frame scope (fulfill_known_key L t req)" "frame scope (fulfill_write c t req o')"
  "frame scope (fulfill_order_body L c t req)"
proof -
  show r: "frame scope (fulfill_replay L t req)" and k: "frame scope (fulfill_known_key L t req)"
    and w: "frame scope (fulfill_write c t req o')" for o'
    unfolding fulfill_replay_def fulfill_known_key_def fulfill_write_def failed_precondition_def by (intro frame_intros)+
  show "frame scope (fulfill_order_body L c t req)"
    unfolding fulfill_order_body_def failed_precondition_def by (intro frame_intros r k w)
qed

lemma keeps_fulfill_view:
  "keeps P (fulfill_replay L t req)" "keeps P (fulfill_known_key L t req)"
  unfolding fulfill_replay_def fulfill_known_key_def failed_precondition_def
  by (intro keeps_intros GetOrder_queries_keep)+

lemma fulfill_write_Inr:
  assumes run: "fulfill_write c t req o' s = (Inr resp, s')" and sc: "scope s = Scoped (Some t)"
    and v: "view (data s) (t, fo_order req) = (g, os, n)"
  shows "view (data s') = (view (data s))((t, fo_order req) := (g, Some OrderFulfilled, Suc n))"
proof -
  let ?ord = "fo_order req"
  from run obtain ls s1 o2 s2 r s3 where get: "GetOrderLines ?ord s = (Inr ls, s1)"
    and upd: "UpdateOrderStatus ?ord OrderFulfilled (or_txn o') s1 = (Inr o2, s2)"
    and ev: "order_InsertOutboxEvent t ''order'' (t @ '':'' @ ?ord) ''order.fulfilled''
              (marshalOrderEvent OrderFulfilled ?ord (or_total o') (map fulfill_event_line ls)) (TraceparentText c) s2 = (Inr r, s3)"
    and s3: "s' = s3"
    unfolding fulfill_write_def by (auto elim!: bindE_InrE)
  from keeps_step [OF keeps_view(4) get refl] have v1: "view (data s1) = view (data s)" .
  from frameD [OF frame_order_queries(4) [OF aside_parts(1)] get] sc have "scope s1 = Scoped (Some t)" by simp
  from UpdateOrderStatus_Inr [OF upd this] v1 v
  have v2: "view (data s2) = (view (data s))((t, ?ord) := (g, Some OrderFulfilled, n))"
    by (metis Pair_inject prod.inject)
  show ?thesis using order_InsertOutboxEvent_Inr(1) [OF ev] v2 s3 by (simp add: fun_eq_iff)
qed

lemma fulfill_body_Inr:
  assumes run: "fulfill_order_body L c t req s = (Inr resp, s')" and sc: "scope s = Scoped (Some t)"
    and ag: "agreeing (view (data s) (t, fo_order req))"
  shows "advance (data s) (data s')"
proof -
  let ?ord = "fo_order req"
  let ?get = "catchE (GetOrderById ?ord)
      (\<lambda>e. if err_is e ErrNoRows then failE (StatusErr NotFound ''order not found'') else failE e)"
  from run obtain o' s1 where get: "?get s = (Inr o', s1)"
    and rest: "(if or_status o' = OrderFulfilled then fulfill_replay L t req
     else if or_status o' \<noteq> OrderConfirmed
     then failed_precondition (''order '' @ fo_order req @ '' is '' @ or_status o' @ '', must be CONFIRMED'')
     else
       bindE (seen_key order_CheckAndInsertIdempotencyKey t (fo_key req) (PayloadHash L (M_FulfillOrder req))) (\<lambda>dup.
       if dup then fulfill_known_key L t req else fulfill_write c t req o')) s1 = (Inr resp, s')"
    unfolding fulfill_order_body_def by (elim bindE_InrE)
  from get have "GetOrderById ?ord s = (Inr o', s1)" by (auto elim!: catchE_InrE split: if_splits)
  note g = GetOrderById_Inr [OF this sc]
  show ?thesis
  proof (cases "or_status o' = OrderFulfilled")
    case True
    with rest have "fulfill_replay L t req s1 = (Inr resp, s')" by simp
    from keeps_step [OF keeps_fulfill_view(1) [where P = "\<lambda>d. d = data s1"] this refl] g show ?thesis by simp
  next
    case False
    with rest have conf: "or_status o' = OrderConfirmed"
      by (auto simp: failed_precondition_def split: if_splits)
    with False rest obtain dup s2 where
      key: "seen_key order_CheckAndInsertIdempotencyKey t (fo_key req) (PayloadHash L (M_FulfillOrder req)) s1 = (Inr dup, s2)"
      and act: "(if dup then fulfill_known_key L t req else fulfill_write c t req o') s2 = (Inr resp, s')"
      by (auto elim!: bindE_InrE)
    have "keeps (\<lambda>d. view d = view (data s1)) (seen_key order_CheckAndInsertIdempotencyKey t (fo_key req) (PayloadHash L (M_FulfillOrder req)))"
      by (intro keeps_intros)
    from keeps_step [OF this key refl] g have v2: "view (data s2) = view (data s)" by simp
    have "frame scope (seen_key order_CheckAndInsertIdempotencyKey t (fo_key req) (PayloadHash L (M_FulfillOrder req)) :: ('a, bool) otx)"
      by (intro frame_intros)
    from frameD [OF this key] g sc have sc2: "scope s2 = Scoped (Some t)" by simp
    from conf g ag have v: "view (data s) (t, ?ord) = (Some SagaConfirmed, Some OrderConfirmed, 0)"
      by (auto simp: agreeing_def view_def)
    show ?thesis
    proof (cases dup)
      case True
      with act have "fulfill_known_key L t req s2 = (Inr resp, s')" by simp
      from keeps_step [OF keeps_fulfill_view(2) [where P = "\<lambda>d. d = data s2"] this refl] v2 show ?thesis
        by (simp add: advance_def)
    next
      case False
      with act have "fulfill_write c t req o' s2 = (Inr resp, s')" by simp
      from fulfill_write_Inr [OF this sc2, of "Some SagaConfirmed" "Some OrderConfirmed" 0] v v2
      have "view (data s') = (view (data s))((t, ?ord) := (Some SagaConfirmed, Some OrderFulfilled, 1))" by simp
      with v Fulfilled show ?thesis by (auto simp: advance_def)
    qed
  qed
qed

lemma triple_FulfillOrder:
  assumes "records_agree d0"
  shows "triple sc (\<lambda>d. d = d0) (FulfillOrder L c req) (\<lambda>_. advance d0) (advance d0)"
proof (cases "ParseUUID L (fo_tenant req)")
  case (Inl e)
  then show ?thesis by (auto simp: FulfillOrder_def invalid_argument_def intro: triple_failE)
next
  case (Inr t)
  let ?c = "WithTenantID c (fo_tenant req)"
  from Inr have scan: "uuid_scan L (ctx_tenant ?c) = Some t" by (simp add: ParseUUID_def split: option.splits)
  have "triple (Scoped (uuid_scan L (ctx_tenant ?c))) (\<lambda>d. d = d0) (fulfill_order_body L ?c t req) (\<lambda>_. advance d0) (\<lambda>_. True)"
  proof (intro tripleI conjI allI impI TrueI)
    fix s :: "(order_db, 'b) sess" and r s' a
    assume s: "scope s = Scoped (uuid_scan L (ctx_tenant ?c))" "data s = d0"
      and run: "fulfill_order_body L ?c t req s = (r, s')"
    from frameD [OF frame_fulfill(4) run] s show "scope s' = Scoped (uuid_scan L (ctx_tenant ?c))" by simp
    assume "r = Inr a"
    with run have "fulfill_order_body L ?c t req s = (Inr a, s')" by simp
    from fulfill_body_Inr [OF this] s scan assms show "advance d0 (data s')" by (simp add: records_agree_def)
  qed
  note body = this
  show ?thesis unfolding FulfillOrder_def Inr sum.case Let_def
    by (rule triple_weaken [OF triple_ExecTxWithTenant [OF body]]) auto
qed

text \<open>The rows a resume scan hands out: unfinished sagas, each order once.\<close>

definition saga_keys_unique :: "order_db \<Rightarrow> bool" where
  "saga_keys_unique d \<longleftrightarrow> distinct (map (\<lambda>g. (sg_tenant g, sg_order g)) (sagas d))"

definition tenant_uuids :: "lib \<Rightarrow> order_db \<Rightarrow> bool" where
  "tenant_uuids L d \<longleftrightarrow> (\<forall>g \<in> set (sagas d). uuid_scan L (sg_tenant g) = Some (sg_tenant g))"

definition resumable :: "lib \<Rightarrow> SagaInstance list \<Rightarrow> order_db \<Rightarrow> bool" where
  "resumable L rows d \<longleftrightarrow>
     distinct (map (\<lambda>g. (sg_tenant g, sg_order g)) rows) \<and>
     (\<forall>g \<in> set rows. uuid_scan L (sg_tenant g) = Some (sg_tenant g) \<and>
        (\<exists>st \<in> {SagaPendingPayment, SagaReserved}. fst (view d (sg_tenant g, sg_order g)) = Some st))"

lemma distinct_take_sort: "distinct (map f xs) \<Longrightarrow> distinct (map f (take n (sort_key h (filter P xs))))"
proof -
  assume "distinct (map f xs)"
  then have "distinct (map f (filter P xs))" by (simp add: distinct_map_filter)
  moreover have "mset (map f (sort_key h (filter P xs))) = mset (map f (filter P xs))" by simp
  ultimately have "distinct (map f (sort_key h (filter P xs)))" by (metis mset_eq_imp_distinct_iff)
  then show ?thesis by (simp add: take_map [symmetric])
qed

lemma find_unique: "distinct (map f xs) \<Longrightarrow> x \<in> set xs \<Longrightarrow> find (\<lambda>y. f y = f x) xs = Some x"
  by (induction xs) (auto simp: image_iff)

lemma saga_of_unique: "saga_keys_unique d \<Longrightarrow> g \<in> set (sagas d) \<Longrightarrow> saga_of (sg_tenant g) (sg_order g) d = Some g"
  using find_unique [of "\<lambda>g. (sg_tenant g, sg_order g)" "sagas d" g]
  by (simp add: saga_keys_unique_def saga_of_def)

lemma GetResumableSagas_rows:
  assumes "GetResumableSagas lim s = (Inr rows, s')" "saga_keys_unique (data s)" "tenant_uuids L (data s)"
  shows "resumable L rows (data s) \<and> data s' = data s"
proof -
  from assms(1) have rows: "rows = take (nat (sint lim)) (sort_key sg_created
            (filter (\<lambda>g. rls_visible (scope s) (sg_tenant g) \<and> sg_state g \<in> {''PENDING_PAYMENT'', ''RESERVED''}
               \<and> \<not> busy (sched s (pos s)) (sg_id g)) (sagas (data s))))" and d: "data s' = data s"
    unfolding GetResumableSagas_def by (auto elim!: stmt_InrE split: if_splits)
  have "g \<in> set (sagas (data s)) \<and> sg_state g \<in> {SagaPendingPayment, SagaReserved}" if "g \<in> set rows" for g
    using that unfolding rows by (auto dest!: in_set_takeD simp: saga_states)
  with assms(2,3) have "\<forall>g \<in> set rows. uuid_scan L (sg_tenant g) = Some (sg_tenant g) \<and>
        (\<exists>st \<in> {SagaPendingPayment, SagaReserved}. fst (view (data s) (sg_tenant g, sg_order g)) = Some st)"
    by (auto simp: tenant_uuids_def view_def saga_of_unique)
  moreover have "distinct (map (\<lambda>g. (sg_tenant g, sg_order g)) rows)"
    using assms(2) unfolding rows saga_keys_unique_def by (rule distinct_take_sort)
  ultimately show ?thesis by (simp add: resumable_def d)
qed

lemma triple_resume_saga:
  assumes "records_agree d0"
  shows "triple sc (\<lambda>d. advance d0 d \<and> resumable L (g # rows) d) (resume_saga L c g)
           (\<lambda>_ d. advance d0 d \<and> resumable L rows d) (advance d0)"
proof (rule triple_from, elim conjE)
  fix d assume d: "advance d0 d" "resumable L (g # rows) d"
  let ?t = "sg_tenant g" and ?ord = "sg_order g" and ?c = "WithTenantID c (sg_tenant g)"
  let ?P = "progress d ?t ?ord"
  from d(2) have scan: "uuid_scan L ?t = Some ?t"
    and st: "\<exists>st \<in> {SagaPendingPayment, SagaReserved}. fst (view d (?t, ?ord)) = Some st"
    by (simp_all add: resumable_def)
  from advance_agree [OF d(1) assms] have "agreeing (view d (?t, ?ord))" by (simp only: records_agree_def)
  with st have start: "?P {SagaPendingPayment, SagaReserved} d" by (simp add: progress_def)
  have after: "advance d0 d' \<and> resumable L rows d'" if "?P A d'" for A d'
  proof -
    have same: "view d' (sg_tenant h, sg_order h) = view d (sg_tenant h, sg_order h)" if "h \<in> set rows" for h
    proof -
      have "(?t, ?ord) \<notin> (\<lambda>g. (sg_tenant g, sg_order g)) ` set rows" using d(2) by (simp add: resumable_def)
      with that have "(sg_tenant h, sg_order h) \<noteq> (?t, ?ord)" by (metis (no_types, lifting) image_eqI)
      with \<open>?P A d'\<close> show ?thesis unfolding progress_def by blast
    qed
    from d(2) have "resumable L rows d" by (simp add: resumable_def)
    then have "resumable L rows d'" unfolding resumable_def by (simp add: same)
    with advance_trans [OF d(1) progress_advance [OF that]] show ?thesis by simp
  qed
  have "triple (Scoped (uuid_scan L (ctx_tenant ?c))) (?P {SagaPendingPayment, SagaReserved}) (GetOrderLines ?ord)
      (\<lambda>_. ?P {SagaPendingPayment, SagaReserved}) (\<lambda>_. True)"
    unfolding GetOrderLines_def by (rule triple_stmt) auto
  from triple_mapErr [OF triple_ExecTxWithTenant [OF this]]
  have get: "triple sc (?P {SagaPendingPayment, SagaReserved})
      (mapErr (Wrapped (''resume '' @ ?ord @ '': load lines: '')) (ExecTxWithTenant L ?c (GetOrderLines ?ord)))
      (\<lambda>_. ?P {SagaPendingPayment, SagaReserved}) (advance d0)"
    by (rule triple_weaken) (auto dest: after)
  have run: "triple sc (?P {SagaPendingPayment, SagaReserved}) (attempt (runSaga L ?c (resume_input g ls)))
      (\<lambda>_ d. advance d0 d \<and> resumable L rows d) (advance d0)" for ls
  proof -
    have "saga_for L ?c (resume_input g ls) ?t ?ord" using scan by (simp add: saga_for_def resume_input_def)
    then show ?thesis
      by (intro triple_attempt triple_conseq [OF triple_runSaga]) (assumption, assumption, erule after, intro allI, erule after)
  qed
  have "triple sc (?P {SagaPendingPayment, SagaReserved}) (resume_saga L c g)
           (\<lambda>_ d. advance d0 d \<and> resumable L rows d) (advance d0)"
    unfolding resume_saga_def Let_def
    by (rule triple_bindE [OF get], rule triple_bindE [OF run], rule triple_returnE) simp
  then show "triple sc (\<lambda>d'. d' = d) (resume_saga L c g) (\<lambda>_ d. advance d0 d \<and> resumable L rows d) (advance d0)"
    by (rule triple_strengthen) (simp add: start)
qed

lemma triple_ResumePendingSagas:
  assumes "records_agree d0" "saga_keys_unique d0" "tenant_uuids L d0"
  shows "triple sc (\<lambda>d. d = d0) (ResumePendingSagas L c lim) (\<lambda>_. advance d0) (advance d0)"
proof -
  have "triple Bypass (\<lambda>d. d = d0) (GetResumableSagas lim) (\<lambda>rows d. advance d0 d \<and> resumable L rows d) (\<lambda>_. True)"
  proof (intro tripleI conjI allI impI TrueI)
    fix s :: "(order_db, 'b) sess" and r s' rows
    assume s: "scope s = Bypass" "data s = d0" and run: "GetResumableSagas lim s = (r, s')"
    from frameD [OF frame_order_queries(5) [OF aside_parts(1)] run] s show "scope s' = Bypass" by simp
    assume "r = Inr rows"
    with run have "GetResumableSagas lim s = (Inr rows, s')" by simp
    from GetResumableSagas_rows [OF this] s assms(2,3) show "advance d0 (data s')" "resumable L rows (data s')" by auto
  qed
  from triple_mapErr [OF triple_ExecTxNoTenant [OF this]]
  have get: "triple sc (\<lambda>d. d = d0) (mapErr (Wrapped ''scan resumable sagas: '') (ExecTxNoTenant (GetResumableSagas lim)))
      (\<lambda>rows d. advance d0 d \<and> resumable L rows d) (advance d0)"
    by (rule triple_weaken) auto
  have loop: "triple sc (\<lambda>d. advance d0 d \<and> resumable L rows d) (forE rows (resume_saga L c))
      (\<lambda>_ d. advance d0 d \<and> resumable L [] d) (advance d0)" for rows
    by (rule triple_forE [where I = "\<lambda>rows d. advance d0 d \<and> resumable L rows d"]) (rule triple_resume_saga [OF assms(1)])
  show ?thesis unfolding ResumePendingSagas_def
    by (rule triple_bindE [OF get], rule triple_bindE [OF loop], rule triple_returnE) simp
qed

lemma triple_GetOrder: "triple sc (\<lambda>d. d = d0) (GetOrder L c req) (\<lambda>_. advance d0) (advance d0)"
proof (cases "ParseUUID L (go_tenant req)")
  case (Inl e)
  then show ?thesis by (auto simp: GetOrder_def invalid_argument_def intro: triple_failE)
next
  case (Inr t)
  have body: "triple sc' (\<lambda>d. d = d0) (get_order_body req) (\<lambda>_ d. d = d0) (\<lambda>d. d = d0)" for sc'
    unfolding get_order_body_def
    by (rule triple_keeps; intro keeps_intros frame_intros GetOrder_queries_keep)
  show ?thesis unfolding GetOrder_def Inr sum.case
    by (rule triple_conseq [OF triple_ExecTxWithTenant [OF body]]) auto
qed

lemma order_serve_advance:
  assumes "records_agree (data s)" "saga_keys_unique (data s)" "tenant_uuids L (data s)"
  shows "advance (data s) (data (snd (order_serve L c op s)))"
proof -
  have "triple (scope s) (\<lambda>d. d = data s) (order_serve L c op) (\<lambda>_. advance (data s)) (advance (data s))"
  proof (cases op)
    case (OpCreate req)
    then show ?thesis using triple_CreateOrder [OF assms(1)] by (auto intro!: triple_bindE triple_returnE)
  next
    case (OpGet req)
    then show ?thesis using triple_GetOrder by (auto intro!: triple_bindE triple_returnE)
  next
    case (OpCancel req)
    then show ?thesis using triple_CancelOrder [OF assms(1)] by (auto intro!: triple_bindE triple_returnE)
  next
    case (OpFulfill req)
    then show ?thesis using triple_FulfillOrder [OF assms(1)] by (auto intro!: triple_bindE triple_returnE)
  next
    case (OpResume lim)
    then show ?thesis using triple_ResumePendingSagas [OF assms] by (auto intro!: triple_bindE triple_returnE)
  qed
  from triple_run [OF this refl refl] show ?thesis .
qed

section \<open>The invariant of the order database\<close>

text \<open>\<^verbatim>\<open>pgtype.UUID.Scan\<close> reads the canonical text of a UUID back as the same UUID.\<close>

definition uuid_canonical :: "lib \<Rightarrow> bool" where
  "uuid_canonical L \<longleftrightarrow> (\<forall>x t. uuid_scan L x = Some t \<longrightarrow> uuid_scan L t = Some t)"

definition sagas_ok :: "lib \<Rightarrow> order_db \<Rightarrow> bool" where
  "sagas_ok L d \<longleftrightarrow> saga_keys_unique d \<and> tenant_uuids L d"

definition order_inv :: "lib \<Rightarrow> order_db \<Rightarrow> bool" where
  "order_inv L d \<longleftrightarrow> records_agree d \<and> saga_keys_unique d \<and> tenant_uuids L d"

lemma keeps_sagas_ok_stmt:
  assumes "\<And>e sc d a d'. f e sc d = Inr (a, d') \<Longrightarrow> sagas d' = sagas d"
  shows "keeps (sagas_ok L) (stmt f)"
  by (rule keeps_stmt) (simp add: sagas_ok_def saga_keys_unique_def tenant_uuids_def assms)

lemma keeps_sagas_ok [keeps_intros]:
  "keeps (sagas_ok L) (order_CheckAndInsertIdempotencyKey t k h)"
  "keeps (sagas_ok L) (order_InsertOutboxEvent t at ai et pl tr)"
  "keeps (sagas_ok L) (InsertOrderLine t ord sku wh q p)"
  "keeps (sagas_ok L) (UpdateOrderStatus ord st txn)"
  "keeps (sagas_ok L) (UpsertOrder t ord st amount cur)"
  "keeps (sagas_ok L) (GetResumableSagas lim)"
  unfolding order_query_defs Let_def
  by (rule keeps_sagas_ok_stmt; auto split: sum.splits option.splits if_splits)+

lemma keeps_sagas_ok_saga [keeps_intros]:
  "keeps (sagas_ok L) (UpdateSagaState ord st step er)"
  "uuid_scan L t = Some t \<Longrightarrow> keeps (sagas_ok L) (UpsertSagaInstance t ord st step k)"
  unfolding order_query_defs Let_def
proof -
  have "sg_tenant (set_saga sc ord st step er n g) = sg_tenant g" "sg_order (set_saga sc ord st step er n g) = sg_order g" for sc n g
    by (simp_all add: set_saga_def)
  then have "sagas_ok L (d\<lparr>sagas := map (set_saga sc ord st step er n) (sagas d)\<rparr>)" if "sagas_ok L d" for d sc n
    using that by (simp add: sagas_ok_def saga_keys_unique_def tenant_uuids_def o_def)
  then show "keeps (sagas_ok L) (stmt (\<lambda>e sc d. case find (saga_at sc ord) (sagas d) of None \<Rightarrow> Inl ErrNoRows
       | Some g \<Rightarrow> if \<not> (varchar 50 st \<and> varchar 1024 er) then Inl value_too_long
           else if \<not> saga_check (g\<lparr>sg_state := st\<rparr>) then Inl (check_violation ''saga_instances'')
           else Inr (set_saga sc ord st step er (clock e) g,
                d\<lparr>sagas := map (set_saga sc ord st step er (clock e)) (sagas d)\<rparr>)))"
    by (intro keeps_stmt) (auto split: option.splits if_splits)
next
  assume "uuid_scan L t = Some t"
  then show "keeps (sagas_ok L) (stmt (\<lambda>e sc d.
      if \<not> (varchar 255 ord \<and> varchar 50 st \<and> varchar 255 k) then Inl value_too_long
      else if \<not> rls_visible sc t then Inl rls_violation
      else if \<not> saga_check \<lparr>sg_id = fresh e, sg_tenant = t, sg_order = ord, sg_state = st, sg_step = step, sg_key = k,
                sg_error = [], sg_created = clock e, sg_updated = clock e\<rparr> then Inl (check_violation ''saga_instances'')
      else if list_ex (\<lambda>r. sg_tenant r = t \<and> sg_order r = ord) (sagas d) then Inl ErrNoRows
      else if list_ex (\<lambda>r. sg_id r = fresh e) (sagas d) then Inl (unique_violation ''saga_instances_pkey'')
      else Inr (\<lparr>sg_id = fresh e, sg_tenant = t, sg_order = ord, sg_state = st, sg_step = step, sg_key = k,
                sg_error = [], sg_created = clock e, sg_updated = clock e\<rparr>,
           d\<lparr>sagas := sagas d @ [\<lparr>sg_id = fresh e, sg_tenant = t, sg_order = ord, sg_state = st, sg_step = step, sg_key = k,
                sg_error = [], sg_created = clock e, sg_updated = clock e\<rparr>]\<rparr>)))"
    by (intro keeps_stmt)
      (auto simp: sagas_ok_def saga_keys_unique_def tenant_uuids_def list_ex_iff split: if_splits)
qed

lemma keeps_breakers [keeps_intros]:
  "keeps P (breaker_allow get upd)" "keeps P (breaker_success upd)" "keeps P (breaker_failure upd)"
  "keeps P (gateway_Charge req)" "keeps P (unavailable e)" "keeps P (internal_error what e)"
  "keeps P (invalid_argument m)" "keeps P (failed_precondition m)"
  by (simp_all add: keeps_def breaker_allow_def breaker_success_def breaker_failure_def gateway_Charge_def now_def
      bindE_def unavailable_def internal_error_def invalid_argument_def failed_precondition_def Let_def case_prod_beta)

lemma keeps_saga_transactions [keeps_intros]:
  "keeps (sagas_ok L') (transition L c t ord st step msg)" "keeps (sagas_ok L') (failSaga L c tenant ord msg)"
  "keeps (sagas_ok L') (compensate L c tenant ord reason)" "keeps (sagas_ok L') (recordTransaction L c ord txn)"
  "keeps (sagas_ok L') (getSaga L c ord)"
  unfolding transition_def failSaga_def compensate_def recordTransaction_def getSaga_def transition_body_def mirror_status_def
  by (intro keeps_intros GetOrder_queries_keep)+

lemma keeps_runSaga [keeps_intros]: "keeps (sagas_ok L') (runSaga L c inp)"
  unfolding runSaga_def saga_pay_def compensate_order_def saga_allocate_def saga_confirm_def charge_order_def fail_step_def
  by (intro keeps_intros)

lemma keeps_order_serve:
  assumes "uuid_canonical L"
  shows "keeps (sagas_ok L) (order_serve L c op)"
proof (cases op)
  case (OpCreate req)
  have "keeps (sagas_ok L) (CreateOrder L c req)"
  proof (cases "ParseUUID L (co_tenant req)")
    case (Inr t)
    with assms have "uuid_scan L t = Some t" by (auto simp: ParseUUID_def uuid_canonical_def split: option.splits)
    then show ?thesis
      unfolding CreateOrder_def Inr sum.case Let_def createOrderRow_def create_body_def insert_order_line_def replayCreateOrder_def
      by (intro keeps_intros)
  qed (simp add: CreateOrder_def keeps_intros)
  then show ?thesis unfolding OpCreate order_serve.simps by (intro keeps_intros)
next
  case (OpGet req)
  show ?thesis unfolding OpGet order_serve.simps GetOrder_def get_order_body_def by (intro keeps_intros GetOrder_queries_keep)
next
  case (OpCancel req)
  show ?thesis unfolding OpCancel order_serve.simps CancelOrder_def Let_def by (intro keeps_intros)
next
  case (OpFulfill req)
  show ?thesis unfolding OpFulfill order_serve.simps FulfillOrder_def Let_def fulfill_order_body_def fulfill_write_def
    by (intro keeps_intros GetOrder_queries_keep keeps_fulfill_view)
next
  case (OpResume lim)
  show ?thesis unfolding OpResume order_serve.simps ResumePendingSagas_def resume_saga_def Let_def
    by (intro keeps_intros GetOrder_queries_keep)
qed

section \<open>Histories\<close>

definition order_run :: "lib \<Rightarrow> (ctx \<times> order_op) list \<Rightarrow> 'y order_session \<Rightarrow> 'y order_session" where
  "order_run L ops s = fold (\<lambda>(c, op) s. snd (order_serve L c op s)) ops s"

lemma order_serve_inv:
  fixes s :: "'y order_session"
  assumes "uuid_canonical L" "order_inv L (data s)"
  shows "order_inv L (data (snd (order_serve L c op s))) \<and> advance (data s) (data (snd (order_serve L c op s)))"
proof -
  have adv: "advance (data s) (data (snd (order_serve L c op s)))"
    by (rule order_serve_advance) (use assms(2) in \<open>simp_all add: order_inv_def\<close>)
  moreover have "sagas_ok L (data (snd (order_serve L c op s)))"
    by (rule keepsD [OF keeps_order_serve [OF assms(1)]]) (use assms(2) in \<open>simp add: order_inv_def sagas_ok_def\<close>)
  ultimately show ?thesis using advance_agree [OF adv] assms(2) by (simp add: order_inv_def sagas_ok_def)
qed

lemma order_run_inv:
  "uuid_canonical L \<Longrightarrow> order_inv L (data s) \<Longrightarrow>
     order_inv L (data (order_run L ops s)) \<and> advance (data s) (data (order_run L ops s))"
proof (induction ops arbitrary: s)
  case (Cons cop ops)
  obtain c op where [simp]: "cop = (c, op)" by fastforce
  note step = order_serve_inv [OF Cons.prems, of c op]
  with Cons.IH [of "snd (order_serve L c op s)"] Cons.prems(1) show ?case
    by (auto simp: order_run_def intro: advance_trans)
qed (simp add: order_run_def)

end
