(* ===== verification/OrderProps.thy ===== *)
theory OrderProps
  imports OrderRecords ReservationLifecycle
begin

text \<open>
  The order service over whole histories: the saga's state machine, and what an answer says about the
  tables.
\<close>

section \<open>The state machine\<close>

text \<open>
  C5: Every order follows the saga's state machine. From tables in which the rows of an order agree,
  any history of \<^verbatim>\<open>CreateOrder\<close>, \<^verbatim>\<open>GetOrder\<close>, \<^verbatim>\<open>CancelOrder\<close>, \<^verbatim>\<open>FulfillOrder\<close> and
  \<^verbatim>\<open>ResumePendingSagas\<close> calls that do not overlap, with any faults in the statements, commits
  and calls of each of them, moves every order of every tenant along \<^verbatim>\<open>saga_step\<close> only, and leaves tables in which the saga state, the
  order status and the emitted events agree again.
\<close>

theorem order_history_follows_saga:
  assumes "uuid_canonical L" and "order_inv L (data s)"
  shows "order_inv L (data (order_run L ops s)) \<and>
    (\<forall>k. saga_step\<^sup>*\<^sup>* (view (data s) k) (view (data (order_run L ops s)) k))"
  using order_run_inv [OF assms] by (simp add: advance_def)

definition empty_orders :: order_db where
  "empty_orders = \<lparr>orders = [], order_lines = [], sagas = [], order_outbox = [], order_keys = []\<rparr>"

definition sample_saga :: "unit order_session" where
  "sample_saga = calm_sess empty_orders (NewSaga sample_shop '''')"

definition sample_order :: "OrderLine list \<Rightarrow> CreateOrderRequest" where
  "sample_order ls = \<lparr>co_tenant = ''t'', co_order = ''o'', co_lines = ls, co_key = ''k'', co_ttl = 60, co_force_fail = False\<rparr>"

definition sample_order_line :: "string \<Rightarrow> int32 \<Rightarrow> OrderLine" where
  "sample_order_line sku q = \<lparr>ol_sku = sku, ol_wh = ''w'', ol_qty = q, ol_price = 7\<rparr>"

definition sample_fulfill :: FulfillOrderRequest where
  "sample_fulfill = \<lparr>fo_tenant = ''t'', fo_order = ''o'', fo_key = ''f''\<rparr>"

lemma sample_canonical: "uuid_canonical sample_lib"
  by (simp add: uuid_canonical_def sample_lib_def)

lemma view_empty: "view empty_orders k = (None, None, 0)"
  by (simp add: view_def saga_of_def order_of_def empty_orders_def)

lemma sample_order_inv: "order_inv L (data sample_saga)"
  by (simp add: sample_saga_def calm_sess_def order_inv_def records_agree_def view_empty agreeing_def
      saga_keys_unique_def tenant_uuids_def) (simp add: empty_orders_def)

theorem order_history_follows_saga_witness:
  "let ops = [(sample_ctx, OpCreate (sample_order [sample_order_line ''a'' 3])), (sample_ctx, OpFulfill sample_fulfill)];
       v = view (data (order_run sample_lib ops sample_saga)) (''t'', ''o'') in
   saga_step\<^sup>*\<^sup>* (None, None, 0) v \<and> v = (Some SagaConfirmed, Some OrderFulfilled, 1)"
proof -
  let ?ops = "[(sample_ctx, OpCreate (sample_order [sample_order_line ''a'' 3])), (sample_ctx, OpFulfill sample_fulfill)]"
  have "view (data (order_run sample_lib ?ops sample_saga)) (''t'', ''o'') = (Some SagaConfirmed, Some OrderFulfilled, 1)"
    by code_simp
  moreover have "view (data sample_saga) (''t'', ''o'') = (None, None, 0)"
    by (simp add: sample_saga_def calm_sess_def view_empty)
  ultimately show ?thesis
    using order_history_follows_saga [OF sample_canonical sample_order_inv, of ?ops] by (metis)
qed

section \<open>What the client is told\<close>

text \<open>
  C19: The answer is what the tables say. From tables in which the rows of an order agree, when
  \<^verbatim>\<open>CreateOrder\<close> answers a status, the saga's row has that status when the call returns: a confirmed or
  compensated order is durably so before the client hears of it, also when the answer is a replay. A client
  told \<^verbatim>\<open>FAILED\<close> may find the saga unfinished, since the orchestrator ignores whether recording the failure
  worked.
\<close>

theorem create_answer_is_recorded:
  fixes s :: "'y order_session"
  assumes "CreateOrder L c req s = (Inr resp, s')" and "uuid_scan L (co_tenant req) = Some t"
    and "records_agree (data s)"
  shows "fst (view (data s') (t, co_order req)) = Some (cor_status resp) \<or>
    cor_status resp = SagaFailed \<and>
    fst (view (data s') (t, co_order req)) \<in> {Some SagaPendingPayment, Some SagaReserved}"
proof -
  from tripleD(2) [OF triple_CreateOrder_told [OF assms(3,2)] refl refl assms(1) refl]
  show ?thesis by (auto simp: recorded_as_def told_def split: if_splits)
qed

theorem create_answer_is_recorded_witness:
  "let s' = snd (CreateOrder sample_lib sample_ctx (sample_order [sample_order_line ''a'' 3]) sample_saga) in
   fst (view (data s') (''t'', ''o'')) = Some SagaConfirmed"
proof -
  let ?out = "CreateOrder sample_lib sample_ctx (sample_order [sample_order_line ''a'' 3]) sample_saga"
  have "map_sum (\<lambda>_. ()) cor_status (fst ?out) = Inr SagaConfirmed" by code_simp
  then obtain resp where "?out = (Inr resp, snd ?out)" "cor_status resp = SagaConfirmed" by (rule Inr_run_with)
  from create_answer_is_recorded [OF this(1), of "''t''"] this(2) sample_order_inv [of sample_lib]
  show ?thesis by (simp add: sample_order_def sample_lib_def order_inv_def)
qed

end
