(* ===== verification/OrderOutcome.thy ===== *)
theory OrderOutcome
  imports OrderProps
begin

text \<open>
  The saga across its three services: what an order that \<^verbatim>\<open>CreateOrder\<close> answers as confirmed,
  compensated or failed has done to the reservations and to the stock.
\<close>

section \<open>Runs of the saga that answer\<close>

text \<open>Everything but a call leaves the reservation service (and the stock behind it) alone.\<close>

abbreviation callee :: "'y order_session \<Rightarrow> 'y res_session" where
  "callee s \<equiv> res_service (ext s)"

lemma frame_callee_tx [frame_intros]:
  "frame callee m \<Longrightarrow> frame callee (ExecTxWithTenant L c m)"
  by (rule frame_ExecTx_beside [OF beside_ext])

lemma frame_callee_parts [frame_intros]:
  "frame callee (breaker_allow resBreaker resBreaker_update)" "frame callee (breaker_success resBreaker_update)"
  "frame callee (breaker_failure resBreaker_update)"
  "frame callee (breaker_allow payBreaker payBreaker_update)" "frame callee (breaker_success payBreaker_update)"
  "frame callee (breaker_failure payBreaker_update)"
  "frame callee (breaker_allow stockBreaker stockBreaker_update)" "frame callee (breaker_success stockBreaker_update)"
  "frame callee (breaker_failure stockBreaker_update)"
  "frame callee (gateway_Charge req)" "frame callee (unavailable e)" "frame callee (internal_error what e)"
  by (auto simp: frame_def breaker_allow_def breaker_success_def breaker_failure_def gateway_Charge_def now_def
      bindE_def unavailable_def internal_error_def Let_def case_prod_beta)

lemma aside_callee [frame_intros]: "aside callee"
  by (rule beside_aside [OF beside_ext])

lemma frame_callee_saga [frame_intros]:
  "frame callee (transition L c t ord st step msg)" "frame callee (failSaga L c tenant ord msg)"
  "frame callee (recordTransaction L c ord txn)" "frame callee (charge_order inp)"
  "frame callee (createOrderRow L c t req amount)"
  unfolding transition_def transition_body_def mirror_status_def failSaga_def recordTransaction_def charge_order_def
    createOrderRow_def create_body_def insert_order_line_def
  by (intro frame_intros)+

lemma res_call_Inr:
  assumes "rpc (res_call srv) s = (Inr a, s')"
  shows "srv (callee s) = (Inr a, callee s')"
proof -
  obtain r x where srv: "srv (callee s) = (r, x)" by fastforce
  with rpc_Inr [OF assms] have "r = Inr a" "ext s' = (ext s)\<lparr>res_service := x\<rparr>"
    by (simp_all add: res_call_def)
  with srv show ?thesis by simp
qed

lemma stock_call_Inr:
  assumes "rpc (stock_call srv) s = (Inr a, s')"
  shows "srv (ext (callee s)) = (Inr a, ext (callee s')) \<and> data (callee s') = data (callee s)"
proof -
  obtain r x where srv: "srv (ext (callee s)) = (r, x)" by fastforce
  with rpc_Inr [OF assms] have "r = Inr a" "ext s' = (ext s)\<lparr>res_service := (callee s)\<lparr>ext := x\<rparr>\<rparr>"
    by (simp_all add: stock_call_def)
  with srv show ?thesis by simp
qed

text \<open>A step whose own outcome the answer does not show.\<close>

lemma bind_frame_Inr:
  assumes "bindE m f s = (Inr b, s')" "frame g m"
  obtains a s1 where "f a s1 = (Inr b, s')" "g s1 = g s"
  using assms by (elim bindE_InrE) (metis frameD)

lemma fail_step_Inr [simp]: "fail_step L c inp what e s \<noteq> (Inr x, s')"
  by (auto simp: fail_step_def internal_error_def elim!: bindE_InrE)

text \<open>A call whose failure ends the run in an error, after a step that leaves the callee alone.\<close>

lemma bind_call_Inr:
  assumes "bindE m (\<lambda>_. bindE (attempt call) (\<lambda>r. case r of Inl e \<Rightarrow> bindE (n e) (\<lambda>_. fail_step L c inp what e)
      | Inr a \<Rightarrow> bindE k (\<lambda>_. f a))) s = (Inr b, s')"
    and "frame callee m" "frame callee k"
  obtains a s1 s2 s3 where "callee s1 = callee s" "call s1 = (Inr a, s2)" "callee s3 = callee s2" "f a s3 = (Inr b, s')"
proof -
  from assms(1) obtain u s1 r s2 where s1: "m s = (Inr u, s1)" "call s1 = (r, s2)"
    and rest: "(case r of Inl e \<Rightarrow> bindE (n e) (\<lambda>_. fail_step L c inp what e) | Inr a \<Rightarrow> bindE k (\<lambda>_. f a)) s2 = (Inr b, s')"
    by (auto elim!: bindE_InrE simp: attempt_iff)
  from rest obtain a v s3 where "r = Inr a" "k s2 = (Inr v, s3)" "f a s3 = (Inr b, s')"
    by (auto elim!: bindE_InrE split: sum.splits)
  with that [of s1 a s2 s3] s1 frameD [OF assms(2) s1(1)] frameD [OF assms(3)] show ?thesis by blast
qed

lemma frame_confirmed:
  "frame callee (bindE (catchE (transition L c t ord st step msg) (internal_error what)) (\<lambda>_. returnE (resp :: CreateOrderResponse)))"
  by (intro frame_intros)

lemma saga_confirm_Inr:
  assumes "saga_confirm L c inp txn s = (Inr resp, s')"
  obtains a where "ConfirmStockAllocation L (incoming L c) (saga_confirm_request inp) (ext (callee s)) = (Inr a, ext (callee s'))"
    "data (callee s') = data (callee s)" "cor_status resp = SagaConfirmed"
proof -
  obtain a s1 s2 s3 where s1: "callee s1 = callee s"
    and call: "rpc (stock_call (ConfirmStockAllocation L (incoming L c) (saga_confirm_request inp))) s1 = (Inr a, s2)"
    and s3: "callee s3 = callee s2"
    and rest: "bindE (catchE (transition L c (in_uuid inp) (in_order inp) SagaConfirmed 3 '''')
                  (internal_error ''saga transition: '')) (\<lambda>_.
         returnE \<lparr>cor_order = in_order inp, cor_status = SagaConfirmed, cor_total = orderTotal (in_lines inp),
                  cor_txn = txn\<rparr>) s3 = (Inr resp, s')"
    using assms unfolding saga_confirm_def by (rule bind_call_Inr) (intro frame_intros)+
  from frameD [OF frame_confirmed rest] s3 have "callee s' = callee s2" by simp
  moreover from rest have "cor_status resp = SagaConfirmed" by (auto elim!: bindE_InrE)
  ultimately show ?thesis using stock_call_Inr [OF call] s1 that by simp
qed

lemma saga_allocate_Inr:
  assumes "saga_allocate L c inp txn s = (Inr resp, s')"
  obtains a b r1 where "AllocateReservation L (incoming L c) (saga_allocate_request inp) (callee s) = (Inr a, r1)"
    "ConfirmStockAllocation L (incoming L c) (saga_confirm_request inp) (ext r1) = (Inr b, ext (callee s'))"
    "data (callee s') = data r1" "cor_status resp = SagaConfirmed"
proof -
  from assms have "bindE (returnE ()) (\<lambda>_. saga_allocate L c inp txn) s = (Inr resp, s')" by (simp add: bindE_def)
  then obtain a s1 s2 s3 where s1: "callee s1 = callee s"
    and call: "rpc (res_call (AllocateReservation L (incoming L c) (saga_allocate_request inp))) s1 = (Inr a, s2)"
    and s3: "callee s3 = callee s2" and rest: "saga_confirm L c inp txn s3 = (Inr resp, s')"
    unfolding saga_allocate_def by (rule bind_call_Inr) (intro frame_intros)+
  from res_call_Inr [OF call] s1 s3 have "AllocateReservation L (incoming L c) (saga_allocate_request inp) (callee s) = (Inr a, callee s3)"
    by simp
  then show ?thesis using saga_confirm_Inr [OF rest] that by blast
qed

lemma compensate_order_Inr:
  assumes "compensate_order L c inp s = (Inr resp, s')"
  obtains a where "Release L (incoming L c) (compensation_request (in_tenant inp) (in_order inp) ''payment_failed'') (callee s) =
      (Inr a, callee s')" "cor_status resp = SagaCompensated"
proof -
  from assms obtain u where comp: "compensate L c (in_tenant inp) (in_order inp) ''payment_failed'' s = (Inr u, s')"
    and resp: "cor_status resp = SagaCompensated"
    unfolding compensate_order_def
    by (auto elim!: bindE_InrE simp: attempt_iff internal_error_def split: sum.splits)
  from comp obtain a s1 t where
    call: "rpc (res_call (Release L (incoming L c) (compensation_request (in_tenant inp) (in_order inp) ''payment_failed''))) s = (Inr a, s1)"
    and tr: "transition L c t (in_order inp) SagaCompensated (-1) ''payment_failed'' s1 = (Inr u, s')"
    unfolding compensate_def by (auto elim!: bindE_InrE split: sum.splits)
  from frameD [OF frame_callee_saga(1) tr] res_call_Inr [OF call] have
    "Release L (incoming L c) (compensation_request (in_tenant inp) (in_order inp) ''payment_failed'') (callee s) = (Inr a, callee s')"
    by simp
  from that [OF this resp] show ?thesis .
qed

lemma saga_pay_Inr:
  assumes "saga_pay L c inp s = (Inr resp, s')"
  obtains (compensated) a where "cor_status resp = SagaCompensated"
      "Release L (incoming L c) (compensation_request (in_tenant inp) (in_order inp) ''payment_failed'') (callee s) = (Inr a, callee s')"
  | (confirmed) a b r1 where "cor_status resp = SagaConfirmed"
      "AllocateReservation L (incoming L c) (saga_allocate_request inp) (callee s) = (Inr a, r1)"
      "ConfirmStockAllocation L (incoming L c) (saga_confirm_request inp) (ext r1) = (Inr b, ext (callee s'))"
      "data (callee s') = data r1"
proof -
  from assms obtain r s1 where charge: "charge_order inp s = (Inr r, s1)"
    and rest: "(case r of Inl _ \<Rightarrow> compensate_order L c inp
     | Inr txnID \<Rightarrow>
         bindE (catchE (recordTransaction L c (in_order inp) txnID) (internal_error ''record transaction: '')) (\<lambda>_.
         saga_allocate L c inp txnID)) s1 = (Inr resp, s')"
    unfolding saga_pay_def by (elim bindE_InrE)
  from frameD [OF frame_callee_saga(4) charge] have s1: "callee s1 = callee s" .
  show ?thesis
  proof (cases r)
    case (Inl e)
    with rest have "compensate_order L c inp s1 = (Inr resp, s')" by simp
    then show ?thesis using compensated s1 by (elim compensate_order_Inr) simp
  next
    case (Inr txn)
    with rest obtain u s2 where rec: "catchE (recordTransaction L c (in_order inp) txn) (internal_error ''record transaction: '') s1 = (Inr u, s2)"
      and al: "saga_allocate L c inp txn s2 = (Inr resp, s')" by (auto elim!: bindE_InrE)
    have "frame callee (catchE (recordTransaction L c (in_order inp) txn) (internal_error ''record transaction: ''))"
      by (intro frame_intros)
    from frameD [OF this rec] s1 have "callee s2 = callee s" by simp
    with al confirmed show ?thesis by (elim saga_allocate_Inr) simp
  qed
qed

lemma runSaga_Inr:
  assumes "runSaga L c inp s = (Inr resp, s')"
  obtains (short) a where "Reserve L (incoming L c) (saga_reserve_request inp) (callee s) = (Inr a, callee s')"
      "\<not> rqr_success a" "cor_status resp = SagaFailed"
  | (compensated) a b r1 where "Reserve L (incoming L c) (saga_reserve_request inp) (callee s) = (Inr a, r1)" "rqr_success a"
      "cor_status resp = SagaCompensated"
      "Release L (incoming L c) (compensation_request (in_tenant inp) (in_order inp) ''payment_failed'') r1 = (Inr b, callee s')"
  | (confirmed) a b d r1 r2 where "Reserve L (incoming L c) (saga_reserve_request inp) (callee s) = (Inr a, r1)" "rqr_success a"
      "cor_status resp = SagaConfirmed"
      "AllocateReservation L (incoming L c) (saga_allocate_request inp) r1 = (Inr b, r2)"
      "ConfirmStockAllocation L (incoming L c) (saga_confirm_request inp) (ext r2) = (Inr d, ext (callee s'))"
      "data (callee s') = data r2"
proof -
  obtain a s1 s2 s3 where s1: "callee s1 = callee s"
    and call: "rpc (res_call (Reserve L (incoming L c) (saga_reserve_request inp))) s1 = (Inr a, s2)"
    and s3: "callee s3 = callee s2"
    and rest: "(if \<not> rqr_success a
         then bindE (attempt (failSaga L c (in_tenant inp) (in_order inp) ''insufficient stock'')) (\<lambda>_.
           returnE \<lparr>cor_order = in_order inp, cor_status = SagaFailed, cor_total = 0, cor_txn = ''''\<rparr>)
         else
           bindE (catchE (transition L c (in_uuid inp) (in_order inp) SagaReserved 1 '''')
                    (internal_error ''saga transition: '')) (\<lambda>_.
           saga_pay L c inp)) s3 = (Inr resp, s')"
    using assms unfolding runSaga_def by (rule bind_call_Inr) (intro frame_intros)+
  from res_call_Inr [OF call] s1 s3 have res: "Reserve L (incoming L c) (saga_reserve_request inp) (callee s) = (Inr a, callee s3)"
    by simp
  show ?thesis
  proof (cases "rqr_success a")
    case False
    let ?fail = "bindE (attempt (failSaga L c (in_tenant inp) (in_order inp) ''insufficient stock'')) (\<lambda>_.
           returnE \<lparr>cor_order = in_order inp, cor_status = SagaFailed, cor_total = 0, cor_txn = ''''\<rparr>)"
    have "frame callee ?fail" by (intro frame_intros)
    moreover from rest False have run: "?fail s3 = (Inr resp, s')" by simp
    ultimately have "callee s' = callee s3" by (rule frameD)
    moreover from run have "cor_status resp = SagaFailed" by (auto elim!: bindE_InrE)
    ultimately have "callee s' = callee s3" "cor_status resp = SagaFailed" by simp_all
    with short res False show ?thesis by simp
  next
    case True
    with rest obtain u s4 where tr: "catchE (transition L c (in_uuid inp) (in_order inp) SagaReserved 1 '''')
                    (internal_error ''saga transition: '') s3 = (Inr u, s4)" and pay: "saga_pay L c inp s4 = (Inr resp, s')"
      by (auto elim!: bindE_InrE)
    have "frame callee (catchE (transition L c (in_uuid inp) (in_order inp) SagaReserved 1 '''') (internal_error ''saga transition: ''))"
      by (intro frame_intros)
    from frameD [OF this tr] have "callee s4 = callee s3" .
    with pay res True compensated confirmed show ?thesis by (elim saga_pay_Inr) simp_all
  qed
qed

section \<open>What the calls have done\<close>

lemma create_replay_known:
  fixes s :: "(order_db, 'x) sess"
  assumes "createOrderRow L c t req amount s = (Inl e, s')" "err_is e ErrIdempotentReplay"
  shows "co_key req \<noteq> '''' \<and> find_key t (co_key req) (order_keys (data s)) \<noteq> None"
proof -
  from assms(2) have "e \<noteq> ErrTenantIDMissing" "\<And>m m'. e \<noteq> Wrapped m (PgErr m')" by auto
  with assms(1) obtain s1 s2 :: "(order_db, 'x) sess" where
    b: "create_body L t req amount s1 = (Inl e, s2)" "data s1 = data s"
    unfolding createOrderRow_def by (elim ExecTxWithTenant_Inl) auto
  have raise: "\<not> pg_err e" using assms(2) by (auto simp: pg_err_def)
  have lines: "raises pg_err (forE (co_lines req) (insert_order_line t req))"
    unfolding insert_order_line_def by (intro raises_intros)
  have key: "raises pg_err (seen_key order_CheckAndInsertIdempotencyKey t k h)" for k h
    by (intro raises_seen_key raises_intros)
  from b(1) raise obtain s3 where
    "seen_key order_CheckAndInsertIdempotencyKey t (co_key req) (PayloadHash L (M_CreateOrder req)) s1 = (Inr True, s3)"
    unfolding create_body_def
    by (auto elim!: bindE_InlE split: if_splits dest: raisesD [OF key] raisesD [OF lines]
        raisesD [OF raises_order_queries(11)] raisesD [OF raises_order_queries(12)])
  moreover from this have "co_key req \<noteq> ''''" by (auto simp: seen_key_def)
  ultimately show ?thesis using order_ledger.seen_key_Inr(1) b(2) by metis
qed

lemma CreateOrder_fresh_run:
  fixes s :: "'y order_session"
  assumes "CreateOrder L c req s = (Inr resp, s')" "uuid_scan L (co_tenant req) = Some t"
    and "find_key t (co_key req) (order_keys (data s)) = None"
  obtains s1 where "runSaga L (WithTenantID c (co_tenant req)) (create_input t req) s1 = (Inr resp, s')" "callee s1 = callee s"
proof -
  let ?c = "WithTenantID c (co_tenant req)"
  obtain r s1 where row: "createOrderRow L ?c t req (orderTotal (co_lines req)) s = (r, s1)" by fastforce
  from frameD [OF frame_callee_saga(5) row] have s1: "callee s1 = callee s" .
  show ?thesis
  proof (cases r)
    case (Inl e)
    with row create_replay_known [of L ?c t req _ s e s1] assms(3) have "\<not> err_is e ErrIdempotentReplay" by auto
    with assms(1,2) row Inl show ?thesis
      by (auto simp: CreateOrder_def ParseUUID_def Let_def invalid_argument_def internal_error_def attempt_def bindE_def split: if_splits)
  next
    case (Inr i)
    with assms(1,2) row have "runSaga L ?c (create_input t req) s1 = (Inr resp, s')"
      by (auto simp: CreateOrder_def ParseUUID_def Let_def invalid_argument_def attempt_def bindE_def split: if_splits)
    from that [OF this s1] show ?thesis .
  qed
qed

lemma Reserve_short:
  fixes s :: "'y res_session"
  assumes "Reserve L c req s = (Inr resp, s')" "\<not> rqr_success resp" and "uuid_scan L (rq_tenant req) = Some t"
    and "stock_schema (data (ext s))" "\<not> key_seen t (rq_key req) (stock_inv (ext s))"
  shows "stock_inv (ext s') = stock_inv (ext s) \<and> data s' = data s"
proof -
  have ne: "rq_items req \<noteq> []" using assms(1) Reserve_rejects [of L req c s] by force
  from assms(1,3) ne show ?thesis
  proof (cases rule: Reserve_run)
    case (short r1)
    from hold_call_implements [OF short(1) assms(3) ne assms(4)]
    have "spec_ReserveStock (incoming L (WithTenantID c (rq_tenant req))) t (reserve_stock_request req) (stock_inv (ext s)) =
      Some (r1, stock_inv (ext s'))" by (simp add: det_def)
    from spec_ReserveStock_moved [OF this] short assms(5) frameD [OF frame_rpc(1) short(1)] show ?thesis
      by (simp add: reserve_stock_request_def)
  next
    case (held r1 s1)
    from held(3) refl refl show ?thesis
      by (cases rule: persist_run) (use assms(2) in simp_all)
  qed simp
qed

lemma no_active_after:
  assumes "reservations d' = mark_ids (rv_id ` set (active_rows lk t ord d)) st (reservations d)" "st \<noteq> StatusActive"
    and "\<And>i. \<not> lk i"
  shows "active_rows (\<lambda>_. False) t ord d' = []"
proof -
  have "set (active_rows (\<lambda>_. False) t ord d') = {}"
    using assms(2,3) unfolding set_active_rows assms(1) by (auto simp: mark_ids_def split: if_splits)
  then show ?thesis by simp
qed

lemma spec_ConfirmStockAllocation_moved:
  assumes "spec_ConfirmStockAllocation c t req I = Some (resp, J)" "\<not> key_seen t (cnf_key req) I"
  shows "moved MoveAllocate t (cnf_lines req) I J"
  using assms by (cases rule: spec_ConfirmStockAllocation_cases) (auto simp: moved_def run_moves_SomeD(1))

lemma item_lines [simp]: "map item_line (reserveItems ls) = stockLines ls"
  by (simp add: reserveItems_def stockLines_def item_line_def)

section \<open>The outcome of an order\<close>

text \<open>The ordered quantities have gone from available to allocated.\<close>

definition sold :: "uuid \<Rightarrow> OrderLine list \<Rightarrow> inventory \<Rightarrow> inventory \<Rightarrow> bool" where
  "sold t ls I J \<longleftrightarrow>
     (\<forall>loc. inv_levels J loc =
        map_option (\<lambda>b. b\<lparr>bk_available := bk_available b - demand t (stockLines ls) loc,
                          bk_allocated := bk_allocated b + demand t (stockLines ls) loc\<rparr>) (inv_levels I loc))"

lemma moved_sold:
  assumes "moved MoveReserve t (stockLines ls) I J" "moved MoveAllocate t (stockLines ls) J K"
  shows "sold t ls I K"
  unfolding sold_def
proof
  fix loc
  show "inv_levels K loc =
        map_option (\<lambda>b. b\<lparr>bk_available := bk_available b - demand t (stockLines ls) loc,
                          bk_allocated := bk_allocated b + demand t (stockLines ls) loc\<rparr>) (inv_levels I loc)"
    using assms [unfolded moved_def, THEN spec, of loc] by (cases "inv_levels I loc") simp_all
qed

text \<open>
  No trace of an earlier run of the order at the services: the keys of the saga's steps and of the
  compensation are unused, no reservation of the order is active, no other transaction holds its rows.
\<close>

definition fresh_saga :: "uuid \<Rightarrow> CreateOrderRequest \<Rightarrow> 'y res_session \<Rightarrow> bool" where
  "fresh_saga t req r \<longleftrightarrow>
     (\<forall>k \<in> {co_key req @ '':reserve'', CompensationKey (co_tenant req) (co_order req), co_key req @ '':allocate'',
             co_key req @ '':confirm''}.
        \<not> key_seen t k (stock_inv (ext r)) \<and> find_key t k (res_keys (data r)) = None) \<and>
     CompensationKey (co_tenant req) (co_order req) \<noteq> co_key req @ '':reserve'' \<and>
     active_rows (\<lambda>_. False) t (co_order req) (data r) = [] \<and> (\<forall>i x. \<not> busy (sched r i) x)"

lemma fresh_sagaD:
  assumes "fresh_saga t req r"
  shows "\<not> key_seen t (co_key req @ '':reserve'') (stock_inv (ext r))"
    and "find_key t (co_key req @ '':reserve'') (res_keys (data r)) = None"
    and "\<not> key_seen t (CompensationKey (co_tenant req) (co_order req)) (stock_inv (ext r))"
    and "find_key t (CompensationKey (co_tenant req) (co_order req)) (res_keys (data r)) = None"
    and "find_key t (co_key req @ '':allocate'') (res_keys (data r)) = None"
    and "\<not> key_seen t (co_key req @ '':confirm'') (stock_inv (ext r))"
    and "CompensationKey (co_tenant req) (co_order req) \<noteq> co_key req @ '':reserve''"
    and "active_rows (\<lambda>_. False) t (co_order req) (data r) = []" and "\<forall>i x. \<not> busy (sched r i) x"
  using assms unfolding fresh_saga_def by simp_all

lemma confirmed_outcome:
  fixes r r1 r2 :: "'y res_session"
  assumes res: "Reserve L c (saga_reserve_request inp) r = (Inr a, r1)" "rqr_success a"
    and al: "AllocateReservation L c (saga_allocate_request inp) r1 = (Inr b, r2)"
    and cf: "ConfirmStockAllocation L c (saga_confirm_request inp) (ext r2) = (Inr e, x)"
    and inp: "in_tenant inp = co_tenant req" "in_order inp = co_order req" "in_key inp = co_key req" "in_lines inp = co_lines req"
    and scan: "uuid_scan L (co_tenant req) = Some t" and sch: "stock_schema (data (ext r))" and fresh: "fresh_saga t req r"
  shows "sold t (co_lines req) (stock_inv (ext r)) (stock_inv x) \<and> active_rows (\<lambda>_. False) t (co_order req) (data r2) = []"
proof -
  note k = fresh_sagaD [OF fresh]
  have rq: "rq_tenant (saga_reserve_request inp) = co_tenant req" "rq_order (saga_reserve_request inp) = co_order req"
    "rq_key (saga_reserve_request inp) = co_key req @ '':reserve''" "rq_items (saga_reserve_request inp) = reserveItems (co_lines req)"
    by (simp_all add: saga_reserve_request_def inp)
  obtain ex rows where r1: "moved MoveReserve t (stockLines (co_lines req)) (stock_inv (ext r)) (stock_inv (ext r1))"
    "stock_schema (data (ext r1))" "sched r1 = sched r"
    "\<forall>k. k \<noteq> co_key req @ '':reserve'' \<longrightarrow> find_key t k (res_keys (data r1)) = find_key t k (res_keys (data r))"
    "\<forall>k. k \<noteq> co_key req @ '':reserve'' \<longrightarrow> key_seen t k (stock_inv (ext r1)) = key_seen t k (stock_inv (ext r))"
    using Reserve_fresh_run [OF res sch, of t] scan k(1,2) unfolding rq item_lines by blast
  have "find_key t (ar_key (saga_allocate_request inp)) (res_keys (data r1)) = None"
    using r1(4) k(5) by (simp add: saga_allocate_request_def inp)
  then obtain i where al': "reservations (data r2) =
      mark_ids (rv_id ` set (active_rows (busy (sched r1 i)) t (co_order req) (data r1))) StatusAllocated (reservations (data r1))"
    "ext r2 = ext r1"
    using AllocateReservation_Inr [OF al, of t] scan by (auto simp: saga_allocate_request_def inp)
  have "\<not> key_seen t (co_key req @ '':confirm'') (stock_inv (ext r2))"
    using r1(5) k(6) al'(2) by simp
  moreover have "spec_ConfirmStockAllocation c t (saga_confirm_request inp) (stock_inv (ext r2)) = Some (e, stock_inv x)"
    using ConfirmStockAllocation_implements [OF cf, of t] scan r1(2) al'(2)
    by (simp add: det_def saga_confirm_request_def inp)
  ultimately have "moved MoveAllocate t (stockLines (co_lines req)) (stock_inv (ext r1)) (stock_inv x)"
    using spec_ConfirmStockAllocation_moved al'(2) by (fastforce simp: saga_confirm_request_def inp)
  from moved_sold [OF r1(1) this] no_active_after [OF al'(1)] k(9) r1(3) show ?thesis
    by (simp add: status_defs)
qed

text \<open>
  C2: An order's outcome is what happened to the stock. When \<^verbatim>\<open>CreateOrder\<close> answers for an order that is new to the
  services, it answers one of three outcomes. Confirmed: exactly the ordered quantities have gone from
  available to allocated, through the reservation service and the stock service. Compensated (the
  payment was declined): every stock level is what it was before the order. Failed (stock is short):
  again nothing has changed. In all three, no active reservation of the order is left for the sweeper
  to release.
\<close>

theorem order_outcome_matches_stock:
  fixes s :: "'y order_session"
  assumes "CreateOrder L c req s = (Inr resp, s')" and "uuid_scan L (co_tenant req) = Some t"
    and "find_key t (co_key req) (order_keys (data s)) = None"
    and "stock_schema (data (ext (callee s)))" and "fresh_saga t req (callee s)"
  shows "cor_status resp \<in> {SagaConfirmed, SagaCompensated, SagaFailed} \<and>
    (if cor_status resp = SagaConfirmed
     then sold t (co_lines req) (stock_inv (ext (callee s))) (stock_inv (ext (callee s')))
     else inv_levels (stock_inv (ext (callee s'))) = inv_levels (stock_inv (ext (callee s)))) \<and>
    active_rows (\<lambda>_. False) t (co_order req) (data (callee s')) = []"
proof -
  let ?c = "incoming L (WithTenantID c (co_tenant req))" and ?inp = "create_input t req"
  note k = fresh_sagaD [OF assms(5)]
  have inp: "in_tenant ?inp = co_tenant req" "in_order ?inp = co_order req" "in_key ?inp = co_key req" "in_lines ?inp = co_lines req"
    by (simp_all add: create_input_def)
  have rq: "rq_tenant (saga_reserve_request ?inp) = co_tenant req" "rq_order (saga_reserve_request ?inp) = co_order req"
    "rq_key (saga_reserve_request ?inp) = co_key req @ '':reserve''"
    by (simp_all add: saga_reserve_request_def inp)
  obtain s1 where run: "runSaga L (WithTenantID c (co_tenant req)) ?inp s1 = (Inr resp, s')" and s1: "callee s1 = callee s"
    by (rule CreateOrder_fresh_run [OF assms(1-3)])
  from run show ?thesis
  proof (cases rule: runSaga_Inr)
    case (short a)
    from Reserve_short [OF short(1,2), of t] s1 rq assms(2,4) k(1,8) short(3) show ?thesis by simp
  next
    case (compensated a b r1)
    let ?rel = "compensation_request (in_tenant ?inp) (in_order ?inp) ''payment_failed''"
    have rl: "rl_tenant ?rel = co_tenant req" "rl_order ?rel = co_order req"
      "rl_key ?rel = CompensationKey (co_tenant req) (co_order req)"
      by (simp_all add: compensation_request_def inp)
    from round_trip [OF compensated(1,2,4), of t, unfolded rq rl] s1 assms(2,4) k compensated(3) show ?thesis by simp
  next
    case (confirmed a b e r1 r2)
    from confirmed_outcome [OF confirmed(1,2,4,5) inp assms(2)] s1 assms(4,5) confirmed(3,6) show ?thesis by simp
  qed
qed

lemma sample_fresh_saga: "fresh_saga ''t'' (sample_order ls) (callee sample_saga)"
  by (simp add: fresh_saga_def sample_saga_def NewSaga_def sample_simps sample_order_def CompensationKey_def active_rows_empty
      del: inventory_of_simps) (simp add: calm_sess_def calm_def empty_reservations_def find_key_def)

theorem order_outcome_matches_stock_witness:
  "let s' = snd (CreateOrder sample_lib sample_ctx (sample_order [sample_order_line ''a'' 3]) sample_saga) in
   sold ''t'' [sample_order_line ''a'' 3] (stock_inv (ext (callee sample_saga))) (stock_inv (ext (callee s'))) \<and>
   map rv_status (reservations (data (callee s'))) = [StatusAllocated] \<and>
   map_option bk_allocated (inv_levels (stock_inv (ext (callee s'))) (''t'', ''a'', ''w'')) = Some 4"
proof -
  let ?req = "sample_order [sample_order_line ''a'' 3]"
  let ?out = "CreateOrder sample_lib sample_ctx ?req sample_saga"
  have ev: "(case ?out of (r, s') \<Rightarrow> (map_sum (\<lambda>_. ()) cor_status r, map rv_status (reservations (data (callee s'))),
      map_option bk_allocated (inv_levels (stock_inv (ext (callee s'))) (''t'', ''a'', ''w'')))) =
      (Inr SagaConfirmed, [StatusAllocated], Some 4)" by code_simp
  then have "map_sum (\<lambda>_. ()) cor_status (fst ?out) = Inr SagaConfirmed" by (simp add: case_prod_beta)
  then obtain resp where run: "?out = (Inr resp, snd ?out)" "cor_status resp = SagaConfirmed" by (rule Inr_run_with)
  from ev have "map rv_status (reservations (data (callee (snd ?out)))) = [StatusAllocated] \<and>
   map_option bk_allocated (inv_levels (stock_inv (ext (callee (snd ?out)))) (''t'', ''a'', ''w'')) = Some 4"
    by (simp add: case_prod_beta)
  moreover have "find_key ''t'' (co_key ?req) (order_keys (data sample_saga)) = None"
    "stock_schema (data (ext (callee sample_saga)))" "uuid_scan sample_lib (co_tenant ?req) = Some ''t''" "co_lines ?req = [sample_order_line ''a'' 3]"
    by (simp_all add: sample_saga_def NewSaga_def sample_schema calm_sess_def empty_orders_def find_key_def sample_order_def sample_simps)
  ultimately show ?thesis
    using order_outcome_matches_stock [OF run(1), of "''t''"] run(2) sample_fresh_saga by (simp add: Let_def)
qed

end
