(* ===== verification/OrderDelivery.thy ===== *)
theory OrderDelivery
  imports OrderOutcome
begin

text \<open>
  At most one effect per idempotency key at the order service, and the arithmetic of the order total.
\<close>

section \<open>The ledger only grows\<close>

definition order_key_in :: "uuid \<Rightarrow> string \<Rightarrow> order_db \<Rightarrow> bool" where
  "order_key_in t k d \<longleftrightarrow> find_key t k (order_keys d) \<noteq> None"

lemma keeps_order_key_in [keeps_intros]:
  "keeps (order_key_in t k) (order_CheckAndInsertIdempotencyKey t' k' h)"
  "keeps (order_key_in t k) (order_InsertOutboxEvent t' at ai et pl tr)"
  "keeps (order_key_in t k) (InsertOrderLine t' ord sku wh q p)"
  "keeps (order_key_in t k) (UpdateOrderStatus ord st txn)"
  "keeps (order_key_in t k) (UpdateSagaState ord st step er)"
  "keeps (order_key_in t k) (UpsertOrder t' ord st amount cur)"
  "keeps (order_key_in t k) (UpsertSagaInstance t' ord st step key)"
  "keeps (order_key_in t k) (GetResumableSagas lim)"
  unfolding order_query_defs Let_def order_key_in_def
  by (rule keeps_stmt; auto split: sum.splits option.splits if_splits dest!: insert_key_Inr)+

lemma keeps_key_transactions [keeps_intros]:
  "keeps (order_key_in t k) (transition L c t' ord st step msg)" "keeps (order_key_in t k) (failSaga L c tenant ord msg)"
  "keeps (order_key_in t k) (compensate L c tenant ord reason)" "keeps (order_key_in t k) (recordTransaction L c ord txn)"
  "keeps (order_key_in t k) (getSaga L c ord)"
  unfolding transition_def failSaga_def compensate_def recordTransaction_def getSaga_def transition_body_def mirror_status_def
  by (intro keeps_intros GetOrder_queries_keep)+

lemma keeps_key_runSaga [keeps_intros]: "keeps (order_key_in t k) (runSaga L c inp)"
  unfolding runSaga_def saga_pay_def compensate_order_def saga_allocate_def saga_confirm_def charge_order_def fail_step_def
  by (intro keeps_intros)

lemma keeps_key_fulfill [keeps_intros]:
  "keeps (order_key_in t k) (fulfill_write c t' req o')" "keeps (order_key_in t k) (fulfill_order_body L c t' req)"
proof -
  show w: "keeps (order_key_in t k) (fulfill_write c t' req o')" for o'
    unfolding fulfill_write_def by (intro keeps_intros GetOrder_queries_keep)
  show "keeps (order_key_in t k) (fulfill_order_body L c t' req)"
    unfolding fulfill_order_body_def by (intro keeps_intros GetOrder_queries_keep keeps_fulfill_view w)
qed

lemma keeps_key_order_serve: "keeps (order_key_in t k) (order_serve L c op)"
proof (cases op)
  case (OpCreate req)
  show ?thesis
    unfolding OpCreate order_serve.simps CreateOrder_def Let_def createOrderRow_def create_body_def insert_order_line_def
      replayCreateOrder_def
    by (intro keeps_intros)
next
  case (OpGet req)
  show ?thesis unfolding OpGet order_serve.simps GetOrder_def get_order_body_def by (intro keeps_intros GetOrder_queries_keep)
next
  case (OpCancel req)
  show ?thesis unfolding OpCancel order_serve.simps CancelOrder_def Let_def by (intro keeps_intros)
next
  case (OpFulfill req)
  show ?thesis unfolding OpFulfill order_serve.simps FulfillOrder_def Let_def by (intro keeps_intros)
next
  case (OpResume lim)
  show ?thesis unfolding OpResume order_serve.simps ResumePendingSagas_def resume_saga_def Let_def
    by (intro keeps_intros GetOrder_queries_keep)
qed

section \<open>A keyed request acts at most once\<close>

text \<open>
  What a request can touch: the order tables, and the reservation and stock services behind the saga.
\<close>

definition order_effect :: "'y order_session \<Rightarrow> order_db \<times> 'y res_session" where
  "order_effect s = (data s, callee s)"

definition order_call_key :: "lib \<Rightarrow> order_op \<Rightarrow> (uuid \<times> string) option" where
  "order_call_key L op =
     (case op of
        OpCreate req \<Rightarrow> map_option (\<lambda>t. (t, co_key req)) (uuid_scan L (co_tenant req))
      | OpFulfill req \<Rightarrow> map_option (\<lambda>t. (t, fo_key req)) (uuid_scan L (fo_tenant req))
      | _ \<Rightarrow> None)"

text \<open>Nothing has happened, or the key was new and is now on record.\<close>

definition acted_once :: "uuid \<Rightarrow> string \<Rightarrow> 'y order_session \<Rightarrow> 'y order_session \<Rightarrow> bool" where
  "acted_once t k s s' \<longleftrightarrow>
     order_effect s' = order_effect s \<or> order_key_in t k (data s') \<and> \<not> order_key_in t k (data s)"

lemma replay_effect:
  assumes "replayCreateOrder L c req s = (r, s')"
  shows "order_effect s' = order_effect s"
proof -
  have get: "keeps P (getSaga L c ord)" "frame callee (getSaga L c ord)" for P ord
    unfolding getSaga_def by (intro keeps_intros GetOrder_queries_keep frame_intros)+
  have "keeps (\<lambda>d. d = data s) (replayCreateOrder L c req)" "frame callee (replayCreateOrder L c req)"
    unfolding replayCreateOrder_def by (intro keeps_intros get frame_intros)+
  from keeps_step [OF this(1) assms refl] frameD [OF this(2) assms] show ?thesis by (simp add: order_effect_def)
qed

lemma createOrderRow_once:
  fixes s :: "'y order_session"
  assumes "createOrderRow L c t req amount s = (r, s')" "co_key req \<noteq> ''''"
  shows "data s' = data s \<or> order_key_in t (co_key req) (data s') \<and> \<not> order_key_in t (co_key req) (data s)"
    and "r = Inr i \<Longrightarrow> order_key_in t (co_key req) (data s') \<and> \<not> order_key_in t (co_key req) (data s)"
proof -
  have ok: "keeps (order_key_in t (co_key req))
      (bindE (UpsertOrder t (co_order req) OrderPending amount ''USD'') (\<lambda>o'.
       bindE (forE (co_lines req) (insert_order_line t req)) (\<lambda>_.
       bindE (UpsertSagaInstance t (co_order req) SagaPendingPayment 0 (co_key req)) (\<lambda>_.
       returnE (or_id o')))))"
    unfolding insert_order_line_def by (intro keeps_intros)
  have "data s' = data s \<or> find_key t (co_key req) (order_keys (data s')) \<noteq> None \<and> find_key t (co_key req) (order_keys (data s)) = None"
    by (rule order_ledger.keyed_tx [OF assms(1) [unfolded createOrderRow_def create_body_def] assms(2)])
      (use ok in \<open>simp_all add: order_key_in_def [abs_def] frame_intros\<close>)
  then show "data s' = data s \<or> order_key_in t (co_key req) (data s') \<and> \<not> order_key_in t (co_key req) (data s)"
    by (simp add: order_key_in_def)
  show "order_key_in t (co_key req) (data s') \<and> \<not> order_key_in t (co_key req) (data s)" if "r = Inr i"
  proof -
    from assms(1) that obtain s1 s2 :: "'y order_session" where body: "create_body L t req amount s1 = (Inr i, s2)"
      and s12: "data s1 = data s" "data s' = data s2"
      unfolding createOrderRow_def by (auto elim!: ExecTxWithTenant_Inr)
    from body obtain s3 where
      key: "seen_key order_CheckAndInsertIdempotencyKey t (co_key req) (PayloadHash L (M_CreateOrder req)) s1 = (Inr False, s3)"
      and rest: "bindE (UpsertOrder t (co_order req) OrderPending amount ''USD'') (\<lambda>o'.
       bindE (forE (co_lines req) (insert_order_line t req)) (\<lambda>_.
       bindE (UpsertSagaInstance t (co_order req) SagaPendingPayment 0 (co_key req)) (\<lambda>_.
       returnE (or_id o')))) s3 = (Inr i, s2)"
      unfolding create_body_def by (auto elim!: bindE_InrE split: if_splits)
    note k = order_ledger.seen_key_Inr [OF key assms(2)]
    from k(2) have "order_key_in t (co_key req) (data s3)" by (simp add: order_key_in_def)
    from keeps_step [OF ok rest this] k(1) s12 show ?thesis by (simp add: order_key_in_def)
  qed
qed

lemma CreateOrder_once:
  fixes s :: "'y order_session"
  assumes "CreateOrder L c req s = (r, s')" "uuid_scan L (co_tenant req) = Some t" "co_key req \<noteq> ''''"
  shows "acted_once t (co_key req) s s'"
proof -
  let ?c = "WithTenantID c (co_tenant req)"
  obtain q s1 where row: "createOrderRow L ?c t req (orderTotal (co_lines req)) s = (q, s1)" by fastforce
  from frameD [OF frame_callee_saga(5) row] have s1: "callee s1 = callee s" .
  from assms(1,2) row consider (bad) "s' = s"
    | (err) e where "q = Inl e" "s' = s1"
    | (replay) e where "q = Inl e" "replayCreateOrder L ?c req s1 = (r, s')"
    | (run) i where "q = Inr i" "runSaga L ?c (create_input t req) s1 = (r, s')"
    by (cases q) (auto simp: CreateOrder_def ParseUUID_def Let_def invalid_argument_def internal_error_def attempt_def bindE_def
        split: if_splits)
  then show ?thesis
  proof cases
    case bad
    then show ?thesis by (simp add: acted_once_def)
  next
    case err
    with createOrderRow_once(1) [OF row assms(3)] s1 show ?thesis by (auto simp: acted_once_def order_effect_def)
  next
    case replay
    with createOrderRow_once(1) [OF row assms(3)] s1 replay_effect [OF replay(2)] show ?thesis
      by (auto simp: acted_once_def order_effect_def)
  next
    case run
    with createOrderRow_once(2) [OF row assms(3)] keeps_step [OF keeps_key_runSaga run(2)] show ?thesis
      by (auto simp: acted_once_def)
  qed
qed
lemma fulfill_body_once:
  fixes s :: "'y order_session"
  assumes run: "fulfill_order_body L c t req s = (Inr resp, s')" and "fo_key req \<noteq> ''''"
  shows "data s' = data s \<or> order_key_in t (fo_key req) (data s') \<and> \<not> order_key_in t (fo_key req) (data s)"
proof -
  let ?get = "catchE (GetOrderById (fo_order req))
      (\<lambda>e. if err_is e ErrNoRows then failE (StatusErr NotFound ''order not found'') else failE e)"
  from run obtain o' s1 where get: "?get s = (Inr o', s1)"
    and rest: "(if or_status o' = OrderFulfilled then fulfill_replay L t req
     else if or_status o' \<noteq> OrderConfirmed
     then failed_precondition (''order '' @ fo_order req @ '' is '' @ or_status o' @ '', must be CONFIRMED'')
     else
       bindE (seen_key order_CheckAndInsertIdempotencyKey t (fo_key req) (PayloadHash L (M_FulfillOrder req))) (\<lambda>dup.
       if dup then fulfill_known_key L t req else fulfill_write c t req o')) s1 = (Inr resp, s')"
    unfolding fulfill_order_body_def by (elim bindE_InrE)
  have "keeps (\<lambda>d. d = data s) ?get" by (intro keeps_intros GetOrder_queries_keep)
  from keeps_step [OF this get refl] have s1: "data s1 = data s" .
  show ?thesis
  proof (cases "or_status o' = OrderConfirmed")
    case False
    with rest have "fulfill_replay L t req s1 = (Inr resp, s')" by (simp add: failed_precondition_def split: if_splits)
    from keeps_step [OF keeps_fulfill_view(1) [where P = "\<lambda>d. d = data s1"] this refl] s1 show ?thesis by simp
  next
    case True
    with rest obtain dup s2 where
      key: "seen_key order_CheckAndInsertIdempotencyKey t (fo_key req) (PayloadHash L (M_FulfillOrder req)) s1 = (Inr dup, s2)"
      and act: "(if dup then fulfill_known_key L t req else fulfill_write c t req o') s2 = (Inr resp, s')"
      by (auto elim!: bindE_InrE)
    note k = order_ledger.seen_key_Inr [OF key assms(2)]
    show ?thesis
    proof (cases dup)
      case True
      with act have "fulfill_known_key L t req s2 = (Inr resp, s')" by simp
      from keeps_step [OF keeps_fulfill_view(2) [where P = "\<lambda>d. d = data s2"] this refl] k(3) [OF True] s1 show ?thesis by simp
    next
      case False
      with act have "fulfill_write c t req o' s2 = (Inr resp, s')" by simp
      from keeps_step [OF keeps_key_fulfill(1) this, of t "fo_key req"] k(1,2) False s1 show ?thesis
        by (simp add: order_key_in_def)
    qed
  qed
qed

lemma FulfillOrder_once:
  fixes s :: "'y order_session"
  assumes "FulfillOrder L c req s = (r, s')" "uuid_scan L (fo_tenant req) = Some t" "fo_key req \<noteq> ''''"
  shows "acted_once t (fo_key req) s s'"
proof -
  let ?c = "WithTenantID c (fo_tenant req)"
  from assms(1,2) have tx: "ExecTxWithTenant L ?c (fulfill_order_body L ?c t req) s = (r, s')"
    by (simp add: FulfillOrder_def ParseUUID_def Let_def)
  have fr: "frame callee (FulfillOrder L c req)"
    unfolding FulfillOrder_def Let_def invalid_argument_def fulfill_order_body_def fulfill_replay_def fulfill_known_key_def
      fulfill_write_def failed_precondition_def
    by (intro frame_intros)
  from ExecTxWithTenant_atomic [OF tx]
  have "data s' = data s \<or> (\<exists>(s1 :: 'y order_session) a s2.
      fulfill_order_body L ?c t req s1 = (Inr a, s2) \<and> data s1 = data s \<and> data s2 = data s')"
    unfolding commits_def by blast
  then have "data s' = data s \<or> order_key_in t (fo_key req) (data s') \<and> \<not> order_key_in t (fo_key req) (data s)"
    using fulfill_body_once [OF _ assms(3)] by metis
  with frameD [OF fr assms(1)] show ?thesis by (auto simp: acted_once_def order_effect_def)
qed

definition order_deliver :: "lib \<Rightarrow> ctx \<times> order_op \<Rightarrow> 'y order_session \<Rightarrow> 'y order_session" where
  "order_deliver L = (\<lambda>(c, op) s. snd (order_serve L c op s))"

lemma map_reply_snd: "snd (bindE m (\<lambda>r. returnE (f r)) s) = snd (m s)"
  by (simp add: bindE_def case_prod_beta split: sum.split)

lemma order_keyed_call:
  fixes s :: "'y order_session"
  assumes "order_call_key L op = Some (t, k)" "k \<noteq> ''''"
  shows "acted_once t k s (snd (order_serve L c op s))"
proof -
  consider req where "op = OpCreate req" "uuid_scan L (co_tenant req) = Some t" "co_key req = k"
    | req where "op = OpFulfill req" "uuid_scan L (fo_tenant req) = Some t" "fo_key req = k"
    using assms(1) by (cases op) (auto simp: order_call_key_def)
  then show ?thesis
  proof cases
    case (1 req)
    with CreateOrder_once [OF surjective_pairing 1(2)] assms(2) show ?thesis by (simp add: map_reply_snd)
  next
    case (2 req)
    with FulfillOrder_once [OF surjective_pairing 2(2)] assms(2) show ?thesis by (simp add: map_reply_snd)
  qed
qed

interpretation order_once: retry_safe
  "order_deliver L" "\<lambda>op. order_call_key L (snd op) = Some (t, ch # k)" "\<lambda>s. order_key_in t (ch # k) (data s)" order_effect
  for L t ch k
proof unfold_locales
  fix op :: "ctx \<times> order_op" and s :: "'a order_session"
  obtain c call where op: "op = (c, call)" by fastforce
  show "order_key_in t (ch # k) (data s) \<Longrightarrow> order_key_in t (ch # k) (data (order_deliver L op s))"
    using keepsD [OF keeps_key_order_serve] by (simp add: op order_deliver_def)
  assume "order_call_key L (snd op) = Some (t, ch # k)"
  with order_keyed_call [of L call t "ch # k" s c] op
  have "acted_once t (ch # k) s (order_deliver L op s)" by (simp add: order_deliver_def)
  then show "order_key_in t (ch # k) (data s) \<Longrightarrow> order_effect (order_deliver L op s) = order_effect s"
    and "order_effect (order_deliver L op s) \<noteq> order_effect s \<Longrightarrow> order_key_in t (ch # k) (data (order_deliver L op s))"
    by (auto simp: acted_once_def)
qed

text \<open>
  C13: An idempotency key acts at most once at the order service. In any history of requests and resume
  scans, with any faults, at most one of the \<^verbatim>\<open>CreateOrder\<close> and \<^verbatim>\<open>FulfillOrder\<close> requests that carry
  the key changes anything: a retry neither writes order tables nor reserves, charges, allocates or
  releases anything at the other services again.
\<close>

theorem order_key_at_most_once:
  assumes "k \<noteq> ''''"
  shows "effects (order_deliver L) (\<lambda>(c, op). order_call_key L op = Some (t, k)) order_effect ops s \<le> 1"
proof -
  from assms obtain ch k' where "k = ch # k'" by (cases k) auto
  then show ?thesis
    using order_once.at_most_one_effect [of L t ch k' ops s] by (simp add: case_prod_beta')
qed

theorem order_key_at_most_once_witness:
  "let op = (sample_ctx, OpCreate (sample_order [sample_order_line ''b'' 3])) in
   effects (order_deliver sample_lib) (\<lambda>(c, op). order_call_key sample_lib op = Some (''t'', ''k'')) order_effect [op, op] sample_saga \<le> 1 \<and>
   order_call_key sample_lib (snd op) = Some (''t'', ''k'') \<and>
   length (orders (data (order_deliver sample_lib op sample_saga))) = 1"
proof -
  let ?op = "(sample_ctx, OpCreate (sample_order [sample_order_line ''b'' 3]))"
  have "length (orders (data (order_deliver sample_lib ?op sample_saga))) = 1" by code_simp
  moreover have "order_call_key sample_lib (snd ?op) = Some (''t'', ''k'')"
    by (simp add: order_call_key_def sample_order_def sample_simps)
  ultimately show ?thesis
    using order_key_at_most_once [of "''k''" sample_lib "''t''" "[?op, ?op]" sample_saga] by (simp add: Let_def)
qed

section \<open>The total of an order\<close>

definition exact_total :: "OrderLine list \<Rightarrow> int" where
  "exact_total ls = (\<Sum>l \<leftarrow> ls. sint (ol_qty l) * sint (ol_price l))"

lemma orderTotal_exact: "orderTotal ls = word_of_int (exact_total ls)"
proof -
  have "foldl (\<lambda>acc l. acc + scast (ol_qty l) * ol_price l) a ls = a + word_of_int (exact_total ls)" for a :: int64
  proof (induction ls arbitrary: a)
    case (Cons l ls)
    have "(scast (ol_qty l) * ol_price l :: int64) = word_of_int (sint (ol_qty l) * sint (ol_price l))"
      by simp
    with Cons show ?case by (simp add: exact_total_def)
  qed (simp add: exact_total_def)
  then show ?thesis by (simp add: orderTotal_def)
qed

lemma orderTotal_exact_iff: "sint (orderTotal ls) = exact_total ls \<longleftrightarrow> in_i64 (exact_total ls)"
  by (metis orderTotal_exact sint_in_i64 sint_of_int_i64)

text \<open>Every answer of the saga but the one for missing stock carries the total of its lines.\<close>

lemma saga_confirm_total: "saga_confirm L c inp txn s = (Inr resp, s') \<Longrightarrow> cor_total resp = orderTotal (in_lines inp)"
  by (auto simp: saga_confirm_def elim!: bindE_InrE split: sum.splits)

lemma saga_pay_total: "saga_pay L c inp s = (Inr resp, s') \<Longrightarrow> cor_total resp = orderTotal (in_lines inp)"
  by (auto simp: saga_pay_def saga_allocate_def compensate_order_def internal_error_def elim!: bindE_InrE
      split: sum.splits dest!: saga_confirm_total)

lemma runSaga_total:
  "runSaga L c inp s = (Inr resp, s') \<Longrightarrow>
   cor_status resp = SagaFailed \<and> cor_total resp = 0 \<or> cor_total resp = orderTotal (in_lines inp)"
  by (auto simp: runSaga_def elim!: bindE_InrE split: sum.splits if_splits dest!: saga_pay_total)

lemma CreateOrder_positive:
  "CreateOrder L c req s = (Inr resp, s') \<Longrightarrow> 0 < sint (orderTotal (co_lines req))"
  by (auto simp: CreateOrder_def invalid_argument_def Let_def split: sum.splits if_splits)

definition overflowing_line :: OrderLine where
  "overflowing_line = \<lparr>ol_sku = ''a'', ol_wh = ''w'', ol_qty = 4, ol_price = 4611686018427387905\<rparr>"

lemma overflowing_line_total: "exact_total [overflowing_line] = 2 ^ 64 + 4" "orderTotal [overflowing_line] = 4"
  by (simp_all add: exact_total_def orderTotal_def overflowing_line_def)

definition overflowing_answer :: CreateOrderResponse where
  "overflowing_answer = \<lparr>cor_order = ''o'', cor_status = SagaConfirmed, cor_total = 4, cor_txn = ''sbx_uuuuuuuuuuuuuuuu''\<rparr>"

lemma overflowing_order_confirmed:
  "fst (CreateOrder sample_lib sample_ctx (sample_order [overflowing_line]) sample_saga) =
   Inr overflowing_answer"
  by code_simp

lemma overflowing_order_accepted:
  "\<exists>L c req (s :: unit order_session) resp s'.
     CreateOrder L c req s = (Inr resp, s') \<and> cor_status resp = SagaConfirmed \<and> cor_total resp = 4 \<and>
     exact_total (co_lines req) = 2 ^ 64 + 4 \<and>
     list_all (\<lambda>l. 0 < sint (ol_qty l) \<and> 0 < sint (ol_price l)) (co_lines req)"
proof -
  let ?req = "sample_order [overflowing_line]"
  obtain s' where "CreateOrder sample_lib sample_ctx ?req sample_saga =
    (Inr overflowing_answer, s')"
    using overflowing_order_confirmed by (metis prod.collapse)
  moreover have "exact_total (co_lines ?req) = 2 ^ 64 + 4" "list_all (\<lambda>l. 0 < sint (ol_qty l) \<and> 0 < sint (ol_price l)) (co_lines ?req)"
    using overflowing_line_total(1) by (simp_all add: sample_order_def) (simp add: overflowing_line_def)
  moreover have "cor_status overflowing_answer = SagaConfirmed" "cor_total overflowing_answer = 4"
    by (simp_all add: overflowing_answer_def)
  ultimately show ?thesis by blast
qed

text \<open>
  C33: The amount of an order is its total only while the total fits 64 bits. \<^verbatim>\<open>orderTotal\<close> adds up
  without an overflow check, so its result is the sum of quantity times unit price exactly when that
  sum is in the range of \<^verbatim>\<open>int64\<close>, and the guard of \<^verbatim>\<open>CreateOrder\<close> looks at the wrapped value alone. An
  order the handler answers for a key it has not seen has a positive wrapped total, and that wrapped
  total is what a confirmed or compensated answer reports. The guard does not catch an overflow: there is a
  request whose lines are positive and sum up to \<^verbatim>\<open>2^64 + 4\<close>, and that is confirmed with total 4.
\<close>

theorem order_total_exact_iff_in_range:
  assumes "CreateOrder L c req s = (Inr resp, s')" "uuid_scan L (co_tenant req) = Some t"
    and "find_key t (co_key req) (order_keys (data s)) = None" and "cor_status resp \<noteq> SagaFailed"
  shows "(sint (cor_total resp) = exact_total (co_lines req) \<longleftrightarrow> in_i64 (exact_total (co_lines req))) \<and>
    cor_total resp = word_of_int (exact_total (co_lines req)) \<and> 0 < sint (cor_total resp) \<and>
    (\<exists>L c req' (s :: unit order_session) resp' s'.
       CreateOrder L c req' s = (Inr resp', s') \<and> cor_status resp' = SagaConfirmed \<and> cor_total resp' = 4 \<and>
       exact_total (co_lines req') = 2 ^ 64 + 4 \<and>
       list_all (\<lambda>l. 0 < sint (ol_qty l) \<and> 0 < sint (ol_price l)) (co_lines req'))"
proof -
  from CreateOrder_fresh_run [OF assms(1-3)] obtain s1 where
    "runSaga L (WithTenantID c (co_tenant req)) (create_input t req) s1 = (Inr resp, s')" .
  from runSaga_total [OF this] assms(4) have "cor_total resp = orderTotal (co_lines req)"
    by (simp add: create_input_def)
  with orderTotal_exact_iff orderTotal_exact CreateOrder_positive [OF assms(1)]
  have "(sint (cor_total resp) = exact_total (co_lines req) \<longleftrightarrow> in_i64 (exact_total (co_lines req))) \<and>
    cor_total resp = word_of_int (exact_total (co_lines req)) \<and> 0 < sint (cor_total resp)" by metis
  with overflowing_order_accepted show ?thesis by blast
qed

theorem order_total_exact_iff_in_range_witness:
  "let req = sample_order [overflowing_line];
       resp = overflowing_answer in
   fst (CreateOrder sample_lib sample_ctx req sample_saga) = Inr resp \<and>
   (sint (cor_total resp) = exact_total (co_lines req) \<longleftrightarrow> in_i64 (exact_total (co_lines req))) \<and>
   \<not> in_i64 (exact_total (co_lines req))"
proof -
  let ?req = "sample_order [overflowing_line]"
  have key: "find_key ''t'' (co_key ?req) (order_keys (data sample_saga)) = None"
    "uuid_scan sample_lib (co_tenant ?req) = Some ''t''" by code_simp+
  obtain s' where "CreateOrder sample_lib sample_ctx ?req sample_saga =
    (Inr overflowing_answer, s')"
    using overflowing_order_confirmed by (metis prod.collapse)
  from order_total_exact_iff_in_range [OF this key(2,1)]
  have "sint (cor_total overflowing_answer) = exact_total (co_lines ?req) \<longleftrightarrow> in_i64 (exact_total (co_lines ?req))"
    by (simp add: overflowing_answer_def)
  moreover have "\<not> in_i64 (exact_total (co_lines ?req))"
    using overflowing_line_total(1) by (simp add: sample_order_def in_i64_def)
  ultimately show ?thesis using overflowing_order_confirmed by (simp only: Let_def simp_thms)
qed

end
