(* ===== verification/Base64.thy ===== *)
theory Base64
  imports Prelude
begin

text \<open>
  \<^verbatim>\<open>encoding/base64\<close> as the sources use it: \<^verbatim>\<open>RawURLEncoding\<close> for the segments of a JWT
  (pkg/auth/auth.go) and \<^verbatim>\<open>StdEncoding\<close>, which \<^verbatim>\<open>encoding/json\<close> applies to a \<^verbatim>\<open>[]byte\<close> field
  (the payload of a dead-letter envelope, pkg/streaming/consumer.go). Decoding undoes encoding for
  both.
\<close>

section \<open>Alphabets\<close>

text \<open>The last two characters of the alphabet are what the standard and the URL alphabet differ in.\<close>

definition b64_char :: "char \<times> char \<Rightarrow> nat \<Rightarrow> char" where
  "b64_char ab d =
     (if d < 26 then char_of (65 + d)
      else if d < 52 then char_of (71 + d)
      else if d < 62 then char_of (d - 4)
      else if d = 62 then fst ab else snd ab)"

definition b64_val :: "char \<times> char \<Rightarrow> char \<Rightarrow> nat option" where
  "b64_val ab c =
     (let n = of_char c :: nat in
      if 65 \<le> n \<and> n \<le> 90 then Some (n - 65)
      else if 97 \<le> n \<and> n \<le> 122 then Some (n - 71)
      else if 48 \<le> n \<and> n \<le> 57 then Some (n + 4)
      else if c = fst ab then Some 62
      else if c = snd ab then Some 63
      else None)"

definition std_alphabet :: "char \<times> char" where
  "std_alphabet = (CHR ''+'', CHR ''/'')"

definition url_alphabet :: "char \<times> char" where
  "url_alphabet = (CHR ''-'', CHR ''_'')"

definition symbols :: "char \<times> char \<Rightarrow> bool" where
  "symbols ab \<longleftrightarrow> ab = std_alphabet \<or> ab = url_alphabet"

lemma symbols_std [simp]: "symbols std_alphabet"
  by (simp add: symbols_def)

lemma symbols_url [simp]: "symbols url_alphabet"
  by (simp add: symbols_def)

lemma of_char_of [simp]: "n < 256 \<Longrightarrow> (of_char (char_of n :: char) :: nat) = n"
  by simp

lemma of_char_less [simp]: "(of_char (c :: char) :: nat) < 256"
  using of_char_mod_256 [of c] by (metis mod_less_divisor zero_less_numeral)

lemma b64_val_char:
  assumes "symbols ab" "d < 64"
  shows "b64_val ab (b64_char ab d) = Some d"
proof -
  consider "d < 26" | "26 \<le> d" "d < 52" | "52 \<le> d" "d < 62" | "d = 62" | "d = 63"
    using assms(2) by linarith
  then show ?thesis
    using assms(1)
    by cases (auto simp: b64_val_def b64_char_def Let_def symbols_def std_alphabet_def url_alphabet_def)
qed

text \<open>The characters of the text are none of the line breaks the decoder skips, nor padding.\<close>

lemma b64_char_plain:
  assumes "symbols ab" "d < 64"
  shows "b64_char ab d \<notin> {CHR 0x0A, CHR 0x0D, CHR ''='', CHR ''.''}"
  using b64_val_char [OF assms] assms(1)
  by (auto simp: b64_val_def symbols_def std_alphabet_def url_alphabet_def)

section \<open>Encoding\<close>

definition byte :: "char \<Rightarrow> nat" where
  "byte c = of_char c"

text \<open>\<open>pad\<close> is the padding: \<^verbatim>\<open>=\<close> for the standard encoding, none for the raw one.\<close>

fun b64_encode :: "char \<times> char \<Rightarrow> bool \<Rightarrow> string \<Rightarrow> string" where
  "b64_encode ab pad [] = []"
| "b64_encode ab pad [a] =
     map (b64_char ab) [byte a div 4, byte a mod 4 * 16] @ (if pad then ''=='' else '''')"
| "b64_encode ab pad [a, b] =
     map (b64_char ab) [byte a div 4, byte a mod 4 * 16 + byte b div 16, byte b mod 16 * 4]
       @ (if pad then ''='' else '''')"
| "b64_encode ab pad (a # b # c # s) =
     map (b64_char ab)
       [byte a div 4, byte a mod 4 * 16 + byte b div 16, byte b mod 16 * 4 + byte c div 64,
        byte c mod 64]
       @ b64_encode ab pad s"

section \<open>Decoding\<close>

text \<open>
  A quantum of four digits gives three bytes; the last one may be shorter. Bits beyond the last
  byte are ignored, as they are outside \<^verbatim>\<open>Strict\<close> mode, and line breaks anywhere are skipped.
\<close>

definition quantum :: "nat \<Rightarrow> nat \<Rightarrow> nat \<Rightarrow> nat \<Rightarrow> string" where
  "quantum x y z w =
     [char_of (x * 4 + y div 16), char_of (y mod 16 * 16 + z div 4), char_of (z mod 4 * 64 + w)]"

fun b64_digits :: "bool \<Rightarrow> nat list \<Rightarrow> nat \<Rightarrow> string option" where
  "b64_digits pad [] p = (if p = 0 then Some [] else None)"
| "b64_digits pad [x] p = None"
| "b64_digits pad [x, y] p = (if p = (if pad then 2 else 0) then Some (take 1 (quantum x y 0 0)) else None)"
| "b64_digits pad [x, y, z] p = (if p = (if pad then 1 else 0) then Some (take 2 (quantum x y z 0)) else None)"
| "b64_digits pad (x # y # z # w # ds) p = map_option ((@) (quantum x y z w)) (b64_digits pad ds p)"

fun all_some :: "'a option list \<Rightarrow> 'a list option" where
  "all_some [] = Some []"
| "all_some (None # _) = None"
| "all_some (Some x # xs) = map_option ((#) x) (all_some xs)"

definition b64_decode :: "char \<times> char \<Rightarrow> bool \<Rightarrow> string \<Rightarrow> string option" where
  "b64_decode ab pad t =
     (let s = filter (\<lambda>c. c \<noteq> CHR 0x0A \<and> c \<noteq> CHR 0x0D) t;
          ds = takeWhile (\<lambda>c. c \<noteq> CHR ''='') s;
          ps = dropWhile (\<lambda>c. c \<noteq> CHR ''='') s in
      if (\<exists>c \<in> set ps. c \<noteq> CHR ''='') then None
      else case all_some (map (b64_val ab) ds) of
             None \<Rightarrow> None
           | Some vs \<Rightarrow> b64_digits pad vs (length ps))"

section \<open>Round trip\<close>

lemma byte_less [simp]: "byte c < 256"
  by (simp add: byte_def)

lemma char_of_byte [simp]: "char_of (byte c) = c"
  by (simp add: byte_def)

text \<open>The text of a string as digits, before the alphabet is applied and the padding is added.\<close>

fun b64_split :: "string \<Rightarrow> nat list" where
  "b64_split [] = []"
| "b64_split [a] = [byte a div 4, byte a mod 4 * 16]"
| "b64_split [a, b] = [byte a div 4, byte a mod 4 * 16 + byte b div 16, byte b mod 16 * 4]"
| "b64_split (a # b # c # s) =
     [byte a div 4, byte a mod 4 * 16 + byte b div 16, byte b mod 16 * 4 + byte c div 64,
      byte c mod 64] @ b64_split s"

definition b64_padding :: "bool \<Rightarrow> string \<Rightarrow> nat" where
  "b64_padding pad s = (if pad then (3 - length s mod 3) mod 3 else 0)"

lemma length_mod_3 [simp]: "Suc (Suc (Suc n)) mod 3 = n mod 3"
  by presburger

lemma b64_encode_split:
  "b64_encode ab pad s = map (b64_char ab) (b64_split s) @ replicate (b64_padding pad s) CHR ''=''"
  by (induction s rule: b64_split.induct) (simp_all add: b64_padding_def numeral_2_eq_2)

lemma b64_split_less: "d \<in> set (b64_split s) \<Longrightarrow> d < 64"
proof (induction s rule: b64_split.induct)
  case (2 a) then show ?case using byte_less [of a] by (auto simp del: byte_less)
next
  case (3 a b)
  then show ?case using byte_less [of a] byte_less [of b] by (auto simp del: byte_less)
next
  case (4 a b c s)
  then show ?case
    using byte_less [of a] byte_less [of b] byte_less [of c] by (auto simp del: byte_less)
qed simp

lemma quantum_split:
  "quantum (byte a div 4) (byte a mod 4 * 16 + byte b div 16) (byte b mod 16 * 4 + byte c div 64)
     (byte c mod 64) = [a, b, c]"
proof -
  have "byte b div 16 < 16" "byte c div 64 < 4"
    using byte_less [of b] byte_less [of c] by linarith+
  then show ?thesis
    by (simp add: quantum_def div_mult_mod_eq mod_mult_self3 add.commute)
qed

lemma b64_digits_split: "b64_digits pad (b64_split s) (b64_padding pad s) = Some s"
proof (induction s rule: b64_split.induct)
  case (2 a)
  have "char_of (byte a div 4 * 4 + byte a mod 4) = a" by (simp add: div_mult_mod_eq)
  then show ?case by (simp add: b64_padding_def quantum_def)
next
  case (3 a b)
  have "byte b div 16 < 16" using byte_less [of b] by linarith
  then show ?case by (simp add: b64_padding_def quantum_def div_mult_mod_eq)
next
  case (4 a b c s)
  then show ?case using quantum_split [of a b c] by (cases pad) (simp_all add: b64_padding_def)
qed (simp add: b64_padding_def)

lemma all_some_map: "(\<And>x. x \<in> set xs \<Longrightarrow> f (g x) = Some x) \<Longrightarrow> all_some (map (f \<circ> g) xs) = Some xs"
  by (induction xs) auto

lemma while_append_replicate:
  assumes "\<forall>x \<in> set xs. x \<noteq> y"
  shows "takeWhile (\<lambda>x. x \<noteq> y) (xs @ replicate n y) = xs"
    and "dropWhile (\<lambda>x. x \<noteq> y) (xs @ replicate n y) = replicate n y"
  using assms by (induction xs; cases n; simp)+

theorem b64_decode_encode [simp]:
  assumes "symbols ab"
  shows "b64_decode ab pad (b64_encode ab pad s) = Some s"
proof -
  let ?t = "map (b64_char ab) (b64_split s)" and ?p = "replicate (b64_padding pad s) CHR ''=''"
  have plain: "\<forall>c \<in> set ?t. c \<noteq> CHR 0x0A \<and> c \<noteq> CHR 0x0D \<and> c \<noteq> CHR ''=''"
    using b64_char_plain [OF assms] b64_split_less by fastforce
  have "filter (\<lambda>c. c \<noteq> CHR 0x0A \<and> c \<noteq> CHR 0x0D) (?t @ ?p) = ?t @ ?p"
    using plain by (simp add: filter_id_conv)
  moreover have "takeWhile (\<lambda>c. c \<noteq> CHR ''='') (?t @ ?p) = ?t" "dropWhile (\<lambda>c. c \<noteq> CHR ''='') (?t @ ?p) = ?p"
    using plain by (simp_all add: while_append_replicate)
  moreover have "all_some (map (b64_val ab) ?t) = Some (b64_split s)"
    using all_some_map [of "b64_split s" "b64_val ab" "b64_char ab"] b64_val_char [OF assms] b64_split_less
    by simp
  ultimately show ?thesis
    by (simp add: b64_decode_def b64_encode_split b64_digits_split Let_def)
qed

lemma b64_encode_raw_plain:
  "symbols ab \<Longrightarrow> CHR ''.'' \<notin> set (b64_encode ab False s)"
  using b64_char_plain b64_split_less
  by (fastforce simp: b64_encode_split b64_padding_def)

lemma b64_encode_not_Nil [simp]: "b64_encode ab pad s = [] \<longleftrightarrow> s = []"
  by (cases "(ab, pad, s)" rule: b64_encode.cases) auto

end
