(* ===== verification/Utf8.thy ===== *)
theory Utf8
  imports Base64
begin

text \<open>
  \<^verbatim>\<open>unicode/utf8\<close> as \<^verbatim>\<open>encoding/json\<close> uses it: a byte string falls into the encodings of its runes and
  the bytes that belong to none. \<open>fix_utf8\<close> writes the replacement character U+FFFD for each of the
  latter; it leaves valid UTF-8 alone.
\<close>

section \<open>Runes\<close>

definition continuation :: "char \<Rightarrow> bool" where
  "continuation c \<longleftrightarrow> 128 \<le> byte c \<and> byte c < 192"

text \<open>The second byte excludes overlong forms, surrogates and values beyond U+10FFFF.\<close>

definition second_byte :: "char \<Rightarrow> char \<Rightarrow> bool" where
  "second_byte c d \<longleftrightarrow> continuation d \<and> (byte c = 224 \<longrightarrow> 160 \<le> byte d) \<and> (byte c = 237 \<longrightarrow> byte d < 160) \<and>
     (byte c = 240 \<longrightarrow> 144 \<le> byte d) \<and> (byte c = 244 \<longrightarrow> byte d < 144)"

text \<open>The number of bytes of the rune a string begins with, 0 if it begins with none.\<close>

fun rune_length :: "string \<Rightarrow> nat" where
  "rune_length [] = 0"
| "rune_length (c # s) =
     (if byte c < 128 then 1
      else if 194 \<le> byte c \<and> byte c < 224
      then (case s of d # _ \<Rightarrow> if continuation d then 2 else 0 | _ \<Rightarrow> 0)
      else if 224 \<le> byte c \<and> byte c < 240
      then (case s of d # e # _ \<Rightarrow> if second_byte c d \<and> continuation e then 3 else 0 | _ \<Rightarrow> 0)
      else if 240 \<le> byte c \<and> byte c < 245
      then (case s of d # e # f # _ \<Rightarrow> if second_byte c d \<and> continuation e \<and> continuation f then 4 else 0 | _ \<Rightarrow> 0)
      else 0)"

definition rune :: "string \<Rightarrow> bool" where
  "rune u \<longleftrightarrow> u \<noteq> [] \<and> rune_length u = length u"

lemma rune_length_le: "rune_length s \<le> length s"
  by (cases s) (auto split: list.splits)

lemma rune_length_take: "rune_length s = n \<Longrightarrow> 0 < n \<Longrightarrow> rune (take n s)"
  by (cases s) (auto simp: rune_def split: list.splits if_splits)

lemma rune_length_append: "rune u \<Longrightarrow> rune_length (u @ t) = length u"
  by (cases u) (auto simp: rune_def split: list.splits if_splits)

lemma rune_ascii: "byte c < 128 \<Longrightarrow> rune (c # u) \<longleftrightarrow> u = []"
  by (auto simp: rune_def)

text \<open>The runes of a string; \<^verbatim>\<open>None\<close> for a byte that is part of none.\<close>

function runes :: "string \<Rightarrow> string option list" where
  "runes [] = []"
| "runes (c # s) =
     (if rune_length (c # s) = 0 then None # runes s
      else Some (take (rune_length (c # s)) (c # s)) # runes (drop (rune_length (c # s)) (c # s)))"
  by pat_completeness auto

termination runes
  by (relation "measure length") auto

declare rune_length.simps [simp del] runes.simps(2) [simp del]

definition replacement :: string where
  "replacement = [CHR 0xEF, CHR 0xBF, CHR 0xBD]"

definition fix_utf8 :: "string \<Rightarrow> string" where
  "fix_utf8 s = concat (map (\<lambda>r. case r of None \<Rightarrow> replacement | Some u \<Rightarrow> u) (runes s))"

definition valid_utf8 :: "string \<Rightarrow> bool" where
  "valid_utf8 s \<longleftrightarrow> list_all (\<lambda>r. r \<noteq> None) (runes s)"

lemma runes_append: "rune u \<Longrightarrow> runes (u @ t) = Some u # runes t"
  using rune_length_append [of u t] by (cases u) (auto simp: rune_def runes.simps(2))

lemma runes_are_runes: "Some u \<in> set (runes s) \<Longrightarrow> rune u"
proof (induction s rule: runes.induct)
  case (2 c s)
  then show ?case
    using rune_length_take [OF refl, of "c # s"] by (auto simp: runes.simps(2) split: if_splits)
qed simp

lemma runes_concat: "\<forall>u \<in> set us. rune u \<Longrightarrow> runes (concat us) = map Some us"
  by (induction us) (simp_all add: runes_append)

lemma rune_replacement [simp]: "rune replacement"
  by (simp add: rune_def replacement_def rune_length.simps second_byte_def continuation_def byte_def)

section \<open>Replacing what is not valid\<close>

lemma fix_utf8_Nil [simp]: "fix_utf8 [] = []"
  by (simp add: fix_utf8_def)

lemma fix_utf8_eq_Nil [simp]: "fix_utf8 s = [] \<longleftrightarrow> s = []"
proof (cases s)
  case (Cons c t)
  then show ?thesis by (auto simp: fix_utf8_def runes.simps(2) replacement_def)
qed simp

lemma fix_utf8_valid: "valid_utf8 s \<Longrightarrow> fix_utf8 s = s"
proof (induction s rule: runes.induct)
  case (2 c s)
  then have n: "rune_length (c # s) \<noteq> 0" by (auto simp: valid_utf8_def runes.simps(2) split: if_splits)
  with 2(3) have "valid_utf8 (drop (rune_length (c # s)) (c # s))" by (simp add: valid_utf8_def runes.simps(2))
  with 2(2) n have "fix_utf8 (drop (rune_length (c # s)) (c # s)) = drop (rune_length (c # s)) (c # s)" by blast
  with n show ?case by (simp add: fix_utf8_def runes.simps(2) [of c s])
qed simp

lemma valid_utf8_fix [simp]: "valid_utf8 (fix_utf8 s)"
proof -
  let ?us = "map (\<lambda>r. case r of None \<Rightarrow> replacement | Some u \<Rightarrow> u) (runes s)"
  have "\<forall>u \<in> set ?us. rune u" by (auto dest: runes_are_runes split: option.split)
  from runes_concat [OF this] show ?thesis by (simp add: valid_utf8_def fix_utf8_def list_all_iff)
qed

lemma fix_utf8_idem [simp]: "fix_utf8 (fix_utf8 s) = fix_utf8 s"
  by (simp add: fix_utf8_valid)

lemma valid_utf8_ascii: "list_all (\<lambda>c. byte c < 128) s \<Longrightarrow> valid_utf8 s"
  by (induction s) (simp_all add: valid_utf8_def runes.simps(2) rune_length.simps)

lemma b64_encode_ascii: "symbols ab \<Longrightarrow> list_all (\<lambda>c. byte c < 128) (b64_encode ab pad s)"
proof (induction ab pad s rule: b64_encode.induct)
  have c: "symbols ab \<Longrightarrow> byte (b64_char ab d) < 128" for ab d
    by (auto simp: b64_char_def byte_def symbols_def std_alphabet_def url_alphabet_def)
  have e: "byte CHR ''='' < 128" by (simp add: byte_def)
  {
    case (2 ab pad a)
    with c e show ?case by simp
  next
    case (3 ab pad a b)
    with c e show ?case by simp
  next
    case (4 ab pad a b c')
    with c show ?case by simp
  }
qed simp

lemma fix_utf8_ascii: "list_all (\<lambda>c. byte c < 128) s \<Longrightarrow> fix_utf8 s = s"
  by (simp add: fix_utf8_valid valid_utf8_ascii)

end
