(* ===== verification/Json.thy ===== *)
theory Json
  imports Utf8
begin

text \<open>
  The text of JSON documents: what \<^verbatim>\<open>json.Marshal\<close> writes (\<open>json_print\<close>), what
  \<^verbatim>\<open>json.Unmarshal\<close> reads (\<open>json_parse\<close>) and how it fills the fields of a struct
  (\<open>decode_string\<close>, \<open>decode_int32\<close>, ...). Tokens, dead-letter envelopes and the events of the
  message bus all pass through these functions. Parsing undoes printing up to UTF-8: strings are byte
  strings, and the printer and the parser both write U+FFFD for bytes that are not valid UTF-8
  (\<open>json_fix\<close>).
\<close>

section \<open>Printing\<close>

definition hex_digit :: "nat \<Rightarrow> char" where
  "hex_digit n = char_of (if n < 10 then 48 + n else 87 + n)"

definition escape_char :: "char \<Rightarrow> string" where
  "escape_char c =
     (let n = byte c in
      if n = 34 \<or> n = 92 then [CHR 0x5C, c]
      else if n = 8 then [CHR 0x5C, CHR ''b'']
      else if n = 12 then [CHR 0x5C, CHR ''f'']
      else if n = 10 then [CHR 0x5C, CHR ''n'']
      else if n = 13 then [CHR 0x5C, CHR ''r'']
      else if n = 9 then [CHR 0x5C, CHR ''t'']
      else if n < 32 \<or> n = 60 \<or> n = 62 \<or> n = 38
           then [CHR 0x5C, CHR ''u'', CHR ''0'', CHR ''0'', hex_digit (n div 16), hex_digit (n mod 16)]
      else [c])"

text \<open>A byte outside UTF-8 is written as an escape, and so are the line separators U+2028 and U+2029.\<close>

definition escape_rune :: "string option \<Rightarrow> string" where
  "escape_rune r =
     (case r of
        None \<Rightarrow> CHR 0x5C # ''ufffd''
      | Some [c] \<Rightarrow> escape_char c
      | Some u \<Rightarrow>
          if u = [CHR 0xE2, CHR 0x80, CHR 0xA8] then CHR 0x5C # ''u2028''
          else if u = [CHR 0xE2, CHR 0x80, CHR 0xA9] then CHR 0x5C # ''u2029''
          else u)"

definition json_quote :: "string \<Rightarrow> string" where
  "json_quote s = CHR 0x22 # concat (map escape_rune (runes s)) @ [CHR 0x22]"

fun digits :: "nat \<Rightarrow> string" where
  "digits n = (if n < 10 then [char_of (48 + n)] else digits (n div 10) @ [char_of (48 + n mod 10)])"

declare digits.simps [simp del]

definition itoa :: "int \<Rightarrow> string" where
  "itoa i = (if i < 0 then CHR ''-'' # digits (nat (- i)) else digits (nat i))"

fun json_print :: "json \<Rightarrow> string" where
  "json_print JNull = ''null''"
| "json_print (JBool b) = (if b then ''true'' else ''false'')"
| "json_print (JInt i) = itoa i"
| "json_print (JDec l) = l"
| "json_print (JStr s) = json_quote s"
| "json_print (JArr xs) = CHR ''['' # join_on CHR '','' (map json_print xs) @ '']''"
| "json_print (JObj fs) =
     CHR ''{'' # join_on CHR '','' (map (\<lambda>(k, v). json_quote k @ CHR '':'' # json_print v) fs) @ ''}''"

section \<open>Parsing\<close>

definition hex_val :: "char \<Rightarrow> nat option" where
  "hex_val c =
     (let n = byte c in
      if 48 \<le> n \<and> n \<le> 57 then Some (n - 48)
      else if 97 \<le> n \<and> n \<le> 102 then Some (n - 87)
      else if 65 \<le> n \<and> n \<le> 70 then Some (n - 55)
      else None)"

text \<open>Four hexadecimal digits: one UTF-16 code unit.\<close>

fun code_unit :: "string \<Rightarrow> (nat \<times> string) option" where
  "code_unit (a # b # c # d # s) =
     (case (hex_val a, hex_val b, hex_val c, hex_val d) of
        (Some w, Some x, Some y, Some z) \<Rightarrow> Some (w * 4096 + x * 256 + y * 16 + z, s)
      | _ \<Rightarrow> None)"
| "code_unit _ = None"

definition utf8 :: "nat \<Rightarrow> string" where
  "utf8 r = map char_of
     (if r < 128 then [r]
      else if r < 2048 then [192 + r div 64, 128 + r mod 64]
      else if r < 65536 then [224 + r div 4096, 128 + r div 64 mod 64, 128 + r mod 64]
      else [240 + r div 262144, 128 + r div 4096 mod 64, 128 + r div 64 mod 64, 128 + r mod 64])"

text \<open>
  A Unicode escape: a surrogate pair stands for one rune, an unpaired surrogate for the replacement
  character U+FFFD.
\<close>

definition unicode_escape :: "string \<Rightarrow> (string \<times> string) option" where
  "unicode_escape s =
     (case code_unit s of
        None \<Rightarrow> None
      | Some (u, r) \<Rightarrow>
          if u < 55296 \<or> 57343 < u then Some (utf8 u, r)
          else (case r of
                  b # k # t \<Rightarrow>
                    (if b = CHR 0x5C \<and> k = CHR ''u'' then
                       (case code_unit t of
                          Some (v, t') \<Rightarrow>
                            if u < 56320 \<and> 56320 \<le> v \<and> v \<le> 57343
                            then Some (utf8 ((u - 55296) * 1024 + (v - 56320) + 65536), t')
                            else Some (utf8 65533, r)
                        | None \<Rightarrow> Some (utf8 65533, r))
                     else Some (utf8 65533, r))
                | _ \<Rightarrow> Some (utf8 65533, r)))"

fun escape :: "string \<Rightarrow> (string \<times> string) option" where
  "escape [] = None"
| "escape (c # s) =
     (if byte c = 34 \<or> byte c = 92 \<or> byte c = 47 then Some ([c], s)
      else if c = CHR ''b'' then Some ([CHR 0x08], s)
      else if c = CHR ''f'' then Some ([CHR 0x0C], s)
      else if c = CHR ''n'' then Some ([CHR 0x0A], s)
      else if c = CHR ''r'' then Some ([CHR 0x0D], s)
      else if c = CHR ''t'' then Some ([CHR 0x09], s)
      else if c = CHR ''u'' then unicode_escape s
      else None)"

lemma code_unit_shorter: "code_unit s = Some (u, r) \<Longrightarrow> length r < length s"
  by (induction s rule: code_unit.induct) (auto split: option.splits)

lemma unicode_escape_shorter: "unicode_escape s = Some (t, r) \<Longrightarrow> length r < length s"
  by (auto simp: unicode_escape_def split: option.splits if_splits list.splits dest!: code_unit_shorter)

lemma escape_shorter: "escape s = Some (t, r) \<Longrightarrow> length r < length s"
  by (cases s) (auto split: if_splits dest: unicode_escape_shorter)

text \<open>The rest of a string literal, after its opening quote.\<close>

function scan_string :: "string \<Rightarrow> (string \<times> string) option" where
  "scan_string [] = None"
| "scan_string (c # s) =
     (if byte c = 34 then Some ([], s)
      else if byte c = 92 then
        (case escape s of
           None \<Rightarrow> None
         | Some (t, r) \<Rightarrow> map_option (apfst ((@) t)) (scan_string r))
      else if byte c < 32 then None
      else if rune_length (c # s) = 0 then map_option (apfst ((@) replacement)) (scan_string s)
      else map_option (apfst ((@) (take (rune_length (c # s)) (c # s))))
             (scan_string (drop (rune_length (c # s)) (c # s))))"
  by pat_completeness auto

termination scan_string
  by (relation "measure length") (auto dest: escape_shorter)

declare scan_string.simps(2) [simp del]

definition is_digit :: "char \<Rightarrow> bool" where
  "is_digit c \<longleftrightarrow> 48 \<le> byte c \<and> byte c \<le> 57"

definition number_of_digits :: "string \<Rightarrow> nat" where
  "number_of_digits ds = foldl (\<lambda>n c. n * 10 + (byte c - 48)) 0 ds"

text \<open>The fraction and the exponent of a number literal: their text and what follows them.\<close>

definition scan_fraction :: "string \<Rightarrow> (string \<times> string) option" where
  "scan_fraction s =
     (case s of
        c # t \<Rightarrow>
          (if c = CHR ''.'' then
             (if takeWhile is_digit t = [] then None
              else Some (c # takeWhile is_digit t, dropWhile is_digit t))
           else Some ([], s))
      | [] \<Rightarrow> Some ([], s))"

definition scan_sign :: "string \<Rightarrow> string \<times> string" where
  "scan_sign s =
     (case s of c # t \<Rightarrow> (if c = CHR ''+'' \<or> c = CHR ''-'' then ([c], t) else ([], s)) | [] \<Rightarrow> ([], s))"

definition scan_exponent :: "string \<Rightarrow> (string \<times> string) option" where
  "scan_exponent s =
     (case s of
        c # t \<Rightarrow>
          (if c = CHR ''e'' \<or> c = CHR ''E'' then
             (let (sg, u) = scan_sign t in
              if takeWhile is_digit u = [] then None
              else Some (c # sg @ takeWhile is_digit u, dropWhile is_digit u))
           else Some ([], s))
      | [] \<Rightarrow> Some ([], s))"

definition scan_number :: "string \<Rightarrow> (json \<times> string) option" where
  "scan_number s =
     (let neg = (s \<noteq> [] \<and> hd s = CHR ''-'');
          t = (if neg then tl s else s);
          ds = takeWhile is_digit t in
      if ds = [] \<or> hd ds = CHR ''0'' \<and> 1 < length ds then None
      else case scan_fraction (dropWhile is_digit t) of
             None \<Rightarrow> None
           | Some (f, r) \<Rightarrow>
               (case scan_exponent r of
                  None \<Rightarrow> None
                | Some (e, r') \<Rightarrow>
                    let n = int (number_of_digits ds) in
                    Some (if f = [] \<and> e = [] then JInt (if neg then - n else n)
                          else JDec ((if neg then ''-'' else '''') @ ds @ f @ e), r')))"

definition is_space :: "char \<Rightarrow> bool" where
  "is_space c \<longleftrightarrow> byte c \<in> {32, 9, 10, 13}"

definition skip_space :: "string \<Rightarrow> string" where
  "skip_space = dropWhile is_space"

definition keyword :: "string \<Rightarrow> json \<Rightarrow> string \<Rightarrow> (json \<times> string) option" where
  "keyword w j s = (if take (length w) s = w then Some (j, drop (length w) s) else None)"

text \<open>
  The document parser, with fuel: every call of a parser on a part of a value takes one unit.
  \<open>json_parse\<close> gives it one unit per byte of the text: an element costs one unit and has at
  least one byte, a nesting costs two and has two brackets.
\<close>

fun parse_value :: "nat \<Rightarrow> string \<Rightarrow> (json \<times> string) option"
  and parse_elems :: "nat \<Rightarrow> string \<Rightarrow> (json list \<times> string) option"
  and parse_members :: "nat \<Rightarrow> string \<Rightarrow> ((string \<times> json) list \<times> string) option" where
  "parse_value 0 s = None"
| "parse_value (Suc n) s =
     (case skip_space s of
        [] \<Rightarrow> None
      | c # t \<Rightarrow>
          if byte c = 34 then map_option (apfst JStr) (scan_string t)
          else if c = CHR ''['' then
            (case skip_space t of
               d # u \<Rightarrow> if d = CHR '']'' then Some (JArr [], u)
                        else map_option (apfst JArr) (parse_elems n t)
             | [] \<Rightarrow> None)
          else if c = CHR ''{'' then
            (case skip_space t of
               d # u \<Rightarrow> if d = CHR ''}'' then Some (JObj [], u)
                        else map_option (apfst JObj) (parse_members n t)
             | [] \<Rightarrow> None)
          else if c = CHR ''n'' then keyword ''null'' JNull (c # t)
          else if c = CHR ''t'' then keyword ''true'' (JBool True) (c # t)
          else if c = CHR ''f'' then keyword ''false'' (JBool False) (c # t)
          else scan_number (c # t))"
| "parse_elems 0 s = None"
| "parse_elems (Suc n) s =
     (case parse_value n s of
        None \<Rightarrow> None
      | Some (v, r) \<Rightarrow>
          (case skip_space r of
             [] \<Rightarrow> None
           | c # t \<Rightarrow> if c = CHR '']'' then Some ([v], t)
                      else if c = CHR '','' then map_option (apfst ((#) v)) (parse_elems n t)
                      else None))"
| "parse_members 0 s = None"
| "parse_members (Suc n) s =
     (case skip_space s of
        [] \<Rightarrow> None
      | q # s' \<Rightarrow>
          if byte q \<noteq> 34 then None
          else case scan_string s' of
                 None \<Rightarrow> None
               | Some (k, r) \<Rightarrow>
                   (case skip_space r of
                      [] \<Rightarrow> None
                    | c # t \<Rightarrow>
                        if c \<noteq> CHR '':'' then None
                        else case parse_value n t of
                               None \<Rightarrow> None
                             | Some (v, r') \<Rightarrow>
                                 (case skip_space r' of
                                    [] \<Rightarrow> None
                                  | d # u \<Rightarrow>
                                      if d = CHR ''}'' then Some ([(k, v)], u)
                                      else if d = CHR '','' then
                                        map_option (apfst ((#) (k, v))) (parse_members n u)
                                      else None)))"

text \<open>
  \<^verbatim>\<open>json.Unmarshal\<close> reads one document and nothing but space after it; a
  \<^verbatim>\<open>json.Decoder\<close> leaves what follows the document unread.
\<close>

definition json_decode :: "string \<Rightarrow> json option" where
  "json_decode s = map_option fst (parse_value (length s) s)"

definition json_parse :: "string \<Rightarrow> json option" where
  "json_parse s =
     (case parse_value (length s) s of
        Some (j, r) \<Rightarrow> if skip_space r = [] then Some j else None
      | None \<Rightarrow> None)"

section \<open>Round trip\<close>

lemma byte_char_of [simp]: "n < 256 \<Longrightarrow> byte (char_of n) = n"
  by (simp add: byte_def)

lemma hex_val_digit [simp]: "k < 16 \<Longrightarrow> hex_val (hex_digit k) = Some k"
  by (auto simp: hex_val_def hex_digit_def Let_def)

lemma code_unit_ascii:
  "n < 256 \<Longrightarrow> code_unit (CHR ''0'' # CHR ''0'' # hex_digit (n div 16) # hex_digit (n mod 16) # s) = Some (n, s)"
  by (simp add: hex_val_def [of "CHR ''0''"] byte_def div_mult_mod_eq mult.commute less_mult_imp_div_less)

lemma unicode_escape_ascii:
  "byte c < 128 \<Longrightarrow>
   unicode_escape (CHR ''0'' # CHR ''0'' # hex_digit (byte c div 16) # hex_digit (byte c mod 16) # s)
     = Some ([c], s)"
  by (simp add: unicode_escape_def code_unit_ascii utf8_def del: code_unit.simps)

lemma append_single: "(@) [c] = (#) c"
  by (rule ext) simp

lemma byte_eqD: "byte c = n \<Longrightarrow> c = char_of n"
  by auto

lemma control_chars:
  "(char_of (8 :: nat) :: char) = CHR 0x08" "(char_of (9 :: nat) :: char) = CHR 0x09"
  "(char_of (10 :: nat) :: char) = CHR 0x0A" "(char_of (12 :: nat) :: char) = CHR 0x0C"
  "(char_of (13 :: nat) :: char) = CHR 0x0D"
  by code_simp+

lemma scan_copied:
  assumes "rune u" "32 \<le> byte (hd u)" "byte (hd u) \<noteq> 34" "byte (hd u) \<noteq> 92"
  shows "scan_string (u @ s) = map_option (apfst ((@) u)) (scan_string s)"
proof -
  obtain c t where u: "u = c # t" using assms(1) by (cases u) (auto simp: rune_def)
  have "rune_length (u @ s) = length u" "0 < length u" using rune_length_append [OF assms(1)] u by simp_all
  with assms(2-4) u show ?thesis by (simp add: scan_string.simps(2))
qed

lemma scan_escaped:
  "escape (e @ s) = Some (t, s) \<Longrightarrow> scan_string (CHR 0x5C # e @ s) = map_option (apfst ((@) t)) (scan_string s)"
  by (simp add: scan_string.simps(2) byte_def)

lemma scan_escape_char:
  assumes "byte c < 128"
  shows "scan_string (escape_char c @ s) = map_option (apfst ((@) [c])) (scan_string s)"
proof -
  consider "byte c = 34" | "byte c = 92" | "byte c = 8" | "byte c = 12" | "byte c = 10" | "byte c = 13"
    | "byte c = 9" | "byte c \<notin> {34, 92, 8, 12, 10, 13, 9}" "byte c < 32 \<or> byte c = 60 \<or> byte c = 62 \<or> byte c = 38"
    | "byte c \<notin> {34, 92, 60, 62, 38}" "32 \<le> byte c"
    by force
  then show ?thesis
  proof cases
    case 8
    then have "escape_char c =
      CHR 0x5C # [CHR ''u'', CHR ''0'', CHR ''0'', hex_digit (byte c div 16), hex_digit (byte c mod 16)]"
      by (simp add: escape_char_def Let_def)
    have "escape ([CHR ''u'', CHR ''0'', CHR ''0'', hex_digit (byte c div 16), hex_digit (byte c mod 16)] @ s)
        = Some ([c], s)"
      using assms by (simp add: byte_def [of "CHR ''u''"] unicode_escape_ascii)
    from scan_escaped [OF this] \<open>escape_char c = _\<close> show ?thesis by simp
  next
    case 9
    then have "escape_char c = [c]" by (simp add: escape_char_def Let_def)
    with 9 assms scan_copied [of "[c]" s] show ?thesis by (simp add: rune_ascii)
  qed (drule byte_eqD, simp add: escape_char_def Let_def byte_def scan_string.simps(2) control_chars)+
qed

lemma line_separators:
  "unicode_escape (CHR ''2'' # CHR ''0'' # CHR ''2'' # CHR ''8'' # s) = Some ([CHR 0xE2, CHR 0x80, CHR 0xA8], s)"
  "unicode_escape (CHR ''2'' # CHR ''0'' # CHR ''2'' # CHR ''9'' # s) = Some ([CHR 0xE2, CHR 0x80, CHR 0xA9], s)"
  "unicode_escape (CHR ''f'' # CHR ''f'' # CHR ''f'' # CHR ''d'' # s) = Some (replacement, s)"
  by (simp_all add: unicode_escape_def hex_val_def Let_def byte_def utf8_def replacement_def)
     code_simp+

lemma scan_escape_rune:
  assumes "\<And>u. r = Some u \<Longrightarrow> rune u"
  shows "scan_string (escape_rune r @ s) =
    map_option (apfst ((@) (case r of None \<Rightarrow> replacement | Some u \<Rightarrow> u))) (scan_string s)"
proof (cases r)
  case None
  have "escape (''ufffd'' @ s) = Some (replacement, s)" by (simp add: byte_def line_separators)
  from scan_escaped [OF this] None show ?thesis by (simp add: escape_rune_def)
next
  case (Some u)
  with assms have u: "rune u" by simp
  then obtain c t where ct: "u = c # t" by (cases u) (auto simp: rune_def)
  show ?thesis
  proof (cases "byte c < 128")
    case True
    with u ct Some scan_escape_char [OF True, of s] show ?thesis by (simp add: rune_ascii escape_rune_def)
  next
    case False
    with u ct have t: "t \<noteq> []" by (auto simp: rune_def rune_length.simps split: if_splits)
    have e: "escape (''u2028'' @ s) = Some ([CHR 0xE2, CHR 0x80, CHR 0xA8], s)"
      "escape (''u2029'' @ s) = Some ([CHR 0xE2, CHR 0x80, CHR 0xA9], s)" by (simp_all add: byte_def line_separators)
    have "scan_string (u @ s) = map_option (apfst ((@) u)) (scan_string s)"
      by (rule scan_copied) (use u False ct in auto)
    with Some ct t scan_escaped [OF e(1)] scan_escaped [OF e(2)] show ?thesis
      by (auto simp: escape_rune_def split: list.split)
  qed
qed

lemma scan_quoted [simp]:
  "scan_string (concat (map escape_rune (runes s)) @ CHR 0x22 # r) = Some (fix_utf8 s, r)"
proof -
  have "scan_string (concat (map escape_rune rs) @ CHR 0x22 # r) =
      Some (concat (map (\<lambda>r. case r of None \<Rightarrow> replacement | Some u \<Rightarrow> u) rs), r)"
    if "\<And>u. Some u \<in> set rs \<Longrightarrow> rune u" for rs
    using that
  proof (induction rs)
    case Nil
    then show ?case by (simp add: scan_string.simps(2) byte_def)
  next
    case (Cons r rs)
    then show ?case by (simp add: scan_escape_rune)
  qed
  from this [of "runes s"] show ?thesis by (simp add: runes_are_runes fix_utf8_def)
qed

lemma is_digit_char_of [simp]: "(k :: nat) < 10 \<Longrightarrow> is_digit (char_of (48 + k))"
  by (simp add: is_digit_def)

lemma digits_are_digits: "c \<in> set (digits n) \<Longrightarrow> is_digit c"
proof (induction n rule: digits.induct)
  case (1 n)
  then show ?case by (cases "n < 10") (auto simp: digits.simps [of n])
qed

lemma digits_not_Nil [simp]: "digits n \<noteq> []"
  by (simp add: digits.simps)

lemma number_of_digits_digits [simp]: "number_of_digits (digits n) = n"
proof (induction n rule: digits.induct)
  case (1 n)
  then show ?case
    by (cases "n < 10") (auto simp: digits.simps [of n] number_of_digits_def div_mult_mod_eq mult.commute)
qed

lemma hd_digits: "0 < n \<Longrightarrow> hd (digits n) \<noteq> CHR ''0''"
proof (induction n rule: digits.induct)
  case (1 n)
  show ?case
  proof (cases "n < 10")
    case True
    have "char_of (48 + n) \<noteq> CHR ''0''"
    proof
      assume "char_of (48 + n) = CHR ''0''"
      then have "byte (char_of (48 + n)) = byte CHR ''0''" by simp
      with True 1(2) show False by (simp add: byte_def [of "CHR ''0''"])
    qed
    with True show ?thesis by (simp add: digits.simps [of n])
  next
    case False
    with 1 show ?thesis by (simp add: digits.simps [of n])
  qed
qed

lemma digits_canonical: "\<not> (hd (digits n) = CHR ''0'' \<and> 1 < length (digits n))"
  by (cases "n = 0") (simp_all add: digits.simps [of 0] hd_digits)

text \<open>What can follow a value inside a printed document.\<close>

definition ends_value :: "string \<Rightarrow> bool" where
  "ends_value r \<longleftrightarrow> r = [] \<or> hd r \<in> {CHR '','', CHR '']'', CHR ''}''}"

lemma ends_value_simps [simp]:
  "ends_value []" "ends_value (CHR '','' # r)" "ends_value (CHR '']'' # r)" "ends_value (CHR ''}'' # r)"
  by (simp_all add: ends_value_def)

lemma ends_value_digit: "ends_value r \<Longrightarrow> takeWhile is_digit r = [] \<and> dropWhile is_digit r = r"
  by (cases r) (auto simp: ends_value_def is_digit_def byte_def)

lemma scan_digits:
  assumes "ends_value r"
  shows "takeWhile is_digit (digits n @ r) = digits n" "dropWhile is_digit (digits n @ r) = r"
  using ends_value_digit [OF assms] digits_are_digits [of _ n]
  by (simp_all add: takeWhile_append dropWhile_append)

lemma scan_no_fraction: "ends_value r \<Longrightarrow> scan_fraction r = Some ([], r) \<and> scan_exponent r = Some ([], r)"
  by (cases r) (auto simp: ends_value_def scan_fraction_def scan_exponent_def)

lemma hd_digits_minus: "hd (digits n) \<noteq> CHR ''-''"
proof -
  have "is_digit (hd (digits n))" by (rule digits_are_digits [of _ n]) simp
  then show ?thesis by (auto simp: is_digit_def byte_def)
qed

lemma scan_itoa: "ends_value r \<Longrightarrow> scan_number (itoa i @ r) = Some (JInt i, r)"
  using digits_canonical [of "nat \<bar>i\<bar>"]
  by (cases "i < 0")
     (auto simp: scan_number_def itoa_def Let_def scan_digits scan_no_fraction hd_digits_minus)

text \<open>A number with a fraction or an exponent is printed as the literal it carries.\<close>

fun integral :: "json \<Rightarrow> bool" where
  "integral (JDec l) = False"
| "integral (JArr xs) = list_all integral xs"
| "integral (JObj fs) = list_all (\<lambda>(k, v). integral v) fs"
| "integral _ = True"

text \<open>What is left of a document after printing and parsing: its strings with invalid UTF-8 replaced.\<close>

fun json_fix :: "json \<Rightarrow> json" where
  "json_fix (JStr s) = JStr (fix_utf8 s)"
| "json_fix (JArr xs) = JArr (map json_fix xs)"
| "json_fix (JObj fs) = JObj (map (\<lambda>(k, v). (fix_utf8 k, json_fix v)) fs)"
| "json_fix j = j"

definition opens_value :: "char \<Rightarrow> bool" where
  "opens_value c \<longleftrightarrow> \<not> is_space c \<and> c \<noteq> CHR '']'' \<and> c \<noteq> CHR ''}''"

lemma digit_opens: "is_digit c \<Longrightarrow> opens_value c"
  by (auto simp: opens_value_def is_digit_def is_space_def byte_def)

lemma digits_open: "\<exists>c t. digits n = c # t \<and> is_digit c"
  using digits_are_digits [of "hd (digits n)" n] by (cases "digits n") auto

lemma json_print_opens: "integral j \<Longrightarrow> \<exists>c t. json_print j = c # t \<and> opens_value c"
proof (cases j)
  case (JInt i)
  obtain c t where "digits (nat i) = c # t" "is_digit c" using digits_open by blast
  then show ?thesis using JInt
    by (cases "i < 0") (auto simp: itoa_def digit_opens, simp add: opens_value_def is_space_def byte_def)
qed (auto simp: opens_value_def is_space_def byte_def json_quote_def)

lemma opens_value_brackets [simp]: "opens_value CHR ''[''" "opens_value CHR ''{''"
  by (simp_all add: opens_value_def is_space_def byte_def)

lemma byte_brackets [simp]: "byte CHR ''['' = 91" "byte CHR ''{'' = 123" "byte CHR 0x22 = 34"
  by (simp_all add: byte_def)

lemma skip_space_opens [simp]: "opens_value c \<Longrightarrow> skip_space (c # t) = c # t"
  by (simp add: opens_value_def skip_space_def)

lemma skip_space_ends [simp]:
  "skip_space (CHR '','' # r) = CHR '','' # r" "skip_space (CHR '']'' # r) = CHR '']'' # r"
  "skip_space (CHR ''}'' # r) = CHR ''}'' # r" "skip_space (CHR '':'' # r) = CHR '':'' # r"
  "skip_space (CHR 0x22 # r) = CHR 0x22 # r" "skip_space [] = []"
  by (simp_all add: skip_space_def is_space_def byte_def)

definition parses :: "json \<Rightarrow> bool" where
  "parses j \<longleftrightarrow> (\<forall>n r. length (json_print j) \<le> n \<longrightarrow> ends_value r \<longrightarrow>
     parse_value n (json_print j @ r) = Some (json_fix j, r))"

lemma parsesD:
  "parses j \<Longrightarrow> length (json_print j) \<le> n \<Longrightarrow> ends_value r \<Longrightarrow> parse_value n (json_print j @ r) = Some (json_fix j, r)"
  by (simp add: parses_def)

lemma parse_elems_print:
  "xs \<noteq> [] \<Longrightarrow> \<forall>x \<in> set xs. parses x \<Longrightarrow> length (join_on CHR '','' (map json_print xs)) < n \<Longrightarrow>
   parse_elems n (join_on CHR '','' (map json_print xs) @ CHR '']'' # r) = Some (map json_fix xs, r)"
proof (induction xs arbitrary: n)
  case (Cons x xs)
  then obtain m where n: "n = Suc m" by (cases n) auto
  show ?case
  proof (cases "xs = []")
    case True
    with Cons.prems n show ?thesis by (simp add: parsesD)
  next
    case False
    with Cons.prems n have "length (json_print x) \<le> m" "length (join_on CHR '','' (map json_print xs)) < m"
      by (simp_all add: join_on_Cons)
    with False Cons n show ?thesis by (simp add: join_on_Cons parsesD)
  qed
qed simp

lemma parse_members_print:
  "fs \<noteq> [] \<Longrightarrow> \<forall>(k, v) \<in> set fs. parses v \<Longrightarrow>
   length (join_on CHR '','' (map (\<lambda>(k, v). json_quote k @ CHR '':'' # json_print v) fs)) < n \<Longrightarrow>
   parse_members n (join_on CHR '','' (map (\<lambda>(k, v). json_quote k @ CHR '':'' # json_print v) fs) @ CHR ''}'' # r)
     = Some (map (\<lambda>(k, v). (fix_utf8 k, json_fix v)) fs, r)"
proof (induction fs arbitrary: n)
  case (Cons f fs)
  obtain k v where f: "f = (k, v)" by force
  obtain m where n: "n = Suc m" using Cons.prems by (cases n) auto
  show ?case
  proof (cases "fs = []")
    case True
    with Cons.prems n f show ?thesis by (simp add: json_quote_def parsesD)
  next
    case False
    with Cons.prems n f have "length (json_print v) \<le> m"
      "length (join_on CHR '','' (map (\<lambda>(k, v). json_quote k @ CHR '':'' # json_print v) fs)) < m"
      by (simp_all add: join_on_Cons)
    with False Cons n f show ?thesis
      by (simp add: join_on_Cons json_quote_def [of k] parsesD)
  qed
qed simp

lemma join_on_eq_Nil: "\<forall>w \<in> set ws. w \<noteq> [] \<Longrightarrow> join_on c ws = [] \<longleftrightarrow> ws = []"
  by (cases "(c, ws)" rule: join_on.cases) auto

lemma parse_array:
  assumes "\<forall>x \<in> set xs. parses x" "\<forall>x \<in> set xs. integral x"
  shows "parses (JArr xs)"
proof -
  have "parse_value n (json_print (JArr xs) @ r) = Some (json_fix (JArr xs), r)"
    if n: "length (json_print (JArr xs)) \<le> n" for n r
  proof (cases xs)
    case Nil
    with n show ?thesis by (cases n) simp_all
  next
    case (Cons x ys)
    obtain c t where x: "json_print x = c # t" "opens_value c"
      using json_print_opens [of x] assms(2) Cons by auto
    let ?e = "join_on CHR '','' (map json_print xs)"
    obtain m where m: "n = Suc m" "length ?e < m" using n by (cases n) auto
    obtain u where "?e = c # u" using x Cons by (cases ys) (auto simp: join_on_Cons)
    moreover have "parse_elems m (?e @ CHR '']'' # r) = Some (map json_fix xs, r)"
      by (rule parse_elems_print) (use assms(1) m Cons in simp_all)
    ultimately show ?thesis using x(2) m
      by (simp add: opens_value_def [of c])
  qed
  then show ?thesis by (simp add: parses_def)
qed

lemma parse_object:
  assumes "\<forall>(k, v) \<in> set fs. parses v"
  shows "parses (JObj fs)"
proof -
  have "parse_value n (json_print (JObj fs) @ r) = Some (json_fix (JObj fs), r)"
    if n: "length (json_print (JObj fs)) \<le> n" for n r
  proof (cases fs)
    case Nil
    with n show ?thesis by (cases n) simp_all
  next
    case (Cons f gs)
    let ?e = "join_on CHR '','' (map (\<lambda>(k, v). json_quote k @ CHR '':'' # json_print v) fs)"
    obtain m where m: "n = Suc m" "length ?e < m" using n by (cases n) auto
    obtain u where "?e = CHR 0x22 # u"
      using Cons by (cases f; cases gs) (auto simp: join_on_Cons json_quote_def)
    moreover have "parse_members m (?e @ CHR ''}'' # r) = Some (map (\<lambda>(k, v). (fix_utf8 k, json_fix v)) fs, r)"
      by (rule parse_members_print) (use assms m Cons in simp_all)
    ultimately show ?thesis using m by simp
  qed
  then show ?thesis by (simp add: parses_def)
qed

lemma keyword_append [simp]: "keyword w j (w @ r) = Some (j, r)"
  by (simp add: keyword_def)

lemma parses_atoms: "parses JNull" "parses (JBool b)" "parses (JStr s)"
proof -
  have "parse_value n (CHR ''n'' # ''ull'' @ r) = Some (JNull, r)" if "4 \<le> n" for n r
    using that by (cases n) (simp_all add: skip_space_def is_space_def byte_def keyword_def)
  then show "parses JNull" by (simp add: parses_def)
  have "parse_value n (CHR ''t'' # ''rue'' @ r) = Some (JBool True, r)" if "4 \<le> n" for n r
    using that by (cases n) (simp_all add: skip_space_def is_space_def byte_def keyword_def)
  moreover have "parse_value n (CHR ''f'' # ''alse'' @ r) = Some (JBool False, r)" if "5 \<le> n" for n r
    using that by (cases n) (simp_all add: skip_space_def is_space_def byte_def keyword_def)
  ultimately show "parses (JBool b)" by (simp add: parses_def)
  have "parse_value n (CHR 0x22 # concat (map escape_rune (runes s)) @ CHR 0x22 # r) = Some (JStr (fix_utf8 s), r)" if "0 < n" for n r
    using that by (cases n) simp_all
  then show "parses (JStr s)" by (simp add: parses_def json_quote_def)
qed

lemma parses_int: "parses (JInt i)"
proof -
  have "parse_value n (itoa i @ r) = Some (JInt i, r)" if n: "length (itoa i) \<le> n" and r: "ends_value r" for n r
  proof -
    obtain c t where ct: "itoa i = c # t" "c = CHR ''-'' \<or> is_digit c"
      using digits_open [of "nat i"] by (cases "i < 0") (auto simp: itoa_def)
    then have "opens_value c \<and> byte c \<noteq> 34 \<and> c \<notin> {CHR ''['', CHR ''{'', CHR ''n'', CHR ''t'', CHR ''f''}"
      by (auto simp: is_digit_def digit_opens) (simp_all add: opens_value_def is_space_def byte_def)
    moreover obtain m where "n = Suc m" using n ct by (cases n) auto
    moreover have "scan_number (c # t @ r) = Some (JInt i, r)"
      using scan_itoa [OF r, of i] ct(1) by simp
    ultimately show ?thesis using ct(1) by simp
  qed
  then show ?thesis by (simp add: parses_def)
qed

lemma integral_parses: "integral j \<Longrightarrow> parses j"
proof (induction j)
  case (JArr xs)
  then show ?case by (intro parse_array) (auto simp: list_all_iff)
next
  case (JObj fs)
  then show ?case by (intro parse_object) (fastforce simp: list_all_iff)
qed (simp_all add: parses_atoms parses_int)

theorem json_parse_print [simp]: "integral j \<Longrightarrow> json_parse (json_print j) = Some (json_fix j)"
  using parsesD [OF integral_parses, of j "length (json_print j)" "[]"]
  by (simp add: json_parse_def)

section \<open>Filling a struct\<close>

text \<open>
  The members that fill a field: every member whose name is the field's up to case, in order.
  \<^verbatim>\<open>null\<close> leaves a field as it is (and makes a slice nil); a member of another type is an error.
\<close>

fun members :: "string \<Rightarrow> json \<Rightarrow> json list" where
  "members k (JObj fs) = map snd (filter (\<lambda>(n, v). to_lower n = k) fs)"
| "members k _ = []"

definition decode_field :: "('a \<Rightarrow> json \<Rightarrow> 'a option) \<Rightarrow> 'a \<Rightarrow> string \<Rightarrow> json \<Rightarrow> 'a option" where
  "decode_field d z k j = foldl (\<lambda>acc v. Option.bind acc (\<lambda>x. d x v)) (Some z) (members k j)"

fun is_struct :: "json \<Rightarrow> bool" where
  "is_struct (JObj fs) = True"
| "is_struct JNull = True"
| "is_struct _ = False"

fun as_string :: "string \<Rightarrow> json \<Rightarrow> string option" where
  "as_string x JNull = Some x"
| "as_string x (JStr s) = Some s"
| "as_string x _ = None"

fun as_bool :: "bool \<Rightarrow> json \<Rightarrow> bool option" where
  "as_bool x JNull = Some x"
| "as_bool x (JBool b) = Some b"
| "as_bool x _ = None"

fun as_int32 :: "int32 \<Rightarrow> json \<Rightarrow> int32 option" where
  "as_int32 x JNull = Some x"
| "as_int32 x (JInt n) = (if in_i32 n then Some (word_of_int n) else None)"
| "as_int32 x _ = None"

text \<open>An \<^verbatim>\<open>int64\<close> that holds a Unix time is modelled by its value.\<close>

fun as_int64 :: "int \<Rightarrow> json \<Rightarrow> int option" where
  "as_int64 x JNull = Some x"
| "as_int64 x (JInt n) = (if in_i64 n then Some n else None)"
| "as_int64 x _ = None"

text \<open>A \<^verbatim>\<open>[]byte\<close> field takes base64 text or an array of bytes.\<close>

fun as_byte :: "json \<Rightarrow> char option" where
  "as_byte (JInt n) = (if 0 \<le> n \<and> n < 256 then Some (char_of (nat n)) else None)"
| "as_byte JNull = Some (char_of (0 :: nat))"
| "as_byte _ = None"

fun as_bytes :: "string option \<Rightarrow> json \<Rightarrow> string option option" where
  "as_bytes x JNull = Some None"
| "as_bytes x (JStr t) = map_option Some (b64_decode std_alphabet True t)"
| "as_bytes x (JArr vs) = map_option Some (all_some (map as_byte vs))"
| "as_bytes x _ = None"

fun as_slice :: "(json \<Rightarrow> 'a option) \<Rightarrow> 'a list \<Rightarrow> json \<Rightarrow> 'a list option" where
  "as_slice d x JNull = Some []"
| "as_slice d x (JArr vs) = all_some (map d vs)"
| "as_slice d x _ = None"

lemma members_Cons:
  "members k (JObj ((n, v) # fs)) = (if to_lower n = k then v # members k (JObj fs) else members k (JObj fs))"
  by simp

lemma members_Nil: "members k (JObj []) = []"
  by simp

lemma members_append: "members k (JObj (fs @ gs)) = members k (JObj fs) @ members k (JObj gs)"
  by simp

lemma decode_field_none: "members k j = [] \<Longrightarrow> decode_field d z k j = Some z"
  by (simp add: decode_field_def)

lemma decode_field_one: "members k j = [v] \<Longrightarrow> decode_field d z k j = d z v"
  by (simp add: decode_field_def)

end
