(* ===== verification/Auth.thy ===== *)
theory Auth
  imports Json
begin

text \<open>
  \<^verbatim>\<open>pkg/auth\<close>: HS256 tokens and the operations a role grants. The clock reading
  that \<^verbatim>\<open>j.now()\<close> gives (nanoseconds) is an argument, and so is HMAC-SHA256, \<open>mac key message\<close>:
  the theorems hold for every keyed function, and those that need more say so.
\<close>

section \<open>Roles, operations, claims\<close>

record JWT =
  jwt_secret :: string

definition RoleReadOnly :: string where "RoleReadOnly = ''read-only''"
definition RoleReadWrite :: string where "RoleReadWrite = ''read-write''"
definition RoleAdmin :: string where "RoleAdmin = ''admin''"

definition OpStockRead :: string where "OpStockRead = ''stock:read''"
definition OpStockWrite :: string where "OpStockWrite = ''stock:write''"
definition OpStockAdmin :: string where "OpStockAdmin = ''stock:admin''"
definition OpReservationRead :: string where "OpReservationRead = ''reservation:read''"
definition OpReservationMutate :: string where "OpReservationMutate = ''reservation:mutate''"
definition OpOrderRead :: string where "OpOrderRead = ''order:read''"
definition OpOrderMutate :: string where "OpOrderMutate = ''order:mutate''"

lemmas role_defs = RoleReadOnly_def RoleReadWrite_def RoleAdmin_def
lemmas op_defs = OpStockRead_def OpStockWrite_def OpStockAdmin_def OpReservationRead_def
  OpReservationMutate_def OpOrderRead_def OpOrderMutate_def

record Claims =
  cl_TenantID :: string
  cl_Expiry :: int
  cl_Subject :: string
  cl_Role :: string
  cl_Scopes :: "string list"
  cl_IssuedAt :: int
  cl_NotBefore :: int

record jwtHeader =
  hd_Alg :: string
  hd_Typ :: string

definition NewJWT :: "string \<Rightarrow> JWT" where
  "NewJWT secret = \<lparr>jwt_secret = secret\<rparr>"

record IssueOptions =
  io_Subject :: string
  io_Role :: string
  io_Scopes :: "string list"

datatype auth_error = ErrUnauthenticated | ErrEmptyTenant

text \<open>\<^verbatim>\<open>Time.Unix\<close> of a reading in nanoseconds.\<close>

definition unix_seconds :: "int \<Rightarrow> int" where
  "unix_seconds t = t div 1000000000"

section \<open>Wire form\<close>

definition marshal_header :: "jwtHeader \<Rightarrow> json" where
  "marshal_header h = JObj [(''alg'', JStr (hd_Alg h)), (''typ'', JStr (hd_Typ h))]"

definition omitempty :: "bool \<Rightarrow> string \<times> json \<Rightarrow> (string \<times> json) list" where
  "omitempty e m = (if e then [] else [m])"

definition marshal_claims :: "Claims \<Rightarrow> json" where
  "marshal_claims c =
     JObj ([(''tenant_id'', JStr (cl_TenantID c)), (''exp'', JInt (cl_Expiry c))]
       @ omitempty (cl_Subject c = '''') (''sub'', JStr (cl_Subject c))
       @ omitempty (cl_Role c = '''') (''role'', JStr (cl_Role c))
       @ omitempty (cl_Scopes c = []) (''scopes'', JArr (map JStr (cl_Scopes c)))
       @ omitempty (cl_IssuedAt c = 0) (''iat'', JInt (cl_IssuedAt c))
       @ omitempty (cl_NotBefore c = 0) (''nbf'', JInt (cl_NotBefore c)))"

definition unmarshal_header :: "string \<Rightarrow> jwtHeader option" where
  "unmarshal_header b =
     (case json_parse b of
        None \<Rightarrow> None
      | Some j \<Rightarrow>
          if \<not> is_struct j then None
          else (case (decode_field as_string '''' ''alg'' j, decode_field as_string '''' ''typ'' j) of
                  (Some a, Some t) \<Rightarrow> Some \<lparr>hd_Alg = a, hd_Typ = t\<rparr>
                | _ \<Rightarrow> None))"

definition claims_of_json :: "json \<Rightarrow> Claims option" where
  "claims_of_json j =
     (case (decode_field as_string '''' ''tenant_id'' j, decode_field as_int64 0 ''exp'' j,
            decode_field as_string '''' ''sub'' j, decode_field as_string '''' ''role'' j,
            decode_field (as_slice (as_string '''')) [] ''scopes'' j,
            decode_field as_int64 0 ''iat'' j, decode_field as_int64 0 ''nbf'' j) of
        (Some t, Some e, Some s, Some r, Some sc, Some i, Some n) \<Rightarrow>
          Some \<lparr>cl_TenantID = t, cl_Expiry = e, cl_Subject = s, cl_Role = r, cl_Scopes = sc,
                cl_IssuedAt = i, cl_NotBefore = n\<rparr>
      | _ \<Rightarrow> None)"

definition unmarshal_claims :: "string \<Rightarrow> Claims option" where
  "unmarshal_claims b =
     (case json_parse b of
        None \<Rightarrow> None
      | Some j \<Rightarrow> if is_struct j then claims_of_json j else None)"

definition raw_url :: "string \<Rightarrow> string" where
  "raw_url s = b64_encode url_alphabet False s"

definition raw_url_decode :: "string \<Rightarrow> string option" where
  "raw_url_decode t = b64_decode url_alphabet False t"

definition sign :: "(string \<Rightarrow> string \<Rightarrow> string) \<Rightarrow> JWT \<Rightarrow> string \<Rightarrow> string" where
  "sign mac j input = raw_url (mac (jwt_secret j) input)"

section \<open>Issue and Verify\<close>

definition Issue ::
  "(string \<Rightarrow> string \<Rightarrow> string) \<Rightarrow> JWT \<Rightarrow> int \<Rightarrow> string \<Rightarrow> int \<Rightarrow> IssueOptions list \<Rightarrow> auth_error + string" where
  "Issue mac j t tenantID ttl opts =
     (if tenantID = '''' then Inl ErrEmptyTenant
      else
        let opt = (if 0 < length opts then opts ! 0 else \<lparr>io_Subject = '''', io_Role = '''', io_Scopes = []\<rparr>);
            ttl = (if ttl \<le> 0 then 15 * 60 * 1000000000 else ttl);
            claims = \<lparr>cl_TenantID = tenantID, cl_Expiry = unix_seconds (t + ttl), cl_Subject = io_Subject opt,
                      cl_Role = io_Role opt, cl_Scopes = io_Scopes opt, cl_IssuedAt = unix_seconds t,
                      cl_NotBefore = 0\<rparr>;
            h = json_print (marshal_header \<lparr>hd_Alg = ''HS256'', hd_Typ = ''JWT''\<rparr>);
            p = json_print (marshal_claims claims);
            body = raw_url h @ ''.'' @ raw_url p in
        Inr (body @ ''.'' @ sign mac j body))"

definition Verify ::
  "(string \<Rightarrow> string \<Rightarrow> string) \<Rightarrow> JWT \<Rightarrow> int \<Rightarrow> string \<Rightarrow> auth_error + Claims" where
  "Verify mac j t token =
     (case cut CHR ''.'' token of
        None \<Rightarrow> Inl ErrUnauthenticated
      | Some (header, rest) \<Rightarrow>
     (case cut CHR ''.'' rest of
        None \<Rightarrow> Inl ErrUnauthenticated
      | Some (payload, sig) \<Rightarrow>
     if header = '''' \<or> payload = '''' \<or> sig = '''' then Inl ErrUnauthenticated
     else if sig \<noteq> sign mac j (header @ ''.'' @ payload) then Inl ErrUnauthenticated
     else (case raw_url_decode header of
        None \<Rightarrow> Inl ErrUnauthenticated
      | Some hb \<Rightarrow>
     (case unmarshal_header hb of
        None \<Rightarrow> Inl ErrUnauthenticated
      | Some h \<Rightarrow>
     if hd_Alg h \<noteq> ''HS256'' then Inl ErrUnauthenticated
     else (case raw_url_decode payload of
        None \<Rightarrow> Inl ErrUnauthenticated
      | Some pb \<Rightarrow>
     (case unmarshal_claims pb of
        None \<Rightarrow> Inl ErrUnauthenticated
      | Some claims \<Rightarrow>
     if cl_TenantID claims = '''' then Inl ErrUnauthenticated
     else if cl_Expiry claims \<le> unix_seconds t then Inl ErrUnauthenticated
     else if cl_NotBefore claims \<noteq> 0 \<and> unix_seconds t < cl_NotBefore claims then Inl ErrUnauthenticated
     else Inr claims))))))"

definition roleOperations :: "string \<Rightarrow> string list" where
  "roleOperations role =
     (if role = RoleReadOnly then [OpStockRead, OpReservationRead, OpOrderRead]
      else if role = RoleReadWrite
           then [OpStockRead, OpStockWrite, OpReservationRead, OpReservationMutate, OpOrderRead, OpOrderMutate]
      else [])"

definition Allows :: "Claims \<Rightarrow> string \<Rightarrow> bool" where
  "Allows c op =
     (if cl_Role c = RoleAdmin then True
      else if cl_Role c \<notin> {RoleReadOnly, RoleReadWrite, ''''} then False
      else
        let role = (if cl_Role c = '''' then RoleReadWrite else cl_Role c) in
        if 0 < length (cl_Scopes c) then op \<in> set (cl_Scopes c)
        else op \<in> set (roleOperations role))"

section \<open>Round trip\<close>

lemma field_names [simp]:
  "to_lower ''alg'' = ''alg''" "to_lower ''typ'' = ''typ''" "to_lower ''tenant_id'' = ''tenant_id''"
  "to_lower ''exp'' = ''exp''" "to_lower ''sub'' = ''sub''" "to_lower ''role'' = ''role''"
  "to_lower ''scopes'' = ''scopes''" "to_lower ''iat'' = ''iat''" "to_lower ''nbf'' = ''nbf''"
  by code_simp+

lemma all_some_strings [simp]: "all_some (map (as_string x \<circ> JStr) ss) = Some ss"
  by (induction ss) simp_all

text \<open>Printing replaces what is not UTF-8 in the claims.\<close>

definition utf8_claims :: "Claims \<Rightarrow> Claims" where
  "utf8_claims c =
     c\<lparr>cl_TenantID := fix_utf8 (cl_TenantID c), cl_Subject := fix_utf8 (cl_Subject c), cl_Role := fix_utf8 (cl_Role c),
       cl_Scopes := map fix_utf8 (cl_Scopes c)\<rparr>"

definition claims_are_utf8 :: "Claims \<Rightarrow> bool" where
  "claims_are_utf8 c \<longleftrightarrow> list_all valid_utf8 (cl_TenantID c # cl_Subject c # cl_Role c # cl_Scopes c)"

lemma utf8_claims_valid: "claims_are_utf8 c \<Longrightarrow> utf8_claims c = c"
  by (auto simp: claims_are_utf8_def utf8_claims_def fix_utf8_valid list_all_iff intro!: Claims.equality map_idI)

lemma field_names_utf8 [simp]:
  "fix_utf8 ''alg'' = ''alg''" "fix_utf8 ''typ'' = ''typ''" "fix_utf8 ''tenant_id'' = ''tenant_id''"
  "fix_utf8 ''exp'' = ''exp''" "fix_utf8 ''sub'' = ''sub''" "fix_utf8 ''role'' = ''role''"
  "fix_utf8 ''scopes'' = ''scopes''" "fix_utf8 ''iat'' = ''iat''" "fix_utf8 ''nbf'' = ''nbf''"
  by (simp_all add: fix_utf8_ascii byte_def)

lemma unmarshal_marshal_header:
  "unmarshal_header (json_print (marshal_header \<lparr>hd_Alg = ''HS256'', hd_Typ = ''JWT''\<rparr>)) = Some \<lparr>hd_Alg = ''HS256'', hd_Typ = ''JWT''\<rparr>"
    (is "unmarshal_header (json_print (marshal_header ?h)) = _")
proof -
  have "integral (marshal_header ?h)" "json_fix (marshal_header ?h) = marshal_header ?h"
    by (simp_all add: marshal_header_def fix_utf8_ascii byte_def)
  then show ?thesis
    by (simp add: unmarshal_header_def del: json_print.simps)
       (simp add: marshal_header_def decode_field_def)
qed

lemma json_fix_claims: "json_fix (marshal_claims c) = marshal_claims (utf8_claims c)"
  by (simp add: marshal_claims_def utf8_claims_def omitempty_def)

lemma integral_marshal_claims: "integral (marshal_claims c)"
  by (simp add: marshal_claims_def omitempty_def list_all_iff)

lemma claims_of_marshal:
  assumes "in_i64 (cl_Expiry c)" "in_i64 (cl_IssuedAt c)" "in_i64 (cl_NotBefore c)"
  shows "claims_of_json (marshal_claims c) = Some c"
proof -
  let ?j = "marshal_claims c"
  have "decode_field as_string '''' ''tenant_id'' ?j = Some (cl_TenantID c)"
    "decode_field as_int64 0 ''exp'' ?j = Some (cl_Expiry c)"
    "decode_field as_string '''' ''sub'' ?j = Some (cl_Subject c)"
    "decode_field as_string '''' ''role'' ?j = Some (cl_Role c)"
    "decode_field (as_slice (as_string '''')) [] ''scopes'' ?j = Some (cl_Scopes c)"
    "decode_field as_int64 0 ''iat'' ?j = Some (cl_IssuedAt c)"
    "decode_field as_int64 0 ''nbf'' ?j = Some (cl_NotBefore c)"
    using assms by (simp_all add: marshal_claims_def omitempty_def decode_field_def)
  then show ?thesis by (simp add: claims_of_json_def)
qed

lemma unmarshal_marshal_claims:
  assumes "in_i64 (cl_Expiry c)" "in_i64 (cl_IssuedAt c)" "in_i64 (cl_NotBefore c)"
  shows "unmarshal_claims (json_print (marshal_claims c)) = Some (utf8_claims c)"
proof -
  have "claims_of_json (marshal_claims (utf8_claims c)) = Some (utf8_claims c)"
    by (rule claims_of_marshal) (use assms in \<open>simp_all add: utf8_claims_def\<close>)
  moreover have "is_struct (marshal_claims (utf8_claims c))" by (simp add: marshal_claims_def)
  ultimately show ?thesis
    by (simp add: unmarshal_claims_def integral_marshal_claims json_fix_claims del: json_print.simps)
qed

lemma raw_url_decode_raw_url [simp]: "raw_url_decode (raw_url s) = Some s"
  by (simp add: raw_url_def raw_url_decode_def)

lemma raw_url_plain [simp]: "CHR ''.'' \<notin> set (raw_url s)"
  by (simp add: raw_url_def b64_encode_raw_plain)

lemma raw_url_Nil [simp]: "raw_url s = [] \<longleftrightarrow> s = []"
  by (simp add: raw_url_def)

lemma marshal_not_Nil [simp]: "json_print (marshal_header h) \<noteq> []" "json_print (marshal_claims c) \<noteq> []"
  by (simp_all add: marshal_header_def marshal_claims_def)

text \<open>The token of a body: what \<open>Verify\<close> makes of it.\<close>

lemma Verify_token:
  assumes "mac (jwt_secret j) (raw_url hb @ ''.'' @ raw_url pb) \<noteq> []" "hb \<noteq> []" "pb \<noteq> []"
    and "unmarshal_header hb = Some h" "hd_Alg h = ''HS256''" "unmarshal_claims pb = Some c"
  shows "Verify mac j t ((raw_url hb @ ''.'' @ raw_url pb) @ ''.'' @ sign mac j (raw_url hb @ ''.'' @ raw_url pb))
    = (if cl_TenantID c = '''' \<or> cl_Expiry c \<le> unix_seconds t
            \<or> cl_NotBefore c \<noteq> 0 \<and> unix_seconds t < cl_NotBefore c
       then Inl ErrUnauthenticated else Inr c)"
proof -
  let ?b = "raw_url hb @ ''.'' @ raw_url pb"
  have "cut CHR ''.'' (?b @ ''.'' @ sign mac j ?b) = Some (raw_url hb, raw_url pb @ ''.'' @ sign mac j ?b)"
    using cut_append [of "CHR ''.''" "raw_url hb" "raw_url pb @ ''.'' @ sign mac j ?b"] by simp
  moreover have "cut CHR ''.'' (raw_url pb @ ''.'' @ sign mac j ?b) = Some (raw_url pb, sign mac j ?b)"
    using cut_append [of "CHR ''.''" "raw_url pb" "sign mac j ?b"] by simp
  moreover have "sign mac j ?b \<noteq> []" using assms(1) by (simp add: sign_def)
  ultimately show ?thesis using assms by (simp add: Verify_def)
qed

text \<open>The claims \<open>Issue\<close> puts into a token.\<close>

definition issued_claims :: "int \<Rightarrow> string \<Rightarrow> int \<Rightarrow> IssueOptions \<Rightarrow> Claims" where
  "issued_claims t tenantID ttl opt =
     \<lparr>cl_TenantID = tenantID, cl_Expiry = unix_seconds (t + (if ttl \<le> 0 then 900000000000 else ttl)),
      cl_Subject = io_Subject opt, cl_Role = io_Role opt, cl_Scopes = io_Scopes opt,
      cl_IssuedAt = unix_seconds t, cl_NotBefore = 0\<rparr>"

lemma Verify_Issue:
  assumes mac: "\<And>m. mac (jwt_secret j) m \<noteq> []" and tenant: "tenantID \<noteq> ''''"
    and range: "in_i64 (unix_seconds t)" "in_i64 (cl_Expiry (issued_claims t tenantID ttl opt))"
  shows "\<exists>token. Issue mac j t tenantID ttl [opt] = Inr token \<and>
    (\<forall>t'. Verify mac j t' token =
       (if unix_seconds t' < cl_Expiry (issued_claims t tenantID ttl opt)
        then Inr (utf8_claims (issued_claims t tenantID ttl opt)) else Inl ErrUnauthenticated))"
proof -
  let ?c = "issued_claims t tenantID ttl opt"
  let ?h = "json_print (marshal_header \<lparr>hd_Alg = ''HS256'', hd_Typ = ''JWT''\<rparr>)"
  let ?p = "json_print (marshal_claims ?c)"
  let ?b = "raw_url ?h @ ''.'' @ raw_url ?p"
  have "Issue mac j t tenantID ttl [opt] = Inr (?b @ ''.'' @ sign mac j ?b)"
    using tenant by (simp add: Issue_def issued_claims_def Let_def)
  moreover have "unmarshal_claims ?p = Some (utf8_claims ?c)"
    by (rule unmarshal_marshal_claims) (use range in \<open>simp_all add: issued_claims_def in_i64_def\<close>)
  then have "Verify mac j t' (?b @ ''.'' @ sign mac j ?b) =
    (if unix_seconds t' < cl_Expiry ?c then Inr (utf8_claims ?c) else Inl ErrUnauthenticated)" for t'
    using tenant
      Verify_token [of mac j ?h ?p "\<lparr>hd_Alg = ''HS256'', hd_Typ = ''JWT''\<rparr>" "utf8_claims ?c" t']
    by (simp add: mac unmarshal_marshal_header issued_claims_def utf8_claims_def)
  ultimately show ?thesis by blast
qed

text \<open>
  C17: A token verifies to the claims it was issued with, at every instant before its expiry second, and
  to nothing from that second on. The claims come back exactly when their strings are valid UTF-8; in any
  other string each byte outside UTF-8 comes back as U+FFFD, which is what \<^verbatim>\<open>json.Marshal\<close> writes for it.
  It needs that a MAC is not empty and that the two times fit an \<^verbatim>\<open>int64\<close>.
\<close>

theorem token_round_trip:
  assumes "\<And>m. mac (jwt_secret j) m \<noteq> []" "tenantID \<noteq> ''''"
    and "in_i64 (unix_seconds t)" "in_i64 (cl_Expiry (issued_claims t tenantID ttl opt))"
  shows "(\<exists>token. Issue mac j t tenantID ttl [opt] = Inr token \<and>
    (\<forall>t'. Verify mac j t' token =
       (if unix_seconds t' < cl_Expiry (issued_claims t tenantID ttl opt)
        then Inr (utf8_claims (issued_claims t tenantID ttl opt)) else Inl ErrUnauthenticated))) \<and>
    (claims_are_utf8 (issued_claims t tenantID ttl opt) \<longrightarrow>
       utf8_claims (issued_claims t tenantID ttl opt) = issued_claims t tenantID ttl opt)"
  using Verify_Issue [where mac = mac and j = j, OF assms] utf8_claims_valid by blast

definition sample_mac :: "string \<Rightarrow> string \<Rightarrow> string" where
  "sample_mac key message = CHR ''m'' # rev key @ message"

theorem token_round_trip_witness:
  "\<exists>token. Issue sample_mac (NewJWT ''secret'') 1700000000000000000 ''t1'' 0
       [\<lparr>io_Subject = ''ann'', io_Role = ''read-only'', io_Scopes = []\<rparr>] = Inr token \<and>
     (\<forall>t'. Verify sample_mac (NewJWT ''secret'') t' token =
        (if unix_seconds t' < 1700000900
         then Inr \<lparr>cl_TenantID = ''t1'', cl_Expiry = 1700000900, cl_Subject = ''ann'',
                   cl_Role = ''read-only'', cl_Scopes = [], cl_IssuedAt = 1700000000, cl_NotBefore = 0\<rparr>
         else Inl ErrUnauthenticated))"
proof -
  let ?opt = "\<lparr>io_Subject = ''ann'', io_Role = ''read-only'', io_Scopes = []\<rparr>"
  have c: "issued_claims 1700000000000000000 ''t1'' 0 ?opt =
    \<lparr>cl_TenantID = ''t1'', cl_Expiry = 1700000900, cl_Subject = ''ann'', cl_Role = ''read-only'',
     cl_Scopes = [], cl_IssuedAt = 1700000000, cl_NotBefore = 0\<rparr>"
    by (simp add: issued_claims_def unix_seconds_def)
  have u: "claims_are_utf8 (issued_claims 1700000000000000000 ''t1'' 0 ?opt)"
    unfolding c by (simp add: claims_are_utf8_def valid_utf8_ascii byte_def)
  show ?thesis
    using u token_round_trip [of sample_mac "NewJWT ''secret''" "''t1''" 1700000000000000000 0 ?opt]
    unfolding c by (auto simp: sample_mac_def unix_seconds_def in_i64_def)
qed

section \<open>What a verified token guarantees\<close>

lemma Verify_Inr:
  assumes "Verify mac j t token = Inr c"
  obtains header payload where
    "token = header @ ''.'' @ payload @ ''.'' @ sign mac j (header @ ''.'' @ payload)"
    "Option.bind (raw_url_decode payload) unmarshal_claims = Some c"
    "cl_TenantID c \<noteq> ''''" "unix_seconds t < cl_Expiry c"
    "cl_NotBefore c = 0 \<or> cl_NotBefore c \<le> unix_seconds t"
proof -
  obtain header rest where h: "cut CHR ''.'' token = Some (header, rest)"
    using assms by (auto simp: Verify_def split: option.splits)
  obtain payload sig where p: "cut CHR ''.'' rest = Some (payload, sig)"
    using assms h by (auto simp: Verify_def split: option.splits)
  have "sig = sign mac j (header @ ''.'' @ payload)"
    using assms h p by (auto simp: Verify_def split: option.splits if_splits)
  then have "token = header @ ''.'' @ payload @ ''.'' @ sign mac j (header @ ''.'' @ payload)"
    using cut_SomeD [OF h] cut_SomeD [OF p] by simp
  moreover have "Option.bind (raw_url_decode payload) unmarshal_claims = Some c" "cl_TenantID c \<noteq> ''''"
    "unix_seconds t < cl_Expiry c" "cl_NotBefore c = 0 \<or> cl_NotBefore c \<le> unix_seconds t"
    using assms h p by (auto simp: Verify_def not_le not_less split: option.splits if_splits)
  ultimately show ?thesis by (rule that)
qed

end
