(* ===== verification/RateLimit.thy ===== *)
theory RateLimit
  imports Prelude Complex_Main "HOL-Library.AList"
begin

text \<open>
  \<^verbatim>\<open>pkg/ratelimit\<close>: one token bucket per tenant. The \<^verbatim>\<open>float64\<close> quantities are rationals here,
  so the theorems are about the arithmetic without its rounding; the clock reading (nanoseconds) of
  \<^verbatim>\<open>l.now()\<close> and the order in which \<^verbatim>\<open>range l.buckets\<close> visits the map are arguments.
\<close>

record Decision =
  dc_Allowed :: bool
  dc_RetryAfter :: int

record bucket =
  tokens :: rat
  last_take :: int

record Limiter =
  lim_rate :: rat
  lim_burst :: rat
  lim_max :: int
  buckets :: "(string \<times> bucket) list"

definition NewLimited :: "rat \<Rightarrow> rat \<Rightarrow> int \<Rightarrow> Limiter" where
  "NewLimited rate burst maxBuckets =
     \<lparr>lim_rate = rate, lim_burst = burst, lim_max = maxBuckets, buckets = []\<rparr>"

definition NewLimiter :: "rat \<Rightarrow> rat \<Rightarrow> Limiter" where
  "NewLimiter rate burst = NewLimited rate burst 0"

definition Len :: "Limiter \<Rightarrow> nat" where
  "Len l = length (buckets l)"

text \<open>The least recently used bucket: \<^verbatim>\<open>oldestKey\<close> is empty before the first one is seen.\<close>

definition oldest_step ::
  "(string \<times> bucket) list \<Rightarrow> string \<times> int \<Rightarrow> string \<Rightarrow> string \<times> int" where
  "oldest_step bs acc k =
     (case map_of bs k of
        None \<Rightarrow> acc
      | Some b \<Rightarrow> if fst acc = '''' \<or> last_take b < snd acc then (k, last_take b) else acc)"

definition evictLocked :: "string list \<Rightarrow> Limiter \<Rightarrow> Limiter" where
  "evictLocked order l =
     (if lim_max l \<le> 0 \<or> int (length (buckets l)) < lim_max l then l
      else
        let oldestKey = fst (foldl (oldest_step (buckets l)) ('''', 0) order) in
        if oldestKey \<noteq> '''' then l\<lparr>buckets := AList.delete oldestKey (buckets l)\<rparr> else l)"

text \<open>\<^verbatim>\<open>now.Sub(b.last).Seconds()\<close>\<close>

definition elapsed_seconds :: "int \<Rightarrow> int \<Rightarrow> rat" where
  "elapsed_seconds t t0 = of_int (t - t0) / 1000000000"

definition Take :: "string list \<Rightarrow> int \<Rightarrow> string \<Rightarrow> Limiter \<Rightarrow> Decision \<times> Limiter" where
  "Take order t tenant l =
     (if lim_rate l \<le> 0 \<or> lim_burst l \<le> 0 then (\<lparr>dc_Allowed = True, dc_RetryAfter = 0\<rparr>, l)
      else
        let (b, l1) =
              (case map_of (buckets l) tenant of
                 Some b \<Rightarrow> (b, l)
               | None \<Rightarrow> (\<lparr>tokens = lim_burst l, last_take = t\<rparr>, evictLocked order l));
            avail = min (lim_burst l) (tokens b + elapsed_seconds t (last_take b) * lim_rate l);
            store = (\<lambda>n. l1\<lparr>buckets := AList.update tenant \<lparr>tokens = n, last_take = t\<rparr> (buckets l1)\<rparr>) in
        if avail < 1 then
          (\<lparr>dc_Allowed = False, dc_RetryAfter = \<lfloor>(1 - avail) / lim_rate l * 1000000000\<rfloor>\<rparr>, store avail)
        else (\<lparr>dc_Allowed = True, dc_RetryAfter = 0\<rparr>, store (avail - 1)))"

section \<open>Histories\<close>

text \<open>A history of requests: the map order, the time and the tenant of each; its decisions.\<close>

fun takes :: "(string list \<times> int \<times> string) list \<Rightarrow> Limiter \<Rightarrow> (string \<times> bool) list \<times> Limiter" where
  "takes [] l = ([], l)"
| "takes ((order, t, tenant) # es) l =
     (let (d, l1) = Take order t tenant l; (ds, l2) = takes es l1 in ((tenant, dc_Allowed d) # ds, l2))"

definition decisions_of :: "string \<Rightarrow> (string \<times> bool) list \<Rightarrow> bool list" where
  "decisions_of tenant ds = map snd (filter (\<lambda>(k, a). k = tenant) ds)"

definition times_of :: "string \<Rightarrow> (string list \<times> int \<times> string) list \<Rightarrow> int list" where
  "times_of tenant es = map (fst \<circ> snd) (filter (\<lambda>(order, t, k). k = tenant) es)"

text \<open>The reference: a token bucket of one client, alone.\<close>

definition refill :: "rat \<Rightarrow> rat \<Rightarrow> bucket option \<Rightarrow> int \<Rightarrow> rat" where
  "refill rate burst s t =
     (case s of None \<Rightarrow> burst | Some b \<Rightarrow> min burst (tokens b + elapsed_seconds t (last_take b) * rate))"

definition bucket_take :: "rat \<Rightarrow> rat \<Rightarrow> bucket option \<Rightarrow> int \<Rightarrow> bool \<times> bucket" where
  "bucket_take rate burst s t =
     (let a = refill rate burst s t in
      (1 \<le> a, \<lparr>tokens = (if 1 \<le> a then a - 1 else a), last_take = t\<rparr>))"

fun bucket_run :: "rat \<Rightarrow> rat \<Rightarrow> bucket option \<Rightarrow> int list \<Rightarrow> bool list" where
  "bucket_run rate burst s [] = []"
| "bucket_run rate burst s (t # ts) =
     (let (a, b) = bucket_take rate burst s t in a # bucket_run rate burst (Some b) ts)"

section \<open>Isolation\<close>

definition clients :: "(string list \<times> int \<times> string) list \<Rightarrow> string set" where
  "clients es = (snd \<circ> snd) ` set es"

text \<open>The floor is not set, or it has room for every bucket there is and will be.\<close>

definition roomy :: "(string list \<times> int \<times> string) list \<Rightarrow> Limiter \<Rightarrow> bool" where
  "roomy es l \<longleftrightarrow> 0 < lim_rate l \<and> 0 < lim_burst l \<and> distinct (map fst (buckets l)) \<and>
     (lim_max l \<le> 0 \<or> int (card (fst ` set (buckets l) \<union> clients es)) \<le> lim_max l)"

lemma Take_roomy:
  assumes "roomy ((order, t, tenant) # es) l"
  shows "Take order t tenant l =
    (let (a, b) = bucket_take (lim_rate l) (lim_burst l) (map_of (buckets l) tenant) t in
     (\<lparr>dc_Allowed = a,
       dc_RetryAfter = (if a then 0 else \<lfloor>(1 - refill (lim_rate l) (lim_burst l) (map_of (buckets l) tenant) t)
                          / lim_rate l * 1000000000\<rfloor>)\<rparr>,
      l\<lparr>buckets := AList.update tenant b (buckets l)\<rparr>))"
proof (cases "map_of (buckets l) tenant")
  case None
  have "int (length (buckets l)) < lim_max l" if "0 < lim_max l"
  proof -
    have new: "tenant \<notin> fst ` set (buckets l)" using None by (simp add: map_of_eq_None_iff)
    have "card (insert tenant (fst ` set (buckets l))) \<le> card (fst ` set (buckets l) \<union> clients ((order, t, tenant) # es))"
      by (rule card_mono) (auto simp: clients_def)
    moreover have "card (fst ` set (buckets l)) = length (buckets l)"
      using assms distinct_card [of "map fst (buckets l)"] by (simp add: roomy_def)
    ultimately show ?thesis using assms new that by (simp add: roomy_def)
  qed
  then have "evictLocked order l = l" by (auto simp: evictLocked_def)
  with None assms show ?thesis
    by (auto simp: Take_def bucket_take_def refill_def elapsed_seconds_def roomy_def Let_def)
next
  case (Some b)
  with assms show ?thesis
    by (auto simp: Take_def bucket_take_def refill_def roomy_def Let_def not_less)
qed

lemma roomy_Take:
  assumes "roomy ((order, t, tenant) # es) l"
  shows "roomy es (snd (Take order t tenant l))"
proof -
  have "insert tenant (fst ` set (buckets l)) \<union> clients es = fst ` set (buckets l) \<union> clients ((order, t, tenant) # es)"
    by (auto simp: clients_def)
  moreover have "fst ` set (AList.update tenant b (buckets l)) = insert tenant (fst ` set (buckets l))" for b
    by (simp add: dom_update)
  ultimately show ?thesis
    using assms
    by (auto simp: Take_roomy [OF assms] roomy_def distinct_update split: prod.split)
qed

lemma takes_reference:
  "roomy es l \<Longrightarrow> decisions_of tenant (fst (takes es l))
     = bucket_run (lim_rate l) (lim_burst l) (map_of (buckets l) tenant) (times_of tenant es)"
proof (induction es arbitrary: l)
  case Nil
  then show ?case by (simp add: decisions_of_def times_of_def)
next
  case (Cons e es)
  obtain order t k where e: "e = (order, t, k)" by (cases e) auto
  with Cons.prems have r: "roomy ((order, t, k) # es) l" by simp
  obtain a b where b: "bucket_take (lim_rate l) (lim_burst l) (map_of (buckets l) k) t = (a, b)" by force
  let ?l = "l\<lparr>buckets := AList.update k b (buckets l)\<rparr>"
  have T: "snd (Take order t k l) = ?l" "dc_Allowed (fst (Take order t k l)) = a"
    by (simp_all add: Take_roomy [OF r] b)
  obtain ds l' where ds: "takes es ?l = (ds, l')" by force
  have "fst (takes (e # es) l) = (k, a) # ds"
    using T ds by (cases "Take order t k l") (simp add: e)
  moreover have "decisions_of tenant ds = bucket_run (lim_rate l) (lim_burst l)
      (if tenant = k then Some b else map_of (buckets l) tenant) (times_of tenant es)"
    using Cons.IH [OF roomy_Take [OF r]] by (simp add: T ds update_conv' fun_upd_def)
  ultimately show ?case
    using b by (cases "tenant = k") (auto simp: e decisions_of_def times_of_def)
qed

text \<open>
  C30: The limiter isolates tenants: with the limiter enabled (\<open>rate\<close> and \<open>burst\<close> positive), in any
  history of requests, whatever other tenants do in between, the requests of a tenant are admitted or
  refused exactly as by a token bucket that sees this tenant's requests alone, provided the floor on the
  number of buckets is off or has room for all tenants (an eviction would hand the tenant a full bucket).
\<close>

theorem limiter_isolates_tenants:
  assumes "0 < rate" "0 < burst" "maxBuckets \<le> 0 \<or> int (card (clients es)) \<le> maxBuckets"
  shows "decisions_of tenant (fst (takes es (NewLimited rate burst maxBuckets)))
    = bucket_run rate burst None (times_of tenant es)"
  using takes_reference [of es "NewLimited rate burst maxBuckets" tenant] assms
  by (simp add: roomy_def NewLimited_def)

theorem limiter_isolates_tenants_witness:
  "decisions_of ''b'' (fst (takes [([], 0, ''a''), ([], 1, ''b''), ([], 2, ''a''), ([], 3, ''b'')]
     (NewLimited 1 1 2))) = [True, False]"
proof -
  have c: "clients [([], 0, ''a''), ([], 1, ''b''), ([], 2, ''a''), ([], 3, ''b'')] = {''a'', ''b''}"
    by (auto simp: clients_def)
  show ?thesis
    using limiter_isolates_tenants [of 1 1 2 "[([], 0, ''a''), ([], 1, ''b''), ([], 2, ''a''), ([], 3, ''b'')]" "''b''"]
    by (simp add: c times_of_def bucket_take_def refill_def elapsed_seconds_def Let_def)
qed

section \<open>Bounds\<close>

lemma elapsed_nonneg: "t0 \<le> t \<Longrightarrow> 0 \<le> elapsed_seconds t t0"
  by (simp add: elapsed_seconds_def)

lemma elapsed_add: "elapsed_seconds t2 t1 + elapsed_seconds t1 t0 = elapsed_seconds t2 t0"
  by (simp add: elapsed_seconds_def field_simps)

definition admitted :: "bool list \<Rightarrow> rat" where
  "admitted ds = of_nat (length (filter id ds))"

lemma admitted_simps [simp]:
  "admitted [] = 0" "admitted (a # ds) = (if a then 1 + admitted ds else admitted ds)"
  by (simp_all add: admitted_def)

text \<open>What a bucket admits is paid for by the tokens it has and those that flow in.\<close>

lemma bucket_run_bound:
  assumes "0 < rate" "0 < burst" "0 \<le> tokens b" "sorted (last_take b # ts)"
  shows "admitted (bucket_run rate burst (Some b) ts)
    \<le> tokens b + elapsed_seconds (last (last_take b # ts)) (last_take b) * rate"
  using assms(3,4)
proof (induction ts arbitrary: b)
  case Nil
  then show ?case by (simp add: elapsed_seconds_def)
next
  case (Cons t ts)
  define a where "a = refill rate burst (Some b) t"
  define b' where "b' = \<lparr>tokens = (if 1 \<le> a then a - 1 else a), last_take = t\<rparr>"
  have el: "0 \<le> elapsed_seconds t (last_take b)" using Cons.prems(2) by (simp add: elapsed_nonneg)
  have a: "0 \<le> a" "a \<le> tokens b + elapsed_seconds t (last_take b) * rate"
    using el Cons.prems(1) assms(1,2) by (simp_all add: a_def refill_def)
  have "admitted (bucket_run rate burst (Some b') ts)
      \<le> tokens b' + elapsed_seconds (last (last_take b' # ts)) (last_take b') * rate"
    by (rule Cons.IH) (use a(1) Cons.prems(2) in \<open>auto simp: b'_def\<close>)
  moreover have "bucket_run rate burst (Some b) (t # ts) = (1 \<le> a) # bucket_run rate burst (Some b') ts"
    by (simp add: bucket_take_def a_def b'_def Let_def)
  ultimately have "admitted (bucket_run rate burst (Some b) (t # ts)) \<le> a + elapsed_seconds (last (t # ts)) t * rate"
    by (auto simp: b'_def split: if_splits)
  also have "\<dots> \<le> tokens b + (elapsed_seconds (last (t # ts)) t + elapsed_seconds t (last_take b)) * rate"
    using a(2) by (simp add: algebra_simps)
  finally show ?case by (simp add: elapsed_add)
qed

text \<open>The bucket a client is left with, for the history before a window.\<close>

fun bucket_after :: "rat \<Rightarrow> rat \<Rightarrow> bucket option \<Rightarrow> int list \<Rightarrow> bucket option" where
  "bucket_after rate burst s [] = s"
| "bucket_after rate burst s (t # ts) = bucket_after rate burst (Some (snd (bucket_take rate burst s t))) ts"

lemma bucket_run_append:
  "bucket_run rate burst s (ts @ us) = bucket_run rate burst s ts @ bucket_run rate burst (bucket_after rate burst s ts) us"
  by (induction ts arbitrary: s) (simp_all split: prod.split)

lemma bucket_run_length [simp]: "length (bucket_run rate burst s ts) = length ts"
  by (induction ts arbitrary: s) (simp_all split: prod.split)

definition solvent :: "bucket option \<Rightarrow> int \<Rightarrow> bool" where
  "solvent s t \<longleftrightarrow> (\<forall>b. s = Some b \<longrightarrow> 0 \<le> tokens b \<and> last_take b \<le> t)"

lemma bucket_after_solvent:
  assumes "0 < rate" "0 < burst"
  shows "solvent s t0 \<Longrightarrow> sorted (t0 # ts @ [t]) \<Longrightarrow> solvent (bucket_after rate burst s ts) t"
proof (induction ts arbitrary: s t0)
  case Nil
  then show ?case by (auto simp: solvent_def)
next
  case (Cons u ts)
  have "0 \<le> refill rate burst s u"
    using Cons.prems assms elapsed_nonneg
    by (fastforce simp: refill_def solvent_def split: option.splits)
  then have "solvent (Some (snd (bucket_take rate burst s u))) u"
    by (simp add: solvent_def bucket_take_def Let_def)
  with Cons show ?case by simp
qed

lemma bucket_window_bound:
  assumes "0 < rate" "0 < burst" "solvent s t" "sorted (t # ts)"
  shows "admitted (bucket_run rate burst s (t # ts)) \<le> burst + elapsed_seconds (last (t # ts)) t * rate"
proof -
  define a where "a = refill rate burst s t"
  define b where "b = \<lparr>tokens = (if 1 \<le> a then a - 1 else a), last_take = t\<rparr>"
  have a: "0 \<le> a" "a \<le> burst"
    using assms(1-3) elapsed_nonneg
    by (fastforce simp: a_def refill_def solvent_def split: option.splits)+
  have "bucket_run rate burst s (t # ts) = (1 \<le> a) # bucket_run rate burst (Some b) ts"
    by (simp add: bucket_take_def a_def b_def Let_def)
  moreover have "admitted (bucket_run rate burst (Some b) ts)
      \<le> tokens b + elapsed_seconds (last (last_take b # ts)) (last_take b) * rate"
    by (rule bucket_run_bound) (use assms a in \<open>auto simp: b_def\<close>)
  ultimately show ?thesis using a by (auto simp: b_def split: if_splits)
qed

lemma takes_append:
  "takes (es @ fs) l = (fst (takes es l) @ fst (takes fs (snd (takes es l))), snd (takes fs (snd (takes es l))))"
  by (induction es l rule: takes.induct) (simp_all split: prod.split)

lemma decisions_of_append [simp]: "decisions_of tenant (ds @ es) = decisions_of tenant ds @ decisions_of tenant es"
  by (simp add: decisions_of_def)

lemma times_of_append [simp]: "times_of tenant (es @ fs) = times_of tenant es @ times_of tenant fs"
  by (simp add: times_of_def)

lemma sorted_times_of: "sorted (map (fst \<circ> snd) es) \<Longrightarrow> sorted (times_of tenant es)"
  unfolding times_of_def by (rule sorted_filter)

lemma window_reference:
  assumes "roomy (es @ fs) l"
  shows "decisions_of tenant (fst (takes fs (snd (takes es l))))
    = bucket_run (lim_rate l) (lim_burst l)
        (bucket_after (lim_rate l) (lim_burst l) (map_of (buckets l) tenant) (times_of tenant es)) (times_of tenant fs)"
proof -
  have "card (fst ` set (buckets l) \<union> clients es) \<le> card (fst ` set (buckets l) \<union> clients (es @ fs))"
    by (rule card_mono) (auto simp: clients_def)
  with assms have "roomy es l" unfolding roomy_def by linarith
  note takes_reference [OF this, of tenant]
  with takes_reference [OF assms, of tenant] show ?thesis
    by (simp add: takes_append bucket_run_append)
qed

text \<open>
  C16: The rate limit. With the limiter enabled (\<open>rate\<close> and \<open>burst\<close> positive), clock readings that
  do not go back, and the floor on the number of buckets off or with room for every tenant seen, a tenant
  is admitted in any window of time, whatever happened before it and whatever other tenants do, at most
  \<open>burst\<close> times plus \<open>rate\<close> per second of the window. (With a smaller floor it need not hold: a tenant
  whose bucket was evicted starts again with a full one.)
\<close>

theorem rate_limit_bounds_admissions:
  assumes "0 < rate" "0 < burst" "maxBuckets \<le> 0 \<or> int (card (clients (es @ win))) \<le> maxBuckets"
    and "sorted (map (fst \<circ> snd) (es @ win))" "\<forall>(order, t, k) \<in> set win. t0 \<le> t \<and> t \<le> t1" "t0 \<le> t1"
  shows "of_nat (length (filter id (decisions_of tenant
      (fst (takes win (snd (takes es (NewLimited rate burst maxBuckets))))))))
    \<le> burst + rate * elapsed_seconds t1 t0"
proof -
  have roomy: "roomy (es @ win) (NewLimited rate burst maxBuckets)"
    using assms(1-3) by (simp add: roomy_def NewLimited_def)
  define s where "s = bucket_after rate burst None (times_of tenant es)"
  have d: "decisions_of tenant (fst (takes win (snd (takes es (NewLimited rate burst maxBuckets)))))
    = bucket_run rate burst s (times_of tenant win)"
    using window_reference [OF roomy, of tenant] by (simp add: s_def NewLimited_def)
  have srt: "sorted (times_of tenant es @ times_of tenant win)"
    using sorted_times_of [OF assms(4), of tenant] by simp
  have win: "t0 \<le> t \<and> t \<le> t1" if "t \<in> set (times_of tenant win)" for t
    using that assms(5) by (auto simp: times_of_def)
  have "admitted (bucket_run rate burst s (times_of tenant win)) \<le> burst + elapsed_seconds t1 t0 * rate"
  proof (cases "times_of tenant win")
    case Nil
    then show ?thesis using assms(1,2) elapsed_nonneg [OF assms(6)] by simp
  next
    case (Cons t ts)
    have "solvent s t"
    proof (cases "times_of tenant es")
      case Nil
      then show ?thesis by (simp add: s_def solvent_def)
    next
      case (Cons u us)
      have "solvent None u" by (simp add: solvent_def)
      moreover have "sorted (u # times_of tenant es @ [t])"
        using srt Cons \<open>times_of tenant win = t # ts\<close> by (auto simp: sorted_append)
      ultimately show ?thesis unfolding s_def by (rule bucket_after_solvent [OF assms(1,2)])
    qed
    moreover have "sorted (t # ts)" using srt Cons by (simp add: sorted_append)
    ultimately have "admitted (bucket_run rate burst s (t # ts)) \<le> burst + elapsed_seconds (last (t # ts)) t * rate"
      by (rule bucket_window_bound [OF assms(1,2)])
    moreover have "last (t # ts) \<le> t1" "t0 \<le> t"
      using win [of "last (t # ts)"] win [of t] Cons last_in_set [of "t # ts"] by auto
    then have "elapsed_seconds (last (t # ts)) t \<le> elapsed_seconds t1 t0"
      by (simp add: elapsed_seconds_def divide_right_mono)
    then have "elapsed_seconds (last (t # ts)) t * rate \<le> elapsed_seconds t1 t0 * rate"
      using assms(1) by (simp add: mult_right_mono)
    ultimately show ?thesis using Cons by simp
  qed
  then show ?thesis by (simp add: d admitted_def mult.commute)
qed

theorem rate_limit_bounds_admissions_witness:
  "of_nat (length (filter id (decisions_of ''a''
     (fst (takes [([], 5000000000, ''a''), ([], 6000000000, ''a'')]
        (snd (takes [([], 0, ''a''), ([], 1, ''b'')] (NewLimited 1 2 0)))))))) \<le> (2 + 1 * elapsed_seconds 6000000000 5000000000 :: rat)"
  by (rule rate_limit_bounds_admissions) (simp_all add: clients_def)

end
