(* ===== verification/Gateway.thy ===== *)
theory Gateway
  imports Auth RateLimit OrderService
begin

text \<open>
  \<^verbatim>\<open>internal/gateway\<close>: the REST surface in front of the three services. A request runs in a session
  whose \<^verbatim>\<open>ext\<close> is the gateway's shared state (\<^verbatim>\<open>Core\<close>) together with the services behind it: the
  order service's session, in which the reservation and the stock service's sessions sit, so that a
  route runs the handler it fronts. The clock readings and the faults of the calls come from the
  session's schedule.

  Outside the sources, and therefore parameters: HMAC-SHA256 and SHA-256, the protobuf library's
  JSON mapping, the order in which a map is ranged over, the text of a \<^verbatim>\<open>time.Duration\<close>, what \<^verbatim>\<open>net/http\<close> answers when no
  pattern matches, and the readiness handler of the metrics server.
\<close>

section \<open>Requests, responses, shared state\<close>

record Request =
  r_method :: string
  r_path :: string
  r_authorization :: string
  r_idempotency_key :: string
  r_remote :: string
  r_body :: "string option"

text \<open>\<open>r_body\<close> is \<^verbatim>\<open>None\<close> when reading the body fails.\<close>

record Response =
  rs_status :: int
  rs_headers :: "(string \<times> string) list"
  rs_body :: string

datatype service_reply =
    StockReply stock_reply
  | ReservationReply reservation_reply
  | OrderReply order_reply

text \<open>\<^verbatim>\<open>protojson\<close>: the message a body decodes to (or the error text), the text of a reply.\<close>

record protojson =
  pj_AdjustStock :: "AdjustStockRequest \<Rightarrow> string \<Rightarrow> string + AdjustStockRequest"
  pj_ReserveStock :: "ReserveStockRequest \<Rightarrow> string \<Rightarrow> string + ReserveStockRequest"
  pj_ReleaseStock :: "ReleaseStockRequest \<Rightarrow> string \<Rightarrow> string + ReleaseStockRequest"
  pj_ConfirmStockAllocation ::
    "ConfirmStockAllocationRequest \<Rightarrow> string \<Rightarrow> string + ConfirmStockAllocationRequest"
  pj_FulfillStock :: "FulfillStockRequest \<Rightarrow> string \<Rightarrow> string + FulfillStockRequest"
  pj_UnlockStockForAudit :: "UnlockStockForAuditRequest \<Rightarrow> string \<Rightarrow> string + UnlockStockForAuditRequest"
  pj_Reserve :: "ReserveRequest \<Rightarrow> string \<Rightarrow> string + ReserveRequest"
  pj_Release :: "ReleaseRequest \<Rightarrow> string \<Rightarrow> string + ReleaseRequest"
  pj_AllocateReservation :: "AllocateReservationRequest \<Rightarrow> string \<Rightarrow> string + AllocateReservationRequest"
  pj_CreateOrder :: "CreateOrderRequest \<Rightarrow> string \<Rightarrow> string + CreateOrderRequest"
  pj_GetOrder :: "GetOrderRequest \<Rightarrow> string \<Rightarrow> string + GetOrderRequest"
  pj_CancelOrder :: "CancelOrderRequest \<Rightarrow> string \<Rightarrow> string + CancelOrderRequest"
  pj_FulfillOrder :: "FulfillOrderRequest \<Rightarrow> string \<Rightarrow> string + FulfillOrderRequest"
  pj_out :: "service_reply \<Rightarrow> string option"

record AuthUser =
  au_Username :: string
  au_Password :: string
  au_TenantID :: string
  au_Role :: string

record gateway_env =
  ge_mac :: "string \<Rightarrow> string \<Rightarrow> string"
  ge_sha256 :: "string \<Rightarrow> string"
  ge_protojson :: protojson
  ge_range :: "(string \<times> bucket) list \<Rightarrow> string list"
  ge_duration :: "int \<Rightarrow> string"
  ge_no_match :: "Request \<Rightarrow> Response"
  ge_readyz :: Response
  ge_lib :: lib
  ge_ctx :: ctx

record 'y Core =
  Verifier :: JWT
  Limiter :: Limiter
  StockBreaker :: Breaker
  ReservationBreaker :: Breaker
  OrderBreaker :: Breaker
  BreakerGauge :: "(string \<times> string) list option"
  auth_users :: "AuthUser list"
  auth_ttl :: int
  services :: "'y order_session"

type_synonym ('y, 'a) gtx = "(unit, 'y Core, 'a) tx"

type_synonym 'y gateway_session = "(unit, 'y Core) sess"

definition maxBodyBytes :: nat where
  "maxBodyBytes = 1048576"

definition loginPath :: string where
  "loginPath = ''/v1/auth/login''"

section \<open>Errors\<close>

record httpError =
  he_status :: int
  he_code :: string
  he_message :: string

definition write_error :: "httpError \<Rightarrow> Response" where
  "write_error e =
     \<lparr>rs_status = he_status e, rs_headers = [(''Content-Type'', ''application/json'')],
      rs_body = json_print (JObj [(''error'', JObj [(''code'', JStr (he_code e)), (''message'', JStr (he_message e))])])
                  @ [CHR 0x0A]\<rparr>"

fun httpStatusFromCode :: "code \<Rightarrow> int" where
  "httpStatusFromCode InvalidArgument = 400"
| "httpStatusFromCode NotFound = 404"
| "httpStatusFromCode AlreadyExists = 409"
| "httpStatusFromCode FailedPrecondition = 409"
| "httpStatusFromCode Unauthenticated = 401"
| "httpStatusFromCode PermissionDenied = 403"
| "httpStatusFromCode ResourceExhausted = 429"
| "httpStatusFromCode Unavailable = 503"
| "httpStatusFromCode DeadlineExceeded = 504"
| "httpStatusFromCode _ = 500"

definition grpc_message :: "err \<Rightarrow> string" where
  "grpc_message e = (case e of StatusErr c m \<Rightarrow> m | _ \<Rightarrow> err_text e)"

definition errorFromGRPC :: "err \<Rightarrow> httpError" where
  "errorFromGRPC e =
     \<lparr>he_status = httpStatusFromCode (grpc_code e), he_code = code_text (grpc_code e), he_message = grpc_message e\<rparr>"

definition unauthorized :: "string \<Rightarrow> httpError" where
  "unauthorized m = \<lparr>he_status = 401, he_code = ''unauthenticated'', he_message = m\<rparr>"

definition bad_request :: "string \<Rightarrow> httpError" where
  "bad_request m = \<lparr>he_status = 400, he_code = ''invalid_argument'', he_message = m\<rparr>"

definition forbidden :: "string \<Rightarrow> httpError" where
  "forbidden m = \<lparr>he_status = 403, he_code = ''permission_denied'', he_message = m\<rparr>"

section \<open>Authentication and admission\<close>

definition trim_prefix :: "string \<Rightarrow> string \<Rightarrow> string" where
  "trim_prefix p s = (if take (length p) s = p then drop (length p) s else s)"

text \<open>\<^verbatim>\<open>time.Now()\<close> in nanoseconds.\<close>

definition now_ns :: "('d, 'x, int) tx" where
  "now_ns = bindE now (\<lambda>t. returnE (t * 1000))"

definition authorize :: "gateway_env \<Rightarrow> Request \<Rightarrow> ('y, httpError + Claims) gtx" where
  "authorize E r =
     (let token = trim_prefix ''Bearer '' (r_authorization r) in
      if token = '''' then returnE (Inl (unauthorized ''missing bearer token''))
      else bindE now_ns (\<lambda>t s.
        (Inr (case Verify (ge_mac E) (Verifier (ext s)) t token of
                Inl e \<Rightarrow> Inl (unauthorized ''invalid token'')
              | Inr claims \<Rightarrow> Inr claims), s)))"

definition trim_slashes :: "string \<Rightarrow> string" where
  "trim_slashes s = rev (dropWhile (\<lambda>c. c = CHR ''/'') (rev (dropWhile (\<lambda>c. c = CHR ''/'') s)))"

definition operationFor :: "string \<Rightarrow> string \<Rightarrow> string option" where
  "operationFor meth path =
     (let seg = split_on CHR ''/'' (trim_slashes path) in
      if length seg < 2 \<or> seg ! 0 \<noteq> ''v1'' then None
      else
        let area = seg ! 1; read = (meth = ''GET'' \<or> meth = ''HEAD'') in
        if area = ''orders'' then Some (if read then OpOrderRead else OpOrderMutate)
        else if area = ''stock'' then
          Some (if read then OpStockRead
                else if 3 \<le> length seg \<and> seg ! 2 = ''unlock'' then OpStockAdmin
                else OpStockWrite)
        else if area = ''reservations'' then Some (if read then OpReservationRead else OpReservationMutate)
        else None)"

text \<open>\<^verbatim>\<open>net.SplitHostPort\<close>: the host, or \<^verbatim>\<open>None\<close> for its errors.\<close>

definition last_index :: "char \<Rightarrow> string \<Rightarrow> nat option" where
  "last_index c s = map_option (\<lambda>i. length s - 1 - i) (index_byte c (rev s))"

definition split_host :: "string \<Rightarrow> string option" where
  "split_host s =
     (case last_index CHR '':'' s of
        None \<Rightarrow> None
      | Some i \<Rightarrow>
          if s ! 0 = CHR ''['' then
            (case index_byte CHR '']'' s of
               None \<Rightarrow> None
             | Some e \<Rightarrow>
                 if e + 1 \<noteq> i \<or> CHR ''['' \<in> set (drop 1 s) \<or> CHR '']'' \<in> set (drop (e + 1) s) then None
                 else Some (drop 1 (take e s)))
          else if CHR '':'' \<in> set (take i s) \<or> CHR ''['' \<in> set s \<or> CHR '']'' \<in> set s then None
          else Some (take i s))"

definition loginHost :: "string \<Rightarrow> string" where
  "loginHost remoteAddr = (case split_host remoteAddr of None \<Rightarrow> remoteAddr | Some host \<Rightarrow> host)"

definition too_many :: "gateway_env \<Rightarrow> int \<Rightarrow> Response" where
  "too_many E retryAfter =
     (let resp = write_error \<lparr>he_status = 429, he_code = ''resource_exhausted'',
                              he_message = ''rate limit exceeded, retry after '' @ ge_duration E retryAfter\<rparr> in
      resp\<lparr>rs_headers := (''Retry-After'', itoa (retryAfter div 1000000000 + 1)) # rs_headers resp\<rparr>)"

definition admit :: "gateway_env \<Rightarrow> string \<Rightarrow> ('y, Response option) gtx" where
  "admit E tenant =
     bindE now_ns (\<lambda>t s.
       case Take (ge_range E (buckets (Limiter (ext s)))) t tenant (Limiter (ext s)) of
         (d, l) \<Rightarrow>
           (Inr (if dc_Allowed d then None else Some (too_many E (dc_RetryAfter d))),
            s\<lparr>ext := (ext s)\<lparr>Limiter := l\<rparr>\<rparr>))"

section \<open>Decoding a request\<close>

text \<open>
  A message type as the generic code sees it: its empty value, its JSON decoder, and its string
  fields by proto name (\<^verbatim>\<open>stringField\<close>, \<^verbatim>\<open>setStringField\<close>); setting a field the type does
  not have does nothing.
\<close>

record 'm message =
  m_zero :: 'm
  m_unmarshal :: "'m \<Rightarrow> string \<Rightarrow> string + 'm"
  m_tenant :: "'m \<Rightarrow> string"
  m_set_tenant :: "string \<Rightarrow> 'm \<Rightarrow> 'm"
  m_set_key :: "string \<Rightarrow> 'm \<Rightarrow> 'm"
  m_set_order :: "string \<Rightarrow> 'm \<Rightarrow> 'm"

definition decode :: "'m message \<Rightarrow> Request \<Rightarrow> Claims \<Rightarrow> 'm \<Rightarrow> httpError + 'm" where
  "decode M r claims msg0 =
     (case r_body r of
        None \<Rightarrow> Inl (bad_request ''unreadable body'')
      | Some body \<Rightarrow>
          if maxBodyBytes < length body then Inl (bad_request ''unreadable body'')
          else
            (case (if 0 < length body then m_unmarshal M msg0 body else Inr msg0) of
               Inl e \<Rightarrow> Inl (bad_request (''invalid JSON body: '' @ e))
             | Inr msg \<Rightarrow>
                 if m_tenant M msg \<noteq> '''' \<and> m_tenant M msg \<noteq> cl_TenantID claims
                 then Inl (forbidden ''body tenant does not match token tenant'')
                 else
                   let msg1 = m_set_tenant M (cl_TenantID claims) msg in
                   Inr (if r_idempotency_key r \<noteq> '''' then m_set_key M (r_idempotency_key r) msg1 else msg1)))"

definition msg_AdjustStock :: "protojson \<Rightarrow> AdjustStockRequest message" where
  "msg_AdjustStock pj =
     \<lparr>m_zero = \<lparr>adj_tenant = '''', adj_sku = '''', adj_wh = '''', adj_delta = 0, adj_reason = '''', adj_source = '''',
               adj_key = ''''\<rparr>,
      m_unmarshal = pj_AdjustStock pj, m_tenant = adj_tenant, m_set_tenant = (\<lambda>v m. m\<lparr>adj_tenant := v\<rparr>),
      m_set_key = (\<lambda>v m. m\<lparr>adj_key := v\<rparr>), m_set_order = (\<lambda>v m. m)\<rparr>"

definition msg_ReserveStock :: "protojson \<Rightarrow> ReserveStockRequest message" where
  "msg_ReserveStock pj =
     \<lparr>m_zero = \<lparr>rsv_tenant = '''', rsv_order = '''', rsv_key = '''', rsv_lines = []\<rparr>,
      m_unmarshal = pj_ReserveStock pj, m_tenant = rsv_tenant, m_set_tenant = (\<lambda>v m. m\<lparr>rsv_tenant := v\<rparr>),
      m_set_key = (\<lambda>v m. m\<lparr>rsv_key := v\<rparr>), m_set_order = (\<lambda>v m. m\<lparr>rsv_order := v\<rparr>)\<rparr>"

definition msg_ReleaseStock :: "protojson \<Rightarrow> ReleaseStockRequest message" where
  "msg_ReleaseStock pj =
     \<lparr>m_zero = \<lparr>rls_tenant = '''', rls_order = '''', rls_reason = '''', rls_key = '''', rls_lines = []\<rparr>,
      m_unmarshal = pj_ReleaseStock pj, m_tenant = rls_tenant, m_set_tenant = (\<lambda>v m. m\<lparr>rls_tenant := v\<rparr>),
      m_set_key = (\<lambda>v m. m\<lparr>rls_key := v\<rparr>), m_set_order = (\<lambda>v m. m\<lparr>rls_order := v\<rparr>)\<rparr>"

definition msg_ConfirmStockAllocation :: "protojson \<Rightarrow> ConfirmStockAllocationRequest message" where
  "msg_ConfirmStockAllocation pj =
     \<lparr>m_zero = \<lparr>cnf_tenant = '''', cnf_order = '''', cnf_key = '''', cnf_lines = []\<rparr>,
      m_unmarshal = pj_ConfirmStockAllocation pj, m_tenant = cnf_tenant,
      m_set_tenant = (\<lambda>v m. m\<lparr>cnf_tenant := v\<rparr>), m_set_key = (\<lambda>v m. m\<lparr>cnf_key := v\<rparr>),
      m_set_order = (\<lambda>v m. m\<lparr>cnf_order := v\<rparr>)\<rparr>"

definition msg_FulfillStock :: "protojson \<Rightarrow> FulfillStockRequest message" where
  "msg_FulfillStock pj =
     \<lparr>m_zero = \<lparr>ful_tenant = '''', ful_order = '''', ful_key = '''', ful_lines = []\<rparr>,
      m_unmarshal = pj_FulfillStock pj, m_tenant = ful_tenant, m_set_tenant = (\<lambda>v m. m\<lparr>ful_tenant := v\<rparr>),
      m_set_key = (\<lambda>v m. m\<lparr>ful_key := v\<rparr>), m_set_order = (\<lambda>v m. m\<lparr>ful_order := v\<rparr>)\<rparr>"

definition msg_UnlockStockForAudit :: "protojson \<Rightarrow> UnlockStockForAuditRequest message" where
  "msg_UnlockStockForAudit pj =
     \<lparr>m_zero = \<lparr>unl_tenant = '''', unl_sku = '''', unl_wh = '''', unl_reason = '''', unl_actor = ''''\<rparr>,
      m_unmarshal = pj_UnlockStockForAudit pj, m_tenant = unl_tenant,
      m_set_tenant = (\<lambda>v m. m\<lparr>unl_tenant := v\<rparr>), m_set_key = (\<lambda>v m. m), m_set_order = (\<lambda>v m. m)\<rparr>"

definition msg_Reserve :: "protojson \<Rightarrow> ReserveRequest message" where
  "msg_Reserve pj =
     \<lparr>m_zero = \<lparr>rq_tenant = '''', rq_order = '''', rq_key = '''', rq_items = [], rq_ttl = 0\<rparr>,
      m_unmarshal = pj_Reserve pj, m_tenant = rq_tenant, m_set_tenant = (\<lambda>v m. m\<lparr>rq_tenant := v\<rparr>),
      m_set_key = (\<lambda>v m. m\<lparr>rq_key := v\<rparr>), m_set_order = (\<lambda>v m. m\<lparr>rq_order := v\<rparr>)\<rparr>"

definition msg_Release :: "protojson \<Rightarrow> ReleaseRequest message" where
  "msg_Release pj =
     \<lparr>m_zero = \<lparr>rl_tenant = '''', rl_reservation = '''', rl_order = '''', rl_reason = '''', rl_key = ''''\<rparr>,
      m_unmarshal = pj_Release pj, m_tenant = rl_tenant, m_set_tenant = (\<lambda>v m. m\<lparr>rl_tenant := v\<rparr>),
      m_set_key = (\<lambda>v m. m\<lparr>rl_key := v\<rparr>), m_set_order = (\<lambda>v m. m\<lparr>rl_order := v\<rparr>)\<rparr>"

definition msg_AllocateReservation :: "protojson \<Rightarrow> AllocateReservationRequest message" where
  "msg_AllocateReservation pj =
     \<lparr>m_zero = \<lparr>ar_tenant = '''', ar_order = '''', ar_key = ''''\<rparr>,
      m_unmarshal = pj_AllocateReservation pj, m_tenant = ar_tenant, m_set_tenant = (\<lambda>v m. m\<lparr>ar_tenant := v\<rparr>),
      m_set_key = (\<lambda>v m. m\<lparr>ar_key := v\<rparr>), m_set_order = (\<lambda>v m. m\<lparr>ar_order := v\<rparr>)\<rparr>"

definition msg_CreateOrder :: "protojson \<Rightarrow> CreateOrderRequest message" where
  "msg_CreateOrder pj =
     \<lparr>m_zero = \<lparr>co_tenant = '''', co_order = '''', co_lines = [], co_key = '''', co_ttl = 0, co_force_fail = False\<rparr>,
      m_unmarshal = pj_CreateOrder pj, m_tenant = co_tenant, m_set_tenant = (\<lambda>v m. m\<lparr>co_tenant := v\<rparr>),
      m_set_key = (\<lambda>v m. m\<lparr>co_key := v\<rparr>), m_set_order = (\<lambda>v m. m\<lparr>co_order := v\<rparr>)\<rparr>"

definition msg_GetOrder :: "protojson \<Rightarrow> GetOrderRequest message" where
  "msg_GetOrder pj =
     \<lparr>m_zero = \<lparr>go_tenant = '''', go_order = ''''\<rparr>,
      m_unmarshal = pj_GetOrder pj, m_tenant = go_tenant, m_set_tenant = (\<lambda>v m. m\<lparr>go_tenant := v\<rparr>),
      m_set_key = (\<lambda>v m. m), m_set_order = (\<lambda>v m. m\<lparr>go_order := v\<rparr>)\<rparr>"

definition msg_CancelOrder :: "protojson \<Rightarrow> CancelOrderRequest message" where
  "msg_CancelOrder pj =
     \<lparr>m_zero = \<lparr>can_tenant = '''', can_order = '''', can_reason = '''', can_key = ''''\<rparr>,
      m_unmarshal = pj_CancelOrder pj, m_tenant = can_tenant, m_set_tenant = (\<lambda>v m. m\<lparr>can_tenant := v\<rparr>),
      m_set_key = (\<lambda>v m. m\<lparr>can_key := v\<rparr>), m_set_order = (\<lambda>v m. m\<lparr>can_order := v\<rparr>)\<rparr>"

definition msg_FulfillOrder :: "protojson \<Rightarrow> FulfillOrderRequest message" where
  "msg_FulfillOrder pj =
     \<lparr>m_zero = \<lparr>fo_tenant = '''', fo_order = '''', fo_key = ''''\<rparr>,
      m_unmarshal = pj_FulfillOrder pj, m_tenant = fo_tenant, m_set_tenant = (\<lambda>v m. m\<lparr>fo_tenant := v\<rparr>),
      m_set_key = (\<lambda>v m. m\<lparr>fo_key := v\<rparr>), m_set_order = (\<lambda>v m. m\<lparr>fo_order := v\<rparr>)\<rparr>"

section \<open>Calling a service\<close>

datatype service_call =
    StockCall stock_call
  | ReservationCall reservation_call
  | OrderCall order_op

fun serve :: "lib \<Rightarrow> ctx \<Rightarrow> service_call \<Rightarrow> 'y order_session \<Rightarrow> (err + service_reply) \<times> 'y order_session" where
  "serve L c (StockCall k) s =
     (case stock_call (stock_serve L c k) (ext s) of (r, x) \<Rightarrow> (map_sum id StockReply r, s\<lparr>ext := x\<rparr>))"
| "serve L c (ReservationCall k) s =
     (case res_call (reservation_serve L c k) (ext s) of (r, x) \<Rightarrow> (map_sum id ReservationReply r, s\<lparr>ext := x\<rparr>))"
| "serve L c (OrderCall k) s = (case order_serve L c k s of (r, s') \<Rightarrow> (map_sum id OrderReply r, s'))"

definition service_rpc :: "gateway_env \<Rightarrow> service_call \<Rightarrow> ('y, service_reply) gtx" where
  "service_rpc E call =
     rpc (\<lambda>x. case serve (ge_lib E) (incoming (ge_lib E) (ge_ctx E)) call (services x) of
                (r, s) \<Rightarrow> (r, x\<lparr>services := s\<rparr>))"

definition publishBreaker :: "string \<Rightarrow> ('y Core \<Rightarrow> Breaker) \<Rightarrow> ('y, unit) gtx" where
  "publishBreaker dep get s =
     (Inr (),
      case BreakerGauge (ext s) of
        None \<Rightarrow> s
      | Some g \<Rightarrow>
          if dep = '''' then s
          else s\<lparr>ext := (ext s)\<lparr>BreakerGauge := Some (AList.update dep (State (get (ext s))) g)\<rparr>\<rparr>)"

definition transport_failure :: "err \<Rightarrow> bool" where
  "transport_failure e \<longleftrightarrow> grpc_code e = Unavailable \<or> grpc_code e = DeadlineExceeded"

definition invoke ::
  "gateway_env \<Rightarrow> string \<Rightarrow> ('y Core \<Rightarrow> Breaker) \<Rightarrow> ((Breaker \<Rightarrow> Breaker) \<Rightarrow> 'y Core \<Rightarrow> 'y Core) \<Rightarrow> service_call
     \<Rightarrow> ('y, Response) gtx" where
  "invoke E dep get upd call =
     bindE (attempt (breaker_allow get upd)) (\<lambda>a.
     case a of
       Inl e \<Rightarrow>
         bindE (publishBreaker dep get) (\<lambda>_.
         returnE (write_error \<lparr>he_status = 503, he_code = ''unavailable'', he_message = err_text e\<rparr>))
     | Inr _ \<Rightarrow>
         bindE (attempt (service_rpc E call)) (\<lambda>r.
         case r of
           Inl e \<Rightarrow>
             bindE (if transport_failure e then breaker_failure upd else breaker_success upd) (\<lambda>_.
             bindE (publishBreaker dep get) (\<lambda>_.
             returnE (write_error (errorFromGRPC e))))
         | Inr reply \<Rightarrow>
             bindE (breaker_success upd) (\<lambda>_.
             bindE (publishBreaker dep get) (\<lambda>_.
             returnE
               (case pj_out (ge_protojson E) reply of
                  None \<Rightarrow> write_error \<lparr>he_status = 500, he_code = ''internal'', he_message = ''response encoding failed''\<rparr>
                | Some body \<Rightarrow>
                    \<lparr>rs_status = 200, rs_headers = [(''Content-Type'', ''application/json'')], rs_body = body\<rparr>)))))"

section \<open>Routes\<close>

definition claims_or_401 :: "Claims option \<Rightarrow> (Claims \<Rightarrow> ('y, Response) gtx) \<Rightarrow> ('y, Response) gtx" where
  "claims_or_401 cl k =
     (case cl of None \<Rightarrow> returnE (write_error (unauthorized ''missing claims'')) | Some claims \<Rightarrow> k claims)"

definition route ::
  "gateway_env \<Rightarrow> string \<Rightarrow> ('y Core \<Rightarrow> Breaker) \<Rightarrow> ((Breaker \<Rightarrow> Breaker) \<Rightarrow> 'y Core \<Rightarrow> 'y Core) \<Rightarrow> 'm message
     \<Rightarrow> ('m \<Rightarrow> service_call) \<Rightarrow> Claims option \<Rightarrow> Request \<Rightarrow> ('y, Response) gtx" where
  "route E dep get upd M call cl r =
     claims_or_401 cl (\<lambda>claims.
     case decode M r claims (m_zero M) of
       Inl he \<Rightarrow> returnE (write_error he)
     | Inr req \<Rightarrow> invoke E dep get upd (call req))"

definition byID ::
  "gateway_env \<Rightarrow> string \<Rightarrow> ('y Core \<Rightarrow> Breaker) \<Rightarrow> ((Breaker \<Rightarrow> Breaker) \<Rightarrow> 'y Core \<Rightarrow> 'y Core) \<Rightarrow> 'm message
     \<Rightarrow> ('m \<Rightarrow> service_call) \<Rightarrow> string \<Rightarrow> Claims option \<Rightarrow> Request \<Rightarrow> ('y, Response) gtx" where
  "byID E dep get upd M call oid cl r =
     (if oid = '''' then returnE (write_error (bad_request ''missing order id''))
      else claims_or_401 cl (\<lambda>claims.
        case decode M r claims (m_zero M) of
          Inl he \<Rightarrow> returnE (write_error he)
        | Inr req \<Rightarrow> invoke E dep get upd (call (m_set_order M oid req))))"

text \<open>Unlike \<open>byID\<close>, \<open>get_order\<close> puts the path's id into the message before the body is decoded into it.\<close>

definition get_order :: "gateway_env \<Rightarrow> string \<Rightarrow> Claims option \<Rightarrow> Request \<Rightarrow> ('y, Response) gtx" where
  "get_order E oid cl r =
     (if oid = '''' then returnE (write_error (bad_request ''missing order id''))
      else claims_or_401 cl (\<lambda>claims.
        case decode (msg_GetOrder (ge_protojson E)) r claims \<lparr>go_tenant = '''', go_order = oid\<rparr> of
          Inl he \<Rightarrow> returnE (write_error he)
        | Inr req \<Rightarrow> invoke E ''order'' OrderBreaker OrderBreaker_update (OrderCall (OpGet req))))"

datatype endpoint =
    Healthz | Readyz | Login
  | PostAdjust | PostReserve | PostRelease | PostAllocate | PostFulfill | PostUnlock
  | PostReservation | PostReservationRelease | PostReservationAllocate
  | PostOrder | PostCancel string | PostFulfillOrder string | GetOrderRoute string

text \<open>The patterns registered on the mux. \<open>{id}\<close> matches one non-empty segment; \<^verbatim>\<open>GET\<close> also matches \<^verbatim>\<open>HEAD\<close>.\<close>

definition mux_match :: "bool \<Rightarrow> string \<Rightarrow> string \<Rightarrow> endpoint option" where
  "mux_match login meth path =
     (let seg = split_on CHR ''/'' path;
          post = (meth = ''POST''); get = (meth = ''GET'' \<or> meth = ''HEAD'') in
      if get \<and> seg = ['''', ''healthz''] then Some Healthz
      else if get \<and> seg = ['''', ''readyz''] then Some Readyz
      else if post \<and> login \<and> path = loginPath then Some Login
      else if post \<and> seg = ['''', ''v1'', ''stock'', ''adjust''] then Some PostAdjust
      else if post \<and> seg = ['''', ''v1'', ''stock'', ''reserve''] then Some PostReserve
      else if post \<and> seg = ['''', ''v1'', ''stock'', ''release''] then Some PostRelease
      else if post \<and> seg = ['''', ''v1'', ''stock'', ''allocate''] then Some PostAllocate
      else if post \<and> seg = ['''', ''v1'', ''stock'', ''fulfill''] then Some PostFulfill
      else if post \<and> seg = ['''', ''v1'', ''stock'', ''unlock''] then Some PostUnlock
      else if post \<and> seg = ['''', ''v1'', ''reservations''] then Some PostReservation
      else if post \<and> seg = ['''', ''v1'', ''reservations'', ''release''] then Some PostReservationRelease
      else if post \<and> seg = ['''', ''v1'', ''reservations'', ''allocate''] then Some PostReservationAllocate
      else if post \<and> seg = ['''', ''v1'', ''orders''] then Some PostOrder
      else if post \<and> length seg = 5 \<and> take 3 seg = ['''', ''v1'', ''orders''] \<and> seg ! 3 \<noteq> '''' \<and> seg ! 4 = ''cancel''
           then Some (PostCancel (seg ! 3))
      else if post \<and> length seg = 5 \<and> take 3 seg = ['''', ''v1'', ''orders''] \<and> seg ! 3 \<noteq> '''' \<and> seg ! 4 = ''fulfill''
           then Some (PostFulfillOrder (seg ! 3))
      else if get \<and> length seg = 4 \<and> take 3 seg = ['''', ''v1'', ''orders''] \<and> seg ! 3 \<noteq> ''''
           then Some (GetOrderRoute (seg ! 3))
      else None)"

section \<open>Login\<close>

text \<open>\<^verbatim>\<open>strings.TrimSpace\<close> leaves something.\<close>

definition blank :: "string \<Rightarrow> bool" where
  "blank s \<longleftrightarrow> (\<forall>c \<in> set s. byte c \<in> {9, 10, 11, 12, 13, 32})"

datatype users_error =
    EmptyEntry nat
  | WrongShape nat string
  | UnknownRole nat string
  | MissingField nat
  | DuplicateUsername nat string

fun parse_entries :: "nat \<Rightarrow> AuthUser list \<Rightarrow> string list \<Rightarrow> users_error + AuthUser list" where
  "parse_entries i users [] = Inr users"
| "parse_entries i users (entry # es) =
     (if blank entry then Inl (EmptyEntry (i + 1))
      else
        let parts = split_on CHR '':'' entry in
        if length parts \<noteq> 4 then Inl (WrongShape (i + 1) entry)
        else
          let u = \<lparr>au_Username = parts ! 0, au_Password = parts ! 1, au_TenantID = parts ! 2, au_Role = parts ! 3\<rparr> in
          if au_Role u \<notin> {RoleReadOnly, RoleReadWrite, RoleAdmin} then Inl (UnknownRole (i + 1) (au_Role u))
          else if au_Username u = '''' \<or> au_Password u = '''' \<or> au_TenantID u = '''' then Inl (MissingField (i + 1))
          else if au_Username u \<in> au_Username ` set users then Inl (DuplicateUsername (i + 1) (au_Username u))
          else parse_entries (i + 1) (users @ [u]) es)"

definition ParseAuthUsers :: "string \<Rightarrow> users_error + AuthUser list" where
  "ParseAuthUsers spec = (if blank spec then Inr [] else parse_entries 0 [] (split_on CHR '','' spec))"

text \<open>\<^verbatim>\<open>NewAuthRoutes\<close>: the map from user names, a later entry replacing an earlier one.\<close>

definition user_map :: "AuthUser list \<Rightarrow> string \<Rightarrow> AuthUser option" where
  "user_map users = map_of (rev (map (\<lambda>u. (au_Username u, u)) users))"

definition login_request :: "Request \<Rightarrow> (string \<times> string) option" where
  "login_request r =
     (case r_body r of
        None \<Rightarrow> None
      | Some body \<Rightarrow>
          (case json_decode (take maxBodyBytes body) of
             None \<Rightarrow> None
           | Some j \<Rightarrow>
               if \<not> is_struct j then None
               else (case (decode_field as_string '''' ''username'' j, decode_field as_string '''' ''password'' j) of
                       (Some u, Some p) \<Rightarrow> Some (u, p)
                     | _ \<Rightarrow> None)))"

definition login_ok :: "string \<Rightarrow> int \<Rightarrow> AuthUser \<Rightarrow> Response" where
  "login_ok tok ttl u =
     \<lparr>rs_status = 200, rs_headers = [(''Content-Type'', ''application/json'')],
      rs_body = json_print (JObj [(''expires_in'', JInt (ttl div 1000000000)), (''tenant_id'', JStr (au_TenantID u)),
                                  (''token'', JStr tok), (''token_type'', JStr ''Bearer'')]) @ [CHR 0x0A]\<rparr>"

definition login :: "gateway_env \<Rightarrow> Request \<Rightarrow> ('y, Response) gtx" where
  "login E r =
     (case login_request r of
        None \<Rightarrow> returnE (write_error (bad_request ''invalid JSON body''))
      | Some (username, password) \<Rightarrow>
          if username = '''' \<or> password = ''''
          then returnE (write_error (bad_request ''username and password are required''))
          else bindE now_ns (\<lambda>t s.
            (Inr (case user_map (auth_users (ext s)) username of
                    None \<Rightarrow> write_error (unauthorized ''invalid username or password'')
                  | Some u \<Rightarrow>
                      if ge_sha256 E (au_Password u) \<noteq> ge_sha256 E password
                      then write_error (unauthorized ''invalid username or password'')
                      else
                        (case Issue (ge_mac E) (Verifier (ext s)) t (au_TenantID u) (auth_ttl (ext s))
                                [\<lparr>io_Subject = au_Username u, io_Role = au_Role u, io_Scopes = []\<rparr>] of
                           Inl e \<Rightarrow> write_error \<lparr>he_status = 500, he_code = ''internal'', he_message = ''token issue failed''\<rparr>
                         | Inr tok \<Rightarrow> login_ok tok (auth_ttl (ext s)) u)), s)))"

section \<open>The handler of an endpoint\<close>

abbreviation stock_route ::
  "gateway_env \<Rightarrow> (protojson \<Rightarrow> 'm message) \<Rightarrow> ('m \<Rightarrow> stock_call) \<Rightarrow> Claims option \<Rightarrow> Request \<Rightarrow> ('y, Response) gtx" where
  "stock_route E M call \<equiv> route E ''stock'' StockBreaker StockBreaker_update (M (ge_protojson E)) (\<lambda>m. StockCall (call m))"

abbreviation reservation_route ::
  "gateway_env \<Rightarrow> (protojson \<Rightarrow> 'm message) \<Rightarrow> ('m \<Rightarrow> reservation_call) \<Rightarrow> Claims option \<Rightarrow> Request \<Rightarrow> ('y, Response) gtx" where
  "reservation_route E M call \<equiv>
     route E ''reservation'' ReservationBreaker ReservationBreaker_update (M (ge_protojson E)) (\<lambda>m. ReservationCall (call m))"

fun handle :: "gateway_env \<Rightarrow> endpoint \<Rightarrow> Claims option \<Rightarrow> Request \<Rightarrow> ('y, Response) gtx" where
  "handle E Healthz cl r = returnE \<lparr>rs_status = 200, rs_headers = [], rs_body = ''ok''\<rparr>"
| "handle E Readyz cl r = returnE (ge_readyz E)"
| "handle E Login cl r = login E r"
| "handle E PostAdjust cl r = stock_route E msg_AdjustStock CallAdjustStock cl r"
| "handle E PostReserve cl r = stock_route E msg_ReserveStock CallReserveStock cl r"
| "handle E PostRelease cl r = stock_route E msg_ReleaseStock CallReleaseStock cl r"
| "handle E PostAllocate cl r = stock_route E msg_ConfirmStockAllocation CallConfirmStockAllocation cl r"
| "handle E PostFulfill cl r = stock_route E msg_FulfillStock CallFulfillStock cl r"
| "handle E PostUnlock cl r = stock_route E msg_UnlockStockForAudit CallUnlockStockForAudit cl r"
| "handle E PostReservation cl r = reservation_route E msg_Reserve CallReserve cl r"
| "handle E PostReservationRelease cl r = reservation_route E msg_Release CallRelease cl r"
| "handle E PostReservationAllocate cl r = reservation_route E msg_AllocateReservation CallAllocateReservation cl r"
| "handle E PostOrder cl r =
     route E ''order'' OrderBreaker OrderBreaker_update (msg_CreateOrder (ge_protojson E)) (\<lambda>m. OrderCall (OpCreate m)) cl r"
| "handle E (PostCancel oid) cl r =
     byID E ''order'' OrderBreaker OrderBreaker_update (msg_CancelOrder (ge_protojson E)) (\<lambda>m. OrderCall (OpCancel m)) oid cl r"
| "handle E (PostFulfillOrder oid) cl r =
     byID E ''order'' OrderBreaker OrderBreaker_update (msg_FulfillOrder (ge_protojson E)) (\<lambda>m. OrderCall (OpFulfill m)) oid cl r"
| "handle E (GetOrderRoute oid) cl r = get_order E oid cl r"

definition mux_serve :: "gateway_env \<Rightarrow> Claims option \<Rightarrow> Request \<Rightarrow> ('y, Response) gtx" where
  "mux_serve E cl r s =
     (case mux_match (auth_users (ext s) \<noteq> []) (r_method r) (r_path r) of
        None \<Rightarrow> returnE (ge_no_match E r) s
      | Some ep \<Rightarrow> handle E ep cl r s)"

definition Middleware :: "gateway_env \<Rightarrow> Request \<Rightarrow> ('y, Response) gtx" where
  "Middleware E r =
     (if r_path r = ''/healthz'' \<or> r_path r = ''/readyz'' then mux_serve E None r
      else if r_path r = loginPath then
        bindE (admit E (''login:'' @ loginHost (r_remote r))) (\<lambda>a.
        case a of Some resp \<Rightarrow> returnE resp | None \<Rightarrow> mux_serve E None r)
      else
        bindE (authorize E r) (\<lambda>v.
        case v of
          Inl he \<Rightarrow> returnE (write_error he)
        | Inr claims \<Rightarrow>
            if (case operationFor (r_method r) (r_path r) of None \<Rightarrow> False | Some op \<Rightarrow> \<not> Allows claims op)
            then returnE (write_error (forbidden ''token role does not permit this operation''))
            else
              bindE (admit E (cl_TenantID claims)) (\<lambda>a.
              case a of Some resp \<Rightarrow> returnE resp | None \<Rightarrow> mux_serve E (Some claims) r)))"

end
