(* ===== verification/Isolation.thy ===== *)
theory Isolation
  imports StockDelivery OrderService
begin

text \<open>
  Tenant isolation across the three services. An invariant of a service's tables and one of what lies
  behind it are carried through a handler together, under the tenant scope its transactions set
  (\<open>upholds\<close>); with the rows of another tenant as the invariant this gives that no request touches
  them, in the service it addresses or in any service called on its behalf.
\<close>

section \<open>Invariants under a tenant scope\<close>

definition upholds :: "rls \<Rightarrow> ('d \<Rightarrow> bool) \<Rightarrow> ('x \<Rightarrow> bool) \<Rightarrow> ('d, 'x, 'a) tx \<Rightarrow> bool" where
  "upholds sc A B m \<longleftrightarrow>
     (\<forall>s. scope s = sc \<and> A (data s) \<and> B (ext s) \<longrightarrow>
        scope (snd (m s)) = sc \<and> A (data (snd (m s))) \<and> B (ext (snd (m s))))"

named_theorems upholds_intros \<open>a transaction upholds invariants of its tables and of its callees\<close>

lemma upholdsI:
  fixes m :: "('d, 'x, 'a) tx"
  assumes "\<And>s r s'. scope s = sc \<Longrightarrow> A (data s) \<Longrightarrow> B (ext s) \<Longrightarrow> m s = (r, s') \<Longrightarrow>
    scope s' = sc \<and> A (data s') \<and> B (ext s')"
  shows "upholds sc A B m"
  unfolding upholds_def
proof (intro allI impI)
  fix s :: "('d, 'x) sess" assume "scope s = sc \<and> A (data s) \<and> B (ext s)"
  with assms [of s "fst (m s)" "snd (m s)"]
  show "scope (snd (m s)) = sc \<and> A (data (snd (m s))) \<and> B (ext (snd (m s)))" by simp
qed

lemma upholdsD:
  assumes "upholds sc A B m" "scope s = sc" "A (data s)" "B (ext s)" "m s = (r, s')"
  shows "scope s' = sc" "A (data s')" "B (ext s')"
  using assms unfolding upholds_def by (metis snd_conv)+

lemma upholds_basic [upholds_intros]:
  "upholds sc A B (returnE a)" "upholds sc A B (failE e)" "upholds sc A B (liftE r)" "upholds sc A B now"
  by (simp_all add: upholds_def now_def)

lemma upholds_bindE [upholds_intros]:
  assumes "upholds sc A B m" "\<And>a. upholds sc A B (f a)"
  shows "upholds sc A B (bindE m f)"
proof (rule upholdsI)
  fix s r s' assume s: "scope s = sc" "A (data s)" "B (ext s)" "bindE m f s = (r, s')"
  obtain r1 s1 where m1: "m s = (r1, s1)" by force
  note first = upholdsD [OF assms(1) s(1-3) m1]
  show "scope s' = sc \<and> A (data s') \<and> B (ext s')"
  proof (cases r1)
    case (Inl e)
    with m1 s(4) first show ?thesis by (auto simp: bindE_def)
  next
    case (Inr a)
    with m1 s(4) have "f a s1 = (r, s')" by (simp add: bindE_def)
    from upholdsD [OF assms(2) first this] show ?thesis by simp
  qed
qed

lemma upholds_catchE [upholds_intros]:
  assumes "upholds sc A B m" "\<And>e. upholds sc A B (h e)"
  shows "upholds sc A B (catchE m h)"
proof (rule upholdsI)
  fix s r s' assume s: "scope s = sc" "A (data s)" "B (ext s)" "catchE m h s = (r, s')"
  obtain r1 s1 where m1: "m s = (r1, s1)" by force
  note first = upholdsD [OF assms(1) s(1-3) m1]
  show "scope s' = sc \<and> A (data s') \<and> B (ext s')"
  proof (cases r1)
    case (Inl e)
    with m1 s(4) have "h e s1 = (r, s')" by (simp add: catchE_def)
    from upholdsD [OF assms(2) first this] show ?thesis by simp
  next
    case (Inr a)
    with m1 s(4) first show ?thesis by (auto simp: catchE_def)
  qed
qed

lemma upholds_attempt [upholds_intros]: "upholds sc A B m \<Longrightarrow> upholds sc A B (attempt m)"
  by (simp add: upholds_def attempt_def case_prod_beta)

lemma upholds_mapErr [upholds_intros]: "upholds sc A B m \<Longrightarrow> upholds sc A B (mapErr g m)"
  unfolding upholds_def mapErr_def by (auto simp: case_prod_beta split: sum.split)

lemma upholds_forE [upholds_intros]: "(\<And>l. upholds sc A B (f l)) \<Longrightarrow> upholds sc A B (forE ls f)"
  by (induction ls) (auto intro!: upholds_intros)

lemma upholds_if [upholds_intros]:
  "(b \<Longrightarrow> upholds sc A B m) \<Longrightarrow> (\<not> b \<Longrightarrow> upholds sc A B n) \<Longrightarrow> upholds sc A B (if b then m else n)"
  by simp

lemma upholds_case_sum [upholds_intros]:
  "(\<And>e. upholds sc A B (f e)) \<Longrightarrow> (\<And>a. upholds sc A B (g a)) \<Longrightarrow>
   upholds sc A B (case r of Inl e \<Rightarrow> f e | Inr a \<Rightarrow> g a)"
  by (cases r) auto

lemma upholds_stmt:
  "(\<And>e d a d'. A d \<Longrightarrow> f e sc d = Inr (a, d') \<Longrightarrow> A d') \<Longrightarrow> upholds sc A B (stmt f)"
  unfolding upholds_def stmt_def Let_def by (auto split: option.splits sum.splits prod.splits)

lemma upholds_in_tx [upholds_intros]: "upholds sc A B m \<Longrightarrow> upholds sc A B (in_tx m)"
  unfolding upholds_def in_tx_def commit_or_rollback_def Let_def
  by (auto simp: case_prod_beta split: sum.splits option.splits fault.splits)

lemma upholds_with_scope: "upholds sc A B m \<Longrightarrow> upholds sc' A B (with_scope sc m)"
  unfolding upholds_def with_scope_def by (auto simp: case_prod_beta)

lemma upholds_begin [upholds_intros]: "upholds sc A B begin_tx" "upholds sc A B SetTenantRLS"
  unfolding begin_tx_def SetTenantRLS_def by (auto intro!: upholds_intros upholds_stmt)

lemma upholds_ExecTxWithTenant:
  assumes "ctx_tenant c = tenant" "upholds (Scoped (uuid_scan L tenant)) A B m"
  shows "upholds sc A B (ExecTxWithTenant L c m)"
proof (cases "TenantIDFromContext c")
  case (Inl e)
  then show ?thesis by (simp add: ExecTxWithTenant_def upholds_def bindE_def liftE_def)
next
  case (Inr t)
  with assms(1) have "t = tenant" by (auto simp: TenantIDFromContext_def split: if_splits)
  then have eq: "ExecTxWithTenant L c m = bindE begin_tx (\<lambda>_.
      with_scope (Scoped (uuid_scan L tenant)) (in_tx (bindE SetTenantRLS (\<lambda>_. m))))"
    unfolding ExecTxWithTenant_def Inr by (intro HOL.ext) (simp add: bindE_def liftE_def)
  show ?thesis unfolding eq by (intro upholds_intros upholds_with_scope assms(2))
qed

lemma upholds_rpc:
  "(\<And>x. B x \<Longrightarrow> B (snd (srv x))) \<Longrightarrow> upholds sc A B (rpc srv)"
  unfolding upholds_def rpc_def Let_def by (auto simp: case_prod_beta split: option.splits fault.splits)

lemma upholds_with_var:
  "upholds sc A (\<lambda>(x, v). B x) m \<Longrightarrow> upholds sc A B (with_var v m)"
  unfolding upholds_def with_var_def by (auto simp: case_prod_beta)

lemma upholds_set_var [upholds_intros]: "upholds sc A (\<lambda>(x, v). B x) (set_var v)"
  unfolding upholds_def set_var_def by auto

lemma upholds_errors [upholds_intros]: "upholds sc A B (invalid_argument m)" "upholds sc A B (internal_error m e)"
  "upholds sc A B (unavailable e)" "upholds sc A B (failed_precondition m)"
  by (simp_all add: invalid_argument_def internal_error_def unavailable_def failed_precondition_def upholds_intros)

lemma upholds_seen_key [upholds_intros]:
  "(\<And>h. upholds sc A B (ck t k h)) \<Longrightarrow> upholds sc A B (seen_key ck t k h)"
  unfolding seen_key_def by (auto intro!: upholds_intros split: sum.split)

section \<open>The reservation service\<close>

definition res_rows_of :: "uuid \<Rightarrow> reservation_db \<Rightarrow> Reservation list \<times> Outbox list \<times> ProcessedIdempotencyKey list" where
  "res_rows_of u d = (filter (\<lambda>r. rv_tenant r = u) (reservations d), filter (\<lambda>r. ob_tenant r = u) (res_outbox d),
     filter (\<lambda>r. ik_tenant r = u) (res_keys d))"

text \<open>The rows of tenant \<open>u\<close> are \<open>X\<close>, and reservations have unique identifiers.\<close>

definition res_apart :: "uuid \<Rightarrow> Reservation list \<times> Outbox list \<times> ProcessedIdempotencyKey list \<Rightarrow> reservation_db \<Rightarrow> bool" where
  "res_apart u X d \<longleftrightarrow> res_rows_of u d = X \<and> distinct (map rv_id (reservations d))"

lemma filter_set_status:
  assumes "distinct (map rv_id rs)" "r \<in> set rs" "rv_tenant r \<noteq> u"
  shows "filter (\<lambda>q. rv_tenant q = u) (set_status (rv_id r) st rs) = filter (\<lambda>q. rv_tenant q = u) rs"
proof -
  have "rv_id q \<noteq> rv_id r" if "q \<in> set rs" "rv_tenant q = u" for q
    using that assms by (metis distinct_map inj_onD)
  then show ?thesis
    by (induction rs) (auto simp: set_status_def)
qed

lemma upholds_res_queries [upholds_intros]:
  assumes "t \<noteq> u"
  shows "upholds (Scoped (Some t)) (res_apart u X) B (res_CheckAndInsertIdempotencyKey t k h)"
    "upholds (Scoped (Some t)) (res_apart u X) B (GetActiveReservationsByOrder ord)"
    "upholds (Scoped (Some t)) (res_apart u X) B (res_InsertOutboxEvent L t at ai et pl tr)"
    "upholds (Scoped (Some t)) (res_apart u X) B (InsertReservation t ord sku wh q st x)"
    "upholds (Scoped (Some t)) (res_apart u X) B (UpdateReservationStatus i st)"
proof -
  show "upholds (Scoped (Some t)) (res_apart u X) B (UpdateReservationStatus i st)"
    unfolding UpdateReservationStatus_def
  proof (rule upholds_stmt)
    fix e d a d'
    assume A: "res_apart u X d" and f: "(case find (\<lambda>r. rls_visible (Scoped (Some t)) (rv_tenant r) \<and> rv_id r = i) (reservations d) of
       None \<Rightarrow> Inl ErrNoRows
     | Some r \<Rightarrow>
         if \<not> varchar 50 st then Inl value_too_long
         else if \<not> reservation_check (r\<lparr>rv_status := st\<rparr>) then Inl (check_violation ''reservations'')
         else Inr (r\<lparr>rv_status := st\<rparr>, d\<lparr>reservations := set_status i st (reservations d)\<rparr>)) = Inr (a, d')"
    then obtain r where r: "r \<in> set (reservations d)" "rv_tenant r = t" "rv_id r = i"
      and d': "d' = d\<lparr>reservations := set_status i st (reservations d)\<rparr>"
      by (auto simp: rls_visible_def find_Some_iff split: option.splits if_splits) (metis nth_mem)
    with filter_set_status [of "reservations d" r u st] A assms show "res_apart u X d'"
      by (auto simp: res_apart_def res_rows_of_def)
  qed
qed (use assms in \<open>auto simp: res_query_defs res_apart_def res_rows_of_def Let_def list_ex_iff
      intro!: upholds_stmt split: if_splits option.splits sum.splits dest!: insert_key_Inr insert_outbox_Inr\<close>, blast)

abbreviation stock_apart where
  "stock_apart u Y (x :: (stock_db, 'y) sess) \<equiv> rows_of u (data x) = Y"

lemma stock_handlers_apart:
  assumes "uuid_scan L tenant = Some t" "t \<noteq> u" "rows_of u (data s) = Y"
  shows "rsv_tenant q1 = tenant \<Longrightarrow> rows_of u (data (snd (ReserveStock L c q1 s))) = Y"
    "rls_tenant q2 = tenant \<Longrightarrow> rows_of u (data (snd (ReleaseStock L c q2 s))) = Y"
    "cnf_tenant q3 = tenant \<Longrightarrow> rows_of u (data (snd (ConfirmStockAllocation L c q3 s))) = Y"
proof -
  have serve: "rows_of u (data (snd (stock_serve L c call s))) = Y" if "call_tenant L call = Some t" for call
    using keepsD [OF keeps_rows_of_serve [OF that assms(2), of Y c], of s] assms(3) by simp
  show "rsv_tenant q1 = tenant \<Longrightarrow> rows_of u (data (snd (ReserveStock L c q1 s))) = Y"
    using serve [of "CallReserveStock q1"] assms(1)
    by (auto simp: call_tenant_def bindE_def split: prod.splits sum.splits)
  show "rls_tenant q2 = tenant \<Longrightarrow> rows_of u (data (snd (ReleaseStock L c q2 s))) = Y"
    using serve [of "CallReleaseStock q2"] assms(1)
    by (auto simp: call_tenant_def bindE_def split: prod.splits sum.splits)
  show "cnf_tenant q3 = tenant \<Longrightarrow> rows_of u (data (snd (ConfirmStockAllocation L c q3 s))) = Y"
    using serve [of "CallConfirmStockAllocation q3"] assms(1)
    by (auto simp: call_tenant_def bindE_def split: prod.splits sum.splits)
qed

lemma upholds_res_parts [upholds_intros]:
  assumes "t \<noteq> u"
  shows "upholds (Scoped (Some t)) (res_apart u X) B (insert_reservation_line L c t req x it)"
    "upholds (Scoped (Some t)) (res_apart u X) B (mark_row L c t ord st et r)"
  unfolding insert_reservation_line_def mark_row_def by (intro upholds_intros assms)+

lemma upholds_res_bodies:
  assumes "uuid_scan L tenant = Some t" "t \<noteq> u"
  shows "upholds (Scoped (uuid_scan L tenant)) (res_apart u X) B (insert_body L c t req x)"
    "rl_tenant rq = tenant \<Longrightarrow>
      upholds (Scoped (uuid_scan L tenant)) (res_apart u X) (stock_apart u Y) (res_release_body L c t rq)"
    "upholds (Scoped (uuid_scan L tenant)) (res_apart u X) B (allocate_body L c t aq)"
  unfolding insert_body_def res_release_body_def release_rows_def allocate_body_def assms(1)
  by (intro upholds_intros assms(2) upholds_rpc stock_handlers_apart(2) [OF assms(1)]; simp add: release_stock_request_def)+

lemma upholds_firstReservationID [upholds_intros]:
  assumes "uuid_scan L tenant = Some t" "t \<noteq> u" "ctx_tenant c = tenant"
  shows "upholds sc (res_apart u X) B (firstReservationID L c ord)"
proof -
  have "upholds (Scoped (uuid_scan L tenant)) (res_apart u X) (\<lambda>(x, v). B x)
       (bindE (attempt (GetActiveReservationsByOrder ord)) (\<lambda>r.
        case r of
          Inr (row # _) \<Rightarrow> set_var (rv_id row)
        | _ \<Rightarrow> returnE ()))"
    unfolding assms(1) by (auto intro!: upholds_intros assms(2) split: sum.split list.split)
  then show ?thesis
    unfolding firstReservationID_def
    by (rule upholds_bindE [OF upholds_with_var [OF upholds_ExecTxWithTenant [OF assms(3)]]])
       (auto intro: upholds_intros split: prod.split)
qed

lemma WithTenantID_tenant [simp]: "ctx_tenant (WithTenantID c tenant) = tenant"
  by (simp add: WithTenantID_def)

lemma upholds_Reserve:
  assumes "uuid_scan L (rq_tenant req) = Some t" "t \<noteq> u"
  shows "upholds sc (res_apart u X) (stock_apart u Y) (Reserve L c req)"
proof -
  have pu: "ParseUUID L (rq_tenant req) = Inr t" using assms(1) by (simp add: ParseUUID_def)
  have ins: "upholds sc (res_apart u X) B (insertReservations L (WithTenantID c (rq_tenant req)) t req x)" for x B
    unfolding insertReservations_def
    by (intro upholds_ExecTxWithTenant [of _ "rq_tenant req"] upholds_res_bodies(1) assms) simp
  show ?thesis
    unfolding Reserve_def persist_reservation_def pu sum.case Let_def
    by (intro upholds_intros upholds_rpc ins upholds_firstReservationID [OF assms] 
        stock_handlers_apart(1,2) [OF assms]; simp add: reserve_stock_request_def reserve_failure_request_def)
qed

lemma upholds_Release:
  assumes "uuid_scan L (rl_tenant req) = Some t" "t \<noteq> u"
  shows "upholds sc (res_apart u X) (stock_apart u Y) (Release L c req)"
proof -
  have pu: "ParseUUID L (rl_tenant req) = Inr t" using assms(1) by (simp add: ParseUUID_def)
  show ?thesis
    unfolding Release_def pu sum.case Let_def
    by (intro upholds_intros upholds_ExecTxWithTenant [of _ "rl_tenant req"] upholds_res_bodies(2) assms) simp_all
qed

lemma upholds_AllocateReservation:
  assumes "uuid_scan L (ar_tenant req) = Some t" "t \<noteq> u"
  shows "upholds sc (res_apart u X) B (AllocateReservation L c req)"
proof -
  have pu: "ParseUUID L (ar_tenant req) = Inr t" using assms(1) by (simp add: ParseUUID_def)
  show ?thesis
    unfolding AllocateReservation_def pu sum.case Let_def
    by (intro upholds_intros upholds_ExecTxWithTenant [of _ "ar_tenant req"] upholds_res_bodies(3) assms) simp_all
qed

section \<open>The order service\<close>

type_synonym order_rows = "OrderRow list \<times> OrderLineRow list \<times> SagaInstance list \<times> Outbox list \<times> ProcessedIdempotencyKey list"

definition order_rows_of :: "uuid \<Rightarrow> order_db \<Rightarrow> order_rows" where
  "order_rows_of u d = (filter (\<lambda>r. or_tenant r = u) (orders d), filter (\<lambda>r. olr_tenant r = u) (order_lines d),
     filter (\<lambda>r. sg_tenant r = u) (sagas d), filter (\<lambda>r. ob_tenant r = u) (order_outbox d),
     filter (\<lambda>r. ik_tenant r = u) (order_keys d))"

abbreviation order_apart :: "uuid \<Rightarrow> order_rows \<Rightarrow> order_db \<Rightarrow> bool" where
  "order_apart u Z d \<equiv> order_rows_of u d = Z"

lemma filter_set_order:
  "t \<noteq> u \<Longrightarrow> filter (\<lambda>r. or_tenant r = u) (map (set_order (Scoped (Some t)) ord st txn at) rs) = filter (\<lambda>r. or_tenant r = u) rs"
  by (induction rs) (auto simp: set_order_def order_at_def rls_visible_def)

lemma filter_set_saga:
  "t \<noteq> u \<Longrightarrow> filter (\<lambda>r. sg_tenant r = u) (map (set_saga (Scoped (Some t)) ord st k er at) rs) = filter (\<lambda>r. sg_tenant r = u) rs"
  by (induction rs) (auto simp: set_saga_def saga_at_def rls_visible_def)

lemma upholds_order_queries [upholds_intros]:
  assumes "t \<noteq> u"
  shows "upholds (Scoped (Some t)) (order_apart u Z) B (order_CheckAndInsertIdempotencyKey t k h)"
    "upholds (Scoped (Some t)) (order_apart u Z) B (GetIdempotencyKey t k)"
    "upholds (Scoped (Some t)) (order_apart u Z) B (GetOrderById ord)"
    "upholds (Scoped (Some t)) (order_apart u Z) B (GetOrderLines ord)"
    "upholds (Scoped (Some t)) (order_apart u Z) B (GetSagaInstance ord)"
    "upholds (Scoped (Some t)) (order_apart u Z) B (InsertOrderLine t ord sku wh q p)"
    "upholds (Scoped (Some t)) (order_apart u Z) B (order_InsertOutboxEvent t at ai et pl tr)"
    "upholds (Scoped (Some t)) (order_apart u Z) B (UpdateOrderStatus ord st txn)"
    "upholds (Scoped (Some t)) (order_apart u Z) B (UpdateSagaState ord st step er)"
    "upholds (Scoped (Some t)) (order_apart u Z) B (UpsertOrder t ord st tot cur)"
    "upholds (Scoped (Some t)) (order_apart u Z) B (UpsertSagaInstance t ord st step k)"
  unfolding order_query_defs Let_def
  by (rule upholds_stmt; use assms in \<open>auto simp: order_rows_of_def filter_set_order filter_set_saga
        split: if_splits option.splits sum.splits dest!: insert_key_Inr insert_outbox_Inr\<close>)+

definition callees_apart ::
  "uuid \<Rightarrow> Reservation list \<times> Outbox list \<times> ProcessedIdempotencyKey list
    \<Rightarrow> (string \<times> string \<Rightarrow> StockLevel option) \<times> StockEvent list \<times> Outbox list \<times> ProcessedIdempotencyKey list
    \<Rightarrow> 'y saga_ext \<Rightarrow> bool" where
  "callees_apart u X Y x \<longleftrightarrow> res_apart u X (data (res_service x)) \<and> stock_apart u Y (ext (res_service x))"

lemma upholds_breakers [upholds_intros]:
  "upholds sc A (callees_apart u X Y) (breaker_allow resBreaker resBreaker_update)"
  "upholds sc A (callees_apart u X Y) (breaker_allow payBreaker payBreaker_update)"
  "upholds sc A (callees_apart u X Y) (breaker_allow stockBreaker stockBreaker_update)"
  "upholds sc A (callees_apart u X Y) (breaker_success resBreaker_update)"
  "upholds sc A (callees_apart u X Y) (breaker_success payBreaker_update)"
  "upholds sc A (callees_apart u X Y) (breaker_success stockBreaker_update)"
  "upholds sc A (callees_apart u X Y) (breaker_failure resBreaker_update)"
  "upholds sc A (callees_apart u X Y) (breaker_failure payBreaker_update)"
  "upholds sc A (callees_apart u X Y) (breaker_failure stockBreaker_update)"
  "upholds sc A (callees_apart u X Y) (gateway_Charge q)"
  by (auto simp: upholds_def callees_apart_def breaker_allow_def breaker_success_def breaker_failure_def gateway_Charge_def
      bindE_def now_def Let_def split: prod.splits)

lemma upholds_res_call:
  fixes srv :: "'y res_session \<Rightarrow> (err + 'b) \<times> 'y res_session"
  assumes "\<And>sc. upholds sc (res_apart u X) (stock_apart u Y) srv"
  shows "upholds sc A (callees_apart u X Y) (rpc (res_call srv))"
proof (rule upholds_rpc)
  fix x :: "'y saga_ext" assume x: "callees_apart u X Y x"
  obtain r s' where srv: "srv (res_service x) = (r, s')" by force
  from upholdsD [OF assms [of "scope (res_service x)"] _ _ _ srv] x srv
  show "callees_apart u X Y (snd (res_call srv x))" by (simp add: callees_apart_def res_call_def)
qed

lemma upholds_confirm_call:
  assumes "uuid_scan L (cnf_tenant q) = Some t" "t \<noteq> u"
  shows "upholds sc A (callees_apart u X Y :: 'y saga_ext \<Rightarrow> bool) (rpc (stock_call (ConfirmStockAllocation L c q)))"
proof (rule upholds_rpc)
  fix x :: "'y saga_ext" assume x: "callees_apart u X Y x"
  with stock_handlers_apart(3) [OF assms, of "ext (res_service x)" Y q c]
  show "callees_apart u X Y (snd (stock_call (ConfirmStockAllocation L c q) x))"
    by (simp add: callees_apart_def stock_call_def case_prod_beta)
qed

lemma upholds_saga_parts:
  assumes "uuid_scan L tenant = Some t" "t \<noteq> u" "ctx_tenant c = tenant"
  shows "upholds sc (order_apart u Z) B (transition L c t ord st step er)"
    "upholds sc (order_apart u Z) B (failSaga L c tenant ord msg)"
    "upholds sc (order_apart u Z) B (recordTransaction L c ord txn)"
    "upholds sc (order_apart u Z) B (getSaga L c ord)"
proof -
  have pu: "ParseUUID L tenant = Inr t" using assms(1) by (simp add: ParseUUID_def)
  have tr: "upholds sc (order_apart u Z) B (transition L c t ord st step er)" for st step er
    unfolding transition_def
    by (rule upholds_ExecTxWithTenant [OF assms(3)])
       (unfold assms(1) transition_body_def mirror_status_def, intro upholds_intros assms(2))
  show "upholds sc (order_apart u Z) B (transition L c t ord st step er)" by (rule tr)
  show "upholds sc (order_apart u Z) B (failSaga L c tenant ord msg)"
    unfolding failSaga_def pu sum.case by (rule tr)
  show "upholds sc (order_apart u Z) B (recordTransaction L c ord txn)"
    unfolding recordTransaction_def
    by (rule upholds_ExecTxWithTenant [OF assms(3)]) (unfold assms(1), intro upholds_intros assms(2))
  show "upholds sc (order_apart u Z) B (getSaga L c ord)"
    unfolding getSaga_def
    by (rule upholds_ExecTxWithTenant [OF assms(3)]) (unfold assms(1), intro upholds_intros assms(2))
qed

lemma upholds_compensate:
  assumes "uuid_scan L tenant = Some t" "t \<noteq> u" "ctx_tenant c = tenant"
  shows "upholds sc (order_apart u Z) (callees_apart u X Y) (compensate L c tenant ord reason)"
proof -
  have pu: "ParseUUID L tenant = Inr t" using assms(1) by (simp add: ParseUUID_def)
  show ?thesis
    unfolding compensate_def pu sum.case
    by (intro upholds_intros upholds_saga_parts [OF assms] upholds_res_call upholds_Release [OF _ assms(2)])
       (simp add: compensation_request_def assms(1))
qed

lemma upholds_runSaga:
  assumes "uuid_scan L (in_tenant inp) = Some (in_uuid inp)" "in_uuid inp \<noteq> u" "ctx_tenant c = in_tenant inp"
  shows "upholds sc (order_apart u Z) (callees_apart u X Y) (runSaga L c inp)"
  unfolding runSaga_def saga_pay_def saga_allocate_def saga_confirm_def charge_order_def compensate_order_def fail_step_def
  by (intro upholds_intros upholds_saga_parts [OF assms] upholds_compensate [OF assms] upholds_res_call
      upholds_Reserve [OF _ assms(2)] upholds_AllocateReservation [OF _ assms(2)] upholds_confirm_call [OF _ assms(2)])
     (simp_all add: saga_reserve_request_def saga_allocate_request_def saga_confirm_request_def assms(1))

lemma upholds_order_bodies:
  assumes "uuid_scan L tenant = Some t" "t \<noteq> u"
  shows "upholds (Scoped (uuid_scan L tenant)) (order_apart u Z) B (create_body L t cq amount)"
    "upholds (Scoped (uuid_scan L tenant)) (order_apart u Z) B (get_order_body gq)"
    "upholds (Scoped (uuid_scan L tenant)) (order_apart u Z) B (fulfill_order_body L c t fq)"
  unfolding create_body_def insert_order_line_def get_order_body_def fulfill_order_body_def fulfill_replay_def
    fulfill_known_key_def fulfill_write_def assms(1)
  by (intro upholds_intros assms(2))+

lemma upholds_CreateOrder:
  assumes "uuid_scan L (co_tenant req) = Some t" "t \<noteq> u"
  shows "upholds sc (order_apart u Z) (callees_apart u X Y) (CreateOrder L c req)"
proof -
  have pu: "ParseUUID L (co_tenant req) = Inr t" using assms(1) by (simp add: ParseUUID_def)
  have row: "upholds sc (order_apart u Z) B (createOrderRow L (WithTenantID c (co_tenant req)) t req n)" for n B
    unfolding createOrderRow_def
    by (intro upholds_ExecTxWithTenant [of _ "co_tenant req"] upholds_order_bodies assms) simp
  have replay: "upholds sc (order_apart u Z) B (replayCreateOrder L (WithTenantID c (co_tenant req)) req)" for B
    unfolding replayCreateOrder_def by (intro upholds_intros upholds_saga_parts [OF assms]) simp
  have saga: "upholds sc (order_apart u Z) (callees_apart u X Y) (runSaga L (WithTenantID c (co_tenant req)) (create_input t req))"
    by (rule upholds_runSaga) (simp_all add: create_input_def assms)
  show ?thesis
    unfolding CreateOrder_def pu sum.case Let_def by (intro upholds_intros row replay saga)
qed

lemma upholds_order_handlers:
  assumes "uuid_scan L tenant = Some t" "t \<noteq> u"
  shows "go_tenant gq = tenant \<Longrightarrow> upholds sc (order_apart u Z) B (GetOrder L c gq)"
    "can_tenant cq = tenant \<Longrightarrow> upholds sc (order_apart u Z) (callees_apart u X Y) (CancelOrder L c cq)"
    "fo_tenant fq = tenant \<Longrightarrow> upholds sc (order_apart u Z) B (FulfillOrder L c fq)"
proof -
  have pu: "ParseUUID L tenant = Inr t" using assms(1) by (simp add: ParseUUID_def)
  have "upholds sc (order_apart u Z) B (ExecTxWithTenant L (WithTenantID c tenant) (get_order_body gq))"
    by (intro upholds_ExecTxWithTenant [of _ tenant] upholds_order_bodies(2) [OF assms]) simp
  then show "go_tenant gq = tenant \<Longrightarrow> upholds sc (order_apart u Z) B (GetOrder L c gq)"
    by (simp add: GetOrder_def pu)
  have saga: "upholds sc (order_apart u Z) B (getSaga L (WithTenantID c tenant) ord)" for B ord
    by (rule upholds_saga_parts [OF assms]) simp
  have comp: "upholds sc (order_apart u Z) (callees_apart u X Y) (compensate L (WithTenantID c tenant) tenant ord reason)" for ord reason
    by (rule upholds_compensate [OF assms]) simp
  show "upholds sc (order_apart u Z) (callees_apart u X Y) (CancelOrder L c cq)" if "can_tenant cq = tenant"
    unfolding CancelOrder_def that pu sum.case Let_def by (intro upholds_intros saga comp)
  have "upholds sc (order_apart u Z) B (ExecTxWithTenant L (WithTenantID c tenant) (fulfill_order_body L (WithTenantID c tenant) t fq))"
    by (intro upholds_ExecTxWithTenant [of _ tenant] upholds_order_bodies assms) simp
  then show "fo_tenant fq = tenant \<Longrightarrow> upholds sc (order_apart u Z) B (FulfillOrder L c fq)"
    by (simp add: FulfillOrder_def pu Let_def)
qed

section \<open>All services\<close>

text \<open>What tenant \<open>u\<close> owns in the three databases behind an order session.\<close>

definition holdings ::
  "uuid \<Rightarrow> 'y order_session \<Rightarrow> order_rows \<times> (Reservation list \<times> Outbox list \<times> ProcessedIdempotencyKey list)
    \<times> ((string \<times> string \<Rightarrow> StockLevel option) \<times> StockEvent list \<times> Outbox list \<times> ProcessedIdempotencyKey list)" where
  "holdings u s = (order_rows_of u (data s), res_rows_of u (data (res_service (ext s))),
     rows_of u (data (ext (res_service (ext s)))))"

definition reservation_ids_unique :: "'y order_session \<Rightarrow> bool" where
  "reservation_ids_unique s \<longleftrightarrow> distinct (map rv_id (reservations (data (res_service (ext s)))))"

lemma upholds_holdings:
  assumes "\<And>sc Z X Y. upholds sc (order_apart u Z) (callees_apart u X Y) m" "reservation_ids_unique s"
  shows "holdings u (snd (m s)) = holdings u s"
proof -
  obtain r s' where m: "m s = (r, s')" by force
  from upholdsD [OF assms(1) [of "scope s" "order_rows_of u (data s)" "res_rows_of u (data (res_service (ext s)))"
      "rows_of u (data (ext (res_service (ext s))))"] refl _ _ m] assms(2) m
  show ?thesis by (simp add: holdings_def callees_apart_def res_apart_def reservation_ids_unique_def)
qed

lemma upholds_callee_holdings:
  assumes "\<And>sc X Y. upholds sc (res_apart u X) (stock_apart u Y) m" "reservation_ids_unique s"
  shows "holdings u (s\<lparr>ext := snd (res_call m (ext s))\<rparr>) = holdings u s"
proof -
  let ?q = "res_service (ext s)"
  obtain r q' where m: "m ?q = (r, q')" by force
  from upholdsD [OF assms(1) [of "scope ?q" "res_rows_of u (data ?q)" "rows_of u (data (ext ?q))"] refl _ _ m] assms(2) m
  show ?thesis by (simp add: holdings_def res_apart_def res_call_def reservation_ids_unique_def)
qed

end
