(* ===== verification/GatewayProps.thy ===== *)
theory GatewayProps
  imports Gateway Isolation OrderProps
begin

text \<open>
  What the gateway guarantees to the services behind it: nothing reaches them but calls that a verified
  token covers, with the tenant of the token.
\<close>

section \<open>The operation of a call\<close>

text \<open>Which operation a call amounts to and for which tenant, read off the call itself.\<close>

fun call_operation :: "service_call \<Rightarrow> string" where
  "call_operation (StockCall (CallUnlockStockForAudit m)) = OpStockAdmin"
| "call_operation (StockCall k) = OpStockWrite"
| "call_operation (ReservationCall k) = OpReservationMutate"
| "call_operation (OrderCall (OpGet m)) = OpOrderRead"
| "call_operation (OrderCall k) = OpOrderMutate"

fun call_tenant_id :: "service_call \<Rightarrow> string" where
  "call_tenant_id (StockCall (CallAdjustStock m)) = adj_tenant m"
| "call_tenant_id (StockCall (CallReserveStock m)) = rsv_tenant m"
| "call_tenant_id (StockCall (CallReleaseStock m)) = rls_tenant m"
| "call_tenant_id (StockCall (CallConfirmStockAllocation m)) = cnf_tenant m"
| "call_tenant_id (StockCall (CallFulfillStock m)) = ful_tenant m"
| "call_tenant_id (StockCall (CallUnlockStockForAudit m)) = unl_tenant m"
| "call_tenant_id (ReservationCall (CallReserve m)) = rq_tenant m"
| "call_tenant_id (ReservationCall (CallRelease m)) = rl_tenant m"
| "call_tenant_id (ReservationCall (CallAllocateReservation m)) = ar_tenant m"
| "call_tenant_id (OrderCall (OpCreate m)) = co_tenant m"
| "call_tenant_id (OrderCall (OpGet m)) = go_tenant m"
| "call_tenant_id (OrderCall (OpCancel m)) = can_tenant m"
| "call_tenant_id (OrderCall (OpFulfill m)) = fo_tenant m"
| "call_tenant_id (OrderCall (OpResume n)) = ''''"

fun endpoint_operation :: "endpoint \<Rightarrow> string option" where
  "endpoint_operation Healthz = None"
| "endpoint_operation Readyz = None"
| "endpoint_operation Login = None"
| "endpoint_operation PostUnlock = Some OpStockAdmin"
| "endpoint_operation PostReservation = Some OpReservationMutate"
| "endpoint_operation PostReservationRelease = Some OpReservationMutate"
| "endpoint_operation PostReservationAllocate = Some OpReservationMutate"
| "endpoint_operation PostOrder = Some OpOrderMutate"
| "endpoint_operation (PostCancel oid) = Some OpOrderMutate"
| "endpoint_operation (PostFulfillOrder oid) = Some OpOrderMutate"
| "endpoint_operation (GetOrderRoute oid) = Some OpOrderRead"
| "endpoint_operation _ = Some OpStockWrite"

lemma join_segments: "split_on c path = seg \<Longrightarrow> path = join_on c seg"
  by (metis join_split_on)

lemma trim_id:
  assumes "CHR ''/'' \<notin> set oid" "oid \<noteq> []"
  shows "trim_slashes (''/v1/orders/'' @ oid) = ''v1/orders/'' @ oid"
proof -
  have "last oid \<noteq> CHR ''/''" using assms last_in_set by metis
  then show ?thesis using assms(2)
    by (cases "rev oid") (simp_all add: trim_slashes_def last_rev [symmetric] hd_rev)
qed

lemma trim_id_action:
  "c \<noteq> CHR ''/'' \<Longrightarrow> trim_slashes (''/v1/orders/'' @ oid @ a @ [c]) = ''v1/orders/'' @ oid @ a @ [c]"
  by (simp add: trim_slashes_def)

lemma split_orders:
  "split_on CHR ''/'' (''v1/orders/'' @ s) = ''v1'' # ''orders'' # split_on CHR ''/'' s"
  by simp

lemma operation_literal:
  "operationFor m ''/v1/stock/adjust'' = Some (if m = ''GET'' \<or> m = ''HEAD'' then OpStockRead else OpStockWrite)"
  "operationFor m ''/v1/stock/reserve'' = Some (if m = ''GET'' \<or> m = ''HEAD'' then OpStockRead else OpStockWrite)"
  "operationFor m ''/v1/stock/release'' = Some (if m = ''GET'' \<or> m = ''HEAD'' then OpStockRead else OpStockWrite)"
  "operationFor m ''/v1/stock/allocate'' = Some (if m = ''GET'' \<or> m = ''HEAD'' then OpStockRead else OpStockWrite)"
  "operationFor m ''/v1/stock/fulfill'' = Some (if m = ''GET'' \<or> m = ''HEAD'' then OpStockRead else OpStockWrite)"
  "operationFor m ''/v1/stock/unlock'' = Some (if m = ''GET'' \<or> m = ''HEAD'' then OpStockRead else OpStockAdmin)"
  "operationFor m ''/v1/reservations'' = Some (if m = ''GET'' \<or> m = ''HEAD'' then OpReservationRead else OpReservationMutate)"
  "operationFor m ''/v1/reservations/release'' = Some (if m = ''GET'' \<or> m = ''HEAD'' then OpReservationRead else OpReservationMutate)"
  "operationFor m ''/v1/reservations/allocate'' = Some (if m = ''GET'' \<or> m = ''HEAD'' then OpReservationRead else OpReservationMutate)"
  "operationFor m ''/v1/orders'' = Some (if m = ''GET'' \<or> m = ''HEAD'' then OpOrderRead else OpOrderMutate)"
  by (simp_all add: operationFor_def trim_slashes_def Let_def)

lemma operation_orders:
  assumes "trim_slashes path = ''v1/orders/'' @ s"
  shows "operationFor m path = Some (if m = ''GET'' \<or> m = ''HEAD'' then OpOrderRead else OpOrderMutate)"
  using assms by (simp add: operationFor_def split_orders Let_def del: append.simps)

lemma split_on_no_sep: "w \<in> set (split_on c s) \<Longrightarrow> c \<notin> set w"
  by (induction s arbitrary: w) (auto split: if_splits list.splits)

lemma list_of_5: "length xs = 5 \<Longrightarrow> take 3 xs = [a, b, c] \<Longrightarrow> xs = [a, b, c, xs ! 3, xs ! 4]"
  by (auto simp: length_Suc_conv eval_nat_numeral)

lemma list_of_4: "length xs = 4 \<Longrightarrow> take 3 xs = [a, b, c] \<Longrightarrow> xs = [a, b, c, xs ! 3]"
  by (auto simp: length_Suc_conv eval_nat_numeral)

lemma order_action_operation:
  assumes "length (split_on CHR ''/'' path) = 5" "take 3 (split_on CHR ''/'' path) = ['''', ''v1'', ''orders'']"
    and "split_on CHR ''/'' path ! 4 = a @ [c]" "c \<noteq> CHR ''/''" "m = ''POST''"
  shows "operationFor m path = Some OpOrderMutate"
proof -
  obtain oid where "split_on CHR ''/'' path = ['''', ''v1'', ''orders'', oid, a @ [c]]"
    using list_of_5 [OF assms(1,2)] assms(3) by metis
  from join_segments [OF this] have "path = ''/v1/orders/'' @ oid @ (CHR ''/'' # a) @ [c]" by simp
  with trim_id_action [OF assms(4), of oid "CHR ''/'' # a"]
  have "trim_slashes path = ''v1/orders/'' @ oid @ (CHR ''/'' # a) @ [c]" by simp
  from operation_orders [OF this, of m] assms(5) show ?thesis by simp
qed

lemma order_get_operation:
  assumes "length (split_on CHR ''/'' path) = 4" "take 3 (split_on CHR ''/'' path) = ['''', ''v1'', ''orders'']"
    and "split_on CHR ''/'' path ! 3 \<noteq> ''''" "m = ''GET'' \<or> m = ''HEAD''"
  shows "operationFor m path = Some OpOrderRead"
proof -
  obtain oid where seg: "split_on CHR ''/'' path = ['''', ''v1'', ''orders'', oid]" and "oid \<noteq> ''''"
    using list_of_4 [OF assms(1,2)] assms(3) by metis
  moreover have "CHR ''/'' \<notin> set oid" using split_on_no_sep [of oid "CHR ''/''" path] seg by simp
  ultimately have "trim_slashes (''/v1/orders/'' @ oid) = ''v1/orders/'' @ oid" by (intro trim_id)
  moreover from join_segments [OF seg] have "path = ''/v1/orders/'' @ oid" by simp
  ultimately have "trim_slashes path = ''v1/orders/'' @ oid" by simp
  from operation_orders [OF this, of m] assms(4) show ?thesis by auto
qed

text \<open>Every route of the REST surface has the operation that the middleware looks up for it.\<close>

lemma mux_match_operation:
  assumes "mux_match lg m path = Some ep" "endpoint_operation ep = Some op"
  shows "operationFor m path = Some op"
proof -
  have cancel: "operationFor m path = Some OpOrderMutate"
    if "length (split_on CHR ''/'' path) = 5" "take 3 (split_on CHR ''/'' path) = ['''', ''v1'', ''orders'']"
      "m = ''POST''" "split_on CHR ''/'' path ! 4 = ''cancel'' \<or> split_on CHR ''/'' path ! 4 = ''fulfill''"
    using order_action_operation [OF that(1,2), of "''cance''" "CHR ''l''" m]
      order_action_operation [OF that(1,2), of "''fulfil''" "CHR ''l''" m] that(3,4) by auto
  show ?thesis
  proof (cases ep)
    case (PostCancel oid)
    with assms show ?thesis by (intro cancel [THEN trans]) (auto simp: mux_match_def Let_def split: if_splits)
  next
    case (PostFulfillOrder oid)
    with assms show ?thesis by (intro cancel [THEN trans]) (auto simp: mux_match_def Let_def split: if_splits)
  next
    case (GetOrderRoute oid)
    with assms show ?thesis
      by (intro order_get_operation [THEN trans]) (auto simp: mux_match_def Let_def split: if_splits)
  qed (use assms in \<open>auto simp: mux_match_def Let_def operation_literal split: if_splits dest!: join_segments\<close>)
qed

section \<open>What a request does to the services\<close>

abbreviation behind :: "'y gateway_session \<Rightarrow> 'y order_session" where
  "behind s \<equiv> services (ext s)"

lemma aside_behind [simp]: "aside behind"
  by (simp add: aside_def)

definition keeps_services :: "((Breaker \<Rightarrow> Breaker) \<Rightarrow> 'y Core \<Rightarrow> 'y Core) \<Rightarrow> bool" where
  "keeps_services upd \<longleftrightarrow> (\<forall>f x. services (upd f x) = services x)"

lemma keeps_services_breakers [simp]:
  "keeps_services StockBreaker_update" "keeps_services ReservationBreaker_update" "keeps_services OrderBreaker_update"
  by (simp_all add: keeps_services_def)

lemma frame_behind_breakers [frame_intros]:
  assumes "keeps_services upd"
  shows "frame behind (breaker_allow get upd)" "frame behind (breaker_success upd)" "frame behind (breaker_failure upd)"
  using assms
  by (auto simp: breaker_allow_def breaker_success_def breaker_failure_def keeps_services_def frame_def bindE_def now_def
      split: prod.splits)

lemma frame_behind_gateway [frame_intros]:
  "frame behind (publishBreaker dep get)" "frame behind (authorize E r)" "frame behind (admit E k)" "frame behind (login E r)"
  by (auto simp: publishBreaker_def authorize_def admit_def login_def now_ns_def bindE_def now_def frame_def Let_def
      split: prod.splits option.splits)

lemma service_rpc_behind:
  "behind (snd (service_rpc E call s)) = behind s \<or>
   behind (snd (service_rpc E call s)) = snd (serve (ge_lib E) (incoming (ge_lib E) (ge_ctx E)) call (behind s))"
  by (auto simp: service_rpc_def rpc_def Let_def split: option.splits fault.splits prod.splits)

text \<open>At most one call reaches a service, and only the one that is due.\<close>

lemma invoke_behind:
  assumes "keeps_services upd"
  shows "behind (snd (invoke E dep get upd call s)) = behind s \<or>
    behind (snd (invoke E dep get upd call s)) = snd (serve (ge_lib E) (incoming (ge_lib E) (ge_ctx E)) call (behind s))"
proof -
  obtain a s1 where a: "breaker_allow get upd s = (a, s1)" by force
  with frameD [OF frame_behind_breakers(1) [OF assms] a] have s1: "behind s1 = behind s" by simp
  show ?thesis
  proof (cases a)
    case (Inl e)
    have "frame behind (bindE (publishBreaker dep get) (\<lambda>_.
         returnE (write_error \<lparr>he_status = 503, he_code = ''unavailable'', he_message = err_text e\<rparr>)))"
      by (intro frame_intros)
    with Inl a s1 show ?thesis by (simp add: invoke_def bindE_def attempt_def frame_def)
  next
    case (Inr u)
    obtain b s2 where b: "service_rpc E call s1 = (b, s2)" by force
    define rest where "rest = (case b of
           Inl e \<Rightarrow>
             bindE (if transport_failure e then breaker_failure upd else breaker_success upd) (\<lambda>_.
             bindE (publishBreaker dep get) (\<lambda>_.
             returnE (write_error (errorFromGRPC e))))
         | Inr reply \<Rightarrow>
             bindE (breaker_success upd) (\<lambda>_.
             bindE (publishBreaker dep get) (\<lambda>_.
             returnE
               (case pj_out (ge_protojson E) reply of
                  None \<Rightarrow> write_error \<lparr>he_status = 500, he_code = ''internal'', he_message = ''response encoding failed''\<rparr>
                | Some body \<Rightarrow>
                    \<lparr>rs_status = 200, rs_headers = [(''Content-Type'', ''application/json'')], rs_body = body\<rparr>))))"
    have "frame behind rest" unfolding rest_def by (intro frame_intros assms)
    moreover have "invoke E dep get upd call s = rest s2"
      using Inr a b by (simp add: invoke_def rest_def bindE_def attempt_def)
    ultimately have "behind (snd (invoke E dep get upd call s)) = behind s2" by (simp add: frame_def)
    with service_rpc_behind [of E call s1] b s1 show ?thesis by simp
  qed
qed

text \<open>The services are as before, or one call with this operation and tenant has run on them.\<close>

definition covered :: "gateway_env \<Rightarrow> string \<Rightarrow> string \<Rightarrow> 'y order_session \<Rightarrow> 'y order_session \<Rightarrow> bool" where
  "covered E op tenant sv sv' \<longleftrightarrow> sv' = sv \<or>
     (\<exists>call. call_operation call = op \<and> call_tenant_id call = tenant \<and>
        sv' = snd (serve (ge_lib E) (incoming (ge_lib E) (ge_ctx E)) call sv))"

lemma covered_invoke:
  assumes "keeps_services upd" "call_operation call = op" "call_tenant_id call = tenant"
  shows "covered E op tenant (behind s) (behind (snd (invoke E dep get upd call s)))"
  using invoke_behind [OF assms(1), of E dep get call s] assms(2,3) unfolding covered_def by auto

lemma covered_refl [simp]: "covered E op tenant sv sv"
  by (simp add: covered_def)

text \<open>What the generic routes rely on in a message type: its string fields are fields.\<close>

locale message_laws =
  fixes M :: "'m message"
  assumes tenant_set: "m_tenant M (m_set_tenant M v m) = v"
    and tenant_key: "m_tenant M (m_set_key M v m) = m_tenant M m"
    and tenant_order: "m_tenant M (m_set_order M v m) = m_tenant M m"
begin

lemma decode_tenant: "decode M r claims m0 = Inr req \<Longrightarrow> m_tenant M req = cl_TenantID claims"
  by (auto simp: decode_def Let_def tenant_set tenant_key split: option.splits sum.splits if_splits)

lemma covered_route:
  assumes "keeps_services upd" "\<And>m. call_operation (call m) = op" "\<And>m. call_tenant_id (call m) = m_tenant M m"
  shows "covered E op (cl_TenantID claims) (behind s) (behind (snd (route E dep get upd M call (Some claims) r s)))"
  using assms decode_tenant [of r claims "m_zero M"]
  by (auto simp: route_def claims_or_401_def split: sum.split intro!: covered_invoke)

lemma covered_byID:
  assumes "keeps_services upd" "\<And>m. call_operation (call m) = op" "\<And>m. call_tenant_id (call m) = m_tenant M m"
  shows "covered E op (cl_TenantID claims) (behind s) (behind (snd (byID E dep get upd M call oid (Some claims) r s)))"
  using assms decode_tenant [of r claims "m_zero M"]
  by (auto simp: byID_def claims_or_401_def tenant_order split: sum.split intro!: covered_invoke)

end

interpretation adjust_msg: message_laws "msg_AdjustStock pj" for pj
  by unfold_locales (simp_all add: msg_AdjustStock_def)

interpretation reserve_stock_msg: message_laws "msg_ReserveStock pj" for pj
  by unfold_locales (simp_all add: msg_ReserveStock_def)

interpretation release_stock_msg: message_laws "msg_ReleaseStock pj" for pj
  by unfold_locales (simp_all add: msg_ReleaseStock_def)

interpretation confirm_msg: message_laws "msg_ConfirmStockAllocation pj" for pj
  by unfold_locales (simp_all add: msg_ConfirmStockAllocation_def)

interpretation fulfill_stock_msg: message_laws "msg_FulfillStock pj" for pj
  by unfold_locales (simp_all add: msg_FulfillStock_def)

interpretation unlock_msg: message_laws "msg_UnlockStockForAudit pj" for pj
  by unfold_locales (simp_all add: msg_UnlockStockForAudit_def)

interpretation reserve_msg: message_laws "msg_Reserve pj" for pj
  by unfold_locales (simp_all add: msg_Reserve_def)

interpretation release_msg: message_laws "msg_Release pj" for pj
  by unfold_locales (simp_all add: msg_Release_def)

interpretation allocate_msg: message_laws "msg_AllocateReservation pj" for pj
  by unfold_locales (simp_all add: msg_AllocateReservation_def)

interpretation create_msg: message_laws "msg_CreateOrder pj" for pj
  by unfold_locales (simp_all add: msg_CreateOrder_def)

interpretation get_msg: message_laws "msg_GetOrder pj" for pj
  by unfold_locales (simp_all add: msg_GetOrder_def)

interpretation cancel_msg: message_laws "msg_CancelOrder pj" for pj
  by unfold_locales (simp_all add: msg_CancelOrder_def)

interpretation fulfill_msg: message_laws "msg_FulfillOrder pj" for pj
  by unfold_locales (simp_all add: msg_FulfillOrder_def)

lemma msg_tenants:
  "m_tenant (msg_AdjustStock pj) = adj_tenant" "m_tenant (msg_ReserveStock pj) = rsv_tenant"
  "m_tenant (msg_ReleaseStock pj) = rls_tenant" "m_tenant (msg_ConfirmStockAllocation pj) = cnf_tenant"
  "m_tenant (msg_FulfillStock pj) = ful_tenant" "m_tenant (msg_UnlockStockForAudit pj) = unl_tenant"
  "m_tenant (msg_Reserve pj) = rq_tenant" "m_tenant (msg_Release pj) = rl_tenant"
  "m_tenant (msg_AllocateReservation pj) = ar_tenant" "m_tenant (msg_CreateOrder pj) = co_tenant"
  "m_tenant (msg_GetOrder pj) = go_tenant" "m_tenant (msg_CancelOrder pj) = can_tenant"
  "m_tenant (msg_FulfillOrder pj) = fo_tenant"
  by (simp_all add: msg_AdjustStock_def msg_ReserveStock_def msg_ReleaseStock_def msg_ConfirmStockAllocation_def
    msg_FulfillStock_def msg_UnlockStockForAudit_def msg_Reserve_def msg_Release_def msg_AllocateReservation_def
    msg_CreateOrder_def msg_GetOrder_def msg_CancelOrder_def msg_FulfillOrder_def)

lemma covered_get_order:
  "covered E OpOrderRead (cl_TenantID claims) (behind s) (behind (snd (get_order E oid (Some claims) r s)))"
  using get_msg.decode_tenant [of "ge_protojson E" r claims]
  by (auto simp: get_order_def claims_or_401_def msg_tenants split: sum.split intro!: covered_invoke)

lemma covered_handle:
  assumes "endpoint_operation ep = Some op"
  shows "covered E op (cl_TenantID claims) (behind s) (behind (snd (handle E ep (Some claims) r s)))"
  using assms
  by (cases ep)
     (auto intro!: adjust_msg.covered_route reserve_stock_msg.covered_route release_stock_msg.covered_route
       confirm_msg.covered_route fulfill_stock_msg.covered_route unlock_msg.covered_route reserve_msg.covered_route
       release_msg.covered_route allocate_msg.covered_route create_msg.covered_route cancel_msg.covered_byID
       fulfill_msg.covered_byID covered_get_order simp: msg_tenants)

lemma login_behind: "behind (snd (login E r s)) = behind s"
  using frame_behind_gateway(4) unfolding frame_def by blast

lemma handle_unclaimed: "behind (snd (handle E ep None r s)) = behind s"
  by (cases ep) (simp_all add: route_def byID_def get_order_def claims_or_401_def login_behind)

lemma mux_serve_unclaimed: "behind (snd (mux_serve E None r s)) = behind s"
  by (simp add: mux_serve_def handle_unclaimed split: option.split)

text \<open>Without an operation an endpoint does not touch the services, whoever asks.\<close>

lemma handle_open: "endpoint_operation ep = None \<Longrightarrow> behind (snd (handle E ep cl r s)) = behind s"
  by (cases ep) (simp_all add: login_behind)

lemma covered_mux_serve:
  assumes "case operationFor (r_method r) (r_path r) of None \<Rightarrow> True | Some op \<Rightarrow> Allows claims op"
  shows "\<exists>op. covered E op (cl_TenantID claims) (behind s) (behind (snd (mux_serve E (Some claims) r s))) \<and>
    (behind (snd (mux_serve E (Some claims) r s)) = behind s \<or> Allows claims op)"
proof (cases "mux_match (auth_users (ext s) \<noteq> []) (r_method r) (r_path r)")
  case None
  then show ?thesis by (simp add: mux_serve_def)
next
  case (Some ep)
  show ?thesis
  proof (cases "endpoint_operation ep")
    case None
    with Some show ?thesis by (simp add: mux_serve_def handle_open)
  next
    case op: (Some op)
    with covered_handle [OF op, of E claims s r] mux_match_operation [OF Some op] assms Some show ?thesis
      by (auto simp: mux_serve_def)
  qed
qed

lemma authorize_run:
  "\<exists>v s1. authorize E r s = (Inr v, s1) \<and> behind s1 = behind s \<and>
     (\<forall>claims. v = Inr claims \<longrightarrow> Verify (ge_mac E) (Verifier (ext s)) (clock (sched s (pos s)) * 1000)
        (trim_prefix ''Bearer '' (r_authorization r)) = Inr claims)"
  by (cases "trim_prefix ''Bearer '' (r_authorization r) = []")
     (auto simp: authorize_def now_ns_def bindE_def now_def returnE_def split: sum.splits)

lemma authorised:
  assumes "behind (snd (Middleware E r s)) \<noteq> behind s"
  shows "\<exists>claims call.
    Verify (ge_mac E) (Verifier (ext s)) (clock (sched s (pos s)) * 1000)
      (trim_prefix ''Bearer '' (r_authorization r)) = Inr claims \<and>
    Allows claims (call_operation call) \<and> call_tenant_id call = cl_TenantID claims \<and>
    behind (snd (Middleware E r s)) =
      snd (serve (ge_lib E) (incoming (ge_lib E) (ge_ctx E)) call (behind s))"
proof -
  have adm: "\<exists>a s1. admit E k s0 = (Inr a, s1) \<and> behind s1 = behind s0" for k and s0 :: "'a gateway_session"
    by (auto simp: admit_def now_ns_def bindE_def now_def split: prod.splits)
  have "r_path r \<noteq> ''/healthz'' \<and> r_path r \<noteq> ''/readyz''"
    using assms by (auto simp: Middleware_def mux_serve_unclaimed)
  moreover have "r_path r \<noteq> loginPath"
  proof
    assume "r_path r = loginPath"
    moreover obtain a s1 where "admit E (''login:'' @ loginHost (r_remote r)) s = (Inr a, s1)" "behind s1 = behind s"
      using adm by blast
    ultimately show False
      using assms by (cases a) (auto simp: Middleware_def bindE_def mux_serve_unclaimed loginPath_def)
  qed
  moreover obtain v s1 where v: "authorize E r s = (Inr v, s1)" "behind s1 = behind s"
    and ver: "\<forall>claims. v = Inr claims \<longrightarrow> Verify (ge_mac E) (Verifier (ext s)) (clock (sched s (pos s)) * 1000)
        (trim_prefix ''Bearer '' (r_authorization r)) = Inr claims"
    using authorize_run [of E r s] by blast
  moreover obtain claims where claims: "v = Inr claims"
    using assms calculation by (cases v) (auto simp: Middleware_def bindE_def)
  moreover have ok: "case operationFor (r_method r) (r_path r) of None \<Rightarrow> True | Some op \<Rightarrow> Allows claims op"
    using assms calculation by (auto simp: Middleware_def bindE_def split: option.splits if_splits)
  moreover obtain a s2 where "admit E (cl_TenantID claims) s1 = (Inr a, s2)" "behind s2 = behind s1"
    using adm by blast
  moreover have "a = None"
    using assms calculation by (cases a) (auto simp: Middleware_def bindE_def split: option.splits)
  ultimately have "snd (Middleware E r s) = snd (mux_serve E (Some claims) r s2)" "behind s2 = behind s"
    by (auto simp: Middleware_def bindE_def split: option.splits)
  with covered_mux_serve [OF ok, of E s2] assms ver claims show ?thesis
    by (auto simp: covered_def)
qed

section \<open>A sample gateway\<close>

text \<open>A decoder that knows one message, a gateway over the sample services and a request to adjust stock.\<close>

definition sample_protojson :: protojson where
  "sample_protojson =
     \<lparr>pj_AdjustStock = (\<lambda>m b. Inr \<lparr>adj_tenant = '''', adj_sku = ''a'', adj_wh = ''w'', adj_delta = 5, adj_reason = ''adjust'',
         adj_source = ''wms'', adj_key = ''''\<rparr>),
      pj_ReserveStock = (\<lambda>m b. Inl ''''), pj_ReleaseStock = (\<lambda>m b. Inl ''''),
      pj_ConfirmStockAllocation = (\<lambda>m b. Inl ''''), pj_FulfillStock = (\<lambda>m b. Inl ''''),
      pj_UnlockStockForAudit = (\<lambda>m b. Inl ''''), pj_Reserve = (\<lambda>m b. Inl ''''), pj_Release = (\<lambda>m b. Inl ''''),
      pj_AllocateReservation = (\<lambda>m b. Inl ''''), pj_CreateOrder = (\<lambda>m b. Inl ''''), pj_GetOrder = (\<lambda>m b. Inl ''''),
      pj_CancelOrder = (\<lambda>m b. Inl ''''), pj_FulfillOrder = (\<lambda>m b. Inl ''''), pj_out = (\<lambda>r. Some ''{}'')\<rparr>"

definition sample_gateway_env :: gateway_env where
  "sample_gateway_env =
     \<lparr>ge_mac = (\<lambda>k m. ''m''), ge_sha256 = id, ge_protojson = sample_protojson, ge_range = map fst,
      ge_duration = itoa, ge_no_match = (\<lambda>r. \<lparr>rs_status = 404, rs_headers = [], rs_body = ''''\<rparr>),
      ge_readyz = \<lparr>rs_status = 200, rs_headers = [], rs_body = ''''\<rparr>, ge_lib = sample_lib, ge_ctx = sample_ctx\<rparr>"

definition sample_core :: "unit Core" where
  "sample_core =
     \<lparr>Verifier = NewJWT ''secret'', Limiter = NewLimited 10 20 0, StockBreaker = New \<lparr>FailureThreshold = 0, Cooldown = 0\<rparr>,
      ReservationBreaker = New \<lparr>FailureThreshold = 0, Cooldown = 0\<rparr>, OrderBreaker = New \<lparr>FailureThreshold = 0, Cooldown = 0\<rparr>,
      BreakerGauge = Some [], auth_users = [], auth_ttl = 0, services = sample_saga\<rparr>"

definition sample_gateway :: "unit gateway_session" where
  "sample_gateway = calm_sess () sample_core"

definition sample_request :: "string \<Rightarrow> Request" where
  "sample_request tok =
     \<lparr>r_method = ''POST'', r_path = ''/v1/stock/adjust'', r_authorization = ''Bearer '' @ tok,
      r_idempotency_key = ''k1'', r_remote = ''10.0.0.1:99'', r_body = Some ''{}''\<rparr>"

definition sample_claims :: Claims where
  "sample_claims =
     \<lparr>cl_TenantID = ''t'', cl_Expiry = 900, cl_Subject = ''ann'', cl_Role = ''read-write'', cl_Scopes = [],
      cl_IssuedAt = 0, cl_NotBefore = 0\<rparr>"

definition sample_adjust_call :: service_call where
  "sample_adjust_call = StockCall (CallAdjustStock \<lparr>adj_tenant = ''t'', adj_sku = ''a'', adj_wh = ''w'', adj_delta = 5,
     adj_reason = ''adjust'', adj_source = ''wms'', adj_key = ''k1''\<rparr>)"

definition sample_admitted :: "unit gateway_session" where
  "sample_admitted = snd (admit sample_gateway_env ''t'' (sample_gateway\<lparr>pos := 1\<rparr>))"

definition stock_events_behind :: "unit gateway_session \<Rightarrow> nat" where
  "stock_events_behind s = length (stock_outbox (data (ext (res_service (ext (behind s))))))"

lemma sample_run:
  assumes "\<And>t. Verify (\<lambda>k m. ''m'') (NewJWT ''secret'') t tok = (if unix_seconds t < 900 then Inr sample_claims else Inl ErrUnauthenticated)"
    and "tok \<noteq> ''''"
  shows "Middleware sample_gateway_env (sample_request tok) sample_gateway =
    invoke sample_gateway_env ''stock'' StockBreaker StockBreaker_update sample_adjust_call sample_admitted"
proof -
  have "authorize sample_gateway_env (sample_request tok) sample_gateway = (Inr (Inr sample_claims), sample_gateway\<lparr>pos := 1\<rparr>)"
    using assms
    by (simp add: authorize_def sample_request_def trim_prefix_def sample_gateway_env_def sample_gateway_def calm_sess_def
        sample_core_def bindE_def now_ns_def now_def returnE_def calm_def unix_seconds_def)
  moreover have "operationFor ''POST'' ''/v1/stock/adjust'' = Some OpStockWrite" "Allows sample_claims OpStockWrite"
    by code_simp+
  moreover have "fst (admit sample_gateway_env ''t'' (sample_gateway\<lparr>pos := 1\<rparr>)) = Inr None" by code_simp
  then have "admit sample_gateway_env ''t'' (sample_gateway\<lparr>pos := 1\<rparr>) = (Inr None, sample_admitted)"
    by (simp add: sample_admitted_def prod_eq_iff)
  moreover have "mux_match lg ''POST'' ''/v1/stock/adjust'' = Some PostAdjust" for lg
    by (simp add: mux_match_def loginPath_def Let_def)
  moreover have "decode (msg_AdjustStock sample_protojson) (sample_request tok) sample_claims m = Inr
      \<lparr>adj_tenant = ''t'', adj_sku = ''a'', adj_wh = ''w'', adj_delta = 5, adj_reason = ''adjust'', adj_source = ''wms'',
       adj_key = ''k1''\<rparr>" for m
    by (simp add: decode_def msg_AdjustStock_def sample_protojson_def sample_request_def maxBodyBytes_def sample_claims_def)
  moreover have "r_method (sample_request tok) = ''POST''" "r_path (sample_request tok) = ''/v1/stock/adjust''"
    "ge_protojson sample_gateway_env = sample_protojson" "cl_TenantID sample_claims = ''t''"
    by (simp_all add: sample_request_def sample_gateway_env_def sample_claims_def)
  ultimately show ?thesis
    by (simp add: Middleware_def bindE_def mux_serve_def route_def claims_or_401_def loginPath_def sample_adjust_call_def)
qed

lemma sample_run_adjusts:
  "stock_events_behind sample_gateway = 0"
  "stock_events_behind (snd (invoke sample_gateway_env ''stock'' StockBreaker StockBreaker_update sample_adjust_call sample_admitted)) = 1"
  by code_simp+

lemma sample_token:
  "\<exists>tok. Issue (\<lambda>k m. ''m'') (NewJWT ''secret'') 0 ''t'' 0
       [\<lparr>io_Subject = ''ann'', io_Role = ''read-write'', io_Scopes = []\<rparr>] = Inr tok \<and> tok \<noteq> '''' \<and>
     (\<forall>t. Verify (\<lambda>k m. ''m'') (NewJWT ''secret'') t tok =
        (if unix_seconds t < 900 then Inr sample_claims else Inl ErrUnauthenticated))"
proof -
  let ?opt = "\<lparr>io_Subject = ''ann'', io_Role = ''read-write'', io_Scopes = []\<rparr>"
  have c: "issued_claims 0 ''t'' 0 ?opt = sample_claims"
    by (simp add: issued_claims_def sample_claims_def unix_seconds_def)
  have u: "utf8_claims sample_claims = sample_claims"
    by (rule utf8_claims_valid) code_simp
  obtain tok where tok: "Issue (\<lambda>k m. ''m'') (NewJWT ''secret'') 0 ''t'' 0 [?opt] = Inr tok"
    "\<forall>t. Verify (\<lambda>k m. ''m'') (NewJWT ''secret'') t tok =
        (if unix_seconds t < cl_Expiry sample_claims then Inr sample_claims else Inl ErrUnauthenticated)"
    using Verify_Issue [of "\<lambda>k m. ''m''" "NewJWT ''secret''" "''t''" 0 0 ?opt, unfolded c u]
    by (auto simp: sample_claims_def unix_seconds_def in_i64_def)
  have "Verify (\<lambda>k m. ''m'') (NewJWT ''secret'') 0 tok \<noteq> Inl ErrUnauthenticated"
    using tok(2) by (simp add: unix_seconds_def sample_claims_def)
  then have "tok \<noteq> ''''" by (auto simp: Verify_def cut_def)
  with tok show ?thesis by (auto simp: sample_claims_def)
qed

text \<open>
  C14: Nothing reaches the services unauthorised. If a request changes anything behind the gateway,
  then its bearer token verified at the time of the request, the claims of the token allow the operation of
  the one call that was made, and that call carries the tenant of the token, whatever the body, the
  path and the headers say.
\<close>

theorem gateway_calls_are_authorised:
  assumes "behind (snd (Middleware E r s)) \<noteq> behind s"
  shows "\<exists>claims call.
    Verify (ge_mac E) (Verifier (ext s)) (clock (sched s (pos s)) * 1000)
      (trim_prefix ''Bearer '' (r_authorization r)) = Inr claims \<and>
    Allows claims (call_operation call) \<and> call_tenant_id call = cl_TenantID claims \<and>
    behind (snd (Middleware E r s)) =
      snd (serve (ge_lib E) (incoming (ge_lib E) (ge_ctx E)) call (behind s))"
  using assms by (rule authorised)

theorem gateway_calls_are_authorised_witness:
  "\<exists>tok claims call.
     Issue (\<lambda>k m. ''m'') (NewJWT ''secret'') 0 ''t'' 0
       [\<lparr>io_Subject = ''ann'', io_Role = ''read-write'', io_Scopes = []\<rparr>] = Inr tok \<and>
     behind (snd (Middleware sample_gateway_env (sample_request tok) sample_gateway)) \<noteq> behind sample_gateway \<and>
     Allows claims (call_operation call) \<and> call_tenant_id call = cl_TenantID claims \<and>
     behind (snd (Middleware sample_gateway_env (sample_request tok) sample_gateway)) =
       snd (serve sample_lib (incoming sample_lib sample_ctx) call (behind sample_gateway))"
proof -
  obtain tok where tok: "Issue (\<lambda>k m. ''m'') (NewJWT ''secret'') 0 ''t'' 0
       [\<lparr>io_Subject = ''ann'', io_Role = ''read-write'', io_Scopes = []\<rparr>] = Inr tok"
    and "tok \<noteq> ''''" "\<forall>t. Verify (\<lambda>k m. ''m'') (NewJWT ''secret'') t tok =
        (if unix_seconds t < 900 then Inr sample_claims else Inl ErrUnauthenticated)"
    using sample_token by blast
  with sample_run [of tok] sample_run_adjusts
  have "stock_events_behind (snd (Middleware sample_gateway_env (sample_request tok) sample_gateway))
      \<noteq> stock_events_behind sample_gateway" by simp
  then have ne: "behind (snd (Middleware sample_gateway_env (sample_request tok) sample_gateway)) \<noteq> behind sample_gateway"
    by (auto simp: stock_events_behind_def)
  from gateway_calls_are_authorised [OF ne] tok ne show ?thesis
    by (auto simp: sample_gateway_env_def)
qed

section \<open>Tenant isolation through the gateway\<close>

lemma serve_bad_uuid:
  assumes "uuid_scan L (call_tenant_id call) = None" "\<And>n. call \<noteq> OrderCall (OpResume n)"
  shows "snd (serve L c call s) = s"
proof -
  have pu: "ParseUUID L tenant = Inl (PgErr (''invalid UUID '' @ tenant))" if "uuid_scan L tenant = None" for tenant
    using that by (simp add: ParseUUID_def)
  show ?thesis
  proof (cases call)
    case (StockCall k)
    then have "call_tenant L k = None" using assms(1) by (cases k) (simp_all add: call_tenant_def)
    with StockCall show ?thesis by (simp add: stock_call_def serve_bad_tenant case_prod_beta)
  next
    case (ReservationCall k)
    with assms(1) show ?thesis
      by (cases k) (simp_all add: res_call_def bindE_def Reserve_def Release_def AllocateReservation_def pu
          invalid_argument_def failE_def)
  next
    case (OrderCall k)
    with assms show ?thesis
      by (cases k) (auto simp: bindE_def CreateOrder_def GetOrder_def CancelOrder_def FulfillOrder_def pu
          invalid_argument_def failE_def)
  qed
qed

lemma serve_isolates:
  fixes s :: "'y order_session"
  assumes t: "uuid_scan L (call_tenant_id call) = Some t" "t \<noteq> u" and ids: "reservation_ids_unique s"
    and "\<And>n. call \<noteq> OrderCall (OpResume n)"
  shows "holdings u (snd (serve L c call s)) = holdings u s"
proof (cases call)
  case (StockCall k)
  then have "call_tenant L k = Some t" using t(1) by (cases k) (simp_all add: call_tenant_def)
  from keepsD [OF keeps_rows_of_serve [OF this t(2), of "rows_of u (data (ext (res_service (ext s))))" c],
      of "ext (res_service (ext s))"] StockCall
  show ?thesis by (simp add: stock_call_def holdings_def case_prod_beta)
next
  case (ReservationCall k)
  have "upholds sc (res_apart u X) (stock_apart u Y) (reservation_serve L c k :: ('y, _) resx)" for sc X Y
    using t ReservationCall
    by (cases k) (auto intro!: upholds_intros upholds_Reserve upholds_Release upholds_AllocateReservation)
  from upholds_callee_holdings [OF this ids] ReservationCall show ?thesis by (simp add: case_prod_beta)
next
  case (OrderCall k)
  have "upholds sc (order_apart u Z) (callees_apart u X Y) (order_serve L c k :: ('y, _) sagatx)" for sc Z X Y
    using t OrderCall assms(4)
    by (cases k) (auto intro!: upholds_intros upholds_CreateOrder upholds_order_handlers)
  from upholds_holdings [OF this ids] OrderCall show ?thesis by (simp add: case_prod_beta)
qed

text \<open>
  C3: Tenant isolation, end to end: a REST request, whatever its body and whatever fails on the way, leaves
  every row of a tenant in all three databases as it is, unless it carries a verified token of that
  tenant. Reservations have unique identifiers, as their primary key demands.
\<close>

theorem gateway_isolates_tenants:
  assumes "reservation_ids_unique (behind s)"
    and "\<And>claims. Verify (ge_mac E) (Verifier (ext s)) (clock (sched s (pos s)) * 1000)
        (trim_prefix ''Bearer '' (r_authorization r)) = Inr claims \<Longrightarrow>
      uuid_scan (ge_lib E) (cl_TenantID claims) \<noteq> Some u"
  shows "holdings u (behind (snd (Middleware E r s))) = holdings u (behind s)"
proof (cases "behind (snd (Middleware E r s)) = behind s")
  case False
  from authorised [OF this] obtain claims call where
    ver: "Verify (ge_mac E) (Verifier (ext s)) (clock (sched s (pos s)) * 1000)
        (trim_prefix ''Bearer '' (r_authorization r)) = Inr claims"
    and call: "call_tenant_id call = cl_TenantID claims"
    and eff: "behind (snd (Middleware E r s)) = snd (serve (ge_lib E) (incoming (ge_lib E) (ge_ctx E)) call (behind s))"
    by blast
  from ver have "cl_TenantID claims \<noteq> ''''" by (rule Verify_Inr)
  with call have resume: "call \<noteq> OrderCall (OpResume n)" for n by auto
  show ?thesis
  proof (cases "uuid_scan (ge_lib E) (cl_TenantID claims)")
    case None
    with serve_bad_uuid [OF _ resume, of "ge_lib E" "incoming (ge_lib E) (ge_ctx E)" "behind s"] call eff
    show ?thesis by simp
  next
    case (Some t)
    with assms(2) [OF ver] have "t \<noteq> u" by simp
    from serve_isolates [OF _ this assms(1) resume] Some call eff show ?thesis by simp
  qed
qed simp

theorem gateway_isolates_tenants_witness:
  "\<exists>tok. Issue (\<lambda>k m. ''m'') (NewJWT ''secret'') 0 ''t'' 0
       [\<lparr>io_Subject = ''ann'', io_Role = ''read-write'', io_Scopes = []\<rparr>] = Inr tok \<and>
     stock_events_behind (snd (Middleware sample_gateway_env (sample_request tok) sample_gateway)) = 1 \<and>
     holdings ''other'' (behind (snd (Middleware sample_gateway_env (sample_request tok) sample_gateway)))
       = holdings ''other'' (behind sample_gateway)"
proof -
  obtain tok where tok: "Issue (\<lambda>k m. ''m'') (NewJWT ''secret'') 0 ''t'' 0
       [\<lparr>io_Subject = ''ann'', io_Role = ''read-write'', io_Scopes = []\<rparr>] = Inr tok"
    "tok \<noteq> ''''" and ver: "\<forall>t. Verify (\<lambda>k m. ''m'') (NewJWT ''secret'') t tok =
        (if unix_seconds t < 900 then Inr sample_claims else Inl ErrUnauthenticated)"
    using sample_token by blast
  with sample_run [of tok] sample_run_adjusts
  have "stock_events_behind (snd (Middleware sample_gateway_env (sample_request tok) sample_gateway)) = 1" by simp
  moreover have "holdings ''other'' (behind (snd (Middleware sample_gateway_env (sample_request tok) sample_gateway)))
       = holdings ''other'' (behind sample_gateway)"
  proof (rule gateway_isolates_tenants)
    show "reservation_ids_unique (behind sample_gateway)" by code_simp
  next
    fix claims
    assume "Verify (ge_mac sample_gateway_env) (Verifier (ext sample_gateway)) (clock (sched sample_gateway (pos sample_gateway)) * 1000)
        (trim_prefix ''Bearer '' (r_authorization (sample_request tok))) = Inr claims"
    then have "claims = sample_claims"
      using ver by (simp add: sample_gateway_env_def sample_gateway_def calm_sess_def sample_core_def sample_request_def
          trim_prefix_def split: if_splits)
    then show "uuid_scan (ge_lib sample_gateway_env) (cl_TenantID claims) \<noteq> Some ''other''"
      by (simp add: sample_gateway_env_def sample_lib_def sample_claims_def)
  qed
  ultimately show ?thesis using tok by blast
qed

end
