(* ===== verification/Streaming.thy ===== *)
theory Streaming
  imports Json Database
begin

text \<open>
  \<^verbatim>\<open>pkg/streaming\<close>: the consumer loop with its bounded retry and its dead-letter queue, and
  \<^verbatim>\<open>cmd/dlqreplay\<close>, which publishes dead-lettered messages again. The handler is a function on a
  state of its own; what Kafka and the context do with one message (cancellation during a backoff, failing
  writes and commits, the clock) is an argument.
\<close>

section \<open>Messages and configuration\<close>

text \<open>\<open>km_value\<close> is \<^verbatim>\<open>None\<close> for a nil value (a tombstone).\<close>

record KafkaMessage =
  km_topic :: string
  km_key :: string
  km_value :: "string option"
  km_headers :: "(string \<times> string) list"
  km_offset :: int

text \<open>A Go \<^verbatim>\<open>map[string]string\<close>, listed by key as \<^verbatim>\<open>json.Marshal\<close> writes it.\<close>

type_synonym string_map = "(string \<times> string) list"

record Envelope =
  env_OriginalTopic :: string
  env_OriginalKey :: string
  env_Payload :: "string option"
  env_Headers :: string_map
  env_ConsumerGroup :: string
  env_Error :: string
  env_Attempts :: int
  env_FailedAtUnix :: int
  env_StackTrace :: string

record consumer_config =
  cc_Topic :: string
  cc_GroupID :: string
  cc_MaxRetries :: int
  cc_RetryBackoff :: int
  cc_DLQTopic :: string
  cc_PollTimeout :: int

definition consumer_defaults :: "consumer_config \<Rightarrow> consumer_config" where
  "consumer_defaults c =
     c\<lparr>cc_MaxRetries := (if cc_MaxRetries c \<le> 0 then 3 else cc_MaxRetries c),
       cc_RetryBackoff := (if cc_RetryBackoff c \<le> 0 then 200000000 else cc_RetryBackoff c),
       cc_DLQTopic := (if cc_DLQTopic c = '''' then cc_Topic c @ ''.dlq'' else cc_DLQTopic c),
       cc_PollTimeout := (if cc_PollTimeout c \<le> 0 then 500000000 else cc_PollTimeout c)\<rparr>"

section \<open>The envelope as text\<close>

definition last_value :: "(string \<times> string) list \<Rightarrow> string \<Rightarrow> string option" where
  "last_value hs k = map_of (rev hs) k"

definition header_map :: "(string \<times> string) list \<Rightarrow> string_map" where
  "header_map hs = map (\<lambda>k. (k, the (last_value hs k))) (sort (remdups (map fst hs)))"

definition marshal_bytes :: "string option \<Rightarrow> json" where
  "marshal_bytes v = (case v of None \<Rightarrow> JNull | Some b \<Rightarrow> JStr (b64_encode std_alphabet True b))"

definition marshal_envelope :: "Envelope \<Rightarrow> json" where
  "marshal_envelope e =
     JObj ([(''original_topic'', JStr (env_OriginalTopic e)), (''original_key'', JStr (env_OriginalKey e)),
            (''payload'', marshal_bytes (env_Payload e))]
       @ (if env_Headers e = [] then [] else [(''headers'', JObj (map (apsnd JStr) (env_Headers e)))])
       @ [(''consumer_group'', JStr (env_ConsumerGroup e)), (''error'', JStr (env_Error e)),
          (''attempts'', JInt (env_Attempts e)), (''failed_at_unix'', JInt (env_FailedAtUnix e)),
          (''stack_trace'', JStr (env_StackTrace e))])"

text \<open>An object into a map: every member is set, a later one replaces an earlier one.\<close>

fun as_map :: "string_map \<Rightarrow> json \<Rightarrow> string_map option" where
  "as_map x JNull = Some []"
| "as_map x (JObj fs) =
     (case all_some (map (\<lambda>(k, v). map_option (Pair k) (as_string '''' v)) fs) of
        None \<Rightarrow> None
      | Some ms \<Rightarrow> Some (header_map (x @ ms)))"
| "as_map x _ = None"

definition ParseEnvelope :: "string \<Rightarrow> Envelope option" where
  "ParseEnvelope b =
     (case json_parse b of
        None \<Rightarrow> None
      | Some j \<Rightarrow>
          if \<not> is_struct j then None
          else
            (case (decode_field as_string '''' ''original_topic'' j, decode_field as_string '''' ''original_key'' j,
                   decode_field as_bytes None ''payload'' j, decode_field as_map [] ''headers'' j,
                   decode_field as_string '''' ''consumer_group'' j, decode_field as_string '''' ''error'' j,
                   decode_field as_int64 0 ''attempts'' j, decode_field as_int64 0 ''failed_at_unix'' j,
                   decode_field as_string '''' ''stack_trace'' j) of
               (Some t, Some k, Some p, Some h, Some g, Some e, Some a, Some f, Some s) \<Rightarrow>
                 if t = '''' \<or> p = None then None
                 else Some \<lparr>env_OriginalTopic = t, env_OriginalKey = k, env_Payload = p, env_Headers = h,
                            env_ConsumerGroup = g, env_Error = e, env_Attempts = a, env_FailedAtUnix = f,
                            env_StackTrace = s\<rparr>
             | _ \<Rightarrow> None))"

section \<open>Processing one message\<close>

text \<open>
  What happens to one message: during which backoff the context is cancelled, whether writing to the
  dead-letter topic fails and whether committing the offset does (with a cancelled context or with a live
  one: \<^verbatim>\<open>CommitMessages\<close> is given the context whose cancellation ends the backoff), the clock, the stack trace.
\<close>

record delivery_env =
  de_cancelled :: "nat \<Rightarrow> bool"
  de_write_error :: "err option"
  de_commit_error :: "bool \<Rightarrow> err option"
  de_now :: int
  de_stack :: string

datatype outcome = Handled | CtxDone | WriteFailed err | DeadLettered nat err

record 'w consumer =
  co_state :: 'w
  co_dlq :: "KafkaMessage list"
  co_committed :: "KafkaMessage list"

type_synonym 'w handler = "KafkaMessage \<Rightarrow> 'w \<Rightarrow> (err + unit) \<times> 'w"

definition envelope_of :: "consumer_config \<Rightarrow> delivery_env \<Rightarrow> KafkaMessage \<Rightarrow> err \<Rightarrow> nat \<Rightarrow> Envelope" where
  "envelope_of cfg D msg cause attempts =
     \<lparr>env_OriginalTopic = km_topic msg, env_OriginalKey = km_key msg, env_Payload = km_value msg,
      env_Headers = header_map (km_headers msg), env_ConsumerGroup = cc_GroupID cfg, env_Error = err_text cause,
      env_Attempts = int attempts, env_FailedAtUnix = de_now D, env_StackTrace = de_stack D\<rparr>"

definition deadLetter ::
  "consumer_config \<Rightarrow> delivery_env \<Rightarrow> KafkaMessage \<Rightarrow> err \<Rightarrow> nat \<Rightarrow> 'w consumer \<Rightarrow> outcome \<times> 'w consumer" where
  "deadLetter cfg D msg cause attempts s =
     (case de_write_error D of
        Some e \<Rightarrow> (WriteFailed e, s)
      | None \<Rightarrow>
          let dlqMsg = \<lparr>km_topic = cc_DLQTopic cfg, km_key = km_key msg,
                        km_value = Some (json_print (marshal_envelope (envelope_of cfg D msg cause attempts))),
                        km_headers = [], km_offset = int (length (co_dlq s))\<rparr> in
          (DeadLettered attempts cause, s\<lparr>co_dlq := co_dlq s @ [dlqMsg]\<rparr>))"

text \<open>The retry loop at attempt \<open>k\<close>, with \<open>left\<close> attempts after this one.\<close>

fun attempts_from ::
  "'w handler \<Rightarrow> delivery_env \<Rightarrow> KafkaMessage \<Rightarrow> nat \<Rightarrow> nat \<Rightarrow> 'w consumer \<Rightarrow> (outcome + err) \<times> 'w consumer" where
  "attempts_from h D msg left k s =
     (if 0 < k \<and> de_cancelled D k then (Inl CtxDone, s)
      else case h msg (co_state s) of
             (Inr _, w) \<Rightarrow> (Inl Handled, s\<lparr>co_state := w\<rparr>)
           | (Inl e, w) \<Rightarrow>
               (case left of
                  0 \<Rightarrow> (Inr e, s\<lparr>co_state := w\<rparr>)
                | Suc n \<Rightarrow> attempts_from h D msg n (k + 1) (s\<lparr>co_state := w\<rparr>)))"

definition process ::
  "consumer_config \<Rightarrow> 'w handler \<Rightarrow> delivery_env \<Rightarrow> KafkaMessage \<Rightarrow> 'w consumer \<Rightarrow> outcome \<times> 'w consumer" where
  "process cfg h D msg s =
     (case attempts_from h D msg (nat (cc_MaxRetries cfg)) 0 s of
        (Inl r, s') \<Rightarrow> (r, s')
      | (Inr lastErr, s') \<Rightarrow> deadLetter cfg D msg lastErr (nat (cc_MaxRetries cfg) + 1) s')"

text \<open>
  One round of \<^verbatim>\<open>Run\<close>: whatever \<open>process\<close> reports is logged, then the offset is committed if that is still possible.
\<close>

definition consume ::
  "consumer_config \<Rightarrow> 'w handler \<Rightarrow> delivery_env \<Rightarrow> KafkaMessage \<Rightarrow> 'w consumer \<Rightarrow> outcome \<times> 'w consumer" where
  "consume cfg h D msg s =
     (case process cfg h D msg s of
        (r, s') \<Rightarrow>
          (r, if de_commit_error D (r = CtxDone) = None then s'\<lparr>co_committed := co_committed s' @ [msg]\<rparr> else s'))"

text \<open>\<^verbatim>\<open>Run\<close> on what the reader fetches until the context is cancelled; failed fetches are only logged.\<close>

fun run_consumer ::
  "consumer_config \<Rightarrow> 'w handler \<Rightarrow> (delivery_env \<times> KafkaMessage) option list \<Rightarrow> 'w consumer \<Rightarrow> 'w consumer" where
  "run_consumer cfg h [] s = s"
| "run_consumer cfg h (None # fs) s = run_consumer cfg h fs s"
| "run_consumer cfg h (Some (D, msg) # fs) s = run_consumer cfg h fs (snd (consume cfg h D msg s))"

section \<open>Trace headers\<close>

definition carrier_Get :: "(string \<times> string) list \<Rightarrow> string \<Rightarrow> string" where
  "carrier_Get hs key = (case map_of hs key of None \<Rightarrow> '''' | Some v \<Rightarrow> v)"

fun carrier_Set :: "string \<Rightarrow> string \<Rightarrow> (string \<times> string) list \<Rightarrow> (string \<times> string) list" where
  "carrier_Set key val [] = [(key, val)]"
| "carrier_Set key val ((k, v) # hs) = (if k = key then (k, val) # hs else (k, v) # carrier_Set key val hs)"

definition carrier_Keys :: "(string \<times> string) list \<Rightarrow> string list" where
  "carrier_Keys hs = map fst hs"

lemma carrier_Get_Set: "carrier_Get (carrier_Set key val hs) k = (if k = key then val else carrier_Get hs k)"
  by (induction key val hs rule: carrier_Set.induct) (auto simp: carrier_Get_def)

section \<open>Replaying dead letters\<close>

text \<open>
  \<^verbatim>\<open>readAll\<close> on the reader's answers: a message, a failed fetch, or a failed fetch after the parent
  context ended. It stops at the third failure in a row.
\<close>

datatype fetch = Fetched KafkaMessage | FetchFailed | ParentDone

fun readAll :: "nat \<Rightarrow> fetch list \<Rightarrow> KafkaMessage list" where
  "readAll idle [] = []"
| "readAll idle (Fetched m # fs) = m # readAll 0 fs"
| "readAll idle (FetchFailed # fs) = (if 3 \<le> idle + 1 then [] else readAll (idle + 1) fs)"
| "readAll idle (ParentDone # fs) = []"

record replay_state =
  rp_published :: "KafkaMessage list"
  rp_replayed :: nat
  rp_skipped :: nat

definition replay_message :: "(string_map \<Rightarrow> string_map) \<Rightarrow> Envelope \<Rightarrow> KafkaMessage" where
  "replay_message visit env =
     \<lparr>km_topic = env_OriginalTopic env, km_key = env_OriginalKey env, km_value = env_Payload env,
      km_headers = visit (env_Headers env), km_offset = 0\<rparr>"

text \<open>
  The replay loop. \<open>visit\<close> is the order in which the header map is visited and \<open>write_ok\<close> whether a
  message can be produced; the first failure ends the process (\<^verbatim>\<open>None\<close>).
\<close>

definition skip_one :: "replay_state \<Rightarrow> replay_state" where
  "skip_one s = s\<lparr>rp_skipped := rp_skipped s + 1\<rparr>"

fun replay ::
  "(string_map \<Rightarrow> string_map) \<Rightarrow> (KafkaMessage \<Rightarrow> bool) \<Rightarrow> string \<Rightarrow> bool \<Rightarrow> KafkaMessage list \<Rightarrow> replay_state
     \<Rightarrow> replay_state option" where
  "replay visit write_ok key dryRun [] s = Some s"
| "replay visit write_ok key dryRun (m # ms) s =
     (case (case km_value m of None \<Rightarrow> None | Some v \<Rightarrow> ParseEnvelope v) of
        None \<Rightarrow> replay visit write_ok key dryRun ms (skip_one s)
      | Some env \<Rightarrow>
          if key \<noteq> '''' \<and> env_OriginalKey env \<noteq> key then replay visit write_ok key dryRun ms (skip_one s)
          else if dryRun then replay visit write_ok key dryRun ms (s\<lparr>rp_replayed := rp_replayed s + 1\<rparr>)
          else if write_ok (replay_message visit env)
          then replay visit write_ok key dryRun ms
                 (s\<lparr>rp_published := rp_published s @ [replay_message visit env], rp_replayed := rp_replayed s + 1\<rparr>)
          else None)"

section \<open>Envelopes round-trip\<close>

lemma distinct_map_of_rev: "distinct (map fst xs) \<Longrightarrow> map_of (rev xs) = map_of xs"
proof (induction xs)
  case (Cons x xs)
  moreover from Cons.prems have "map_of xs (fst x) = None" by (simp add: map_of_eq_None_iff)
  ultimately show ?case by (cases x) (auto simp: map_add_def fun_eq_iff split: option.split)
qed simp

lemma last_value_header_map: "last_value (header_map hs) = last_value hs"
proof
  fix k
  have d: "distinct (map fst (header_map hs))" by (simp add: header_map_def comp_def)
  have "map_of (rev hs) k = map_of (header_map hs) k"
  proof (cases "map_of (rev hs) k")
    case None
    then have "k \<notin> fst ` set (header_map hs)" by (force simp: header_map_def map_of_eq_None_iff)
    with None show ?thesis by (metis map_of_eq_None_iff)
  next
    case (Some v)
    then have "(k, v) \<in> set (rev hs)" by (rule map_of_SomeD)
    then have "k \<in> set (map fst hs)" by force
    with Some have "(k, v) \<in> set (header_map hs)" by (force simp: header_map_def last_value_def)
    with d have "map_of (header_map hs) k = Some v" by simp
    with Some show ?thesis by simp
  qed
  moreover have "map_of (rev (header_map hs)) k = map_of (header_map hs) k"
    using distinct_map_of_rev [OF d] by simp
  ultimately show "last_value (header_map hs) k = last_value hs k" by (simp add: last_value_def)
qed

lemma fst_set_header_map: "set (map fst (header_map hs)) = set (map fst hs)"
  by (force simp: header_map_def)

lemma header_map_idem: "header_map (header_map hs) = header_map hs"
proof -
  have "map fst (header_map hs) = sort (remdups (map fst hs))" by (simp add: header_map_def comp_def)
  then have "sort (remdups (map fst (header_map hs))) = sort (remdups (map fst hs))"
    by (simp add: distinct_remdups_id sorted_sort_id)
  then show ?thesis by (simp add: header_map_def [of "header_map hs"] last_value_header_map) (simp add: header_map_def)
qed

lemma envelope_names [simp]:
  "to_lower ''original_topic'' = ''original_topic''" "to_lower ''original_key'' = ''original_key''"
  "to_lower ''payload'' = ''payload''" "to_lower ''headers'' = ''headers''"
  "to_lower ''consumer_group'' = ''consumer_group''" "to_lower ''error'' = ''error''"
  "to_lower ''attempts'' = ''attempts''" "to_lower ''failed_at_unix'' = ''failed_at_unix''"
  "to_lower ''stack_trace'' = ''stack_trace''"
  by code_simp+

lemma as_map_marshal: "as_map [] (JObj (map (apsnd JStr) hs)) = Some (header_map hs)"
proof -
  have "all_some (map (\<lambda>(k, v). map_option (Pair k) (as_string '''' v)) (map (apsnd JStr) hs)) = Some hs"
    by (induction hs) auto
  then show ?thesis by simp
qed

lemma integral_marshal_envelope: "integral (marshal_envelope e)"
  by (auto simp: marshal_envelope_def marshal_bytes_def list_all_iff split: option.split)

lemma envelope_names_utf8 [simp]:
  "fix_utf8 ''original_topic'' = ''original_topic''" "fix_utf8 ''original_key'' = ''original_key''"
  "fix_utf8 ''payload'' = ''payload''" "fix_utf8 ''headers'' = ''headers''"
  "fix_utf8 ''consumer_group'' = ''consumer_group''" "fix_utf8 ''error'' = ''error''"
  "fix_utf8 ''attempts'' = ''attempts''" "fix_utf8 ''failed_at_unix'' = ''failed_at_unix''"
  "fix_utf8 ''stack_trace'' = ''stack_trace''"
  by (simp_all add: fix_utf8_ascii byte_def)

text \<open>The strings of an envelope as they are printed; the payload is base64 and keeps every byte.\<close>

definition utf8_envelope :: "Envelope \<Rightarrow> Envelope" where
  "utf8_envelope e =
     e\<lparr>env_OriginalTopic := fix_utf8 (env_OriginalTopic e), env_OriginalKey := fix_utf8 (env_OriginalKey e),
       env_Headers := map (map_prod fix_utf8 fix_utf8) (env_Headers e), env_ConsumerGroup := fix_utf8 (env_ConsumerGroup e),
       env_Error := fix_utf8 (env_Error e), env_StackTrace := fix_utf8 (env_StackTrace e)\<rparr>"

lemma json_fix_envelope: "json_fix (marshal_envelope e) = marshal_envelope (utf8_envelope e)"
  by (auto simp: marshal_envelope_def utf8_envelope_def marshal_bytes_def fix_utf8_ascii b64_encode_ascii
    split: option.split)

lemma ParseEnvelope_marshal:
  assumes "in_i64 (env_Attempts e)" "in_i64 (env_FailedAtUnix e)"
  shows "ParseEnvelope (json_print (marshal_envelope e)) =
    (if env_OriginalTopic e = '''' \<or> env_Payload e = None then None
     else Some ((utf8_envelope e)\<lparr>env_Headers := header_map (env_Headers (utf8_envelope e))\<rparr>))"
proof -
  let ?e = "utf8_envelope e"
  let ?j = "marshal_envelope ?e"
  have i: "in_i64 (env_Attempts ?e)" "in_i64 (env_FailedAtUnix ?e)" using assms by (simp_all add: utf8_envelope_def)
  then have "decode_field as_string '''' ''original_topic'' ?j = Some (env_OriginalTopic ?e)"
    "decode_field as_string '''' ''original_key'' ?j = Some (env_OriginalKey ?e)"
    "decode_field as_bytes None ''payload'' ?j = Some (env_Payload ?e)"
    "decode_field as_string '''' ''consumer_group'' ?j = Some (env_ConsumerGroup ?e)"
    "decode_field as_string '''' ''error'' ?j = Some (env_Error ?e)"
    "decode_field as_int64 0 ''attempts'' ?j = Some (env_Attempts ?e)"
    "decode_field as_int64 0 ''failed_at_unix'' ?j = Some (env_FailedAtUnix ?e)"
    "decode_field as_string '''' ''stack_trace'' ?j = Some (env_StackTrace ?e)"
    by (simp_all add: marshal_envelope_def marshal_bytes_def decode_field_def split: option.split)
  moreover have "decode_field as_map [] ''headers'' ?j = Some (header_map (env_Headers ?e))"
    using as_map_marshal [of "env_Headers ?e"]
    by (simp add: marshal_envelope_def decode_field_def header_map_def [of "[]"] del: as_map.simps)
  moreover have "is_struct ?j" by (simp add: marshal_envelope_def)
  moreover have "json_parse (json_print (marshal_envelope e)) = Some ?j"
    by (simp add: integral_marshal_envelope json_fix_envelope)
  ultimately show ?thesis by (simp add: ParseEnvelope_def) (simp add: utf8_envelope_def)
qed

text \<open>The topic, the key and the headers of a message are UTF-8.\<close>

definition utf8_message :: "KafkaMessage \<Rightarrow> bool" where
  "utf8_message msg \<longleftrightarrow> list_all valid_utf8 (km_topic msg # km_key msg # map fst (km_headers msg) @ map snd (km_headers msg))"

lemma set_header_map: "set (header_map hs) \<subseteq> set hs"
proof
  fix x assume "x \<in> set (header_map hs)"
  then obtain k where k: "k \<in> set (map fst hs)" "x = (k, the (last_value hs k))" by (auto simp: header_map_def)
  then obtain v where "last_value hs k = Some v"
    by (metis last_value_def map_of_eq_None_iff not_None_eq set_map set_rev)
  with k(2) show "x \<in> set hs" by (auto simp: last_value_def dest!: map_of_SomeD)
qed

lemma last_value_visit:
  assumes "mset (visit (header_map hs)) = mset (header_map hs)"
  shows "last_value (visit (header_map hs)) = last_value hs"
proof -
  have "distinct (map fst (header_map hs))" by (simp add: header_map_def comp_def)
  moreover have "mset (map fst (visit (header_map hs))) = mset (map fst (header_map hs))"
    using assms by (simp only: mset_map)
  ultimately have d: "distinct (map fst (visit (header_map hs)))" "distinct (map fst (header_map hs))"
    by (metis mset_eq_imp_distinct_iff)+
  have "map_of (visit (header_map hs)) = map_of (header_map hs)"
    using d assms by (metis map_of_inject_set mset_eq_setD)
  with d show ?thesis
    unfolding last_value_header_map [of hs, symmetric] last_value_def by (simp add: distinct_map_of_rev)
qed

lemma replayed_headers:
  assumes "\<And>hs. mset (visit hs) = mset hs" "utf8_message msg"
  shows "last_value (visit (header_map (map (map_prod fix_utf8 fix_utf8) (header_map (km_headers msg))))) =
    last_value (km_headers msg)"
proof -
  have "map (map_prod fix_utf8 fix_utf8) (header_map (km_headers msg)) = header_map (km_headers msg)"
    using assms(2) set_header_map [of "km_headers msg"]
    by (intro map_idI) (force simp: utf8_message_def list_all_iff fix_utf8_valid)
  then show ?thesis by (simp add: last_value_visit assms(1) last_value_header_map)
qed

text \<open>
  C28: A dead letter can be replayed. Publishing the dead-letter message of a failed message again gives
  exactly one message, with the payload byte for byte. When the topic, the key and the headers are valid
  UTF-8, it is on the original topic, with the same key and, under every header name, the last of the
  original values of that name, whatever order the header map is visited in; otherwise each byte outside
  UTF-8 has become U+FFFD. A tombstone is the exception: its dead letter is skipped by the replay. Needs a
  dead letter and a replay that can be written, a topic name and a retry count and time within 64 bits.
\<close>

theorem dead_letter_replays_original:
  assumes "km_topic msg \<noteq> ''''" "in_i64 (int n)" "in_i64 (de_now D)" "de_write_error D = None"
    and "\<And>m. write_ok m" "\<And>hs. mset (visit hs) = mset hs" "key = '''' \<or> key = fix_utf8 (km_key msg)"
  shows "\<exists>dlqMsg. co_dlq (snd (deadLetter cfg D msg cause n s)) = co_dlq s @ [dlqMsg] \<and>
    (case km_value msg of
       None \<Rightarrow> replay visit write_ok key False [dlqMsg] r = Some (skip_one r)
     | Some v \<Rightarrow> \<exists>m.
         replay visit write_ok key False [dlqMsg] r =
           Some (r\<lparr>rp_published := rp_published r @ [m], rp_replayed := rp_replayed r + 1\<rparr>) \<and>
         km_value m = Some v \<and> km_topic m = fix_utf8 (km_topic msg) \<and> km_key m = fix_utf8 (km_key msg) \<and>
         (utf8_message msg \<longrightarrow> km_topic m = km_topic msg \<and> km_key m = km_key msg \<and>
            last_value (km_headers m) = last_value (km_headers msg)))"
proof -
  let ?e = "envelope_of cfg D msg cause n"
  let ?d = "\<lparr>km_topic = cc_DLQTopic cfg, km_key = km_key msg, km_value = Some (json_print (marshal_envelope ?e)),
             km_headers = [], km_offset = int (length (co_dlq s))\<rparr>"
  let ?r = "(utf8_envelope ?e)\<lparr>env_Headers := header_map (env_Headers (utf8_envelope ?e))\<rparr>"
  have d: "co_dlq (snd (deadLetter cfg D msg cause n s)) = co_dlq s @ [?d]"
    using assms(4) by (simp add: deadLetter_def Let_def)
  have p: "ParseEnvelope (json_print (marshal_envelope ?e)) = (if km_value msg = None then None else Some ?r)"
    using ParseEnvelope_marshal [of ?e] assms(1-3) by (simp add: envelope_of_def)
  show ?thesis
  proof (cases "km_value msg")
    case None
    with p have "replay visit write_ok key False [?d] r = Some (skip_one r)" by simp
    with None d show ?thesis by auto
  next
    case (Some v)
    have "replay visit write_ok key False [?d] r =
        Some (r\<lparr>rp_published := rp_published r @ [replay_message visit ?r], rp_replayed := rp_replayed r + 1\<rparr>)"
      using p Some assms(5,7) by (auto simp: envelope_of_def utf8_envelope_def)
    moreover have "km_value (replay_message visit ?r) = Some v" "km_topic (replay_message visit ?r) = fix_utf8 (km_topic msg)"
      "km_key (replay_message visit ?r) = fix_utf8 (km_key msg)"
      using Some by (simp_all add: replay_message_def envelope_of_def utf8_envelope_def)
    moreover have "last_value (km_headers (replay_message visit ?r)) = last_value (km_headers msg)" if "utf8_message msg"
      using replayed_headers [OF assms(6) that] by (simp add: replay_message_def envelope_of_def utf8_envelope_def)
    ultimately show ?thesis using Some d by (auto simp: utf8_message_def fix_utf8_valid simp del: replay.simps)
  qed
qed

definition sample_message :: KafkaMessage where
  "sample_message = \<lparr>km_topic = ''order.events'', km_key = ''t:o'', km_value = Some ''{}'',
     km_headers = [(''id'', ''1''), (''id'', ''2'')], km_offset = 7\<rparr>"

definition sample_delivery :: "err option \<Rightarrow> delivery_env" where
  "sample_delivery we = \<lparr>de_cancelled = (\<lambda>_. False), de_write_error = we, de_commit_error = (\<lambda>_. None), de_now = 1700000000,
     de_stack = ''trace''\<rparr>"

definition sample_consumer :: consumer_config where
  "sample_consumer = consumer_defaults \<lparr>cc_Topic = ''order.events'', cc_GroupID = ''g'', cc_MaxRetries = 0, cc_RetryBackoff = 0,
     cc_DLQTopic = '''', cc_PollTimeout = 0\<rparr>"

definition idle_consumer :: "unit consumer" where
  "idle_consumer = \<lparr>co_state = (), co_dlq = [], co_committed = []\<rparr>"

theorem dead_letter_replays_original_witness:
  "\<exists>dlqMsg m.
    co_dlq (snd (deadLetter sample_consumer (sample_delivery None) sample_message (PgErr ''down'') 4 idle_consumer)) = [dlqMsg] \<and>
    replay rev (\<lambda>_. True) ''t:o'' False [dlqMsg] \<lparr>rp_published = [], rp_replayed = 0, rp_skipped = 0\<rparr> =
      Some \<lparr>rp_published = [m], rp_replayed = 1, rp_skipped = 0\<rparr> \<and>
    km_topic m = ''order.events'' \<and> km_key m = ''t:o'' \<and> km_value m = Some ''{}'' \<and> last_value (km_headers m) ''id'' = Some ''2''"
proof -
  have "last_value [(''id'', ''1''), (''id'', ''2'')] ''id'' = Some ''2''" by (simp add: last_value_def)
  moreover have "utf8_message sample_message" "fix_utf8 ''t:o'' = ''t:o''"
    by (simp_all add: utf8_message_def sample_message_def valid_utf8_ascii fix_utf8_ascii byte_def)
  ultimately show ?thesis
    using dead_letter_replays_original [of sample_message 4 "sample_delivery None" "\<lambda>_. True" rev "''t:o''" sample_consumer
        "PgErr ''down''" idle_consumer "\<lparr>rp_published = [], rp_replayed = 0, rp_skipped = 0\<rparr>"]
    by (auto simp: sample_message_def sample_delivery_def idle_consumer_def in_i64_def simp del: replay.simps)
qed

section \<open>What a commit means\<close>

text \<open>The handler's state after a number of calls, and that all of them failed.\<close>

primrec after_calls :: "'w handler \<Rightarrow> KafkaMessage \<Rightarrow> nat \<Rightarrow> 'w \<Rightarrow> 'w" where
  "after_calls h msg 0 w = w"
| "after_calls h msg (Suc n) w = after_calls h msg n (snd (h msg w))"

primrec all_fail :: "'w handler \<Rightarrow> KafkaMessage \<Rightarrow> nat \<Rightarrow> 'w \<Rightarrow> bool" where
  "all_fail h msg 0 w \<longleftrightarrow> True"
| "all_fail h msg (Suc n) w \<longleftrightarrow> isl (fst (h msg w)) \<and> all_fail h msg n (snd (h msg w))"

lemma all_fail_less: "all_fail h msg n w \<Longrightarrow> k \<le> n \<Longrightarrow> all_fail h msg k w"
proof (induction n arbitrary: k w)
  case (Suc n)
  then show ?case by (cases k) auto
qed simp

declare attempts_from.simps [simp del]

lemma attempts_from_cancelled: "0 < k \<Longrightarrow> de_cancelled D k \<Longrightarrow> attempts_from h D msg left k s = (Inl CtxDone, s)"
  by (simp add: attempts_from.simps)

lemma attempts_from_step:
  assumes "\<not> (0 < k \<and> de_cancelled D k)"
  shows "h msg (co_state s) = (Inr u, w) \<Longrightarrow> attempts_from h D msg left k s = (Inl Handled, s\<lparr>co_state := w\<rparr>)"
    "h msg (co_state s) = (Inl e, w) \<Longrightarrow> attempts_from h D msg 0 k s = (Inr e, s\<lparr>co_state := w\<rparr>)"
    "h msg (co_state s) = (Inl e, w) \<Longrightarrow>
       attempts_from h D msg (Suc n) k s = attempts_from h D msg n (Suc k) (s\<lparr>co_state := w\<rparr>)"
  using assms by (subst attempts_from.simps; auto)+

definition attempts_result ::
  "'w handler \<Rightarrow> delivery_env \<Rightarrow> KafkaMessage \<Rightarrow> nat \<Rightarrow> nat \<Rightarrow> 'w \<Rightarrow> (outcome + err) \<Rightarrow> 'w \<Rightarrow> bool" where
  "attempts_result h D msg left k w r w' \<longleftrightarrow>
     (r = Inl Handled \<and> (\<exists>n \<le> left. all_fail h msg n w \<and> h msg (after_calls h msg n w) = (Inr (), w'))) \<or>
     (r = Inl CtxDone \<and> (\<exists>n \<le> left. all_fail h msg n w \<and> 0 < k + n \<and> de_cancelled D (k + n) \<and> w' = after_calls h msg n w)) \<or>
     (\<exists>e. r = Inr e \<and> all_fail h msg (Suc left) w \<and> w' = after_calls h msg (Suc left) w \<and>
        h msg (after_calls h msg left w) = (Inl e, w'))"

lemma attempts_result_Suc:
  assumes "attempts_result h D msg left (Suc k) w' r w''" "h msg w = (Inl e, w')"
  shows "attempts_result h D msg (Suc left) k w r w''"
proof -
  from assms(1) consider
      n where "r = Inl Handled" "n \<le> left" "all_fail h msg n w'" "h msg (after_calls h msg n w') = (Inr (), w'')"
    | n where "r = Inl CtxDone" "n \<le> left" "all_fail h msg n w'" "de_cancelled D (Suc k + n)" "w'' = after_calls h msg n w'"
    | e where "r = Inr e" "all_fail h msg (Suc left) w'" "w'' = after_calls h msg (Suc left) w'"
        "h msg (after_calls h msg left w') = (Inl e, w'')"
    unfolding attempts_result_def by blast
  then show ?thesis
  proof cases
    case (1 n)
    with assms(2) have "Suc n \<le> Suc left \<and> all_fail h msg (Suc n) w \<and> h msg (after_calls h msg (Suc n) w) = (Inr (), w'')"
      by simp
    with 1(1) show ?thesis unfolding attempts_result_def by blast
  next
    case (2 n)
    with assms(2) have "Suc n \<le> Suc left \<and> all_fail h msg (Suc n) w \<and> 0 < k + Suc n \<and> de_cancelled D (k + Suc n) \<and>
        w'' = after_calls h msg (Suc n) w" by simp
    with 2(1) show ?thesis unfolding attempts_result_def by blast
  next
    case (3 e)
    with assms(2) show ?thesis unfolding attempts_result_def by simp
  qed
qed

lemma attempts_from_spec:
  "attempts_from h D msg left k s = (r, s') \<Longrightarrow>
   s' = s\<lparr>co_state := co_state s'\<rparr> \<and> attempts_result h D msg left k (co_state s) r (co_state s')"
proof (induction left arbitrary: k s)
  case 0
  obtain a w where h: "h msg (co_state s) = (a, w)" by force
  show ?case
  proof (cases "0 < k \<and> de_cancelled D k")
    case True
    with 0 show ?thesis by (auto simp: attempts_from_cancelled attempts_result_def)
  next
    case False
    with 0 h show ?thesis
      by (cases a) (auto simp: attempts_from_step [where s = s] attempts_result_def)
  qed
next
  case (Suc left)
  obtain a w where h: "h msg (co_state s) = (a, w)" by force
  show ?case
  proof (cases "0 < k \<and> de_cancelled D k")
    case True
    with Suc.prems show ?thesis
      by (auto simp: attempts_from_cancelled attempts_result_def intro!: exI [of _ 0])
  next
    case False
    show ?thesis
    proof (cases a)
      case (Inl e)
      with h Suc.prems attempts_from_step(3) [OF False, of h msg s e w left] have
        "attempts_from h D msg left (Suc k) (s\<lparr>co_state := w\<rparr>) = (r, s')" by simp
      from Suc.IH [OF this] attempts_result_Suc [of h D msg left k w r "co_state s'" "co_state s" e] h Inl
      show ?thesis by simp
    next
      case (Inr u)
      with h Suc.prems attempts_from_step(1) [OF False, of h msg s u w "Suc left"] show ?thesis
        by (auto simp: attempts_result_def intro!: exI [of _ 0])
    qed
  qed
qed

text \<open>
  C29: What happens to a message before its offset is committed. It is handled, by one of at most
  \<^verbatim>\<open>MaxRetries + 1\<close> attempts, all earlier ones having failed; or all of them fail and its
  envelope, with the last error, is appended to the dead-letter topic; or all of them fail and the dead
  letter cannot be written; or the context ends during a backoff, after some failed attempts. In every case
  the handler's state is that of exactly these attempts. The offset is committed whatever the outcome,
  unless the commit itself fails (which after a cancellation it may, having the same context), so in the
  last two cases the message can be lost.
\<close>

theorem commit_follows_outcome:
  assumes "consume (consumer_defaults cfg) h D msg s = (r, s')"
  defines "n \<equiv> nat (cc_MaxRetries (consumer_defaults cfg))"
  shows "co_committed s' = (if de_commit_error D (r = CtxDone) = None then co_committed s @ [msg] else co_committed s) \<and>
    1 \<le> n \<and>
    (case r of
       Handled \<Rightarrow> co_dlq s' = co_dlq s \<and>
         (\<exists>k \<le> n. all_fail h msg k (co_state s) \<and> h msg (after_calls h msg k (co_state s)) = (Inr (), co_state s'))
     | DeadLettered m e \<Rightarrow> m = n + 1 \<and> de_write_error D = None \<and> all_fail h msg n (co_state s) \<and>
         h msg (after_calls h msg n (co_state s)) = (Inl e, co_state s') \<and>
         (\<exists>d. co_dlq s' = co_dlq s @ [d] \<and> km_topic d = cc_DLQTopic (consumer_defaults cfg) \<and> km_key d = km_key msg \<and>
            km_value d = Some (json_print (marshal_envelope (envelope_of (consumer_defaults cfg) D msg e (n + 1)))))
     | WriteFailed e \<Rightarrow> co_dlq s' = co_dlq s \<and> de_write_error D = Some e \<and> all_fail h msg (n + 1) (co_state s) \<and>
         co_state s' = after_calls h msg (n + 1) (co_state s)
     | CtxDone \<Rightarrow> co_dlq s' = co_dlq s \<and>
         (\<exists>k \<le> n. 0 < k \<and> de_cancelled D k \<and> all_fail h msg k (co_state s) \<and> co_state s' = after_calls h msg k (co_state s)))"
proof -
  obtain x s1 where x: "attempts_from h D msg n 0 s = (x, s1)" by force
  note spec = attempts_from_spec [OF x]
  then have s1: "co_dlq s1 = co_dlq s" "co_committed s1 = co_committed s" by (metis consumer.select_convs(2,3) consumer.surjective consumer.update_convs(1))+
  have n: "1 \<le> n" by (auto simp: n_def consumer_defaults_def)
  obtain s2 where p: "process (consumer_defaults cfg) h D msg s = (r, s2)"
    and s': "s' = (if de_commit_error D (r = CtxDone) = None then s2\<lparr>co_committed := co_committed s2 @ [msg]\<rparr> else s2)"
    using assms(1) by (auto simp: consume_def split: prod.splits)
  show ?thesis
  proof (cases x)
    case (Inl y)
    with p x have "r = y" "s2 = s1" by (auto simp: process_def n_def)
    with Inl spec s1 s' n show ?thesis by (auto simp: attempts_result_def)
  next
    case (Inr e)
    with p x have d: "deadLetter (consumer_defaults cfg) D msg e (n + 1) s1 = (r, s2)" by (simp add: process_def n_def)
    from Inr spec have f: "all_fail h msg (Suc n) (co_state s)" "co_state s1 = after_calls h msg (Suc n) (co_state s)"
      "h msg (after_calls h msg n (co_state s)) = (Inl e, co_state s1)"
      by (auto simp: attempts_result_def)
    then have "all_fail h msg n (co_state s)" using all_fail_less [of h msg "Suc n"] by simp
    with d f s1 s' n show ?thesis by (auto simp: deadLetter_def Let_def split: option.splits)
  qed
qed

theorem commit_follows_outcome_witness:
  "let h = (\<lambda>m w. (Inl (PgErr ''down''), w + 1)); D = sample_delivery (Some (PgErr ''broker down''));
       cfg = consumer_defaults \<lparr>cc_Topic = ''order.events'', cc_GroupID = ''g'', cc_MaxRetries = 0, cc_RetryBackoff = 0,
               cc_DLQTopic = '''', cc_PollTimeout = 0\<rparr>;
       (r, s') = consume cfg h D sample_message \<lparr>co_state = 0 :: nat, co_dlq = [], co_committed = []\<rparr> in
   co_state s' = 4 \<and> co_dlq s' = [] \<and> co_committed s' = [sample_message]"
proof -
  let ?cfg = "\<lparr>cc_Topic = ''order.events'', cc_GroupID = ''g'', cc_MaxRetries = 0, cc_RetryBackoff = 0,
               cc_DLQTopic = '''', cc_PollTimeout = 0\<rparr>"
  let ?h = "\<lambda>m w. (Inl (PgErr ''down''), w + 1)"
  let ?D = "sample_delivery (Some (PgErr ''broker down''))"
  let ?s = "\<lparr>co_state = 0 :: nat, co_dlq = [], co_committed = []\<rparr>"
  obtain r s' where c: "consume (consumer_defaults ?cfg) ?h ?D sample_message ?s = (r, s')" by force
  have "fst (consume (consumer_defaults ?cfg) ?h ?D sample_message ?s) = WriteFailed (PgErr ''broker down'')"
    "co_state (snd (consume (consumer_defaults ?cfg) ?h ?D sample_message ?s)) = 4" by code_simp+
  moreover have "de_commit_error ?D b = None" for b by (simp add: sample_delivery_def)
  ultimately show ?thesis using commit_follows_outcome [OF c] c by (simp add: Let_def)
qed

section \<open>Invariants of the handler's state\<close>

text \<open>
  What every run of the handler keeps, the consumer keeps; what a successful run establishes holds after
  a message is reported handled.
\<close>

lemma attempts_from_invariant:
  assumes "attempts_from h D msg left k s = (out, s')" "P (co_state s)"
    and "\<And>w r w'. P w \<Longrightarrow> h msg w = (r, w') \<Longrightarrow> P w' \<and> (r = Inr () \<longrightarrow> Q w')"
  shows "P (co_state s') \<and> (out = Inl Handled \<longrightarrow> Q (co_state s'))"
  using assms(1,2)
proof (induction left arbitrary: k s)
  case 0
  with assms(3) [of "co_state s"] show ?case
    by (cases "h msg (co_state s)"; cases "fst (h msg (co_state s))") (auto simp: attempts_from.simps split: if_splits)
next
  case (Suc n)
  obtain r w where h: "h msg (co_state s) = (r, w)" by fastforce
  note inv = assms(3) [OF Suc.prems(2) h]
  show ?case
  proof (cases "\<not> (0 < k \<and> de_cancelled D k) \<and> (\<exists>e. r = Inl e)")
    case True
    with Suc.prems(1) h have "attempts_from h D msg n (k + 1) (s\<lparr>co_state := w\<rparr>) = (out, s')"
      by (auto simp: attempts_from.simps [of h D msg "Suc n"])
    from Suc.IH [OF this] inv show ?thesis by simp
  next
    case False
    with Suc.prems h inv show ?thesis
      by (cases r) (auto simp: attempts_from.simps [of h D msg "Suc n"] split: if_splits)
  qed
qed

lemma consume_invariant:
  assumes "consume cfg h D msg s = (out, s')" "P (co_state s)"
    and "\<And>w r w'. P w \<Longrightarrow> h msg w = (r, w') \<Longrightarrow> P w' \<and> (r = Inr () \<longrightarrow> Q w')"
  shows "P (co_state s') \<and> (out = Handled \<longrightarrow> Q (co_state s'))"
proof -
  obtain o1 s1 where a: "attempts_from h D msg (nat (cc_MaxRetries cfg)) 0 s = (o1, s1)" by fastforce
  have inv: "P (co_state s1) \<and> (o1 = Inl Handled \<longrightarrow> Q (co_state s1))"
    by (rule attempts_from_invariant [OF a, of P]) (use assms(2,3) in auto)
  have "co_state (snd (deadLetter cfg D msg e n s1)) = co_state s1" "fst (deadLetter cfg D msg e n s1) \<noteq> Handled" for e n
    by (auto simp: deadLetter_def Let_def split: option.splits)
  then have dl: "deadLetter cfg D msg e n s1 = (o2, s2) \<Longrightarrow> co_state s2 = co_state s1 \<and> o2 \<noteq> Handled" for e n o2 s2
    by (metis fst_conv snd_conv)
  from inv a assms(1) show ?thesis
    by (auto simp: consume_def process_def split: sum.splits prod.splits if_splits dest: dl)
qed

lemma run_consumer_invariant:
  assumes "P (co_state s)" "\<And>D msg. Some (D, msg) \<in> set fs \<Longrightarrow> ok msg"
    and "\<And>msg w r w'. ok msg \<Longrightarrow> P w \<Longrightarrow> h msg w = (r, w') \<Longrightarrow> P w'"
  shows "P (co_state (run_consumer cfg h fs s))"
  using assms(1,2)
proof (induction fs arbitrary: s)
  case (Cons f fs)
  then show ?case
  proof (cases f)
    case (Some dm)
    obtain D msg where dm: "dm = (D, msg)" by fastforce
    have "ok msg" using Cons.prems(2) Some dm by auto
    then have "P (co_state (snd (consume cfg h D msg s))) \<and>
        (fst (consume cfg h D msg s) = Handled \<longrightarrow> True)"
      by (intro consume_invariant [OF surjective_pairing, where P = P and Q = "\<lambda>_. True"])
        (use Cons.prems(1) assms(3) in auto)
    then have "P (co_state (run_consumer cfg h fs (snd (consume cfg h D msg s))))"
      using Cons.IH Cons.prems(2) by auto
    with Some dm show ?thesis by simp
  qed (use Cons in auto)
qed simp

end
