(* ===== verification/Relay.thy ===== *)
theory Relay
  imports Streaming Ledger
begin

text \<open>
  From an outbox row to a Kafka message: the \<^verbatim>\<open>JSONB\<close> column the payload is stored in and the
  outbox event router that \<^verbatim>\<open>db/connect/*-outbox.json\<close> configures. The text the connector writes
  for a document is an argument; what is relied on is that it is text of that document.
\<close>

section \<open>JSONB\<close>

text \<open>
  \<^verbatim>\<open>JSONB\<close> keeps the last of several members with one name and orders members by the length of
  the name, then by the name.
\<close>

fun last_members :: "(string \<times> 'a) list \<Rightarrow> (string \<times> 'a) list" where
  "last_members [] = []"
| "last_members ((k, v) # fs) = (if k \<in> fst ` set fs then last_members fs else (k, v) # last_members fs)"

fun jsonb :: "json \<Rightarrow> json" where
  "jsonb (JArr xs) = JArr (map jsonb xs)"
| "jsonb (JObj fs) = JObj (sort_key (\<lambda>(k, v). (length k, k)) (last_members (map (\<lambda>(k, v). (k, jsonb v)) fs)))"
| "jsonb j = j"

lemma last_members_distinct: "distinct (map fst fs) \<Longrightarrow> last_members fs = fs"
  by (induction fs rule: last_members.induct) auto

lemma set_last_members: "set (last_members fs) \<subseteq> set fs"
  by (induction fs rule: last_members.induct) auto

lemma integral_jsonb: "integral j \<Longrightarrow> integral (jsonb j)"
proof (induction j rule: jsonb.induct)
  case (2 fs)
  then show ?case
    using set_last_members [of "map (\<lambda>(k, v). (k, jsonb v)) fs"] by (fastforce simp: list_all_iff)
qed (auto simp: list_all_iff)

text \<open>Looking a name up does not depend on the order when no two names agree up to case.\<close>

lemma filter_unique:
  assumes "distinct (map f xs)" "mset ys = mset xs"
  shows "filter (\<lambda>x. f x = k) ys = filter (\<lambda>x. f x = k) xs"
proof -
  have one: "length (filter (\<lambda>x. f x = k) zs) \<le> 1" if "distinct (map f zs)" for zs
    using that by (induction zs) (auto simp: filter_empty_conv image_iff)
  have "distinct (map f ys)" using assms by (metis mset_eq_imp_distinct_iff mset_map)
  from one [OF this] one [OF assms(1)]
  have "filter (\<lambda>x. f x = k) ys = [] \<or> (\<exists>y. filter (\<lambda>x. f x = k) ys = [y])"
    "filter (\<lambda>x. f x = k) xs = [] \<or> (\<exists>x. filter (\<lambda>x. f x = k) xs = [x])"
    by (auto simp: le_Suc_eq length_Suc_conv)
  moreover have "mset (filter (\<lambda>x. f x = k) ys) = mset (filter (\<lambda>x. f x = k) xs)"
    using assms(2) by simp
  ultimately show ?thesis by (auto simp del: mset_filter)
qed

lemma members_jsonb:
  assumes "distinct (map (\<lambda>(n, v). to_lower n) fs)"
  shows "members k (jsonb (JObj fs)) = map jsonb (members k (JObj fs))"
proof -
  let ?gs = "map (\<lambda>(n, v). (n, jsonb v)) fs"
  have low: "map (\<lambda>(n, v). to_lower n) ?gs = map (\<lambda>(n, v). to_lower n) fs" by auto
  have "map (\<lambda>(n, v). to_lower n) fs = map to_lower (map fst ?gs)" by auto
  with assms have "distinct (map to_lower (map fst ?gs))" by simp
  then have "distinct (map fst ?gs)" using distinct_map by blast
  then have "last_members ?gs = ?gs" by (rule last_members_distinct)
  moreover have "filter (\<lambda>x. (case x of (n, v) \<Rightarrow> to_lower n) = k) (sort_key (\<lambda>(k, v). (length k, k)) ?gs)
      = filter (\<lambda>x. (case x of (n, v) \<Rightarrow> to_lower n) = k) ?gs"
    by (rule filter_unique) (use assms low in \<open>simp_all only: mset_sort\<close>)
  ultimately have "members k (jsonb (JObj fs)) = map snd (filter (\<lambda>(n, v). to_lower n = k) ?gs)"
    by (simp add: case_prod_unfold)
  also have "\<dots> = map jsonb (members k (JObj fs))"
    by (induction fs) auto
  finally show ?thesis .
qed

lemma line_names [simp]:
  "to_lower ''sku_id'' = ''sku_id''" "to_lower ''warehouse_id'' = ''warehouse_id''"
  by code_simp+

section \<open>The outbox event router\<close>

text \<open>
  The row's aggregate id is the key, its payload the value, its id and event type headers, its trace
  context a header when it has one. The offset is the broker's, a row may be published more than once.
  What comes out of the database is valid UTF-8, since PostgreSQL stores no other text.
\<close>

definition relayed :: "(json \<Rightarrow> string) \<Rightarrow> string \<Rightarrow> Outbox \<Rightarrow> KafkaMessage \<Rightarrow> bool" where
  "relayed enc topic ob m \<longleftrightarrow>
     json_fix (jsonb (ob_payload ob)) = jsonb (ob_payload ob) \<and>
     km_topic m = topic \<and> km_key m = ob_aggid ob \<and> km_value m = Some (enc (jsonb (ob_payload ob))) \<and>
     carrier_Get (km_headers m) ''id'' = ob_id ob \<and> carrier_Get (km_headers m) ''eventType'' = ob_type ob \<and>
     carrier_Get (km_headers m) ''traceparent'' = (case ob_trace ob of None \<Rightarrow> '''' | Some tp \<Rightarrow> tp)"

text \<open>The bytes a handler decodes; a nil value has none.\<close>

definition value_bytes :: "KafkaMessage \<Rightarrow> string" where
  "value_bytes msg = (case km_value msg of None \<Rightarrow> [] | Some v \<Rightarrow> v)"

definition json_text :: "(json \<Rightarrow> string) \<Rightarrow> bool" where
  "json_text enc \<longleftrightarrow> (\<forall>j. integral j \<and> json_fix j = j \<longrightarrow> json_parse (enc j) = Some j)"

lemma json_text_print: "json_text json_print"
  by (simp add: json_text_def)

lemma relayed_document:
  assumes "relayed enc topic ob m" "json_text enc" "integral (ob_payload ob)"
  shows "\<exists>v. km_value m = Some v \<and> json_parse v = Some (jsonb (ob_payload ob))"
  using assms integral_jsonb by (auto simp: relayed_def json_text_def)

end
