(* ===== verification/Fulfillment.thy ===== *)
theory Fulfillment
  imports Relay OrderProps
begin

text \<open>
  \<^verbatim>\<open>internal/fulfillment\<close>: the reaction to \<^verbatim>\<open>order.fulfilled\<close> events, which takes the order's
  stock out of the allocated bucket with one \<^verbatim>\<open>FulfillStock\<close> call, and the path from the order
  service's \<^verbatim>\<open>FulfillOrder\<close> over the outbox and the consumer to the stock levels.
\<close>

section \<open>The reactor\<close>

record order_event =
  oe_type :: string
  oe_tenant :: string
  oe_order :: string
  oe_lines :: "StockLine list"

definition decode_event_line :: "json \<Rightarrow> StockLine option" where
  "decode_event_line j =
     (if \<not> is_struct j then None
      else
        (case (decode_field as_string '''' ''sku_id'' j, decode_field as_string '''' ''warehouse_id'' j,
               decode_field as_int32 0 ''quantity'' j) of
           (Some sku, Some wh, Some q) \<Rightarrow> Some \<lparr>sl_sku = sku, sl_wh = wh, sl_qty = q\<rparr>
         | _ \<Rightarrow> None))"

definition decode_order_event :: "string \<Rightarrow> order_event option" where
  "decode_order_event b =
     (case json_parse b of
        None \<Rightarrow> None
      | Some j \<Rightarrow>
          if \<not> is_struct j then None
          else
            (case (decode_field as_string '''' ''event_type'' j, decode_field as_string '''' ''tenant_id'' j,
                   decode_field as_string '''' ''order_id'' j, decode_field (as_slice decode_event_line) [] ''lines'' j) of
               (Some ty, Some tn, Some ord, Some ls) \<Rightarrow>
                 Some \<lparr>oe_type = ty, oe_tenant = tn, oe_order = ord, oe_lines = ls\<rparr>
             | _ \<Rightarrow> None))"

text \<open>The composite key \<^verbatim>\<open>tenant:order\<close> stands in when the payload does not name both.\<close>

definition key_fallback :: "string \<Rightarrow> order_event \<Rightarrow> order_event" where
  "key_fallback key ev =
     (if oe_tenant ev = '''' \<or> oe_order ev = ''''
      then (case cut CHR '':'' key of
              None \<Rightarrow> ev
            | Some (tn, ord) \<Rightarrow> ev\<lparr>oe_tenant := tn, oe_order := ord\<rparr>)
      else ev)"

definition fulfilment_key :: "string \<Rightarrow> string \<Rightarrow> string" where
  "fulfilment_key tenant order = ''fulfill:'' @ tenant @ '':'' @ order"

definition fulfil_request :: "order_event \<Rightarrow> FulfillStockRequest" where
  "fulfil_request ev =
     \<lparr>ful_tenant = oe_tenant ev, ful_order = oe_order ev,
      ful_key = fulfilment_key (oe_tenant ev) (oe_order ev), ful_lines = oe_lines ev\<rparr>"

text \<open>The text of a decoding error is left open; only that there is one matters to the consumer.\<close>

definition HandleOrderEvent :: "lib \<Rightarrow> ctx \<Rightarrow> KafkaMessage \<Rightarrow> ('d, (stock_db, 'y) sess, unit) tx" where
  "HandleOrderEvent L c msg =
     (case decode_order_event (value_bytes msg) of
        None \<Rightarrow> failE (Wrapped ''decode order event: '' (PgErr ''invalid JSON''))
      | Some ev0 \<Rightarrow>
          if oe_type ev0 \<noteq> ''order.fulfilled'' then returnE ()
          else
            let ev = key_fallback (km_key msg) ev0 in
            if oe_tenant ev = '''' \<or> oe_order ev = '''' \<or> oe_lines ev = []
            then failE (PgErr (''order.fulfilled missing tenant/order/lines (key='' @ km_key msg @ '')''))
            else
              bindE (mapErr (Wrapped (''FulfillStock '' @ oe_order ev @ '': ''))
                       (rpc (FulfillStock L (incoming L c) (fulfil_request ev)))) (\<lambda>_. returnE ()))"

section \<open>The event of a fulfilled order\<close>

text \<open>The lines of an order as \<^verbatim>\<open>GetOrderLines\<close> lists them for its tenant.\<close>

definition lines_of_order :: "uuid \<Rightarrow> string \<Rightarrow> order_db \<Rightarrow> OrderLineRow list" where
  "lines_of_order t ord d =
     sort_key (\<lambda>l. (olr_sku l, olr_wh l)) (filter (\<lambda>l. olr_tenant l = t \<and> olr_order l = ord) (order_lines d))"

definition order_row_line :: "OrderLineRow \<Rightarrow> StockLine" where
  "order_row_line l = \<lparr>sl_sku = olr_sku l, sl_wh = olr_wh l, sl_qty = olr_qty l\<rparr>"

lemma fulfill_write_event:
  fixes s :: "(order_db, 'x) sess"
  assumes "fulfill_write c t req o' s = (Inr resp, s')" and sc: "scope s = Scoped (Some t)"
  shows "\<exists>ob amount. order_outbox (data s') = order_outbox (data s) @ [ob] \<and> ob_type ob = ''order.fulfilled'' \<and>
    ob_aggid ob = t @ '':'' @ fo_order req \<and>
    ob_payload ob = marshalOrderEvent OrderFulfilled (fo_order req) amount
      (map fulfill_event_line (lines_of_order t (fo_order req) (data s)))"
proof -
  let ?ord = "fo_order req"
  from assms(1) obtain ls s1 o2 s2 r where get: "GetOrderLines ?ord s = (Inr ls, s1)"
    and upd: "UpdateOrderStatus ?ord OrderFulfilled (or_txn o') s1 = (Inr o2, s2)"
    and ev: "order_InsertOutboxEvent t ''order'' (t @ '':'' @ ?ord) ''order.fulfilled''
              (marshalOrderEvent OrderFulfilled ?ord (or_total o') (map fulfill_event_line ls)) (TraceparentText c) s2 = (Inr r, s')"
    unfolding fulfill_write_def by (auto elim!: bindE_InrE)
  from get sc have "ls = lines_of_order t ?ord (data s)" "data s1 = data s"
    by (auto simp: GetOrderLines_def lines_of_order_def elim!: stmt_InrE)
  moreover from upd have "order_outbox (data s2) = order_outbox (data s1)"
    unfolding UpdateOrderStatus_def by (auto elim!: stmt_InrE split: option.splits if_splits)
  moreover from ev have "order_outbox (data s') = order_outbox (data s2) @ [r]" "ob_type r = ''order.fulfilled''"
    "ob_aggid r = t @ '':'' @ ?ord" "ob_payload r = marshalOrderEvent OrderFulfilled ?ord (or_total o') (map fulfill_event_line ls)"
    unfolding order_InsertOutboxEvent_def by (auto elim!: stmt_InrE split: sum.splits dest!: insert_outbox_Inr)
  ultimately show ?thesis by auto
qed

text \<open>If a \<^verbatim>\<open>FulfillOrder\<close> call adds to the outbox, it adds this one event.\<close>

lemma fulfill_body_event:
  fixes s :: "(order_db, 'x) sess"
  assumes run: "fulfill_order_body L c t req s = (Inr resp, s')" and sc: "scope s = Scoped (Some t)"
    and new: "order_outbox (data s') \<noteq> order_outbox (data s)"
  shows "\<exists>ob amount. order_outbox (data s') = order_outbox (data s) @ [ob] \<and> ob_type ob = ''order.fulfilled'' \<and>
    ob_aggid ob = t @ '':'' @ fo_order req \<and>
    ob_payload ob = marshalOrderEvent OrderFulfilled (fo_order req) amount
      (map fulfill_event_line (lines_of_order t (fo_order req) (data s)))"
proof -
  let ?ord = "fo_order req" and ?same = "\<lambda>d. order_outbox d = order_outbox (data s) \<and> order_lines d = order_lines (data s)"
  let ?key = "seen_key order_CheckAndInsertIdempotencyKey t (fo_key req) (PayloadHash L (M_FulfillOrder req))"
  let ?get = "catchE (GetOrderById ?ord)
      (\<lambda>e. if err_is e ErrNoRows then failE (StatusErr NotFound ''order not found'') else failE e)"
  from run obtain o' s1 where get: "?get s = (Inr o', s1)"
    and rest: "(if or_status o' = OrderFulfilled then fulfill_replay L t req
     else if or_status o' \<noteq> OrderConfirmed
     then failed_precondition (''order '' @ ?ord @ '' is '' @ or_status o' @ '', must be CONFIRMED'')
     else bindE ?key (\<lambda>dup. if dup then fulfill_known_key L t req else fulfill_write c t req o')) s1 = (Inr resp, s')"
    unfolding fulfill_order_body_def by (elim bindE_InrE)
  from get have "GetOrderById ?ord s = (Inr o', s1)" by (auto elim!: catchE_InrE split: if_splits)
  from GetOrderById_Inr [OF this sc] have s1: "data s1 = data s" "scope s1 = Scoped (Some t)" using sc by auto
  have k: "keeps ?same (?key :: ('x, bool) otx)" unfolding seen_key_def order_CheckAndInsertIdempotencyKey_def
    by (intro keeps_intros keeps_stmt) (auto split: sum.splits)
  from rest consider "fulfill_replay L t req s1 = (Inr resp, s')"
    | dup s2 where "?key s1 = (Inr dup, s2)" "(if dup then fulfill_known_key L t req else fulfill_write c t req o') s2 = (Inr resp, s')"
    by (auto simp: failed_precondition_def elim!: bindE_InrE split: if_splits)
  then show ?thesis
  proof cases
    case 1
    from keeps_step [OF keeps_fulfill_view(1) [where P = ?same] this] s1 new show ?thesis by simp
  next
    case 2
    from keeps_step [OF k 2(1)] s1 have s2: "?same (data s2)" by simp
    have "frame scope (?key :: ('x, bool) otx)" by (intro frame_intros)
    from frameD [OF this 2(1)] s1 have sc2: "scope s2 = Scoped (Some t)" by simp
    have "\<not> dup"
      using keeps_step [OF keeps_fulfill_view(2) [where P = ?same], of L t req s2] 2(2) s2 new by (cases dup) auto
    with 2(2) have "fulfill_write c t req o' s2 = (Inr resp, s')" by simp
    from fulfill_write_event [OF this sc2] s2 show ?thesis by (simp add: lines_of_order_def)
  qed
qed

lemma FulfillOrder_event:
  fixes s :: "(order_db, 'x) sess"
  assumes "FulfillOrder L c req s = (r, s')" "uuid_scan L (fo_tenant req) = Some t"
    and "order_outbox (data s') = order_outbox (data s) @ [ob]"
  shows "ob_type ob = ''order.fulfilled'' \<and> ob_aggid ob = t @ '':'' @ fo_order req \<and>
    (\<exists>amount. ob_payload ob = marshalOrderEvent OrderFulfilled (fo_order req) amount
      (map fulfill_event_line (lines_of_order t (fo_order req) (data s))))"
proof -
  from assms(1,2) have "ExecTxWithTenant L (WithTenantID c (fo_tenant req))
      (fulfill_order_body L (WithTenantID c (fo_tenant req)) t req) s = (r, s')"
    by (simp add: FulfillOrder_def ParseUUID_def Let_def)
  from ExecTxWithTenant_atomic [OF this] assms(2,3)
  have "commits (Scoped (Some t)) (fulfill_order_body L (WithTenantID c (fo_tenant req)) t req :: ('x, FulfillOrderResponse) otx)
      (data s) (data s')"
    by (auto simp: WithTenantID_def)
  then obtain s1 s2 :: "(order_db, 'x) sess" and resp where
    "fulfill_order_body L (WithTenantID c (fo_tenant req)) t req s1 = (Inr resp, s2)" "scope s1 = Scoped (Some t)"
    "data s1 = data s" "data s2 = data s'"
    unfolding commits_def by blast
  with fulfill_body_event [OF this(1,2)] assms(3) show ?thesis by auto
qed

section \<open>What the reactor reads\<close>

lemma event_names [simp]:
  "to_lower ''event_type'' = ''event_type''" "to_lower ''order_id'' = ''order_id''"
  "to_lower ''total_amount'' = ''total_amount''" "to_lower ''lines'' = ''lines''"
  "to_lower ''quantity'' = ''quantity''"
  by code_simp+

lemma decode_event_line: "decode_event_line (jsonb (event_line l)) = Some \<lparr>sl_sku = ol_sku l, sl_wh = ol_wh l, sl_qty = ol_qty l\<rparr>"
proof -
  let ?fs = "[(''sku_id'', JStr (ol_sku l)), (''warehouse_id'', JStr (ol_wh l)), (''quantity'', JInt (sint (ol_qty l)))]"
  have m: "members k (jsonb (JObj ?fs)) = map jsonb (members k (JObj ?fs))" for k
    by (rule members_jsonb) simp
  have "decode_field as_string '''' ''sku_id'' (jsonb (JObj ?fs)) = Some (ol_sku l)"
    "decode_field as_string '''' ''warehouse_id'' (jsonb (JObj ?fs)) = Some (ol_wh l)"
    "decode_field as_int32 0 ''quantity'' (jsonb (JObj ?fs)) = Some (ol_qty l)"
    unfolding decode_field_def m by simp_all
  moreover have "is_struct (jsonb (JObj ?fs))" by simp
  ultimately show ?thesis unfolding event_line_def decode_event_line_def by (simp del: jsonb.simps)
qed

lemma all_some_map_eq: "(\<And>x. x \<in> set xs \<Longrightarrow> f x = Some (g x)) \<Longrightarrow> all_some (map f xs) = Some (map g xs)"
  by (induction xs) auto

lemma decode_order_event_marshal:
  assumes "json_parse v = Some (jsonb (marshalOrderEvent OrderFulfilled ord amount lines))"
  shows "decode_order_event v =
    Some \<lparr>oe_type = ''order.fulfilled'', oe_tenant = '''', oe_order = ord,
          oe_lines = map (\<lambda>l. \<lparr>sl_sku = ol_sku l, sl_wh = ol_wh l, sl_qty = ol_qty l\<rparr>) lines\<rparr>"
proof -
  let ?fs = "[(''event_type'', JStr (''order.'' @ to_lower OrderFulfilled)), (''order_id'', JStr ord),
      (''total_amount'', JInt (sint amount))] @ (if lines = [] then [] else [(''lines'', JArr (map event_line lines))])"
  have m: "members k (jsonb (JObj ?fs)) = map jsonb (members k (JObj ?fs))" for k
    by (rule members_jsonb) simp
  have ty: "''order.'' @ to_lower OrderFulfilled = ''order.fulfilled''" by code_simp
  have "decode_field as_string '''' ''event_type'' (jsonb (JObj ?fs)) = Some ''order.fulfilled''"
    "decode_field as_string '''' ''tenant_id'' (jsonb (JObj ?fs)) = Some ''''"
    "decode_field as_string '''' ''order_id'' (jsonb (JObj ?fs)) = Some ord"
    "decode_field (as_slice decode_event_line) [] ''lines'' (jsonb (JObj ?fs)) =
      Some (map (\<lambda>l. \<lparr>sl_sku = ol_sku l, sl_wh = ol_wh l, sl_qty = ol_qty l\<rparr>) lines)"
    unfolding decode_field_def m ty
    by (simp_all add: comp_def all_some_map_eq decode_event_line )
  moreover have "is_struct (jsonb (JObj ?fs))" by simp
  ultimately show ?thesis using assms unfolding marshalOrderEvent_def decode_order_event_def
    by (simp del: jsonb.simps append.simps)
qed

lemma integral_marshalOrderEvent: "integral (marshalOrderEvent st ord amount lines)"
  by (auto simp: marshalOrderEvent_def event_line_def list_all_iff)

section \<open>One delivery\<close>

text \<open>
  The order's units have left: every line's quantity is gone from the allocated bucket of its location,
  the log has one movement per line, and the key of the fulfilment is on record.
\<close>

definition order_left :: "uuid \<Rightarrow> string \<Rightarrow> StockLine list \<Rightarrow> inventory \<Rightarrow> inventory \<Rightarrow> bool" where
  "order_left t ord ls I J \<longleftrightarrow>
     (\<forall>loc. inv_levels J loc = map_option (move_bucket MoveFulfill (demand t ls loc)) (inv_levels I loc)) \<and>
     inv_log J = inv_log I @ map (move_movement MoveFulfill t ord) (sortedLines ls) \<and>
     key_seen t (fulfilment_key t ord) J"

text \<open>What any number of deliveries leaves: the stock as it was, or the stock without the order.\<close>

definition left_at_most_once :: "uuid \<Rightarrow> string \<Rightarrow> StockLine list \<Rightarrow> inventory \<Rightarrow> inventory \<Rightarrow> bool" where
  "left_at_most_once t ord ls I J \<longleftrightarrow>
     J = I \<and> \<not> key_seen t (fulfilment_key t ord) I \<or> order_left t ord ls I J"

lemma FulfillStock_outcome:
  fixes s :: "(stock_db, 'y) sess"
  assumes run: "FulfillStock L c req s = (r, s')" and t: "uuid_scan L (ful_tenant req) = Some t"
    and sch: "stock_schema (data s)" and k: "ful_key req = fulfilment_key t (ful_order req)"
    and I: "left_at_most_once t (ful_order req) (ful_lines req) I (stock_inv s)"
  shows "stock_schema (data s') \<and> left_at_most_once t (ful_order req) (ful_lines req) I (stock_inv s') \<and>
    (\<forall>a. r = Inr a \<longrightarrow> order_left t (ful_order req) (ful_lines req) I (stock_inv s'))"
proof -
  let ?left = "order_left t (ful_order req) (ful_lines req)"
  have sch': "stock_schema (data s')"
    using run sch keeps_step [OF keeps_stock_serve [of L c "CallFulfillStock req"], of s] by (cases r) auto
  have moved: "?left I (stock_inv s')" if F: "det (spec_FulfillStock c t req) (stock_inv s) a (stock_inv s')" for a
  proof -
    from F have "spec_FulfillStock c t req (stock_inv s) = Some (a, stock_inv s')" by (simp add: det_def)
    then show ?thesis
    proof (cases rule: spec_FulfillStock_cases)
      case dup
      with I k show ?thesis by (auto simp: left_at_most_once_def)
    next
      case moved
      with I k have "stock_inv s = I" by (auto simp: left_at_most_once_def order_left_def)
      with run_moves_SomeD [OF moved(3)] k show ?thesis
        by (simp add: order_left_def key_seen_def record_key_def fulfilment_key_def)
    qed
  qed
  have "implements (det (spec_FulfillStock c t req)) (stock_inv s) r (stock_inv s')"
    by (rule FulfillStock_implements [OF run t sch])
  then show ?thesis using sch' moved I by (cases r) (auto simp: left_at_most_once_def)
qed

text \<open>A message that carries the event of order \<open>ord\<close> with the lines \<open>ls\<close>.\<close>

definition carries_order :: "uuid \<Rightarrow> string \<Rightarrow> StockLine list \<Rightarrow> KafkaMessage \<Rightarrow> bool" where
  "carries_order t ord ls msg \<longleftrightarrow>
     km_key msg = t @ '':'' @ ord \<and>
     (\<exists>x. decode_order_event (value_bytes msg) =
        Some \<lparr>oe_type = ''order.fulfilled'', oe_tenant = '''', oe_order = x, oe_lines = ls\<rparr>)"

lemma HandleOrderEvent_outcome:
  fixes w :: "('d, (stock_db, 'y) sess) sess"
  assumes run: "HandleOrderEvent L c msg w = (r, w')" and msg: "carries_order t ord ls msg"
    and t: "uuid_scan L t = Some t" "CHR '':'' \<notin> set t"
    and sch: "stock_schema (data (ext w))" and I: "left_at_most_once t ord ls I (stock_inv (ext w))"
  shows "stock_schema (data (ext w')) \<and> left_at_most_once t ord ls I (stock_inv (ext w')) \<and>
    (r = Inr () \<longrightarrow> order_left t ord ls I (stock_inv (ext w')))"
proof -
  let ?ev = "\<lparr>oe_type = ''order.fulfilled'', oe_tenant = t, oe_order = ord, oe_lines = ls\<rparr>"
  let ?req = "fulfil_request ?ev"
  from msg obtain x where dec: "decode_order_event (value_bytes msg) =
      Some \<lparr>oe_type = ''order.fulfilled'', oe_tenant = '''', oe_order = x, oe_lines = ls\<rparr>"
    and key: "km_key msg = t @ CHR '':'' # ord" by (auto simp: carries_order_def)
  have fb: "key_fallback (km_key msg) \<lparr>oe_type = ''order.fulfilled'', oe_tenant = '''', oe_order = x, oe_lines = ls\<rparr> = ?ev"
    using cut_append [OF t(2)] by (simp add: key_fallback_def key)
  have req: "ful_tenant ?req = t" "ful_order ?req = ord" "ful_lines ?req = ls" "ful_key ?req = fulfilment_key t ord"
    by (simp_all add: fulfil_request_def)
  obtain q s where call: "FulfillStock L (incoming L c) ?req (ext w) = (q, s)" by fastforce
  have out: "stock_schema (data s) \<and> left_at_most_once t ord ls I (stock_inv s) \<and>
      (\<forall>a. q = Inr a \<longrightarrow> order_left t ord ls I (stock_inv s))"
    using FulfillStock_outcome [OF call _ sch, of t I] I t(1) by (simp add: req)
  show ?thesis
  proof (cases "t = '''' \<or> ord = '''' \<or> ls = []")
    case True
    with run dec fb have "r \<noteq> Inr ()" "w' = w" by (auto simp: HandleOrderEvent_def Let_def failE_def)
    with sch I show ?thesis by simp
  next
    case False
    with run dec fb have "bindE (mapErr (Wrapped (''FulfillStock '' @ ord @ '': ''))
        (rpc (FulfillStock L (incoming L c) ?req))) (\<lambda>_. returnE ()) w = (r, w')"
      by (simp add: HandleOrderEvent_def Let_def)
    with call out sch I show ?thesis
      by (auto simp: bindE_def mapErr_def rpc_def returnE_def Let_def split: option.splits fault.splits sum.splits prod.splits)
  qed
qed

section \<open>From the order service to the stock\<close>

text \<open>
  C9: Fulfilling an order takes its units out of stock exactly once. When a \<^verbatim>\<open>FulfillOrder\<close> call
  publishes an event, then however often the connector publishes it and the consumer delivers it,
  whatever fails and whatever is retried, the stock is as it was before or has lost, at every location,
  exactly the quantities of the order's lines, with one movement logged per line; and once a delivery is
  reported handled, the second is the case.
\<close>

theorem fulfilment_leaves_stock_once:
  fixes s :: "(order_db, 'x) sess" and con :: "('d, (stock_db, 'y) sess) sess consumer"
  assumes "FulfillOrder L c req s = (r, s')" "uuid_scan L (fo_tenant req) = Some t"
    and "order_outbox (data s') = order_outbox (data s) @ [ob]"
    and "uuid_canonical L" "CHR '':'' \<notin> set t" "json_text enc"
    and "\<And>D m. Some (D, m) \<in> set fs \<Longrightarrow> relayed enc topic ob m" "relayed enc topic ob msg"
    and "stock_schema (data (ext (co_state con)))"
    and "\<not> key_seen t (fulfilment_key t (fo_order req)) (stock_inv (ext (co_state con)))"
    and "con' = run_consumer cfg (HandleOrderEvent L c') fs con"
    and "consume cfg (HandleOrderEvent L c') D msg con' = (out, con'')"
  defines "I \<equiv> stock_inv (ext (co_state con))"
    and "lines \<equiv> map order_row_line (lines_of_order t (fo_order req) (data s))"
  shows "stock_inv (ext (co_state con'')) = I \<and> out \<noteq> Handled \<or>
    order_left t (fo_order req) lines I (stock_inv (ext (co_state con'')))"
proof -
  let ?ord = "fo_order req"
  let ?P = "\<lambda>w. stock_schema (data (ext w)) \<and> left_at_most_once t ?ord lines I (stock_inv (ext w))"
  from FulfillOrder_event [OF assms(1-3)] obtain amount where
    key: "ob_aggid ob = t @ '':'' @ ?ord" and
    pl: "ob_payload ob = marshalOrderEvent OrderFulfilled ?ord amount
      (map fulfill_event_line (lines_of_order t ?ord (data s)))" by auto
  have carries: "carries_order t ?ord lines m" if m: "relayed enc topic ob m" for m
  proof -
    from relayed_document [OF m assms(6)] obtain v where
      v: "km_value m = Some v" "json_parse v = Some (jsonb (ob_payload ob))"
      by (auto simp: pl integral_marshalOrderEvent)
    from decode_order_event_marshal [OF v(2) [unfolded pl]] m key v(1) show ?thesis
      by (simp add: carries_order_def relayed_def value_bytes_def lines_def comp_def order_row_line_def fulfill_event_line_def)
  qed
  have scan: "uuid_scan L t = Some t" using assms(2,4) by (auto simp: uuid_canonical_def)
  have step: "?P w' \<and> (r = Inr () \<longrightarrow> order_left t ?ord lines I (stock_inv (ext w')))"
    if "relayed enc topic ob m" "?P w" "HandleOrderEvent L c' m w = (r, w')"
    for m r and w w' :: "('d, (stock_db, 'y) sess) sess"
    using HandleOrderEvent_outcome [OF that(3) carries [OF that(1)] scan assms(5)] that(2) by blast
  have "?P (co_state con)" using assms(9,10) by (simp add: I_def left_at_most_once_def)
  then have "?P (co_state con')"
    unfolding assms(11) using assms(7) step
    by (intro run_consumer_invariant [where P = ?P and ok = "relayed enc topic ob"]) blast+
  then have "?P (co_state con'') \<and> (out = Handled \<longrightarrow> order_left t ?ord lines I (stock_inv (ext (co_state con''))))"
    using step [OF assms(8)] by (intro consume_invariant [OF assms(12), where P = ?P]) blast+
  then show ?thesis by (auto simp: left_at_most_once_def)
qed

definition sample_confirmed :: order_db where
  "sample_confirmed =
     \<lparr>orders = [\<lparr>or_id = ''i'', or_tenant = ''t'', or_order = ''o'', or_status = OrderConfirmed, or_total = 5,
                 or_currency = ''USD'', or_txn = ''x'', or_created = 0, or_updated = 0\<rparr>],
      order_lines = [\<lparr>olr_id = ''j'', olr_tenant = ''t'', olr_order = ''o'', olr_sku = ''a'', olr_wh = ''w'', olr_qty = 1,
                      olr_price = 5, olr_created = 0\<rparr>],
      sagas = [], order_outbox = [], order_keys = []\<rparr>"

definition sample_fulfil :: FulfillOrderRequest where
  "sample_fulfil = \<lparr>fo_tenant = ''t'', fo_order = ''o'', fo_key = ''k''\<rparr>"

definition sample_event :: Outbox where
  "sample_event = last (order_outbox (data (snd (FulfillOrder sample_lib sample_ctx sample_fulfil (calm_sess sample_confirmed ())))))"

definition sample_relay :: KafkaMessage where
  "sample_relay = \<lparr>km_topic = ''order.events'', km_key = ob_aggid sample_event, km_value = Some (json_print (jsonb (ob_payload sample_event))),
     km_headers = [(''id'', ob_id sample_event), (''eventType'', ob_type sample_event), (''traceparent'', ''tp'')], km_offset = 7\<rparr>"

definition sample_warehouse :: "(unit, (stock_db, unit) sess) sess consumer" where
  "sample_warehouse = \<lparr>co_state = calm_sess () (calm_sess sample_stock ()), co_dlq = [], co_committed = []\<rparr>"

lemma sample_event_outbox:
  "order_outbox (data (snd (FulfillOrder sample_lib sample_ctx sample_fulfil (calm_sess sample_confirmed ())))) = [sample_event]"
  "ob_trace sample_event = Some ''tp''"
  "lines_of_order ''t'' ''o'' sample_confirmed = order_lines sample_confirmed"
  by code_simp+

lemma sample_relayed: "relayed json_print ''order.events'' sample_event sample_relay"
proof -
  have "json_fix (jsonb (ob_payload sample_event)) = jsonb (ob_payload sample_event)" by code_simp
  then show ?thesis by (simp add: relayed_def sample_relay_def carrier_Get_def sample_event_outbox)
qed

lemma sample_delivered_twice:
  "fst (consume sample_consumer (HandleOrderEvent sample_lib sample_ctx) (sample_delivery None) sample_relay
     (run_consumer sample_consumer (HandleOrderEvent sample_lib sample_ctx) [Some (sample_delivery None, sample_relay)] sample_warehouse))
   = Handled"
  by code_simp

theorem fulfilment_leaves_stock_once_witness:
  "let h = HandleOrderEvent sample_lib sample_ctx; D = sample_delivery None;
       con = run_consumer sample_consumer h [Some (D, sample_relay)] sample_warehouse;
       J = stock_inv (ext (co_state (snd (consume sample_consumer h D sample_relay con)))) in
   inv_levels (stock_inv (ext (co_state sample_warehouse))) (''t'', ''a'', ''w'') =
     Some \<lparr>bk_available = 10, bk_reserved = 2, bk_allocated = 1, bk_locked = False\<rparr> \<and>
   inv_levels J (''t'', ''a'', ''w'') = Some \<lparr>bk_available = 10, bk_reserved = 2, bk_allocated = 0, bk_locked = False\<rparr>"
proof -
  let ?h = "HandleOrderEvent sample_lib sample_ctx" and ?D = "sample_delivery None" and ?loc = "(''t'', ''a'', ''w'')"
  let ?con = "run_consumer sample_consumer ?h [Some (?D, sample_relay)] sample_warehouse"
  let ?J = "stock_inv (ext (co_state (snd (consume sample_consumer ?h ?D sample_relay ?con))))"
  let ?I = "stock_inv (ext (co_state sample_warehouse))"
  let ?ls = "map order_row_line (order_lines sample_confirmed)"
  have w: "data (ext (co_state sample_warehouse)) = sample_stock"
    by (simp add: sample_warehouse_def calm_sess_def)
  have "?J = ?I \<and> fst (consume sample_consumer ?h ?D sample_relay ?con) \<noteq> Handled \<or> order_left ''t'' ''o'' ?ls ?I ?J"
    using fulfilment_leaves_stock_once [where s = "calm_sess sample_confirmed ()" and con = sample_warehouse and con' = ?con
        and fs = "[Some (?D, sample_relay)]" and enc = json_print and topic = "''order.events''" and t = "''t''"
        and cfg = sample_consumer and c' = sample_ctx,
        OF surjective_pairing _ _ sample_canonical _ json_text_print _ sample_relayed _ _ refl surjective_pairing,
        of sample_fulfil sample_ctx ?D] sample_event_outbox sample_relayed
    by (simp add: w sample_schema sample_simps sample_fulfil_def sample_confirmed_def del: run_consumer.simps)
  with sample_delivered_twice have "order_left ''t'' ''o'' ?ls ?I ?J" by simp
  then have "inv_levels ?J ?loc = map_option (move_bucket MoveFulfill (demand ''t'' ?ls ?loc)) (inv_levels ?I ?loc)"
    unfolding order_left_def by blast
  moreover have "demand ''t'' ?ls ?loc = 1" by code_simp
  moreover have "inv_levels ?I ?loc = Some \<lparr>bk_available = 10, bk_reserved = 2, bk_allocated = 1, bk_locked = False\<rparr>"
    unfolding w by code_simp
  ultimately show ?thesis by (simp only: Let_def option.map move_bucket.simps) simp
qed

end
