(* ===== verification/Config.thy ===== *)
theory Config
  imports Complex_Main Json Database
begin

text \<open>
  \<^verbatim>\<open>pkg/config\<close>: the accessors for environment variables, over \<open>getenv\<close> for \<^verbatim>\<open>os.Getenv\<close>, with
  \<^verbatim>\<open>strconv.Atoi\<close> and \<^verbatim>\<open>time.ParseDuration\<close> as the standard library defines them (durations in
  nanoseconds; the fraction of a unit is taken exactly where Go multiplies \<^verbatim>\<open>float64\<close> values).
  \<^verbatim>\<open>strconv.ParseFloat\<close> is an argument.
\<close>

type_synonym env = "string \<Rightarrow> string"

section \<open>Reading numbers and durations\<close>

definition dec_value :: "char \<Rightarrow> int" where
  "dec_value c = int (byte c) - 48"

text \<open>\<^verbatim>\<open>strconv.Atoi\<close>: an optional sign and digits, within \<^verbatim>\<open>int64\<close>.\<close>

definition Atoi :: "string \<Rightarrow> int option" where
  "Atoi s =
     (let (neg, ds) = (case s of [] \<Rightarrow> (False, []) | c # r \<Rightarrow>
            if c = CHR ''-'' then (True, r) else if c = CHR ''+'' then (False, r) else (False, c # r)) in
      if ds = [] \<or> \<not> list_all is_digit ds then None
      else let n = int (number_of_digits ds); i = (if neg then - n else n) in if in_i64 i then Some i else None)"

fun leadingInt :: "int \<Rightarrow> string \<Rightarrow> (int \<times> string) option" where
  "leadingInt x [] = Some (x, [])"
| "leadingInt x (c # s) =
     (if \<not> is_digit c then Some (x, c # s)
      else if x > 2 ^ 63 div 10 then None
      else let x' = 10 * x + dec_value c in if x' > 2 ^ 63 then None else leadingInt x' s)"

text \<open>Digits past the precision of \<^verbatim>\<open>int64\<close> are skipped.\<close>

fun leadingFraction :: "int \<Rightarrow> int \<Rightarrow> bool \<Rightarrow> string \<Rightarrow> int \<times> int \<times> string" where
  "leadingFraction x scale over [] = (x, scale, [])"
| "leadingFraction x scale over (c # s) =
     (if \<not> is_digit c then (x, scale, c # s)
      else if over \<or> x > (2 ^ 63 - 1) div 10 \<or> 10 * x + dec_value c > 2 ^ 63 then leadingFraction x scale True s
      else leadingFraction (10 * x + dec_value c) (10 * scale) False s)"

definition unitMap :: "string \<Rightarrow> int option" where
  "unitMap = map_of
     [(''ns'', 1), (''us'', 1000), ([char_of (194 :: nat), char_of (181 :: nat), CHR ''s''], 1000),
      ([char_of (206 :: nat), char_of (188 :: nat), CHR ''s''], 1000), (''ms'', 1000000), (''s'', 1000000000),
      (''m'', 60 * 1000000000), (''h'', 3600 * 1000000000)]"

definition unit_char :: "char \<Rightarrow> bool" where
  "unit_char c \<longleftrightarrow> c \<noteq> CHR ''.'' \<and> \<not> is_digit c"

text \<open>The number in front of a unit: what stands before the point, after it, and the scale of that.\<close>

definition duration_number :: "string \<Rightarrow> (int \<times> int \<times> int \<times> string) option" where
  "duration_number s =
     (case leadingInt 0 s of
        None \<Rightarrow> None
      | Some (v, r) \<Rightarrow>
          (case r of
             c # r1 \<Rightarrow>
               if c = CHR ''.''
               then (case leadingFraction 0 1 False r1 of
                       (f, scale, r2) \<Rightarrow>
                         if r = s \<and> r2 = r1 then None else Some (v, f, scale, r2))
               else if r = s then None else Some (v, 0, 1, r)
           | [] \<Rightarrow> if r = s then None else Some (v, 0, 1, r)))"

lemma leadingInt_length: "leadingInt x s = Some (v, r) \<Longrightarrow> length r \<le> length s"
  by (induction x s rule: leadingInt.induct) (auto simp: Let_def split: if_splits)

lemma leadingFraction_length: "leadingFraction x sc ov s = (f, sc', r) \<Longrightarrow> length r \<le> length s"
  by (induction x sc ov s rule: leadingFraction.induct) (auto split: if_splits)

lemma duration_number_length: "duration_number s = Some (v, f, sc, r) \<Longrightarrow> length r \<le> length s"
  unfolding duration_number_def
  by (fastforce split: option.splits list.splits if_splits prod.splits dest: leadingInt_length leadingFraction_length)

definition duration_value :: "int \<Rightarrow> int \<Rightarrow> int \<Rightarrow> int \<Rightarrow> int option" where
  "duration_value v f scale unit =
     (if v > 2 ^ 63 div unit then None
      else let w = v * unit + (f * unit) div scale in if w > 2 ^ 63 then None else Some w)"

function duration_loop :: "int \<Rightarrow> string \<Rightarrow> int option" where
  "duration_loop d s =
     (if s = [] then Some d
      else if \<not> (hd s = CHR ''.'' \<or> is_digit (hd s)) then None
      else
        (case duration_number s of
           None \<Rightarrow> None
         | Some (v, f, scale, r) \<Rightarrow>
             if takeWhile unit_char r = [] then None
             else
               (case unitMap (takeWhile unit_char r) of
                  None \<Rightarrow> None
                | Some unit \<Rightarrow>
                    (case duration_value v f scale unit of
                       None \<Rightarrow> None
                     | Some w \<Rightarrow> if d + w > 2 ^ 63 then None else duration_loop (d + w) (dropWhile unit_char r)))))"
  by pat_completeness auto

termination
proof (relation "measure (\<lambda>(d, s). length s)")
  show "wf (measure (\<lambda>(d :: int, s :: string). length s))" by simp
next
  fix d s x v y f z scale r unit w
  assume "duration_number s = Some x" "(v, y) = x" "(f, z) = y" "(scale, r) = z" "takeWhile unit_char r \<noteq> []"
  then have "length r \<le> length s" "length (dropWhile unit_char r) < length r"
    by (auto dest: duration_number_length) (metis length_dropWhile_le le_neq_implies_less takeWhile_dropWhile_id append_Nil2 length_append less_add_same_cancel2 length_greater_0_conv)
  then show "((d + w, dropWhile unit_char r), d, s) \<in> measure (\<lambda>(d, s). length s)" by simp
qed

declare duration_loop.simps [simp del]

definition ParseDuration :: "string \<Rightarrow> int option" where
  "ParseDuration s0 =
     (let neg = (s0 \<noteq> [] \<and> hd s0 = CHR ''-'');
          s = (if s0 \<noteq> [] \<and> hd s0 \<in> {CHR ''-'', CHR ''+''} then tl s0 else s0) in
      if s = ''0'' then Some 0
      else if s = [] then None
      else case duration_loop 0 s of
             None \<Rightarrow> None
           | Some d \<Rightarrow> if neg then Some (- d) else if d > 2 ^ 63 - 1 then None else Some d)"

lemma sign_chars: "\<not> is_digit CHR ''-''" "\<not> is_digit CHR ''+''"
  by code_simp+

lemma Atoi_itoa: "in_i64 i \<Longrightarrow> Atoi (itoa i) = Some i"
proof -
  assume i: "in_i64 i"
  have d: "list_all is_digit (digits n)" for n using digits_are_digits by (auto simp: list_all_iff)
  have h: "hd (digits n) \<noteq> CHR ''-''" "hd (digits n) \<noteq> CHR ''+''" for n
    using digits_are_digits [of "hd (digits n)" n] sign_chars by auto
  show ?thesis
  proof (cases "i < 0")
    case True
    with i d show ?thesis by (simp add: itoa_def Atoi_def Let_def)
  next
    case False
    obtain c r where "digits (nat i) = c # r" using digits_not_Nil [of "nat i"] by (cases "digits (nat i)") auto
    with False i d [of "nat i"] h [of "nat i"] number_of_digits_digits [of "nat i"] show ?thesis
      by (simp add: itoa_def Atoi_def Let_def)
  qed
qed

lemma leadingInt_nonneg: "leadingInt x s = Some (v, r) \<Longrightarrow> 0 \<le> x \<Longrightarrow> 0 \<le> v"
  by (induction x s rule: leadingInt.induct) (auto simp: Let_def is_digit_def dec_value_def split: if_splits)

lemma leadingFraction_nonneg: "leadingFraction x sc ov s = (f, sc', r) \<Longrightarrow> 0 \<le> x \<Longrightarrow> 0 < sc \<Longrightarrow> 0 \<le> f \<and> 0 < sc'"
  by (induction x sc ov s rule: leadingFraction.induct) (auto simp: is_digit_def dec_value_def split: if_splits)

lemma duration_number_nonneg: "duration_number s = Some (v, f, sc, r) \<Longrightarrow> 0 \<le> v \<and> 0 \<le> f \<and> 0 < sc"
  unfolding duration_number_def
  by (fastforce split: option.splits list.splits if_splits prod.splits dest: leadingInt_nonneg leadingFraction_nonneg)

lemma unitMap_pos: "unitMap u = Some n \<Longrightarrow> 0 < n"
  by (auto simp: unitMap_def split: if_splits)

lemma duration_loop_range: "duration_loop x s = Some y \<Longrightarrow> 0 \<le> x \<Longrightarrow> x \<le> 2 ^ 63 \<Longrightarrow> 0 \<le> y \<and> y \<le> 2 ^ 63"
proof (induction x s rule: duration_loop.induct)
  case (1 x s)
  show ?case
  proof (cases "s = []")
    case True
    with 1 show ?thesis by (simp add: duration_loop.simps)
  next
    case False
    with 1(2) obtain v f sc r n w where p: "hd s = CHR ''.'' \<or> is_digit (hd s)" "duration_number s = Some (v, f, sc, r)"
      "takeWhile unit_char r \<noteq> []" "unitMap (takeWhile unit_char r) = Some n" "duration_value v f sc n = Some w"
      "x + w \<le> 2 ^ 63" "duration_loop (x + w) (dropWhile unit_char r) = Some y"
      by (subst (asm) duration_loop.simps) (auto split: if_splits option.splits)
    have "0 \<le> w" using p(5) duration_number_nonneg [OF p(2)] unitMap_pos [OF p(4)]
      by (auto simp: duration_value_def Let_def pos_imp_zdiv_nonneg_iff split: if_splits)
    with 1 p False show ?thesis by (intro "1.IH" [of "(v, f, sc, r)" v "(f, sc, r)" f "(sc, r)" sc r n w]) auto
  qed
qed

lemma ParseDuration_in_i64: "ParseDuration s = Some d \<Longrightarrow> in_i64 d"
  using duration_loop_range [of 0]
  by (fastforce simp: ParseDuration_def Let_def in_i64_def split: if_splits option.splits)

lemma ParseDuration_samples:
  "ParseDuration ''1h30m'' = Some 5400000000000" "ParseDuration ''-1.5s'' = Some (- 1500000000)" "ParseDuration ''.s'' = None"
  "ParseDuration ''9223372036854775807ns'' = Some 9223372036854775807" "ParseDuration ''9223372036854775808ns'' = None"
  by code_simp+

text \<open>\<^verbatim>\<open>strings.TrimSpace\<close> on ASCII text.\<close>

definition space_char :: "char \<Rightarrow> bool" where
  "space_char c \<longleftrightarrow> byte c \<in> {9, 10, 11, 12, 13, 32}"

definition trim_space :: "string \<Rightarrow> string" where
  "trim_space s = rev (dropWhile space_char (rev (dropWhile space_char s)))"

section \<open>Accessors with a default\<close>

definition EnvOr :: "env \<Rightarrow> string \<Rightarrow> string \<Rightarrow> string" where
  "EnvOr getenv key def = (if getenv key \<noteq> '''' then getenv key else def)"

definition EnvBool :: "env \<Rightarrow> string \<Rightarrow> bool" where
  "EnvBool getenv key \<longleftrightarrow> getenv key \<in> {''1'', ''true'', ''TRUE'', ''True'', ''yes'', ''YES'', ''Yes''}"

definition EnvOrFloat :: "(string \<Rightarrow> rat option) \<Rightarrow> env \<Rightarrow> string \<Rightarrow> rat \<Rightarrow> rat" where
  "EnvOrFloat parseFloat getenv key def =
     (if getenv key \<noteq> '''' then (case parseFloat (getenv key) of Some f \<Rightarrow> f | None \<Rightarrow> def) else def)"

definition EnvDuration :: "env \<Rightarrow> string \<Rightarrow> int \<Rightarrow> int" where
  "EnvDuration getenv key def =
     (case ParseDuration (getenv key) of None \<Rightarrow> def | Some d \<Rightarrow> if d \<le> 0 then def else d)"

definition EnvOrInt :: "env \<Rightarrow> string \<Rightarrow> int \<Rightarrow> int" where
  "EnvOrInt getenv key def = (case Atoi (getenv key) of None \<Rightarrow> def | Some n \<Rightarrow> if n \<le> 0 then def else n)"

text \<open>
  \<^verbatim>\<open>OpenPool\<close> in \<^verbatim>\<open>pkg/database\<close>: the size of the connection pool; \<^verbatim>\<open>int32(n)\<close> keeps the low bits.
\<close>

definition DefaultMaxConns :: int32 where
  "DefaultMaxConns = 32"

definition OpenPool_MaxConns :: "env \<Rightarrow> int32 option" where
  "OpenPool_MaxConns getenv =
     (let v = getenv ''DB_POOL_MAX_CONNS'' in
      if v \<noteq> '''' then (case Atoi v of None \<Rightarrow> None | Some n \<Rightarrow> Some (word_of_int n)) else Some DefaultMaxConns)"

lemma OpenPool_MaxConns_exact:
  "getenv ''DB_POOL_MAX_CONNS'' \<noteq> '''' \<Longrightarrow> Atoi (getenv ''DB_POOL_MAX_CONNS'') = Some n \<Longrightarrow> in_i32 n \<Longrightarrow>
     map_option sint (OpenPool_MaxConns getenv) = Some n"
  by (simp add: OpenPool_MaxConns_def)

text \<open>A value past \<^verbatim>\<open>int32\<close> is not refused.\<close>

lemma Atoi_past_int32: "Atoi ''4294967297'' = Some 4294967297"
  by (simp add: Atoi_def is_digit_def number_of_digits_def byte_def in_i64_def)

lemma OpenPool_MaxConns_wraps: "OpenPool_MaxConns (\<lambda>_. ''4294967297'') = Some 1"
  by (simp add: OpenPool_MaxConns_def Atoi_past_int32)

section \<open>Accessors that fail\<close>

datatype config_error =
    NotSet string
  | NotANumber string string
  | NotAnInteger string string
  | NotADuration string string
  | NotPositive string string

text \<open>\<open>quote\<close> is the verb \<^verbatim>\<open>%q\<close>.\<close>

fun config_error_text :: "(string \<Rightarrow> string) \<Rightarrow> config_error \<Rightarrow> string" where
  "config_error_text quote (NotSet key) = key @ '' is required but not set''"
| "config_error_text quote (NotANumber key v) = key @ ''='' @ quote v @ '' is not a number''"
| "config_error_text quote (NotAnInteger key v) = key @ ''='' @ quote v @ '' is not an integer''"
| "config_error_text quote (NotADuration key v) = key @ ''='' @ quote v @ '' is not a duration (use e.g. 30s, 5m)''"
| "config_error_text quote (NotPositive key v) = key @ ''='' @ quote v @ '' must be > 0''"

definition EnvRequired :: "env \<Rightarrow> string \<Rightarrow> config_error + string" where
  "EnvRequired getenv key = (if getenv key = '''' then Inl (NotSet key) else Inr (getenv key))"

definition EnvFloat :: "(string \<Rightarrow> rat option) \<Rightarrow> env \<Rightarrow> string \<Rightarrow> config_error + rat" where
  "EnvFloat parseFloat getenv key =
     (let v = getenv key in
      if v = '''' then Inl (NotSet key)
      else case parseFloat v of
             None \<Rightarrow> Inl (NotANumber key v)
           | Some f \<Rightarrow> if f \<le> 0 then Inl (NotPositive key v) else Inr f)"

definition EnvPositiveInt :: "env \<Rightarrow> string \<Rightarrow> config_error + int" where
  "EnvPositiveInt getenv key =
     (let v = getenv key in
      if v = '''' then Inl (NotSet key)
      else case Atoi v of
             None \<Rightarrow> Inl (NotAnInteger key v)
           | Some n \<Rightarrow> if n \<le> 0 then Inl (NotPositive key v) else Inr n)"

definition EnvDurationRequired :: "env \<Rightarrow> string \<Rightarrow> config_error + int" where
  "EnvDurationRequired getenv key =
     (let v = getenv key in
      if v = '''' then Inl (NotSet key)
      else case ParseDuration v of
             None \<Rightarrow> Inl (NotADuration key v)
           | Some d \<Rightarrow> if d \<le> 0 then Inl (NotPositive key v) else Inr d)"

record ValidateError =
  Problems :: "string list"

definition ValidateError_Error :: "ValidateError \<Rightarrow> string" where
  "ValidateError_Error e = foldl (\<lambda>msg p. msg @ [CHR 0x0A] @ ''  - '' @ p) ''invalid configuration:'' (Problems e)"

definition Collect_errors :: "(string \<Rightarrow> string) \<Rightarrow> config_error option list \<Rightarrow> ValidateError option" where
  "Collect_errors quote errs =
     (let problems = map (config_error_text quote) (List.map_filter id errs) in
      if problems = [] then None else Some \<lparr>Problems = problems\<rparr>)"

text \<open>Boot fails exactly if some accessor failed, and then every problem is in the report.\<close>

lemma Collect_errors_None: "Collect_errors quote errs = None \<longleftrightarrow> (\<forall>e \<in> set errs. e = None)"
  by (induction errs) (auto simp: Collect_errors_def Let_def map_filter_def)

lemma Collect_errors_Some:
  "Collect_errors quote errs = Some v \<Longrightarrow> Some e \<in> set errs \<Longrightarrow> config_error_text quote e \<in> set (Problems v)"
  by (force simp: Collect_errors_def Let_def map_filter_def split: if_splits)

lemma EnvDuration_cases: "EnvDuration getenv key def = def \<or> 0 < EnvDuration getenv key def \<and> in_i64 (EnvDuration getenv key def)"
  by (auto simp: EnvDuration_def dest: ParseDuration_in_i64 split: option.split)

lemma EnvDurationRequired_Inr: "EnvDurationRequired getenv key = Inr d \<Longrightarrow> 0 < d \<and> in_i64 d"
  by (auto simp: EnvDurationRequired_def Let_def dest: ParseDuration_in_i64 split: if_splits option.splits)

text \<open>The text is not compared case-insensitively.\<close>

lemma EnvBool_mixed_case: "\<not> EnvBool (\<lambda>_. ''tRue'') key"
  by (simp add: EnvBool_def)

end
