(* ===== verification/Channel.thy ===== *)
theory Channel
  imports Config
begin

text \<open>
  \<^verbatim>\<open>pkg/channel\<close>: the sandbox sales channel and notifier. \<open>fail_skus\<close> is the value of the environment
  variable \<^verbatim>\<open>TAPER_SANDBOX_FAIL_SKUS\<close>. The time stamps of the two messages are never set by their
  only caller and left out.
\<close>

record AvailabilityUpdate =
  au_tenant :: string
  au_sku :: string
  au_wh :: string
  au_qty :: int32

record DeficitAlert =
  da_tenant :: string
  da_sku :: string
  da_wh :: string
  da_delta :: int32
  da_reason :: string
  da_source :: string

record Sandbox =
  sb_availability :: "string \<rightharpoonup> AvailabilityUpdate"
  sb_alerts :: "DeficitAlert list"

definition NewSandbox :: Sandbox where
  "NewSandbox = \<lparr>sb_availability = Map.empty, sb_alerts = []\<rparr>"

definition sku_fail_listed :: "string \<Rightarrow> string \<Rightarrow> bool" where
  "sku_fail_listed fail_skus sku \<longleftrightarrow>
     fail_skus \<noteq> '''' \<and> list_ex (\<lambda>i. trim_space i = sku) (split_on CHR '','' fail_skus)"

definition availabilityKey :: "string \<Rightarrow> string \<Rightarrow> string \<Rightarrow> string" where
  "availabilityKey tenant sku warehouse = tenant @ '':'' @ sku @ '':'' @ warehouse"

text \<open>\<^verbatim>\<open>ErrChannelDown\<close>, wrapped with the SKU.\<close>

definition ErrChannelDown :: "string \<Rightarrow> err" where
  "ErrChannelDown sku = PgErr (''channel unavailable: sku '' @ sku)"

definition negative_availability :: "int32 \<Rightarrow> err" where
  "negative_availability q = PgErr (''availability must be non-negative, got '' @ itoa (sint q))"

definition SetAvailability :: "string \<Rightarrow> AvailabilityUpdate \<Rightarrow> Sandbox \<Rightarrow> (err + unit) \<times> Sandbox" where
  "SetAvailability fail_skus u s =
     (if sint (au_qty u) < 0 then (Inl (negative_availability (au_qty u)), s)
      else if sku_fail_listed fail_skus (au_sku u) then (Inl (ErrChannelDown (au_sku u)), s)
      else (Inr (), s\<lparr>sb_availability :=
              (sb_availability s)(availabilityKey (au_tenant u) (au_sku u) (au_wh u) \<mapsto> u)\<rparr>))"

definition NotifyDeficit :: "string \<Rightarrow> DeficitAlert \<Rightarrow> Sandbox \<Rightarrow> (err + unit) \<times> Sandbox" where
  "NotifyDeficit fail_skus a s =
     (if sku_fail_listed fail_skus (da_sku a) then (Inl (ErrChannelDown (da_sku a)), s)
      else (Inr (), s\<lparr>sb_alerts := sb_alerts s @ [a]\<rparr>))"

definition Availability :: "string \<Rightarrow> string \<Rightarrow> string \<Rightarrow> Sandbox \<Rightarrow> AvailabilityUpdate option" where
  "Availability tenant sku warehouse s = sb_availability s (availabilityKey tenant sku warehouse)"

definition Alerts :: "Sandbox \<Rightarrow> DeficitAlert list" where
  "Alerts s = sb_alerts s"

lemma Availability_SetAvailability:
  assumes "SetAvailability fs u s = (Inr (), s')"
  shows "Availability (au_tenant u) (au_sku u) (au_wh u) s' = Some u"
    and "availabilityKey t sku wh \<noteq> availabilityKey (au_tenant u) (au_sku u) (au_wh u) \<Longrightarrow>
      Availability t sku wh s' = Availability t sku wh s"
    and "Alerts s' = Alerts s"
  using assms by (auto simp: SetAvailability_def Availability_def Alerts_def split: if_splits)

end
