(* ===== verification/Channelsync.thy ===== *)
theory Channelsync
  imports Channel Relay StockDelivery "HOL-Library.Sublist"
begin

text \<open>
  \<^verbatim>\<open>internal/channelsync\<close> with its database (\<^verbatim>\<open>db/migrations/channelsync\<close>,
  \<^verbatim>\<open>gen/go/db/channelsync\<close>): the availability projection and the deficit alerts kept from the stock
  service's events, and what the channel is told.
\<close>

section \<open>Tables and queries\<close>

record AvailabilityProjection =
  ap_qty :: int32
  ap_updated :: int

record Alert =
  al_id :: uuid
  al_tenant :: uuid
  al_sku :: string
  al_wh :: string
  al_delta :: int32
  al_reason :: string
  al_source :: string
  al_created :: int

record channelsync_db =
  availability_projection :: "StockLocation \<rightharpoonup> AvailabilityProjection"
  alerts :: "Alert list"
  channelsync_keys :: "ProcessedIdempotencyKey list"

type_synonym ('x, 'a) ctx_tx = "(channelsync_db, 'x, 'a) tx"

definition channelsync_CheckAndInsertIdempotencyKey :: "uuid \<Rightarrow> string \<Rightarrow> string \<Rightarrow> ('x, string) ctx_tx" where
  "channelsync_CheckAndInsertIdempotencyKey t k h = stmt (\<lambda>e sc d.
     case insert_key t k h e sc (channelsync_keys d) of
       Inl er \<Rightarrow> Inl er
     | Inr (x, ks) \<Rightarrow> Inr (x, d\<lparr>channelsync_keys := ks\<rparr>))"

definition GetAvailability :: "StockLocation \<Rightarrow> ('x, AvailabilityProjection) ctx_tx" where
  "GetAvailability loc = stmt (\<lambda>e sc d.
     if rls_visible sc (fst loc)
     then (case availability_projection d loc of None \<Rightarrow> Inl ErrNoRows | Some r \<Rightarrow> Inr (r, d))
     else Inl ErrNoRows)"

definition InsertAlert ::
  "uuid \<Rightarrow> string \<Rightarrow> string \<Rightarrow> int32 \<Rightarrow> string \<Rightarrow> string \<Rightarrow> ('x, Alert) ctx_tx" where
  "InsertAlert t sku wh delta reason source = stmt (\<lambda>e sc d.
     let r = \<lparr>al_id = fresh e, al_tenant = t, al_sku = sku, al_wh = wh, al_delta = delta, al_reason = reason,
              al_source = source, al_created = clock e\<rparr> in
     if \<not> (varchar 255 sku \<and> varchar 255 wh \<and> varchar 255 reason \<and> varchar 255 source) then Inl value_too_long
     else if \<not> rls_visible sc t then Inl rls_violation
     else if list_ex (\<lambda>a. al_id a = fresh e) (alerts d) then Inl (unique_violation ''alerts_pkey'')
     else Inr (r, d\<lparr>alerts := alerts d @ [r]\<rparr>))"

text \<open>\<^verbatim>\<open>ORDER BY created_at DESC LIMIT $2\<close>; the order of alerts of one instant is the table's.\<close>

definition ListAlerts :: "uuid \<Rightarrow> int32 \<Rightarrow> ('x, Alert list) ctx_tx" where
  "ListAlerts t limit = stmt (\<lambda>e sc d.
     if sint limit < 0 then Inl (PgErr ''LIMIT must not be negative'')
     else Inr (take (nat (sint limit)) (sort_key (\<lambda>a. - al_created a)
            (filter (\<lambda>a. rls_visible sc (al_tenant a) \<and> al_tenant a = t) (alerts d))), d))"

definition UpsertAvailability :: "StockLocation \<Rightarrow> int32 \<Rightarrow> ('x, AvailabilityProjection) ctx_tx" where
  "UpsertAvailability loc q = stmt (\<lambda>e sc d.
     let r = \<lparr>ap_qty = q, ap_updated = clock e\<rparr> in
     if \<not> (varchar 255 (fst (snd loc)) \<and> varchar 255 (snd (snd loc))) then Inl value_too_long
     else if \<not> rls_visible sc (fst loc) then Inl rls_violation
     else Inr (r, d\<lparr>availability_projection := (availability_projection d)(loc \<mapsto> r)\<rparr>))"

interpretation channelsync_ledger: idempotency_ledger
  channelsync_CheckAndInsertIdempotencyKey channelsync_keys "\<lambda>d ks. d\<lparr>channelsync_keys := ks\<rparr>"
  by unfold_locales (simp_all add: channelsync_CheckAndInsertIdempotencyKey_def)

section \<open>The reactor\<close>

record channel_ext =
  cx_channels :: Sandbox
  cx_notifier :: Sandbox
  cx_fail_skus :: string

type_synonym 'a sync_tx = "(channelsync_db, channel_ext, 'a) tx"

definition push_availability :: "AvailabilityUpdate \<Rightarrow> unit sync_tx" where
  "push_availability u s =
     (case SetAvailability (cx_fail_skus (ext s)) u (cx_channels (ext s)) of
        (r, sb) \<Rightarrow> (r, s\<lparr>ext := (ext s)\<lparr>cx_channels := sb\<rparr>\<rparr>))"

definition send_alert :: "DeficitAlert \<Rightarrow> unit sync_tx" where
  "send_alert a s =
     (case NotifyDeficit (cx_fail_skus (ext s)) a (cx_notifier (ext s)) of
        (r, sb) \<Rightarrow> (r, s\<lparr>ext := (ext s)\<lparr>cx_notifier := sb\<rparr>\<rparr>))"

definition channelsync_tryIdempotency :: "uuid \<Rightarrow> string \<Rightarrow> ('x, bool) ctx_tx" where
  "channelsync_tryIdempotency t eventID =
     bindE (attempt (channelsync_CheckAndInsertIdempotencyKey t eventID '''')) (\<lambda>r.
       case r of
         Inl e \<Rightarrow> if e = ErrNoRows then returnE True else failE e
       | Inr _ \<Rightarrow> returnE False)"

record adjusted_event =
  ae_wh :: string
  ae_qty :: int32

definition decode_adjusted :: "string \<Rightarrow> adjusted_event option" where
  "decode_adjusted b =
     (case json_parse b of
        None \<Rightarrow> None
      | Some j \<Rightarrow>
          if \<not> is_struct j then None
          else
            (case (decode_field as_string '''' ''sku_id'' j, decode_field as_string '''' ''warehouse_id'' j,
                   decode_field as_int32 0 ''quantity_delta'' j, decode_field as_int32 0 ''available_qty'' j) of
               (Some _, Some wh, Some _, Some q) \<Rightarrow> Some \<lparr>ae_wh = wh, ae_qty = q\<rparr>
             | _ \<Rightarrow> None))"

record deficit_event =
  df_wh :: string
  df_delta :: int32
  df_reason :: string
  df_source :: string

definition decode_deficit :: "string \<Rightarrow> deficit_event option" where
  "decode_deficit b =
     (case json_parse b of
        None \<Rightarrow> None
      | Some j \<Rightarrow>
          if \<not> is_struct j then None
          else
            (case (decode_field as_string '''' ''sku_id'' j, decode_field as_string '''' ''warehouse_id'' j,
                   decode_field as_int32 0 ''delta'' j, decode_field as_string '''' ''reason'' j,
                   decode_field as_string '''' ''source'' j) of
               (Some _, Some wh, Some d, Some rsn, Some src) \<Rightarrow>
                 Some \<lparr>df_wh = wh, df_delta = d, df_reason = rsn, df_source = src\<rparr>
             | _ \<Rightarrow> None))"

definition adjusted_body :: "uuid \<Rightarrow> string \<Rightarrow> string \<Rightarrow> adjusted_event \<Rightarrow> ('x, unit) ctx_tx" where
  "adjusted_body t eventID sku ev =
     bindE (channelsync_tryIdempotency t eventID) (\<lambda>dup.
     if dup then returnE ()
     else bindE (UpsertAvailability (t, sku, ae_wh ev) (ae_qty ev)) (\<lambda>_. returnE ()))"

definition handleAdjusted :: "lib \<Rightarrow> ctx \<Rightarrow> string \<Rightarrow> string \<Rightarrow> string \<Rightarrow> string \<Rightarrow> unit sync_tx" where
  "handleAdjusted L c eventID tenant sku b =
     (case decode_adjusted b of
        None \<Rightarrow> failE (Wrapped ''decode stock.adjusted: '' (PgErr ''invalid JSON''))
      | Some ev \<Rightarrow>
          if ae_wh ev = '''' then failE (PgErr ''stock.adjusted missing warehouse_id'')
          else (case ParseUUID L tenant of
                  Inl e \<Rightarrow> failE (Wrapped ''tenant id: '' e)
                | Inr t \<Rightarrow>
                    bindE (push_availability \<lparr>au_tenant = tenant, au_sku = sku, au_wh = ae_wh ev, au_qty = ae_qty ev\<rparr>)
                      (\<lambda>_. ExecTxWithTenant L (WithTenantID c tenant) (adjusted_body t eventID sku ev))))"

definition deficit_body :: "uuid \<Rightarrow> string \<Rightarrow> string \<Rightarrow> deficit_event \<Rightarrow> ('x, unit) ctx_tx" where
  "deficit_body t eventID sku ev =
     bindE (channelsync_tryIdempotency t eventID) (\<lambda>dup.
     if dup then returnE ()
     else bindE (InsertAlert t sku (df_wh ev) (df_delta ev) (df_reason ev) (df_source ev)) (\<lambda>_. returnE ()))"

definition handleDeficit :: "lib \<Rightarrow> ctx \<Rightarrow> string \<Rightarrow> string \<Rightarrow> string \<Rightarrow> string \<Rightarrow> unit sync_tx" where
  "handleDeficit L c eventID tenant sku b =
     (case decode_deficit b of
        None \<Rightarrow> failE (Wrapped ''decode stock.deficit_alert: '' (PgErr ''invalid JSON''))
      | Some ev \<Rightarrow>
          if df_wh ev = '''' then failE (PgErr ''stock.deficit_alert missing warehouse_id'')
          else (case ParseUUID L tenant of
                  Inl e \<Rightarrow> failE (Wrapped ''tenant id: '' e)
                | Inr t \<Rightarrow>
                    bindE (send_alert \<lparr>da_tenant = tenant, da_sku = sku, da_wh = df_wh ev, da_delta = df_delta ev,
                             da_reason = df_reason ev, da_source = df_source ev\<rparr>)
                      (\<lambda>_. ExecTxWithTenant L (WithTenantID c tenant) (deficit_body t eventID sku ev))))"

definition headerValue :: "(string \<times> string) list \<Rightarrow> string \<Rightarrow> string" where
  "headerValue headers key = (case find (\<lambda>h. fst h = key) headers of None \<Rightarrow> '''' | Some h \<Rightarrow> snd h)"

definition splitKey :: "string \<Rightarrow> (string \<times> string) option" where
  "splitKey key =
     (case index_byte CHR '':'' key of
        None \<Rightarrow> None
      | Some i \<Rightarrow> if i = 0 \<or> i = length key - 1 then None else Some (take i key, drop (Suc i) key))"

text \<open>The error of the probe is ignored: members that are not strings leave the type as it is.\<close>

definition probe_type :: "string \<Rightarrow> string" where
  "probe_type b =
     (case json_parse b of
        None \<Rightarrow> ''''
      | Some j \<Rightarrow> foldl (\<lambda>x v. case as_string x v of None \<Rightarrow> x | Some y \<Rightarrow> y) '''' (members ''event_type'' j))"

definition event_id :: "KafkaMessage \<Rightarrow> string" where
  "event_id msg =
     (let i = headerValue (km_headers msg) ''id'' in
      if i = '''' then ''raw:'' @ km_topic msg @ '':'' @ km_key msg @ '':'' @ itoa (km_offset msg) else i)"

definition event_type :: "KafkaMessage \<Rightarrow> string" where
  "event_type msg =
     (let y = headerValue (km_headers msg) ''eventType'' in if y = '''' then probe_type (value_bytes msg) else y)"

definition HandleStockEvent :: "lib \<Rightarrow> ctx \<Rightarrow> KafkaMessage \<Rightarrow> unit sync_tx" where
  "HandleStockEvent L c msg =
     (case splitKey (km_key msg) of
        None \<Rightarrow> returnE ()
      | Some (tenant, sku) \<Rightarrow>
          if event_type msg = ''stock.adjusted'' then handleAdjusted L c (event_id msg) tenant sku (value_bytes msg)
          else if event_type msg = ''stock.deficit_alert''
          then handleDeficit L c (event_id msg) tenant sku (value_bytes msg)
          else returnE ())"

section \<open>The feed the events describe\<close>

text \<open>
  What the projection promises: the last absolute availability of every location, the alerts in order,
  and the events already taken in. An event is taken in once.
\<close>

record feed =
  fd_levels :: "StockLocation \<rightharpoonup> int32"
  fd_alerts :: "(StockLocation \<times> int32 \<times> string \<times> string) list"
  fd_seen :: "(uuid \<times> string) set"

definition feed_of :: "channelsync_db \<Rightarrow> feed" where
  "feed_of d =
     \<lparr>fd_levels = (\<lambda>loc. map_option ap_qty (availability_projection d loc)),
      fd_alerts = map (\<lambda>a. ((al_tenant a, al_sku a, al_wh a), al_delta a, al_reason a, al_source a)) (alerts d),
      fd_seen = (\<lambda>r. (ik_tenant r, ik_key r)) ` set (channelsync_keys d)\<rparr>"

datatype stock_fact =
    Available StockLocation int32
  | Deficit StockLocation int32 string string

fun fact_tenant :: "stock_fact \<Rightarrow> uuid" where
  "fact_tenant (Available loc q) = fst loc"
| "fact_tenant (Deficit loc dl rsn src) = fst loc"

fun apply_fact :: "stock_fact \<Rightarrow> feed \<Rightarrow> feed" where
  "apply_fact (Available loc q) F = F\<lparr>fd_levels := (fd_levels F)(loc \<mapsto> q)\<rparr>"
| "apply_fact (Deficit loc dl rsn src) F = F\<lparr>fd_alerts := fd_alerts F @ [(loc, dl, rsn, src)]\<rparr>"

definition fact_of :: "lib \<Rightarrow> KafkaMessage \<Rightarrow> stock_fact option" where
  "fact_of L msg =
     (case splitKey (km_key msg) of
        None \<Rightarrow> None
      | Some (tenant, sku) \<Rightarrow>
          (case uuid_scan L tenant of
             None \<Rightarrow> None
           | Some t \<Rightarrow>
               if event_type msg = ''stock.adjusted''
               then map_option (\<lambda>ev. Available (t, sku, ae_wh ev) (ae_qty ev)) (decode_adjusted (value_bytes msg))
               else if event_type msg = ''stock.deficit_alert''
               then map_option (\<lambda>ev. Deficit (t, sku, df_wh ev) (df_delta ev) (df_reason ev) (df_source ev))
                      (decode_deficit (value_bytes msg))
               else None))"

definition take_in :: "(uuid \<times> string) \<Rightarrow> stock_fact \<Rightarrow> feed \<Rightarrow> feed" where
  "take_in k f F = (if k \<in> fd_seen F then F else apply_fact f (F\<lparr>fd_seen := insert k (fd_seen F)\<rparr>))"

definition spec_event :: "lib \<Rightarrow> KafkaMessage \<Rightarrow> feed \<Rightarrow> feed" where
  "spec_event L msg F =
     (case fact_of L msg of None \<Rightarrow> F | Some f \<Rightarrow> take_in (fact_tenant f, event_id msg) f F)"

lemma apply_fact_seen [simp]: "fd_seen (apply_fact f F) = fd_seen F"
  by (cases f) auto

lemma spec_event_idem: "spec_event L msg (spec_event L msg F) = spec_event L msg F"
  by (auto simp: spec_event_def take_in_def split: option.split)

lemma find_key_seen: "find_key t k (channelsync_keys d) \<noteq> None \<longleftrightarrow> (t, k) \<in> fd_seen (feed_of d)"
  by (force simp: find_key_None feed_of_def)

lemma tryIdempotency_feed:
  assumes "channelsync_tryIdempotency t k s = (Inr dup, s')" "scope s = Scoped (Some t)"
  shows "dup = ((t, k) \<in> fd_seen (feed_of (data s)))" "scope s' = scope s"
    and "feed_of (data s') = (if dup then feed_of (data s) else (feed_of (data s))\<lparr>fd_seen := insert (t, k) (fd_seen (feed_of (data s)))\<rparr>)"
proof -
  have "dup = ((t, k) \<in> fd_seen (feed_of (data s))) \<and> scope s' = scope s \<and>
     feed_of (data s') = (if dup then feed_of (data s) else (feed_of (data s))\<lparr>fd_seen := insert (t, k) (fd_seen (feed_of (data s)))\<rparr>)"
    using assms find_key_seen [of t k "data s"]
    unfolding channelsync_tryIdempotency_def channelsync_CheckAndInsertIdempotencyKey_def
    by (auto simp: bindE_def attempt_def returnE_def failE_def stmt_def Let_def feed_of_def insert_key_NoRows
        split: option.splits sum.splits prod.splits if_splits dest!: insert_key_Inr)
  then show "dup = ((t, k) \<in> fd_seen (feed_of (data s)))" "scope s' = scope s"
    "feed_of (data s') = (if dup then feed_of (data s) else (feed_of (data s))\<lparr>fd_seen := insert (t, k) (fd_seen (feed_of (data s)))\<rparr>)"
    by blast+
qed

lemma UpsertAvailability_feed:
  "UpsertAvailability loc q s = (Inr r, s') \<Longrightarrow> feed_of (data s') = apply_fact (Available loc q) (feed_of (data s))"
  unfolding UpsertAvailability_def
  by (auto simp: Let_def feed_of_def fun_eq_iff elim!: stmt_InrE split: if_splits)

lemma InsertAlert_feed:
  "InsertAlert t sku wh dl rsn src s = (Inr r, s') \<Longrightarrow>
     feed_of (data s') = apply_fact (Deficit (t, sku, wh) dl rsn src) (feed_of (data s))"
  unfolding InsertAlert_def by (auto simp: Let_def feed_of_def elim!: stmt_InrE split: if_splits)

text \<open>Both transactions: the ledger first, then one write.\<close>

lemma once_feed:
  assumes run: "bindE (channelsync_tryIdempotency t k) (\<lambda>dup. if dup then returnE () else bindE w (\<lambda>_. returnE ())) s = (Inr (), s')"
    and sc: "scope s = Scoped (Some t)"
    and w: "\<And>s a s'. w s = (Inr a, s') \<Longrightarrow> feed_of (data s') = apply_fact f (feed_of (data s))"
  shows "feed_of (data s') = take_in (t, k) f (feed_of (data s))"
proof -
  from run obtain dup s1 where k: "channelsync_tryIdempotency t k s = (Inr dup, s1)"
    and rest: "(if dup then returnE () else bindE w (\<lambda>_. returnE ())) s1 = (Inr (), s')"
    by (elim bindE_InrE)
  note feed = tryIdempotency_feed [OF k sc]
  show ?thesis
  proof (cases dup)
    case True
    with rest have "s' = s1" by (simp add: returnE_def)
    with True feed show ?thesis by (simp add: take_in_def)
  next
    case False
    with rest obtain a where "w s1 = (Inr a, s')" by (auto elim!: bindE_InrE)
    from w [OF this] False feed show ?thesis by (simp add: take_in_def)
  qed
qed

lemma body_feed:
  assumes "scope s = Scoped (Some t)"
  shows "adjusted_body t k sku av s = (Inr (), s') \<Longrightarrow>
      feed_of (data s') = take_in (t, k) (Available (t, sku, ae_wh av) (ae_qty av)) (feed_of (data s))"
    and "deficit_body t k sku dv s = (Inr (), s') \<Longrightarrow>
      feed_of (data s') = take_in (t, k) (Deficit (t, sku, df_wh dv) (df_delta dv) (df_reason dv) (df_source dv)) (feed_of (data s))"
  unfolding adjusted_body_def deficit_body_def
  by (erule once_feed [OF _ assms], erule UpsertAvailability_feed)
    (erule once_feed [OF _ assms], erule InsertAlert_feed)

text \<open>
  One run of the handler: it succeeds only if the event is taken in, and after an error the feed is as
  it was or has taken the event in.
\<close>

lemma push_data: "push_availability u s = (r, s') \<Longrightarrow> data s' = data s" "send_alert a s = (r, s') \<Longrightarrow> data s' = data s"
  by (auto simp: push_availability_def send_alert_def split: prod.splits)

lemma once_tx_feed:
  fixes s :: "(channelsync_db, 'x) sess"
  assumes run: "ExecTxWithTenant L (WithTenantID c tenant) body s = (r, s')" and t: "uuid_scan L tenant = Some t"
    and body: "\<And>(s :: (channelsync_db, 'x) sess) s'. scope s = Scoped (Some t) \<Longrightarrow> body s = (Inr (), s') \<Longrightarrow>
      feed_of (data s') = F (feed_of (data s))"
  shows "feed_of (data s') = F (feed_of (data s)) \<or> r \<noteq> Inr () \<and> data s' = data s"
proof (cases r)
  case (Inl e)
  from ExecTxWithTenant_atomic [OF run] t Inl body show ?thesis by (auto simp: commits_def) metis
next
  case (Inr a)
  with run obtain s1 s2 where "body s1 = (Inr (), s2)" "data s1 = data s" "scope s1 = Scoped (Some t)" "data s' = data s2"
    using t by (auto elim!: ExecTxWithTenant_Inr)
  with body show ?thesis by metis
qed

lemma push_tx_feed:
  assumes "bindE p (\<lambda>_. ExecTxWithTenant L (WithTenantID c tenant) body) s = (r, s')"
    and "\<And>s r s'. p s = (r, s') \<Longrightarrow> data s' = data s" and "uuid_scan L tenant = Some t"
    and "\<And>s s'. scope s = Scoped (Some t) \<Longrightarrow> body s = (Inr (), s') \<Longrightarrow> feed_of (data s') = F (feed_of (data s))"
  shows "feed_of (data s') = F (feed_of (data s)) \<or> r \<noteq> Inr () \<and> data s' = data s"
proof (cases "p s")
  case (Pair q s1)
  note d = assms(2) [OF Pair]
  show ?thesis
  proof (cases q)
    case (Inl e)
    with Pair assms(1) d show ?thesis by (auto simp: bindE_def)
  next
    case (Inr a)
    with Pair assms(1) have "ExecTxWithTenant L (WithTenantID c tenant) body s1 = (r, s')" by (simp add: bindE_def)
    from once_tx_feed [where F = F, OF this assms(3,4)] d show ?thesis by auto
  qed
qed

lemma HandleStockEvent_feed:
  assumes "HandleStockEvent L c msg s = (r, s')"
  shows "feed_of (data s') = spec_event L msg (feed_of (data s)) \<or> r \<noteq> Inr () \<and> data s' = data s"
proof (cases "splitKey (km_key msg)")
  case None
  with assms show ?thesis by (auto simp: HandleStockEvent_def spec_event_def fact_of_def returnE_def)
next
  case (Some p)
  obtain tenant sku where p: "splitKey (km_key msg) = Some (tenant, sku)" using Some by (cases p) auto
  note spec = spec_event_def fact_of_def
  consider (adj) "event_type msg = ''stock.adjusted''" | (def) "event_type msg = ''stock.deficit_alert''"
    | (other) "event_type msg \<notin> {''stock.adjusted'', ''stock.deficit_alert''}" by auto
  then show ?thesis
  proof cases
    case adj
    with p assms have run: "handleAdjusted L c (event_id msg) tenant sku (value_bytes msg) s = (r, s')"
      by (simp add: HandleStockEvent_def)
    show ?thesis
    proof (cases "\<exists>ev t. decode_adjusted (value_bytes msg) = Some ev \<and> ae_wh ev \<noteq> '''' \<and> uuid_scan L tenant = Some t")
      case False
      with run show ?thesis
        by (auto simp: handleAdjusted_def ParseUUID_def failE_def split: option.splits if_splits)
    next
      case True
      then obtain ev t where ev: "decode_adjusted (value_bytes msg) = Some ev" "ae_wh ev \<noteq> ''''" "uuid_scan L tenant = Some t" by blast
      with run have "bindE (push_availability \<lparr>au_tenant = tenant, au_sku = sku, au_wh = ae_wh ev, au_qty = ae_qty ev\<rparr>)
          (\<lambda>_. ExecTxWithTenant L (WithTenantID c tenant) (adjusted_body t (event_id msg) sku ev)) s = (r, s')"
        by (simp add: handleAdjusted_def ParseUUID_def)
      from push_tx_feed [where F = "take_in (t, event_id msg) (Available (t, sku, ae_wh ev) (ae_qty ev))",
          OF this push_data(1) ev(3) body_feed(1)] ev p adj show ?thesis by (simp add: spec)
    qed
  next
    case def
    with p assms have run: "handleDeficit L c (event_id msg) tenant sku (value_bytes msg) s = (r, s')"
      by (simp add: HandleStockEvent_def)
    show ?thesis
    proof (cases "\<exists>ev t. decode_deficit (value_bytes msg) = Some ev \<and> df_wh ev \<noteq> '''' \<and> uuid_scan L tenant = Some t")
      case False
      with run show ?thesis
        by (auto simp: handleDeficit_def ParseUUID_def failE_def split: option.splits if_splits)
    next
      case True
      then obtain ev t where ev: "decode_deficit (value_bytes msg) = Some ev" "df_wh ev \<noteq> ''''" "uuid_scan L tenant = Some t" by blast
      with run have "bindE (send_alert \<lparr>da_tenant = tenant, da_sku = sku, da_wh = df_wh ev, da_delta = df_delta ev,
             da_reason = df_reason ev, da_source = df_source ev\<rparr>)
          (\<lambda>_. ExecTxWithTenant L (WithTenantID c tenant) (deficit_body t (event_id msg) sku ev)) s = (r, s')"
        by (simp add: handleDeficit_def ParseUUID_def)
      from push_tx_feed [where F = "take_in (t, event_id msg) (Deficit (t, sku, df_wh ev) (df_delta ev) (df_reason ev) (df_source ev))",
          OF this push_data(2) ev(3) body_feed(2)] ev p def show ?thesis by (simp add: spec)
    qed
  next
    case other
    with p assms show ?thesis by (auto simp: HandleStockEvent_def spec returnE_def split: option.splits)
  qed
qed

section \<open>A stream of deliveries\<close>

lemma consume_feed:
  assumes "consume cfg (HandleStockEvent L c) D msg con = (out, con')"
  defines "F \<equiv> feed_of (data (co_state con))"
  shows "feed_of (data (co_state con')) = spec_event L msg F \<or> out \<noteq> Handled \<and> feed_of (data (co_state con')) = F"
proof -
  let ?P = "\<lambda>w :: (channelsync_db, channel_ext) sess. feed_of (data w) \<in> {F, spec_event L msg F}"
  let ?Q = "\<lambda>w :: (channelsync_db, channel_ext) sess. feed_of (data w) = spec_event L msg F"
  have "?P (co_state con') \<and> (out = Handled \<longrightarrow> ?Q (co_state con'))"
  proof (rule consume_invariant [OF assms(1), where P = ?P and Q = ?Q])
    show "?P (co_state con)" by (simp add: F_def)
    show "?P w' \<and> (r = Inr () \<longrightarrow> ?Q w')" if "?P w" "HandleStockEvent L c msg w = (r, w')" for w r w'
      using HandleStockEvent_feed [OF that(2)] that(1) spec_event_idem [of L msg F] by auto
  qed
  then show ?thesis by auto
qed

lemma fold_spec_seen:
  assumes "msg \<in> set ms"
  shows "spec_event L msg (fold (spec_event L) ms F) = fold (spec_event L) ms F"
proof -
  have mono: "fd_seen G \<subseteq> fd_seen (fold (spec_event L) ns G)" for ns G
  proof (induction ns arbitrary: G)
    case (Cons n ns)
    have "fd_seen G \<subseteq> fd_seen (spec_event L n G)" by (auto simp: spec_event_def take_in_def split: option.split)
    with Cons [of "spec_event L n G"] show ?case by auto
  qed simp
  from assms obtain xs ys where ms: "ms = xs @ msg # ys" by (meson split_list)
  let ?G = "spec_event L msg (fold (spec_event L) xs F)"
  show ?thesis
  proof (cases "fact_of L msg")
    case (Some f)
    then have "(fact_tenant f, event_id msg) \<in> fd_seen ?G" by (simp add: spec_event_def take_in_def)
    with mono [of ?G ys] Some show ?thesis by (auto simp: ms spec_event_def take_in_def)
  qed (simp add: spec_event_def)
qed

lemma run_consumer_append: "run_consumer cfg h (fs @ gs) s = run_consumer cfg h gs (run_consumer cfg h fs s)"
  by (induction cfg h fs s rule: run_consumer.induct) auto

definition delivered :: "(delivery_env \<times> KafkaMessage) option list \<Rightarrow> KafkaMessage list" where
  "delivered fs = map snd (List.map_filter id fs)"

text \<open>Some delivery of the message in the run was reported handled.\<close>

definition handled_in ::
  "consumer_config \<Rightarrow> 'w handler \<Rightarrow> (delivery_env \<times> KafkaMessage) option list \<Rightarrow> 'w consumer \<Rightarrow> KafkaMessage \<Rightarrow> bool" where
  "handled_in cfg h fs con msg \<longleftrightarrow>
     (\<exists>gs D hs. fs = gs @ Some (D, msg) # hs \<and> fst (consume cfg h D msg (run_consumer cfg h gs con)) = Handled)"

lemma handled_in_snoc:
  "handled_in cfg h (fs @ [f]) con msg \<longleftrightarrow>
     handled_in cfg h fs con msg \<or>
     (\<exists>D. f = Some (D, msg) \<and> fst (consume cfg h D msg (run_consumer cfg h fs con)) = Handled)"
proof
  assume "handled_in cfg h (fs @ [f]) con msg"
  then obtain gs D hs where d: "fs @ [f] = gs @ Some (D, msg) # hs" "fst (consume cfg h D msg (run_consumer cfg h gs con)) = Handled"
    by (auto simp: handled_in_def)
  then show "handled_in cfg h fs con msg \<or>
     (\<exists>D. f = Some (D, msg) \<and> fst (consume cfg h D msg (run_consumer cfg h fs con)) = Handled)"
    by (cases hs rule: rev_cases) (auto simp: handled_in_def)
next
  assume "handled_in cfg h fs con msg \<or>
     (\<exists>D. f = Some (D, msg) \<and> fst (consume cfg h D msg (run_consumer cfg h fs con)) = Handled)"
  then show "handled_in cfg h (fs @ [f]) con msg"
    unfolding handled_in_def by (elim disjE exE conjE) (fastforce, blast)
qed

lemma run_feed:
  "\<exists>ms. subseq ms (delivered fs) \<and> distinct ms \<and>
     feed_of (data (co_state (run_consumer cfg (HandleStockEvent L c) fs con))) =
       fold (spec_event L) ms (feed_of (data (co_state con))) \<and>
     (\<forall>msg. handled_in cfg (HandleStockEvent L c) fs con msg \<longrightarrow> msg \<in> set ms)"
proof (induction fs rule: rev_induct)
  case Nil
  have "\<not> handled_in cfg (HandleStockEvent L c) [] con msg" for msg by (simp add: handled_in_def)
  then show ?case by (intro exI [of _ "[]"]) (simp add: delivered_def)
next
  case (snoc f fs)
  let ?h = "HandleStockEvent L c"
  let ?con = "run_consumer cfg ?h fs con"
  from snoc obtain ms where ms: "subseq ms (delivered fs)" "distinct ms"
    "feed_of (data (co_state ?con)) = fold (spec_event L) ms (feed_of (data (co_state con)))"
    "\<And>msg. handled_in cfg ?h fs con msg \<Longrightarrow> msg \<in> set ms" by blast
  show ?case
  proof (cases f)
    case None
    with ms show ?thesis by (intro exI [of _ ms]) (auto simp: run_consumer_append handled_in_snoc delivered_def map_filter_def)
  next
    case (Some dm)
    obtain D msg where dm: "dm = (D, msg)" by fastforce
    obtain out con' where con': "consume cfg ?h D msg ?con = (out, con')" by fastforce
    have run: "run_consumer cfg ?h (fs @ [f]) con = con'" using con' Some dm by (simp add: run_consumer_append)
    have dl: "delivered (fs @ [f]) = delivered fs @ [msg]" using Some dm by (simp add: delivered_def map_filter_def)
    have hi: "handled_in cfg ?h (fs @ [f]) con m \<longleftrightarrow> handled_in cfg ?h fs con m \<or> m = msg \<and> out = Handled" for m
      using con' Some dm by (auto simp: handled_in_snoc)
    note fd = consume_feed [OF con', unfolded ms(3)]
    show ?thesis
    proof (cases "msg \<in> set ms \<or> feed_of (data (co_state con')) \<noteq> spec_event L msg (fold (spec_event L) ms (feed_of (data (co_state con))))")
      case True
      with fd fold_spec_seen [of msg ms L] have "feed_of (data (co_state con')) = fold (spec_event L) ms (feed_of (data (co_state con)))"
        and "out = Handled \<Longrightarrow> msg \<in> set ms" by auto
      with ms list_emb_append2 [OF ms(1)] show ?thesis unfolding run dl hi by (intro exI [of _ ms] conjI) blast+
    next
      case False
      with ms(2,4) subseq_append_iff show ?thesis unfolding run dl hi
        by (intro exI [of _ "ms @ [msg]"] conjI) (use ms(1) in simp_all)
    qed
  qed
qed

section \<open>What the channel shows\<close>

lemma frame_adjusted_body: "frame ext (adjusted_body t k sku ev)"
  unfolding adjusted_body_def channelsync_tryIdempotency_def channelsync_CheckAndInsertIdempotencyKey_def UpsertAvailability_def
  by (intro frame_intros)

text \<open>A handled adjustment has been pushed, whether or not it was taken in before.\<close>

lemma HandleStockEvent_pushes:
  assumes run: "HandleStockEvent L c msg s = (Inr (), s')" and key: "splitKey (km_key msg) = Some (tenant, sku)"
    and f: "fact_of L msg = Some (Available (t, sku', wh) q)"
  shows "Availability tenant sku wh (cx_channels (ext s')) =
    Some \<lparr>au_tenant = tenant, au_sku = sku, au_wh = wh, au_qty = q\<rparr>"
proof -
  from f key have ty: "event_type msg = ''stock.adjusted''" and t: "uuid_scan L tenant = Some t"
    by (auto simp: fact_of_def split: option.splits if_splits)
  from f key ty t obtain ev where ev: "decode_adjusted (value_bytes msg) = Some ev" "ae_wh ev = wh" "ae_qty ev = q"
    by (auto simp: fact_of_def)
  let ?u = "\<lparr>au_tenant = tenant, au_sku = sku, au_wh = wh, au_qty = q\<rparr>"
  from run key ty ev t obtain s1 where push: "push_availability ?u s = (Inr (), s1)"
    and tx: "ExecTxWithTenant L (WithTenantID c tenant) (adjusted_body t (event_id msg) sku ev) s1 = (Inr (), s')"
    by (auto simp: HandleStockEvent_def handleAdjusted_def ParseUUID_def split: if_splits elim!: bindE_InrE)
  from tx obtain s2 s3 where "adjusted_body t (event_id msg) sku ev s2 = (Inr (), s3)" "ext s2 = ext s1" "ext s' = ext s3"
    by (auto elim!: ExecTxWithTenant_Inr)
  with frameD [OF frame_adjusted_body this(1)] have "ext s' = ext s1" by simp
  with push Availability_SetAvailability(1) [of "cx_fail_skus (ext s)" ?u "cx_channels (ext s)"] show ?thesis
    by (auto simp: push_availability_def split: prod.splits)
qed

lemma consume_pushes:
  assumes run: "consume cfg (HandleStockEvent L c) D msg con = (Handled, con')" and key: "splitKey (km_key msg) = Some (tenant, sku)"
    and f: "fact_of L msg = Some (Available (t, sku', wh) q)"
  shows "Availability tenant sku wh (cx_channels (ext (co_state con'))) =
    Some \<lparr>au_tenant = tenant, au_sku = sku, au_wh = wh, au_qty = q\<rparr>"
  using consume_invariant [OF run, where P = "\<lambda>_. True" and Q = "\<lambda>w. Availability tenant sku wh (cx_channels (ext w)) =
      Some \<lparr>au_tenant = tenant, au_sku = sku, au_wh = wh, au_qty = q\<rparr>"] HandleStockEvent_pushes [OF _ key f] by auto

text \<open>The key under which the channel stores what an event pushes, if it pushes anything.\<close>

definition pushed_key :: "KafkaMessage \<Rightarrow> string option" where
  "pushed_key msg =
     (case splitKey (km_key msg) of
        None \<Rightarrow> None
      | Some (tenant, sku) \<Rightarrow>
          if event_type msg = ''stock.adjusted''
          then map_option (\<lambda>ev. availabilityKey tenant sku (ae_wh ev)) (decode_adjusted (value_bytes msg))
          else None)"

lemma frame_deficit_body: "frame ext (deficit_body t k sku ev)"
  unfolding deficit_body_def channelsync_tryIdempotency_def channelsync_CheckAndInsertIdempotencyKey_def InsertAlert_def
  by (intro frame_intros)

lemma frame_push_other:
  assumes "k \<noteq> availabilityKey (au_tenant u) (au_sku u) (au_wh u)"
  shows "frame (\<lambda>s. sb_availability (cx_channels (ext s)) k) (push_availability u)"
  using assms by (auto simp: frame_def push_availability_def SetAvailability_def split: if_splits prod.splits)

lemma frame_send_alert: "frame (\<lambda>s. sb_availability (cx_channels (ext s)) k) (send_alert a)"
  by (auto simp: frame_def send_alert_def split: prod.splits)

lemma frame_channel: "frame ext m \<Longrightarrow> frame (\<lambda>s. sb_availability (cx_channels (ext s)) k) m"
  by (simp add: frame_def)

lemma frame_other_events:
  assumes "pushed_key msg \<noteq> Some k"
  shows "frame (\<lambda>s. sb_availability (cx_channels (ext s)) k) (HandleStockEvent L c msg)"
proof (cases "splitKey (km_key msg)")
  case None
  then show ?thesis by (auto simp: HandleStockEvent_def intro!: frame_intros)
next
  case (Some p)
  obtain tenant sku where p: "splitKey (km_key msg) = Some (tenant, sku)" using Some by (cases p) auto
  have tx: "frame ext (ExecTxWithTenant L c' (adjusted_body t e sku ev) :: unit sync_tx)"
    "frame ext (ExecTxWithTenant L c' (deficit_body t e sku ev') :: unit sync_tx)" for c' t e ev ev'
    by (intro frame_intros frame_adjusted_body frame_deficit_body)+
  have "frame (\<lambda>s. sb_availability (cx_channels (ext s)) k) (handleAdjusted L c (event_id msg) tenant sku (value_bytes msg))"
    if "event_type msg = ''stock.adjusted''"
    using assms p that unfolding handleAdjusted_def pushed_key_def
    by (auto intro!: frame_intros frame_push_other frame_channel [OF tx(1)] split: option.split sum.split)
  moreover have "frame (\<lambda>s. sb_availability (cx_channels (ext s)) k) (handleDeficit L c (event_id msg) tenant sku (value_bytes msg))"
    unfolding handleDeficit_def
    by (auto intro!: frame_intros frame_send_alert frame_channel [OF tx(2)] split: option.split sum.split)
  ultimately show ?thesis using p by (auto simp: HandleStockEvent_def intro!: frame_intros)
qed

lemma run_keeps_channel:
  assumes "\<forall>m \<in> set (delivered hs). pushed_key m \<noteq> Some k"
  shows "sb_availability (cx_channels (ext (co_state (run_consumer cfg (HandleStockEvent L c) hs con)))) k =
    sb_availability (cx_channels (ext (co_state con))) k"
proof -
  have "pushed_key m \<noteq> Some k" if "Some (D, m) \<in> set hs" for D m
    using assms that by (force simp: delivered_def map_filter_def)
  then show ?thesis
    by (intro run_consumer_invariant [where ok = "\<lambda>m. pushed_key m \<noteq> Some k"
          and P = "\<lambda>w. sb_availability (cx_channels (ext w)) k = sb_availability (cx_channels (ext (co_state con))) k"])
      (auto dest: frameD [OF frame_other_events])
qed

lemma channel_shows_last_push:
  assumes "fst (consume cfg (HandleStockEvent L c) D msg (run_consumer cfg (HandleStockEvent L c) gs con)) = Handled"
    and f: "fact_of L msg = Some (Available (t, sku, wh) q)" and "\<forall>m \<in> set (delivered hs). pushed_key m \<noteq> pushed_key msg"
  shows "\<exists>tenant. uuid_scan L tenant = Some t \<and>
    Availability tenant sku wh
        (cx_channels (ext (co_state (run_consumer cfg (HandleStockEvent L c) (gs @ Some (D, msg) # hs) con)))) =
      Some \<lparr>au_tenant = tenant, au_sku = sku, au_wh = wh, au_qty = q\<rparr>"
proof -
  let ?h = "HandleStockEvent L c"
  obtain con1 where con1: "consume cfg ?h D msg (run_consumer cfg ?h gs con) = (Handled, con1)"
    using assms(1) by (metis prod.collapse)
  from f obtain tenant where key: "splitKey (km_key msg) = Some (tenant, sku)" "uuid_scan L tenant = Some t"
    and pk: "pushed_key msg = Some (availabilityKey tenant sku wh)"
    by (auto simp: fact_of_def pushed_key_def split: option.splits if_splits)
  have "run_consumer cfg ?h (gs @ Some (D, msg) # hs) con = run_consumer cfg ?h hs con1"
    using con1 by (simp add: run_consumer_append)
  with run_keeps_channel [of hs "availabilityKey tenant sku wh" cfg L c con1] assms(3) pk
    consume_pushes [OF con1 key(1) f] key(2) show ?thesis by (auto simp: Availability_def)
qed

text \<open>
  C10: Redelivery does not distort the availability projection, but it does distort the channel. However
  the stock events of a stream are delivered, repeated, retried and interrupted, the projection and the
  alerts are those of taking in some of the delivered events in the order of delivery, each of them once,
  and all of those that were reported handled. The channel, in contrast, is told before the ledger is
  asked: after a handled delivery of an adjustment it shows that adjustment's quantity, a repetition the
  projection ignores included, until another adjustment of the location is delivered.
\<close>

theorem projection_takes_events_once:
  fixes con :: "(channelsync_db, channel_ext) sess consumer" and L :: lib and c :: ctx
  defines "h \<equiv> HandleStockEvent L c"
  shows "(\<exists>ms. subseq ms (delivered fs) \<and> distinct ms \<and> (\<forall>m. handled_in cfg h fs con m \<longrightarrow> m \<in> set ms) \<and>
      feed_of (data (co_state (run_consumer cfg h fs con))) = fold (spec_event L) ms (feed_of (data (co_state con)))) \<and>
    (\<forall>gs D msg hs t sku wh q.
      fs = gs @ Some (D, msg) # hs \<and> fst (consume cfg h D msg (run_consumer cfg h gs con)) = Handled \<and>
      fact_of L msg = Some (Available (t, sku, wh) q) \<and> (\<forall>m \<in> set (delivered hs). pushed_key m \<noteq> pushed_key msg) \<longrightarrow>
      (\<exists>tenant. uuid_scan L tenant = Some t \<and>
        Availability tenant sku wh (cx_channels (ext (co_state (run_consumer cfg h fs con)))) =
          Some \<lparr>au_tenant = tenant, au_sku = sku, au_wh = wh, au_qty = q\<rparr>))"
  using run_feed [of fs cfg L c con] channel_shows_last_push [of cfg L c] unfolding h_def by blast

definition sample_adjusted :: "string \<Rightarrow> int32 \<Rightarrow> KafkaMessage" where
  "sample_adjusted eid q =
     \<lparr>km_topic = ''stock.events'', km_key = ''t:a'',
      km_value = Some (json_print (JObj [(''available_qty'', JInt (sint q)), (''quantity_delta'', JInt 1),
                          (''sku_id'', JStr ''a''), (''warehouse_id'', JStr ''w'')])),
      km_headers = [(''id'', eid), (''eventType'', ''stock.adjusted'')], km_offset = 1\<rparr>"

definition sample_projection :: "(channelsync_db, channel_ext) sess consumer" where
  "sample_projection =
     \<lparr>co_state = calm_sess \<lparr>availability_projection = Map.empty, alerts = [], channelsync_keys = []\<rparr>
                   \<lparr>cx_channels = NewSandbox, cx_notifier = NewSandbox, cx_fail_skus = ''''\<rparr>,
      co_dlq = [], co_committed = []\<rparr>"

definition sample_stream :: "(delivery_env \<times> KafkaMessage) option list" where
  "sample_stream = [Some (sample_delivery None, sample_adjusted ''1'' 10), Some (sample_delivery None, sample_adjusted ''2'' 4)]"

definition sample_redelivery :: "(delivery_env \<times> KafkaMessage) option list" where
  "sample_redelivery = sample_stream @ [Some (sample_delivery None, sample_adjusted ''1'' 10)]"

lemma sample_stream_runs:
  "fst (consume sample_consumer (HandleStockEvent sample_lib sample_ctx) (sample_delivery None) (sample_adjusted ''1'' 10)
     (run_consumer sample_consumer (HandleStockEvent sample_lib sample_ctx) sample_stream sample_projection)) = Handled"
  "fact_of sample_lib (sample_adjusted ''1'' 10) = Some (Available (''t'', ''a'', ''w'') 10)"
  "fd_levels (feed_of (data (co_state (run_consumer sample_consumer (HandleStockEvent sample_lib sample_ctx)
     sample_redelivery sample_projection)))) (''t'', ''a'', ''w'') = Some 4"
  by code_simp+

theorem projection_takes_events_once_witness:
  "let con = run_consumer sample_consumer (HandleStockEvent sample_lib sample_ctx) sample_redelivery sample_projection in
   fd_levels (feed_of (data (co_state con))) (''t'', ''a'', ''w'') = Some 4 \<and>
   map_option au_qty (Availability ''t'' ''a'' ''w'' (cx_channels (ext (co_state con)))) = Some 10"
proof -
  let ?h = "HandleStockEvent sample_lib sample_ctx"
  have "\<exists>tenant. uuid_scan sample_lib tenant = Some ''t'' \<and>
    Availability tenant ''a'' ''w'' (cx_channels (ext (co_state (run_consumer sample_consumer ?h sample_redelivery sample_projection)))) =
      Some \<lparr>au_tenant = tenant, au_sku = ''a'', au_wh = ''w'', au_qty = 10\<rparr>"
    using projection_takes_events_once [of sample_redelivery sample_consumer sample_lib sample_ctx sample_projection]
      sample_stream_runs(1,2) by (auto simp: sample_redelivery_def delivered_def map_filter_def)
  with sample_stream_runs(3) show ?thesis by (auto simp: sample_lib_def Let_def split: if_splits)
qed

section \<open>From an adjustment to the projection\<close>

lemma adjust_write_event:
  fixes s :: "(stock_db, 'x) sess"
  assumes run: "adjust_write c t req s = (Inr resp, s')"
  shows "\<exists>ob rest l. stock_outbox (data s') = stock_outbox (data s) @ ob # rest \<and>
    ob_type ob = ''stock.adjusted'' \<and> ob_aggid ob = aggregate_id t (adj_sku req) \<and>
    ob_payload ob = marshalAdjustEvent req (lv_available l) \<and>
    stock_levels (data s') (t, adj_sku req, adj_wh req) = Some l"
proof -
  let ?loc = "(t, adj_sku req, adj_wh req)"
  from run obtain l0 s1 level s2 where ups: "UpsertStockLevel ?loc (adj_delta req) s = (Inr l0, s1)"
    and get: "GetStockLevelForUpdate ?loc s1 = (Inr level, s2)" and app: "adjust_apply c t req level s2 = (Inr resp, s')"
    unfolding adjust_write_def by (auto elim!: bindE_InrE)
  let ?q = "if sint (lv_available level) < 0 then 0 else lv_available level"
  let ?l = "level\<lparr>lv_available := ?q\<rparr>"
  from ups get have o2: "stock_outbox (data s2) = stock_outbox (data s)"
    unfolding UpsertStockLevel_def GetStockLevelForUpdate_def
    by (auto simp: Let_def elim!: stmt_InrE split: if_splits option.splits)
  from app obtain l1 s3 ev s4 ob s5 where upd: "UpdateStockLevel ?loc ?l s2 = (Inr l1, s3)"
    and ins: "InsertStockEvent ?loc (adj_delta req) (adj_reason req) (adj_source req) ''system'' s3 = (Inr ev, s4)"
    and out: "InsertOutboxEvent t ''stock'' (aggregate_id t (adj_sku req)) ''stock.adjusted''
               (marshalAdjustEvent req ?q) (TraceparentText c) s4 = (Inr ob, s5)"
    and rest: "s' = s5 \<or> (\<exists>ty pl ob2. InsertOutboxEvent t ''stock'' (aggregate_id t (adj_sku req)) ty pl (TraceparentText c) s5 = (Inr ob2, s'))"
    unfolding adjust_apply_def Let_def by (auto elim!: bindE_InrE split: if_splits) blast
  from upd ins have s4: "stock_outbox (data s4) = stock_outbox (data s2)" "stock_levels (data s4) ?loc = Some ?l"
    unfolding UpdateStockLevel_def InsertStockEvent_def by (auto simp: Let_def elim!: stmt_InrE split: if_splits)
  from out have s5: "data s5 = (data s4)\<lparr>stock_outbox := stock_outbox (data s4) @ [ob]\<rparr>" "ob_type ob = ''stock.adjusted''"
    "ob_aggid ob = aggregate_id t (adj_sku req)" "ob_payload ob = marshalAdjustEvent req ?q"
    unfolding InsertOutboxEvent_def by (auto elim!: stmt_InrE split: sum.splits dest!: insert_outbox_Inr)
  from rest obtain more where "data s' = (data s5)\<lparr>stock_outbox := stock_outbox (data s5) @ more\<rparr>"
  proof (elim disjE exE)
    assume "s' = s5"
    then show ?thesis by (intro that [of "[]"]) simp
  next
    fix ty pl ob2 assume "InsertOutboxEvent t ''stock'' (aggregate_id t (adj_sku req)) ty pl (TraceparentText c) s5 = (Inr ob2, s')"
    then show ?thesis unfolding InsertOutboxEvent_def
      by (intro that [of "[ob2]"]) (auto elim!: stmt_InrE split: sum.splits dest!: insert_outbox_Inr)
  qed
  with s5 s4 o2 show ?thesis
    by (intro exI [of _ ob] exI [of _ more] exI [of _ ?l]) simp
qed

lemma AdjustStock_event:
  fixes s :: "(stock_db, 'x) sess"
  assumes run: "AdjustStock L c req s = (r, s')" and t: "uuid_scan L (adj_tenant req) = Some t"
    and new: "stock_outbox (data s') = stock_outbox (data s) @ ob # rest"
  shows "ob_type ob = ''stock.adjusted'' \<and> ob_aggid ob = aggregate_id t (adj_sku req) \<and>
    (\<exists>l. ob_payload ob = marshalAdjustEvent req (lv_available l) \<and>
         stock_levels (data s') (t, adj_sku req, adj_wh req) = Some l)"
proof -
  let ?c = "WithTenantID c (adj_tenant req)"
  from run t have "catchE (ExecTxWithTenant L ?c (adjust_body L ?c t req)) (internal_error ''adjust stock: '') s = (r, s')"
    by (simp add: AdjustStock_def ParseUUID_def Let_def)
  then obtain q s0 where tx: "ExecTxWithTenant L ?c (adjust_body L ?c t req) s = (q, s0)" "data s' = data s0"
    by (rule catchE_data) (auto simp: internal_error_def intro!: frame_intros)
  have "commits (Scoped (Some t)) (adjust_body L ?c t req :: ('x, AdjustStockResponse) stx) (data s) (data s')"
    using ExecTxWithTenant_atomic [OF tx(1)] tx(2) new t by auto
  then obtain s1 s2 :: "(stock_db, 'x) sess" and resp where
    body: "adjust_body L ?c t req s1 = (Inr resp, s2)" and d: "data s1 = data s" "data s2 = data s'"
    by (auto simp: commits_def)
  let ?same = "\<lambda>d :: stock_db. stock_outbox d = stock_outbox (data s)"
  have k: "keeps ?same (tryIdempotency L t (adj_key req) (M_AdjustStock req) :: ('x, bool) stx)"
    unfolding tryIdempotency_eq seen_key_def CheckAndInsertIdempotencyKey_def
    by (intro keeps_intros keeps_stmt) (auto split: sum.splits)
  from body obtain dup s3 where tr: "tryIdempotency L t (adj_key req) (M_AdjustStock req) s1 = (Inr dup, s3)"
    and act: "(if dup
     then bindE (GetStockLevelForUpdate (t, adj_sku req, adj_wh req)) (\<lambda>level.
       returnE \<lparr>adjr_success = True, adjr_available = lv_available level,
                adjr_reserved = lv_reserved level, adjr_allocated = lv_allocated level,
                adjr_clamped = (lv_available level = 0), adjr_event = ''''\<rparr>)
     else adjust_write ?c t req) s3 = (Inr resp, s2)"
    unfolding adjust_body_def by (elim bindE_InrE)
  from keeps_step [OF k tr] d have s3: "?same (data s3)" by simp
  have "\<not> dup"
    using act s3 d new unfolding GetStockLevelForUpdate_def
    by (auto elim!: bindE_InrE stmt_InrE split: if_splits option.splits)
  with act have "adjust_write ?c t req s3 = (Inr resp, s2)" by simp
  from adjust_write_event [OF this] s3 d new show ?thesis by auto
qed

lemma headerValue_carrier: "headerValue hs k = carrier_Get hs k"
  by (induction hs) (auto simp: headerValue_def carrier_Get_def)

lemma splitKey_append: "CHR '':'' \<notin> set t \<Longrightarrow> t \<noteq> '''' \<Longrightarrow> sku \<noteq> '''' \<Longrightarrow> splitKey (t @ CHR '':'' # sku) = Some (t, sku)"
  by (simp add: splitKey_def index_byte_append)

lemma adjust_names [simp]:
  "to_lower ''available_qty'' = ''available_qty''" "to_lower ''quantity_delta'' = ''quantity_delta''"
  "to_lower ''reason'' = ''reason''" "to_lower ''source'' = ''source''"
  by code_simp+

lemma decode_adjusted_marshal:
  assumes "json_parse v = Some (jsonb (marshalAdjustEvent req q))"
  shows "decode_adjusted v = Some \<lparr>ae_wh = adj_wh req, ae_qty = q\<rparr>"
proof -
  let ?fs = "[(''available_qty'', JInt (sint q)), (''quantity_delta'', JInt (sint (adj_delta req))),
      (''reason'', JStr (adj_reason req)), (''sku_id'', JStr (adj_sku req)),
      (''source'', JStr (adj_source req)), (''warehouse_id'', JStr (adj_wh req))]"
  have m: "members k (jsonb (JObj ?fs)) = map jsonb (members k (JObj ?fs))" for k
    by (rule members_jsonb) simp
  have "decode_field as_string '''' ''sku_id'' (jsonb (JObj ?fs)) = Some (adj_sku req)"
    "decode_field as_string '''' ''warehouse_id'' (jsonb (JObj ?fs)) = Some (adj_wh req)"
    "decode_field as_int32 0 ''quantity_delta'' (jsonb (JObj ?fs)) = Some (adj_delta req)"
    "decode_field as_int32 0 ''available_qty'' (jsonb (JObj ?fs)) = Some q"
    unfolding decode_field_def m by simp_all
  moreover have "is_struct (jsonb (JObj ?fs))" by simp
  ultimately show ?thesis using assms unfolding marshalAdjustEvent_def decode_adjusted_def
    by (simp del: jsonb.simps)
qed

lemma integral_marshalAdjustEvent: "integral (marshalAdjustEvent req q)"
  by (simp add: marshalAdjustEvent_def)

text \<open>
  C27: An adjustment reaches the projection and the channel. When the event an \<^verbatim>\<open>AdjustStock\<close> call for a
  SKU other than the empty one has published is delivered for the first time and reported handled, the projection and the channel hold
  for the adjusted location exactly the available quantity the call left in the stock database.
\<close>

theorem adjustment_reaches_projection:
  fixes s :: "(stock_db, 'x) sess"
  assumes "AdjustStock L c req s = (r, s')" "uuid_scan L (adj_tenant req) = Some t"
    and "stock_outbox (data s') = stock_outbox (data s) @ ob # rest"
    and "uuid_scan L t = Some t" "CHR '':'' \<notin> set t" "t \<noteq> ''''" "adj_sku req \<noteq> ''''" "ob_id ob \<noteq> ''''"
    and "json_text enc" "relayed enc topic ob msg"
    and "consume cfg (HandleStockEvent L c') D msg con = (Handled, con')"
    and "(t, ob_id ob) \<notin> fd_seen (feed_of (data (co_state con)))"
  shows "\<exists>l. stock_levels (data s') (t, adj_sku req, adj_wh req) = Some l \<and>
    map_option ap_qty (availability_projection (data (co_state con')) (t, adj_sku req, adj_wh req)) = Some (lv_available l) \<and>
    map_option au_qty (Availability t (adj_sku req) (adj_wh req) (cx_channels (ext (co_state con')))) = Some (lv_available l)"
proof -
  from AdjustStock_event [OF assms(1-3)] obtain l where ob: "ob_type ob = ''stock.adjusted''"
    "ob_aggid ob = t @ CHR '':'' # adj_sku req" "ob_payload ob = marshalAdjustEvent req (lv_available l)"
    and l: "stock_levels (data s') (t, adj_sku req, adj_wh req) = Some l" by (auto simp: aggregate_id_def)
  from relayed_document [OF assms(10,9)] obtain v where
    v: "km_value msg = Some v" "json_parse v = Some (jsonb (ob_payload ob))"
    by (auto simp: ob(3) integral_marshalAdjustEvent)
  have dec: "decode_adjusted (value_bytes msg) = Some \<lparr>ae_wh = adj_wh req, ae_qty = lv_available l\<rparr>"
    using decode_adjusted_marshal [OF v(2) [unfolded ob(3)]] v(1) by (simp add: value_bytes_def)
  have key: "splitKey (km_key msg) = Some (t, adj_sku req)"
    using assms(5-7,10) ob(2) splitKey_append by (simp add: relayed_def)
  have ids: "event_id msg = ob_id ob" "event_type msg = ''stock.adjusted''"
    using assms(8,10) ob(1) by (simp_all add: event_id_def event_type_def headerValue_carrier relayed_def)
  have f: "fact_of L msg = Some (Available (t, adj_sku req, adj_wh req) (lv_available l))"
    using key dec ids assms(4) by (simp add: fact_of_def)
  have "feed_of (data (co_state con')) = spec_event L msg (feed_of (data (co_state con)))"
    using consume_feed [OF assms(11)] by blast
  then have "fd_levels (feed_of (data (co_state con'))) (t, adj_sku req, adj_wh req) = Some (lv_available l)"
    using assms(12) f ids by (simp add: spec_event_def take_in_def)
  with l consume_pushes [OF assms(11) key f] show ?thesis by (simp add: feed_of_def)
qed

definition sample_adjust :: AdjustStockRequest where
  "sample_adjust = \<lparr>adj_tenant = ''t'', adj_sku = ''a'', adj_wh = ''w'', adj_delta = 3, adj_reason = ''count'',
     adj_source = ''wms'', adj_key = ''k''\<rparr>"

definition sample_adjust_event :: Outbox where
  "sample_adjust_event = last (stock_outbox (data (snd (AdjustStock sample_lib sample_ctx sample_adjust (calm_sess sample_stock ())))))"

definition sample_adjust_relay :: KafkaMessage where
  "sample_adjust_relay = \<lparr>km_topic = ''stock.events'', km_key = ob_aggid sample_adjust_event,
     km_value = Some (json_print (jsonb (ob_payload sample_adjust_event))),
     km_headers = [(''id'', ob_id sample_adjust_event), (''eventType'', ob_type sample_adjust_event), (''traceparent'', ''tp'')],
     km_offset = 7\<rparr>"

lemma sample_adjust_runs:
  "stock_outbox (data (snd (AdjustStock sample_lib sample_ctx sample_adjust (calm_sess sample_stock ())))) = [sample_adjust_event]"
  "ob_trace sample_adjust_event = Some ''tp''" "ob_id sample_adjust_event \<noteq> ''''"
  "map_option lv_available (stock_levels (data (snd (AdjustStock sample_lib sample_ctx sample_adjust (calm_sess sample_stock ()))))
     (''t'', ''a'', ''w'')) = Some 13"
  "fst (consume sample_consumer (HandleStockEvent sample_lib sample_ctx) (sample_delivery None) sample_adjust_relay sample_projection) = Handled"
  "json_fix (jsonb (ob_payload sample_adjust_event)) = jsonb (ob_payload sample_adjust_event)"
  by code_simp+

theorem adjustment_reaches_projection_witness:
  "let con = snd (consume sample_consumer (HandleStockEvent sample_lib sample_ctx) (sample_delivery None)
               sample_adjust_relay sample_projection) in
   map_option ap_qty (availability_projection (data (co_state con)) (''t'', ''a'', ''w'')) = Some 13 \<and>
   map_option au_qty (Availability ''t'' ''a'' ''w'' (cx_channels (ext (co_state con)))) = Some 13"
proof -
  let ?s = "calm_sess sample_stock ()" and ?h = "HandleStockEvent sample_lib sample_ctx" and ?D = "sample_delivery None"
  have r: "consume sample_consumer ?h ?D sample_adjust_relay sample_projection =
      (Handled, snd (consume sample_consumer ?h ?D sample_adjust_relay sample_projection))"
    using sample_adjust_runs(5) by (metis prod.collapse)
  have relay: "relayed json_print ''stock.events'' sample_adjust_event sample_adjust_relay"
    by (simp add: relayed_def sample_adjust_relay_def carrier_Get_def sample_adjust_runs)
  have new: "stock_outbox (data (snd (AdjustStock sample_lib sample_ctx sample_adjust ?s))) =
      stock_outbox (data ?s) @ sample_adjust_event # []"
    using sample_adjust_runs(1) by (simp add: sample_stock_def)
  have seen: "(''t'', ob_id sample_adjust_event) \<notin> fd_seen (feed_of (data (co_state sample_projection)))"
    by (simp add: sample_projection_def feed_of_def)
  from adjustment_reaches_projection [OF surjective_pairing _ new _ _ _ _ sample_adjust_runs(3) json_text_print relay r seen]
    sample_adjust_runs(4) show ?thesis
    by (auto simp: sample_adjust_def sample_lib_def Let_def)
qed

end
