(* ===== verification/Prune.thy ===== *)
theory Prune
  imports Config StockDB ReservationDB OrderDB
begin

text \<open>
  \<^verbatim>\<open>pkg/outboxprune\<close> and \<^verbatim>\<open>pkg/idemprune\<close>: the retention workers. The two packages differ in the
  table, the key they delete by, the lock and the defaults; a \<open>retained\<close> record names the table of a
  database, and the interpretations at the end instantiate it for the outbox and the ledger of each service.
  Durations are in nanoseconds as in Go, times of rows and of the
  clock in microseconds as in PostgreSQL.
\<close>

section \<open>Configuration\<close>

record prune_config =
  pc_Interval :: int
  pc_Retention :: int
  pc_BatchSize :: int

definition hours :: "int \<Rightarrow> int" where
  "hours n = n * 3600 * 1000000000"

definition outboxprune_defaults :: "prune_config \<Rightarrow> prune_config" where
  "outboxprune_defaults c =
     c\<lparr>pc_Interval := (if pc_Interval c \<le> 0 then hours 1 else pc_Interval c),
       pc_Retention := (if pc_Retention c \<le> 0 then hours 72 else pc_Retention c),
       pc_BatchSize := (if pc_BatchSize c \<le> 0 then 1000 else pc_BatchSize c)\<rparr>"

definition idemprune_defaults :: "prune_config \<Rightarrow> prune_config" where
  "idemprune_defaults c =
     c\<lparr>pc_Interval := (if pc_Interval c \<le> 0 then hours 1 else pc_Interval c),
       pc_Retention := (if pc_Retention c \<le> 0 then 7 * hours 24 else pc_Retention c),
       pc_BatchSize := (if pc_BatchSize c \<le> 0 then 1000 else pc_BatchSize c)\<rparr>"

text \<open>\<^verbatim>\<open>StartFromEnv\<close>: the configuration of the worker it starts, if it starts one.\<close>

definition outboxprune_StartFromEnv :: "env \<Rightarrow> prune_config option" where
  "outboxprune_StartFromEnv getenv =
     (if \<not> EnvBool getenv ''OUTBOX_PRUNE_ENABLED'' then None
      else Some (outboxprune_defaults
        \<lparr>pc_Interval = EnvDuration getenv ''OUTBOX_PRUNE_INTERVAL'' 0,
         pc_Retention = EnvDuration getenv ''OUTBOX_PRUNE_RETENTION'' 0, pc_BatchSize = 0\<rparr>))"

definition envDuration :: "env \<Rightarrow> string \<Rightarrow> int \<Rightarrow> int" where
  "envDuration getenv key def =
     (let v = getenv key in
      if v = '''' then def
      else case ParseDuration v of Some d \<Rightarrow> if 0 < d then d else def | None \<Rightarrow> def)"

definition idemprune_StartFromEnv :: "env \<Rightarrow> prune_config option" where
  "idemprune_StartFromEnv getenv =
     (if getenv ''IDEMPOTENCY_PRUNE_ENABLED'' \<notin> {''1'', ''true'', ''TRUE'', ''True'', ''yes'', ''YES'', ''Yes''} then None
      else Some (idemprune_defaults
        \<lparr>pc_Interval = envDuration getenv ''IDEMPOTENCY_PRUNE_INTERVAL'' 0,
         pc_Retention = envDuration getenv ''IDEMPOTENCY_PRUNE_RETENTION'' 0, pc_BatchSize = 0\<rparr>))"

lemma envDuration_eq: "envDuration getenv key def = EnvDuration getenv key def"
  by (auto simp: envDuration_def EnvDuration_def Let_def ParseDuration_def split: option.split)

text \<open>A worker that is started has a positive interval, retention and batch size, as the theorem below asks.\<close>

lemma prune_defaults_positive:
  "0 < pc_Interval (outboxprune_defaults c) \<and> 0 < pc_Retention (outboxprune_defaults c) \<and> 0 < pc_BatchSize (outboxprune_defaults c)"
  "0 < pc_Interval (idemprune_defaults c) \<and> 0 < pc_Retention (idemprune_defaults c) \<and> 0 < pc_BatchSize (idemprune_defaults c)"
  by (simp_all add: outboxprune_defaults_def idemprune_defaults_def hours_def)

lemma StartFromEnv_positive:
  assumes "outboxprune_StartFromEnv getenv = Some cfg \<or> idemprune_StartFromEnv getenv = Some cfg"
  shows "0 < pc_Interval cfg \<and> 0 < pc_Retention cfg \<and> 0 < pc_BatchSize cfg"
  using assms unfolding outboxprune_StartFromEnv_def idemprune_StartFromEnv_def
  by (metis option.distinct(1) option.inject prune_defaults_positive)

section \<open>One pass\<close>

text \<open>\<^verbatim>\<open>time.Now().Add(-cfg.Retention)\<close> as the statement's parameter.\<close>

definition cutoff_at :: "prune_config \<Rightarrow> int \<Rightarrow> int" where
  "cutoff_at cfg t = (1000 * t - pc_Retention cfg) div 1000"

lemma cutoff_at_mono: "t \<le> u \<Longrightarrow> cutoff_at cfg t \<le> cutoff_at cfg u"
  by (simp add: cutoff_at_def zdiv_mono1)

record ('d, 'r, 'k) retained =
  rt_rows :: "'d \<Rightarrow> 'r list"
  rt_put :: "'d \<Rightarrow> 'r list \<Rightarrow> 'd"
  rt_key :: "'r \<Rightarrow> 'k"
  rt_created :: "'r \<Rightarrow> int"
  rt_tenant :: "'r \<Rightarrow> uuid"
  rt_lock :: string

text \<open>\<^verbatim>\<open>DELETE ... WHERE key IN (SELECT key ... WHERE created_at < $1 ORDER BY created_at LIMIT $2)\<close>.\<close>

definition victims :: "('d, 'r, 'k) retained \<Rightarrow> rls \<Rightarrow> int \<Rightarrow> int \<Rightarrow> 'r list \<Rightarrow> 'r list" where
  "victims tb sc cutoff limit rows =
     take (nat limit) (sort_key (rt_created tb) (filter (\<lambda>r. rls_visible sc (rt_tenant tb r) \<and> rt_created tb r < cutoff) rows))"

definition prune_delete :: "('d, 'r, 'k) retained \<Rightarrow> int \<Rightarrow> int \<Rightarrow> ('d, 'x, nat) tx" where
  "prune_delete tb cutoff limit = stmt (\<lambda>e sc d.
     let ks = rt_key tb ` set (victims tb sc cutoff limit (rt_rows tb d));
         gone = (\<lambda>r. rls_visible sc (rt_tenant tb r) \<and> rt_key tb r \<in> ks) in
     if limit < 0 then Inl (PgErr ''LIMIT must not be negative'')
     else Inr (length (filter gone (rt_rows tb d)), rt_put tb d (filter (\<lambda>r. \<not> gone r) (rt_rows tb d))))"

text \<open>
  \<^verbatim>\<open>pg_try_advisory_xact_lock\<close> answers whether no other session holds the lock; \<open>busy\<close> tells which
  locks are held elsewhere.
\<close>

definition try_advisory_lock :: "string \<Rightarrow> ('d, 'x, bool) tx" where
  "try_advisory_lock lockID = stmt (\<lambda>e sc d. Inr (\<not> busy e lockID, d))"

text \<open>
  The errors of \<^verbatim>\<open>Begin\<close> and \<^verbatim>\<open>Commit\<close> are returned as they are. Without the lock nothing has
  been written when the deferred rollback runs.
\<close>

fun unwrap :: "err \<Rightarrow> err" where
  "unwrap (Wrapped m e) = e"
| "unwrap e = e"

definition prune_locked :: "('d, 'r, 'k) retained \<Rightarrow> prune_config \<Rightarrow> int \<Rightarrow> ('d, 'x, nat) tx" where
  "prune_locked tb cfg cutoff =
     bindE (try_advisory_lock (rt_lock tb)) (\<lambda>locked.
       if \<not> locked then returnE 0
       else mapErr unwrap (in_tx (prune_delete tb cutoff (pc_BatchSize cfg))))"

definition PruneBatch :: "('d, 'r, 'k) retained \<Rightarrow> prune_config \<Rightarrow> ('d, 'x, nat) tx" where
  "PruneBatch tb cfg =
     bindE now (\<lambda>t.
     bindE (stmt (\<lambda>e sc d. Inr ((), d))) (\<lambda>_.
     with_scope Bypass (prune_locked tb cfg (cutoff_at cfg t))))"

text \<open>A pass of the worker: errors are logged.\<close>

definition prune_once :: "('d, 'r, 'k) retained \<Rightarrow> prune_config \<Rightarrow> ('d, 'x) sess \<Rightarrow> ('d, 'x) sess" where
  "prune_once tb cfg s = snd (PruneBatch tb cfg s)"

text \<open>\<^verbatim>\<open>Run\<close>: once at the start, then at each of \<open>ticks\<close> ticks until the context ends.\<close>

primrec prune_ticks :: "('d, 'r, 'k) retained \<Rightarrow> prune_config \<Rightarrow> nat \<Rightarrow> ('d, 'x) sess \<Rightarrow> ('d, 'x) sess" where
  "prune_ticks tb cfg 0 s = s"
| "prune_ticks tb cfg (Suc n) s = prune_ticks tb cfg n (prune_once tb cfg s)"

definition prune_Run :: "('d, 'r, 'k) retained \<Rightarrow> prune_config \<Rightarrow> nat \<Rightarrow> ('d, 'x) sess \<Rightarrow> ('d, 'x) sess" where
  "prune_Run tb cfg ticks s = prune_ticks tb cfg ticks (prune_once tb cfg s)"

section \<open>What a pass deletes\<close>

text \<open>The rows that stay when up to \<open>n\<close> of the rows older than \<open>cutoff\<close> go, the oldest first.\<close>

definition pruned :: "('d, 'r, 'k) retained \<Rightarrow> int \<Rightarrow> int \<Rightarrow> 'r list \<Rightarrow> 'r list" where
  "pruned tb cutoff n rows =
     filter (\<lambda>r. rt_key tb r \<notin> rt_key tb ` set (victims tb Bypass cutoff n rows)) rows"

definition older :: "('d, 'r, 'k) retained \<Rightarrow> int \<Rightarrow> 'r list \<Rightarrow> 'r list" where
  "older tb cutoff rows = filter (\<lambda>r. rt_created tb r < cutoff) rows"

lemma rls_Bypass [simp]: "rls_visible Bypass t"
  by (simp add: rls_visible_def)

lemma victims_Bypass: "victims tb Bypass cutoff n rows = take (nat n) (sort_key (rt_created tb) (older tb cutoff rows))"
  by (simp add: victims_def older_def)

lemma victims_older: "set (victims tb Bypass cutoff n rows) \<subseteq> set (older tb cutoff rows)"
  using set_take_subset [of "nat n" "sort_key (rt_created tb) (older tb cutoff rows)"] by (simp add: victims_Bypass)

lemma distinct_key_eq:
  "distinct (map f xs) \<Longrightarrow> x \<in> set xs \<Longrightarrow> y \<in> set xs \<Longrightarrow> f x = f y \<Longrightarrow> x = y"
  by (meson distinct_map inj_on_def)

lemma pruned_eq:
  assumes "distinct (map (rt_key tb) rows)"
  shows "pruned tb cutoff n rows = filter (\<lambda>r. r \<notin> set (victims tb Bypass cutoff n rows)) rows"
proof -
  have "rt_key tb r \<in> rt_key tb ` set (victims tb Bypass cutoff n rows) \<longleftrightarrow> r \<in> set (victims tb Bypass cutoff n rows)"
    if "r \<in> set rows" for r
    using victims_older [of tb cutoff n rows] distinct_key_eq [OF assms that] by (auto simp: older_def)
  then show ?thesis by (auto simp: pruned_def intro: filter_cong)
qed

lemma filter_take_sorted:
  assumes "sorted (map f xs)"
  shows "filter (\<lambda>x. f x < c) (take n xs) = take n (filter (\<lambda>x. f x < (c :: int)) xs)"
  using assms
proof (induction xs arbitrary: n)
  case (Cons x xs)
  show ?case
  proof (cases "f x < c")
    case True
    with Cons show ?thesis by (cases n) auto
  next
    case False
    with Cons.prems have "filter (\<lambda>x. f x < c) xs = []" by (force simp: filter_empty_conv)
    moreover have "filter (\<lambda>x. f x < c) (take n (x # xs)) = []"
      using False \<open>filter (\<lambda>x. f x < c) xs = []\<close> by (cases n) (auto simp: filter_empty_conv dest: in_set_takeD)
    ultimately show ?thesis using False by simp
  qed
qed simp

lemma length_filter_out:
  assumes "distinct xs" "distinct vs" "set vs \<subseteq> set xs"
  shows "length (filter (\<lambda>x. x \<notin> set vs) xs) = length xs - length vs"
proof -
  have "set (filter (\<lambda>x. x \<notin> set vs) xs) = set xs - set vs" by auto
  with assms show ?thesis
    by (metis card_Diff_subset distinct_card distinct_filter finite_set)
qed

text \<open>A pass with a later cutoff takes the rows older than \<open>c\<close> first.\<close>

lemma older_pruned:
  assumes "distinct (map (rt_key tb) rows)" "c \<le> cutoff"
  shows "length (older tb c (pruned tb cutoff n rows)) = length (older tb c rows) - nat n"
proof -
  let ?f = "rt_created tb" and ?V = "victims tb Bypass cutoff n rows"
  let ?W = "filter (\<lambda>r. ?f r < c) ?V"
  have d: "distinct rows" using assms(1) by (simp add: distinct_map)
  have "?W = take (nat n) (filter (\<lambda>r. ?f r < c) (sort_key ?f (older tb cutoff rows)))"
    by (simp add: victims_Bypass filter_take_sorted)
  also have "length (filter (\<lambda>r. ?f r < c) (sort_key ?f (older tb cutoff rows))) = length (older tb c rows)"
    using assms(2) by (simp add: filter_sort older_def) (metis (mono_tags, lifting) filter_cong order_less_le_trans)
  ultimately have len: "length ?W = min (nat n) (length (older tb c rows))"
    by (metis length_take min.commute)
  have "older tb c (pruned tb cutoff n rows) = filter (\<lambda>r. r \<notin> set ?W) (older tb c rows)"
    unfolding pruned_eq [OF assms(1)] older_def by (auto intro: filter_cong)
  moreover have "distinct ?V" using d by (simp add: victims_Bypass older_def)
  then have "length (filter (\<lambda>r. r \<notin> set ?W) (older tb c rows)) = length (older tb c rows) - length ?W"
    using d victims_older [of tb cutoff n rows] by (intro length_filter_out) (auto simp: older_def)
  ultimately show ?thesis using len by (simp add: min_def)
qed

lemma length_pruned:
  assumes "distinct (map (rt_key tb) rows)"
  shows "length rows - nat n \<le> length (pruned tb cutoff n rows)" "length (pruned tb cutoff n rows) \<le> length rows"
    "\<And>r. r \<in> set rows \<Longrightarrow> r \<notin> set (pruned tb cutoff n rows) \<Longrightarrow> rt_created tb r < cutoff"
proof -
  let ?V = "victims tb Bypass cutoff n rows"
  have d: "distinct rows" using assms(1) by (simp add: distinct_map)
  have "length (pruned tb cutoff n rows) = length rows - length ?V"
    unfolding pruned_eq [OF assms] using d victims_older [of tb cutoff n rows]
    by (intro length_filter_out) (auto simp: older_def victims_Bypass dest: in_set_takeD)
  moreover have "length ?V \<le> nat n" by (simp add: victims_Bypass)
  ultimately show "length rows - nat n \<le> length (pruned tb cutoff n rows)" "length (pruned tb cutoff n rows) \<le> length rows" by auto
  show "rt_created tb r < cutoff" if "r \<in> set rows" "r \<notin> set (pruned tb cutoff n rows)" for r
    using that victims_older [of tb cutoff n rows] unfolding pruned_eq [OF assms] by (auto simp: older_def)
qed

section \<open>Passes\<close>

definition pass_cutoff :: "prune_config \<Rightarrow> ('d, 'x) sess \<Rightarrow> int" where
  "pass_cutoff cfg s = cutoff_at cfg (clock (sched s (pos s)))"

text \<open>From here on no statement fails and nobody else holds the lock.\<close>

definition undisturbed :: "string \<Rightarrow> ('d, 'x) sess \<Rightarrow> bool" where
  "undisturbed lock s \<longleftrightarrow> (\<forall>i \<ge> pos s. fault (sched s i) = None \<and> \<not> busy (sched s i) lock)"

definition time_passes :: "('d, 'x) sess \<Rightarrow> bool" where
  "time_passes s \<longleftrightarrow> (\<forall>i \<ge> pos s. \<forall>j \<ge> i. clock (sched s i) \<le> clock (sched s j))"

locale retention_table =
  fixes tb :: "('d, 'r, 'k) retained"
  assumes rows_put [simp]: "rt_rows tb (rt_put tb d rows) = rows"
    and put_rows [simp]: "rt_put tb d (rt_rows tb d) = d"
    and put_put [simp]: "rt_put tb (rt_put tb d rows) rows' = rt_put tb d rows'"
begin

lemma prune_once_effect:
  fixes s :: "('d, 'x) sess"
  assumes "0 < pc_BatchSize cfg"
  defines "s' \<equiv> prune_once tb cfg s"
  shows "data s' = data s \<or> data s' = rt_put tb (data s) (pruned tb (pass_cutoff cfg s) (pc_BatchSize cfg) (rt_rows tb (data s)))"
    and "sched s' = sched s" and "pos s < pos s'"
    and "undisturbed (rt_lock tb) s \<Longrightarrow>
      data s' = rt_put tb (data s) (pruned tb (pass_cutoff cfg s) (pc_BatchSize cfg) (rt_rows tb (data s)))"
proof -
  note defs = s'_def prune_once_def PruneBatch_def prune_locked_def prune_delete_def try_advisory_lock_def
    bindE_def now_def with_scope_def mapErr_def in_tx_def commit_or_rollback_def returnE_def stmt_def Let_def
    pass_cutoff_def pruned_def
  have "(data s' = data s \<or> data s' = rt_put tb (data s) (pruned tb (pass_cutoff cfg s) (pc_BatchSize cfg) (rt_rows tb (data s)))) \<and>
      sched s' = sched s \<and> pos s < pos s'"
    unfolding defs using assms(1) by (auto split: option.splits fault.splits sum.splits prod.splits if_splits)
  then show "data s' = data s \<or> data s' = rt_put tb (data s) (pruned tb (pass_cutoff cfg s) (pc_BatchSize cfg) (rt_rows tb (data s)))"
    "sched s' = sched s" "pos s < pos s'" by blast+
  assume "undisturbed (rt_lock tb) s"
  then have "fault (sched s i) = None" "\<not> busy (sched s i) (rt_lock tb)" if "pos s \<le> i" for i
    using that by (auto simp: undisturbed_def)
  then show "data s' = rt_put tb (data s) (pruned tb (pass_cutoff cfg s) (pc_BatchSize cfg) (rt_rows tb (data s)))"
    unfolding defs using assms(1) by simp
qed

end

context retention_table
begin

lemma prune_ticks_effect:
  fixes s :: "('d, 'x) sess" and n :: nat
  assumes "0 < pc_BatchSize cfg" "distinct (map (rt_key tb) (rt_rows tb (data s)))" "time_passes s"
    and "c \<le> pass_cutoff cfg s"
  defines "s' \<equiv> prune_ticks tb cfg n s"
  shows "(\<exists>Q. data s' = rt_put tb (data s) (filter Q (rt_rows tb (data s))) \<and>
        (\<forall>r \<in> set (rt_rows tb (data s)). \<not> Q r \<longrightarrow> rt_created tb r < cutoff_at cfg (clock (sched s (pos s'))))) \<and>
      length (rt_rows tb (data s)) \<le> length (rt_rows tb (data s')) + n * nat (pc_BatchSize cfg) \<and> pos s \<le> pos s' \<and>
      (undisturbed (rt_lock tb) s \<longrightarrow>
        length (older tb c (rt_rows tb (data s'))) = length (older tb c (rt_rows tb (data s))) - n * nat (pc_BatchSize cfg))"
  unfolding s'_def using assms(2-4)
proof (induction n arbitrary: s)
  case 0
  then show ?case by (auto intro!: exI [of _ "\<lambda>_. True"])
next
  case (Suc n)
  let ?rows = "rt_rows tb (data s)" and ?B = "pc_BatchSize cfg" and ?s1 = "prune_once tb cfg s"
  let ?cut = "pass_cutoff cfg s"
  let ?s' = "prune_ticks tb cfg n ?s1"
  note step = prune_once_effect [OF assms(1), of s] and len = length_pruned [OF Suc.prems(1), where n = ?B and cutoff = ?cut]
  define Q1 where "Q1 = (\<lambda>r. r \<in> set (rt_rows tb (data ?s1)))"
  have rows1: "rt_rows tb (data ?s1) = ?rows \<or> rt_rows tb (data ?s1) = pruned tb ?cut ?B ?rows" using step(1) by auto
  have put1: "data ?s1 = rt_put tb (data s) (rt_rows tb (data ?s1))" using step(1) by auto
  have flt: "rt_rows tb (data ?s1) = filter Q1 ?rows"
  proof (cases "rt_rows tb (data ?s1) = ?rows")
    case False
    with rows1 have e: "rt_rows tb (data ?s1) = pruned tb ?cut ?B ?rows" by blast
    have "pruned tb ?cut ?B ?rows = filter (\<lambda>r. r \<in> set (pruned tb ?cut ?B ?rows)) ?rows"
      unfolding pruned_eq [OF Suc.prems(1)] by (auto intro: filter_cong)
    with e show ?thesis by (simp add: Q1_def)
  qed (simp add: Q1_def filter_True)
  have tp: "time_passes ?s1" using Suc.prems(2) step(2,3) by (auto simp: time_passes_def)
  have cut: "c \<le> pass_cutoff cfg ?s1"
    using Suc.prems(2,3) step(2,3) cutoff_at_mono [of "clock (sched s (pos s))" "clock (sched s (pos ?s1))" cfg]
    by (auto simp: time_passes_def pass_cutoff_def)
  have d1: "distinct (map (rt_key tb) (rt_rows tb (data ?s1)))"
    using Suc.prems(1) unfolding flt by (simp add: distinct_map_filter)
  note IH = Suc.IH [OF d1 tp cut]
  from IH obtain Q where Q: "data ?s' = rt_put tb (data ?s1) (filter Q (rt_rows tb (data ?s1)))"
    "\<forall>r \<in> set (rt_rows tb (data ?s1)). \<not> Q r \<longrightarrow> rt_created tb r < cutoff_at cfg (clock (sched s (pos ?s')))"
    using step(2) by auto
  have pos: "pos s \<le> pos ?s'" using IH step(3) by linarith
  have gone1: "rt_created tb r < cutoff_at cfg (clock (sched s (pos ?s')))" if r: "r \<in> set ?rows" "\<not> Q1 r" for r
  proof -
    have "rt_created tb r < ?cut" using rows1 r len(3) [of r] by (auto simp: Q1_def)
    moreover have "clock (sched s (pos s)) \<le> clock (sched s (pos ?s'))" using Suc.prems(2) pos by (auto simp: time_passes_def)
    ultimately show ?thesis using cutoff_at_mono [of "clock (sched s (pos s))" "clock (sched s (pos ?s'))" cfg]
      by (simp add: pass_cutoff_def)
  qed
  have "data ?s' = rt_put tb (data s) (filter (\<lambda>r. Q1 r \<and> Q r) ?rows)"
    using Q(1) put1 unfolding flt by (metis filter_filter put_put)
  moreover have "\<forall>r \<in> set ?rows. \<not> (Q1 r \<and> Q r) \<longrightarrow> rt_created tb r < cutoff_at cfg (clock (sched s (pos ?s')))"
    using gone1 Q(2) flt by auto
  ultimately have "\<exists>Q. data ?s' = rt_put tb (data s) (filter Q ?rows) \<and>
      (\<forall>r \<in> set ?rows. \<not> Q r \<longrightarrow> rt_created tb r < cutoff_at cfg (clock (sched s (pos ?s'))))"
    by (intro exI [of _ "\<lambda>r. Q1 r \<and> Q r"] conjI)
  moreover have "length ?rows \<le> length (rt_rows tb (data ?s')) + Suc n * nat ?B"
    using IH rows1 len(1) by auto
  moreover have "length (older tb c (rt_rows tb (data ?s'))) = length (older tb c ?rows) - Suc n * nat ?B"
    if u: "undisturbed (rt_lock tb) s"
  proof -
    have "undisturbed (rt_lock tb) ?s1" using u step(2,3) by (auto simp: undisturbed_def)
    moreover have "rt_rows tb (data ?s1) = pruned tb ?cut ?B ?rows" using step(4) [OF u] by simp
    ultimately show ?thesis using IH older_pruned [OF Suc.prems(1,3), of ?B] by simp
  qed
  ultimately show ?case using pos by simp
qed

end

text \<open>
  C15: Retention deletes only what is old enough, and catches up. Whatever fails and however many workers
  compete, a run of the worker changes nothing but its table, keeps the remaining rows as they are and in
  order, has removed only rows older than the retention, and at most one batch per pass. When nothing
  interferes, every row that was too old when the run began is gone after as many passes as the backlog
  has batches.
\<close>

theorem retention_drains_backlog:
  fixes s :: "('d, 'x) sess" and tb :: "('d, 'r, 'k) retained" and ticks :: nat
  assumes "retention_table tb" "0 < pc_BatchSize cfg" "distinct (map (rt_key tb) (rt_rows tb (data s)))" "time_passes s"
  defines "s' \<equiv> prune_Run tb cfg ticks s" and "most \<equiv> Suc ticks * nat (pc_BatchSize cfg)"
  shows "(\<exists>Q. data s' = rt_put tb (data s) (filter Q (rt_rows tb (data s))) \<and>
        (\<forall>r \<in> set (rt_rows tb (data s)). \<not> Q r \<longrightarrow> rt_created tb r < cutoff_at cfg (clock (sched s (pos s'))))) \<and>
      length (rt_rows tb (data s)) \<le> length (rt_rows tb (data s')) + most \<and>
      (undisturbed (rt_lock tb) s \<and> length (older tb (pass_cutoff cfg s) (rt_rows tb (data s))) \<le> most \<longrightarrow>
        older tb (pass_cutoff cfg s) (rt_rows tb (data s')) = [])"
proof -
  have "s' = prune_ticks tb cfg (Suc ticks) s" by (simp add: s'_def prune_Run_def)
  with retention_table.prune_ticks_effect [OF assms(1-4) order_refl, of "Suc ticks"] show ?thesis
    unfolding most_def by (auto simp: length_0_conv [symmetric] simp del: length_0_conv prune_ticks.simps)
qed

section \<open>The tables of the services\<close>

definition outbox_table :: "('d \<Rightarrow> Outbox list) \<Rightarrow> ('d \<Rightarrow> Outbox list \<Rightarrow> 'd) \<Rightarrow> ('d, Outbox, uuid) retained" where
  "outbox_table rows put = \<lparr>rt_rows = rows, rt_put = put, rt_key = ob_id, rt_created = ob_created, rt_tenant = ob_tenant,
     rt_lock = ''taper_ob''\<rparr>"

definition ledger_table ::
  "('d \<Rightarrow> ProcessedIdempotencyKey list) \<Rightarrow> ('d \<Rightarrow> ProcessedIdempotencyKey list \<Rightarrow> 'd)
     \<Rightarrow> ('d, ProcessedIdempotencyKey, uuid \<times> string) retained" where
  "ledger_table rows put = \<lparr>rt_rows = rows, rt_put = put, rt_key = (\<lambda>r. (ik_tenant r, ik_key r)), rt_created = ik_created,
     rt_tenant = ik_tenant, rt_lock = ''taper_id''\<rparr>"

abbreviation "stock_outbox_table \<equiv> outbox_table stock_outbox (\<lambda>d rows. d\<lparr>stock_outbox := rows\<rparr>)"

interpretation stock_outbox_retention: retention_table stock_outbox_table
  by unfold_locales (simp_all add: outbox_table_def)

interpretation order_outbox_retention: retention_table "outbox_table order_outbox (\<lambda>d rows. d\<lparr>order_outbox := rows\<rparr>)"
  by unfold_locales (simp_all add: outbox_table_def)

interpretation reservation_outbox_retention:
  retention_table "outbox_table res_outbox (\<lambda>d rows. d\<lparr>res_outbox := rows\<rparr>)"
  by unfold_locales (simp_all add: outbox_table_def)

interpretation stock_ledger_retention: retention_table "ledger_table stock_keys (\<lambda>d rows. d\<lparr>stock_keys := rows\<rparr>)"
  by unfold_locales (simp_all add: ledger_table_def)

interpretation order_ledger_retention: retention_table "ledger_table order_keys (\<lambda>d rows. d\<lparr>order_keys := rows\<rparr>)"
  by unfold_locales (simp_all add: ledger_table_def)

interpretation reservation_ledger_retention:
  retention_table "ledger_table res_keys (\<lambda>d rows. d\<lparr>res_keys := rows\<rparr>)"
  by unfold_locales (simp_all add: ledger_table_def)

text \<open>The schemas' primary keys are what the passes need, and a pass keeps the stock schema.\<close>

lemma outbox_table_distinct: "outbox_unique (rows d) \<Longrightarrow> distinct (map (rt_key (outbox_table rows put)) (rt_rows (outbox_table rows put) d))"
  by (simp add: outbox_table_def outbox_unique_def)

lemma ledger_table_distinct: "keys_unique (rows d) \<Longrightarrow> distinct (map (rt_key (ledger_table rows put)) (rt_rows (ledger_table rows put) d))"
  by (simp add: ledger_table_def keys_unique_def)

lemma prune_keeps_stock_schema:
  assumes "stock_schema d"
  shows "stock_schema (d\<lparr>stock_outbox := filter Q (stock_outbox d)\<rparr>)" "stock_schema (d\<lparr>stock_keys := filter P (stock_keys d)\<rparr>)"
  using assms by (auto simp: stock_schema_def outbox_unique_def keys_unique_def distinct_map_filter)

definition sample_backlog :: "(stock_db, unit) sess" where
  "sample_backlog =
     (let row = (\<lambda>i t. \<lparr>ob_id = i, ob_tenant = ''t'', ob_aggtype = ''stock'', ob_aggid = ''t:a'', ob_type = ''stock.adjusted'',
                         ob_payload = JNull, ob_created = t, ob_trace = None\<rparr>) in
      \<lparr>data = \<lparr>stock_levels = Map.empty, stock_events = [], stock_outbox = [row ''1'' (- 9), row ''2'' 5, row ''3'' (- 10)],
               stock_keys = []\<rparr>,
       ext = (), scope = Bypass,
       sched = (\<lambda>i. \<lparr>fault = None, fresh = ''u'', clock = int i, busy = (\<lambda>_. False)\<rparr>), pos = 0\<rparr>)"

theorem retention_drains_backlog_witness:
  "let cfg = \<lparr>pc_Interval = 1, pc_Retention = 1000, pc_BatchSize = 1\<rparr>;
       rows = stock_outbox (data (prune_Run stock_outbox_table cfg 1 sample_backlog)) in
   filter (\<lambda>r. ob_created r < - 1) rows = [] \<and> map ob_id rows = [''2'']"
proof -
  let ?cfg = "\<lparr>pc_Interval = 1, pc_Retention = 1000, pc_BatchSize = 1\<rparr>"
  let ?s' = "prune_Run stock_outbox_table ?cfg 1 sample_backlog"
  have "map ob_id (stock_outbox (data ?s')) = [''2'']" by code_simp
  moreover have "older stock_outbox_table (pass_cutoff ?cfg sample_backlog) (rt_rows stock_outbox_table (data ?s')) = []"
    using retention_drains_backlog [OF stock_outbox_retention.retention_table_axioms, of ?cfg sample_backlog 1]
    by (simp add: sample_backlog_def Let_def outbox_table_def time_passes_def undisturbed_def older_def pass_cutoff_def cutoff_at_def
        del: One_nat_def)
  ultimately show ?thesis
    by (simp add: older_def outbox_table_def pass_cutoff_def cutoff_at_def sample_backlog_def Let_def)
qed

end
