(* ===== verification/Grpcx.thy ===== *)
theory Grpcx
  imports Config
begin

text \<open>
  \<^verbatim>\<open>pkg/grpcx\<close>: how the transport security of dials and listeners follows from the environment. Files
  are arguments: \<open>readFile\<close>, whether a file holds certificates (\<open>pemCerts\<close>), and whether a certificate and
  key load as a pair (\<open>keyPair\<close>).
\<close>

section \<open>Options and environment\<close>

record TLSClientOptions =
  tc_CAFile :: string
  tc_CertFile :: string
  tc_KeyFile :: string
  tc_ServerName :: string

definition TLSFromEnv :: "env \<Rightarrow> TLSClientOptions" where
  "TLSFromEnv getenv =
     \<lparr>tc_CAFile = getenv ''GRPC_TLS_CA'', tc_CertFile = getenv ''GRPC_TLS_CLIENT_CERT'',
      tc_KeyFile = getenv ''GRPC_TLS_CLIENT_KEY'', tc_ServerName = getenv ''GRPC_TLS_SERVER_NAME''\<rparr>"

definition InsecureFromEnv :: "env \<Rightarrow> bool" where
  "InsecureFromEnv getenv \<longleftrightarrow> getenv ''GRPC_INSECURE'' \<in> {''1'', ''true'', ''TRUE'', ''True'', ''yes'', ''YES'', ''Yes''}"

section \<open>Credentials\<close>

text \<open>A certificate pool by the certificates in it; a \<^verbatim>\<open>tls.Config\<close> by the fields the package sets.\<close>

type_synonym cert_pool = "string list"

record tls_config =
  tls_min12 :: bool
  tls_roots :: "cert_pool option"
  tls_server_name :: string
  tls_certs :: "(string \<times> string) list"
  tls_skip_verify :: bool

definition empty_config :: tls_config where
  "empty_config = \<lparr>tls_min12 = False, tls_roots = None, tls_server_name = '''', tls_certs = [], tls_skip_verify = False\<rparr>"

datatype tls_error = ReadCA string | NoCertificates string | LoadClientCert | LoadServerCert | HalfSet

record files =
  readFile :: "string \<Rightarrow> string option"
  pemCerts :: "string \<Rightarrow> string list"
  keyPair :: "string \<Rightarrow> string \<Rightarrow> bool"

definition loadCertPool :: "files \<Rightarrow> string \<Rightarrow> tls_error + cert_pool" where
  "loadCertPool F caFile =
     (if caFile = '''' then Inr []
      else case readFile F caFile of
             None \<Rightarrow> Inl (ReadCA caFile)
           | Some pem \<Rightarrow> if pemCerts F pem = [] then Inl (NoCertificates caFile) else Inr (pemCerts F pem))"

definition client_certificate :: "files \<Rightarrow> TLSClientOptions \<Rightarrow> tls_config \<Rightarrow> tls_error + tls_config" where
  "client_certificate F opts cfg =
     (if tc_CertFile opts \<noteq> '''' \<or> tc_KeyFile opts \<noteq> ''''
      then if keyPair F (tc_CertFile opts) (tc_KeyFile opts)
           then Inr (cfg\<lparr>tls_certs := [(tc_CertFile opts, tc_KeyFile opts)]\<rparr>) else Inl LoadClientCert
      else Inr cfg)"

definition ClientCredentials :: "files \<Rightarrow> bool \<Rightarrow> TLSClientOptions \<Rightarrow> tls_error + tls_config" where
  "ClientCredentials F insecure opts =
     (if insecure then Inr empty_config
      else case loadCertPool F (tc_CAFile opts) of
             Inl e \<Rightarrow> Inl e
           | Inr pool \<Rightarrow>
               client_certificate F opts
                 (empty_config\<lparr>tls_min12 := True, tls_roots := Some pool, tls_server_name := tc_ServerName opts\<rparr>))"

text \<open>The boolean says whether TLS is on.\<close>

definition ServerCredentials :: "files \<Rightarrow> string \<Rightarrow> string \<Rightarrow> tls_error + tls_config option \<times> bool" where
  "ServerCredentials F certFile keyFile =
     (if certFile = '''' \<and> keyFile = '''' then Inr (None, False)
      else if certFile = '''' \<or> keyFile = '''' then Inl HalfSet
      else if \<not> keyPair F certFile keyFile then Inl LoadServerCert
      else Inr (Some (empty_config\<lparr>tls_min12 := True, tls_certs := [(certFile, keyFile)]\<rparr>), True))"

section \<open>Dials and listeners\<close>

definition roundRobinConfig :: string where
  "roundRobinConfig = json_print (JObj [(''loadBalancingConfig'', JArr [JObj [(''round_robin'', JObj [])]])])"

datatype dial_option = DefaultServiceConfig string | TransportCredentials tls_config | CallerOption string

definition dial_options :: "dial_option list \<Rightarrow> dial_option list" where
  "dial_options opts = [DefaultServiceConfig roundRobinConfig] @ opts"

definition DialFromEnv :: "files \<Rightarrow> env \<Rightarrow> dial_option list \<Rightarrow> tls_error + dial_option list" where
  "DialFromEnv F getenv opts =
     (if InsecureFromEnv getenv
      then Inr (dial_options (opts @ [TransportCredentials (empty_config\<lparr>tls_skip_verify := True\<rparr>)]))
      else case ClientCredentials F False (TLSFromEnv getenv) of
             Inl e \<Rightarrow> Inl e
           | Inr cfg \<Rightarrow> Inr (dial_options (opts @ [TransportCredentials cfg])))"

definition ServerOptionFromEnv :: "files \<Rightarrow> env \<Rightarrow> tls_error + tls_config option \<times> bool" where
  "ServerOptionFromEnv F getenv =
     (case ServerCredentials F (getenv ''GRPC_TLS_CERT'') (getenv ''GRPC_TLS_KEY'') of
        Inl e \<Rightarrow> Inl e
      | Inr (cfg, on) \<Rightarrow> if \<not> on then Inr (None, False) else Inr (cfg, True))"

section \<open>What the posture guarantees\<close>

lemma roundRobinConfig_text:
  "roundRobinConfig = [CHR ''{'', CHR 0x22] @ ''loadBalancingConfig'' @ [CHR 0x22] @ '':[{'' @ [CHR 0x22] @ ''round_robin'' @ [CHR 0x22] @ '':{}}]}''"
  by code_simp

lemma loadCertPool_Inr: "loadCertPool F ca = Inr pool \<Longrightarrow> (pool = []) = (ca = '''')"
  by (auto simp: loadCertPool_def split: if_splits option.splits)

lemma ClientCredentials_Inr:
  assumes "ClientCredentials F False opts = Inr cfg"
  shows "tls_min12 cfg \<and> \<not> tls_skip_verify cfg \<and> (\<exists>roots. tls_roots cfg = Some roots \<and> (roots = []) = (tc_CAFile opts = ''''))"
proof -
  from assms obtain pool where pool: "loadCertPool F (tc_CAFile opts) = Inr pool"
    and c: "client_certificate F opts
        (empty_config\<lparr>tls_min12 := True, tls_roots := Some pool, tls_server_name := tc_ServerName opts\<rparr>) = Inr cfg"
    by (auto simp: ClientCredentials_def split: sum.splits)
  from c have "tls_min12 cfg \<and> \<not> tls_skip_verify cfg \<and> tls_roots cfg = Some pool"
    by (auto simp: client_certificate_def empty_config_def split: if_splits)
  with loadCertPool_Inr [OF pool] show ?thesis by blast
qed

text \<open>
  Without the escape hatch a dial either fails or verifies the server, with TLS 1.2 at least; it is never
  downgraded. With no CA file the pool is empty, not the system's: such a dial trusts nobody.
\<close>

lemma DialFromEnv_verifies:
  assumes "\<not> InsecureFromEnv getenv" "DialFromEnv F getenv opts = Inr os"
  shows "\<exists>cfg roots. os = DefaultServiceConfig roundRobinConfig # opts @ [TransportCredentials cfg] \<and>
    tls_min12 cfg \<and> \<not> tls_skip_verify cfg \<and> tls_roots cfg = Some roots \<and>
    (roots = []) = (getenv ''GRPC_TLS_CA'' = '''')"
proof -
  from assms obtain cfg where c: "ClientCredentials F False (TLSFromEnv getenv) = Inr cfg"
    and os: "os = dial_options (opts @ [TransportCredentials cfg])"
    by (auto simp: DialFromEnv_def split: sum.splits)
  from ClientCredentials_Inr [OF c] os show ?thesis by (auto simp: dial_options_def TLSFromEnv_def)
qed

lemma ServerOptionFromEnv_half_set:
  "(getenv ''GRPC_TLS_CERT'' = '''') \<noteq> (getenv ''GRPC_TLS_KEY'' = '''') \<Longrightarrow> ServerOptionFromEnv F getenv = Inl HalfSet"
  by (auto simp: ServerOptionFromEnv_def ServerCredentials_def)

end
