(* ===== verification/Closer.thy ===== *)
theory Closer
  imports Config
begin

text \<open>
  \<^verbatim>\<open>pkg/closer\<close>: the shutdown harness. A cleanup step is a function on the state of the process; the
  time it takes and the deadline it sees are part of that state. The readiness probes work on what the
  probed dependency answers.
\<close>

section \<open>The harness\<close>

type_synonym 'w CleanupFunc = "'w \<Rightarrow> err option \<times> 'w"

definition DefaultDrain :: int where
  "DefaultDrain = 15 * 1000000000"

definition DrainWindow :: "env \<Rightarrow> int" where
  "DrainWindow getenv =
     (let v = getenv ''TAPER_DRAIN'' in
      if v = '''' then DefaultDrain
      else case ParseDuration v of None \<Rightarrow> DefaultDrain | Some d \<Rightarrow> if d \<le> 0 then DefaultDrain else d)"

record 'w Closer =
  cl_drain :: int
  cl_cancelled :: bool
  cl_signalled :: bool
  cl_defers :: "'w CleanupFunc list"
  cl_cleaned :: bool

definition newCloser :: "int \<Rightarrow> 'w Closer" where
  "newCloser drain =
     \<lparr>cl_drain = (if drain \<le> 0 then DefaultDrain else drain), cl_cancelled = False, cl_signalled = False,
      cl_defers = [], cl_cleaned = False\<rparr>"

definition signal :: "'w Closer \<Rightarrow> 'w Closer" where
  "signal c = c\<lparr>cl_cancelled := True, cl_signalled := True\<rparr>"

definition Defer :: "'w CleanupFunc \<Rightarrow> 'w Closer \<Rightarrow> 'w Closer" where
  "Defer f c = c\<lparr>cl_defers := cl_defers c @ [f]\<rparr>"

definition DeferFirst :: "'w CleanupFunc \<Rightarrow> 'w Closer \<Rightarrow> 'w Closer" where
  "DeferFirst f c = c\<lparr>cl_defers := [f] @ cl_defers c\<rparr>"

text \<open>The loop of \<^verbatim>\<open>Cleanup\<close>: \<open>n\<close> steps are still to run, the one with the highest index next.\<close>

fun cleanup_loop :: "'w CleanupFunc list \<Rightarrow> nat \<Rightarrow> nat \<Rightarrow> 'w \<Rightarrow> nat \<times> 'w" where
  "cleanup_loop fs 0 exit w = (exit, w)"
| "cleanup_loop fs (Suc i) exit w =
     (case (fs ! i) w of
        (None, w') \<Rightarrow> cleanup_loop fs i exit w'
      | (Some e, w') \<Rightarrow> cleanup_loop fs i 1 w')"

definition Cleanup :: "'w Closer \<Rightarrow> 'w \<Rightarrow> nat \<times> 'w Closer \<times> 'w" where
  "Cleanup c w =
     (if cl_cleaned c then (0, c, w)
      else case cleanup_loop (cl_defers c) (length (cl_defers c)) 0 w of
             (exit, w') \<Rightarrow> (exit, c\<lparr>cl_cleaned := True, cl_defers := [], cl_cancelled := True\<rparr>, w'))"

text \<open>\<^verbatim>\<open>Wait\<close> returns only after the signal.\<close>

definition Wait :: "'w Closer \<Rightarrow> 'w \<Rightarrow> (nat \<times> 'w Closer \<times> 'w) option" where
  "Wait c w = (if cl_signalled c then Some (Cleanup c w) else None)"

section \<open>Servers\<close>

text \<open>\<open>drained\<close>: the calls in flight end before the window does.\<close>

definition DeferGRPC :: "('w \<Rightarrow> bool) \<Rightarrow> ('w \<Rightarrow> 'w) \<Rightarrow> ('w \<Rightarrow> 'w) \<Rightarrow> 'w CleanupFunc" where
  "DeferGRPC drained gracefulStop stop w =
     (if drained w then (None, gracefulStop w)
      else (Some (Wrapped ''grpc drain exceeded window: '' (PgErr ''context deadline exceeded'')), stop w))"

definition DeferHTTP :: "('w \<Rightarrow> bool) \<Rightarrow> 'w CleanupFunc \<Rightarrow> ('w \<Rightarrow> 'w) \<Rightarrow> 'w CleanupFunc" where
  "DeferHTTP expired shutdown close w =
     (case shutdown w of
        (r, w') \<Rightarrow>
          if expired w' then (Some (Wrapped ''http drain exceeded window: '' (PgErr ''context deadline exceeded'')), close w')
          else (r, w'))"

definition ErrServerClosed :: err where
  "ErrServerClosed = PgErr ''http: Server closed''"

definition errors_Join :: "err option list \<Rightarrow> err option" where
  "errors_Join es =
     (case List.map_filter id es of [] \<Rightarrow> None | xs \<Rightarrow> Some (PgErr (join_on CHR 0x0A (map err_text xs))))"

definition Drain :: "'w CleanupFunc \<Rightarrow> 'w CleanupFunc \<Rightarrow> 'w CleanupFunc" where
  "Drain stop run w =
     (case stop w of
        (stopErr, w1) \<Rightarrow>
          (case run w1 of
             (runErr, w2) \<Rightarrow>
               (errors_Join [stopErr, case runErr of Some e \<Rightarrow> if err_is e ErrServerClosed then None else Some e | None \<Rightarrow> None], w2)))"

section \<open>Readiness\<close>

text \<open>
  The checks run concurrently; \<open>finish\<close> is the order in which they report. The first failure to report
  is the answer.
\<close>

definition Readiness ::
  "((string \<times> err option) list \<Rightarrow> (string \<times> err option) list) \<Rightarrow> (string \<times> err option) list \<Rightarrow> err option" where
  "Readiness finish checks =
     (let firstEr = foldl (\<lambda>firstEr (name, r). case r of
            None \<Rightarrow> firstEr
          | Some e \<Rightarrow> if firstEr = '''' then name @ '': '' @ err_text e else firstEr) '''' (finish checks) in
      if firstEr \<noteq> '''' then Some (PgErr firstEr) else None)"

definition KafkaBrokers :: "string \<Rightarrow> string list" where
  "KafkaBrokers v = filter (\<lambda>a. a \<noteq> '''') (map trim_space (split_on CHR '','' v))"

text \<open>What the health call answers: an error, or the name of the status.\<close>

definition GRPCHealth :: "err + string \<Rightarrow> err option" where
  "GRPCHealth resp =
     (case resp of
        Inl e \<Rightarrow> Some e
      | Inr status \<Rightarrow> if status \<noteq> ''SERVING'' then Some (PgErr (''health status '' @ status)) else None)"

definition GRPCReach :: "err option \<Rightarrow> err option" where
  "GRPCReach r = (case r of None \<Rightarrow> None | Some e \<Rightarrow> if grpc_code e = Unimplemented then None else Some e)"

lemma foldl_first_failure:
  "foldl (\<lambda>x (name, r). case r of None \<Rightarrow> x | Some e \<Rightarrow> if x = '''' then name @ '': '' @ err_text e else x) x cs = '''' \<longleftrightarrow>
     x = '''' \<and> (\<forall>(name, r) \<in> set cs. r = None)"
  by (induction cs arbitrary: x) (auto split: option.splits if_splits)

text \<open>In whatever order the checks end, the process is ready exactly if all of them succeed.\<close>

lemma Readiness_None: "(\<And>cs. set (finish cs) = set cs) \<Longrightarrow> Readiness finish checks = None \<longleftrightarrow> (\<forall>(name, r) \<in> set checks. r = None)"
  by (simp add: Readiness_def Let_def foldl_first_failure)

section \<open>The order of a shutdown\<close>

datatype 'w registration = RegDefer "'w CleanupFunc" | RegDeferFirst "'w CleanupFunc"

fun register :: "'w registration \<Rightarrow> 'w Closer \<Rightarrow> 'w Closer" where
  "register (RegDefer f) c = Defer f c"
| "register (RegDeferFirst f) c = DeferFirst f c"

fun deferred :: "'w registration list \<Rightarrow> 'w CleanupFunc list" where
  "deferred [] = []"
| "deferred (RegDefer f # rs) = f # deferred rs"
| "deferred (RegDeferFirst f # rs) = deferred rs"

fun deferred_first :: "'w registration list \<Rightarrow> 'w CleanupFunc list" where
  "deferred_first [] = []"
| "deferred_first (RegDefer f # rs) = deferred_first rs"
| "deferred_first (RegDeferFirst f # rs) = f # deferred_first rs"

text \<open>Steps one after the other, with what each of them reports.\<close>

fun run_steps :: "'w CleanupFunc list \<Rightarrow> 'w \<Rightarrow> err option list \<times> 'w" where
  "run_steps [] w = ([], w)"
| "run_steps (f # fs) w = (case f w of (r, w1) \<Rightarrow> (case run_steps fs w1 of (rs, w2) \<Rightarrow> (r # rs, w2)))"

lemma cleanup_loop_steps:
  "n \<le> length fs \<Longrightarrow> run_steps (rev (take n fs)) w = (rs, w') \<Longrightarrow>
     cleanup_loop fs n x w = (if \<exists>e. Some e \<in> set rs then 1 else x, w')"
proof (induction n arbitrary: w x rs)
  case (Suc n)
  obtain r w1 where f: "(fs ! n) w = (r, w1)" by fastforce
  obtain rs1 w2 where rest: "run_steps (rev (take n fs)) w1 = (rs1, w2)" by fastforce
  have "rev (take (Suc n) fs) = fs ! n # rev (take n fs)" using Suc.prems(1) by (simp add: take_Suc_conv_app_nth)
  with Suc.prems(2) f rest have rs: "rs = r # rs1" "w' = w2" by auto
  from Suc.IH [of w1 rs1 x] Suc.IH [of w1 rs1 1] Suc.prems(1) rest rs f show ?case
    by (cases r) auto
qed simp

lemma defers_registered: "cl_defers (fold register regs c) = rev (deferred_first regs) @ cl_defers c @ deferred regs"
  by (induction regs arbitrary: c rule: deferred.induct) (simp_all add: Defer_def DeferFirst_def)

lemma cleaned_registered [simp]: "cl_cleaned (fold register regs c) = cl_cleaned c"
  by (induction regs arbitrary: c rule: deferred.induct) (simp_all add: Defer_def DeferFirst_def)

text \<open>
  C34: What runs at shutdown, and when. However the steps were registered, \<^verbatim>\<open>Cleanup\<close> runs each of them
  once: the ones registered with \<^verbatim>\<open>Defer\<close> first, last-registered first, and the ones registered with
  \<^verbatim>\<open>DeferFirst\<close> after all of them. The exit code is 1 exactly if some step failed; a second call runs
  nothing and answers 0 whatever the first one answered.
\<close>

theorem deferred_first_runs_last:
  fixes w :: 'w
  shows "\<exists>rs w' c'. run_steps (rev (deferred regs) @ deferred_first regs) w = (rs, w') \<and>
    Cleanup (fold register regs (newCloser drain)) w = (if \<exists>e. Some e \<in> set rs then 1 else 0, c', w') \<and>
    cl_cancelled c' \<and> Cleanup c' v = (0, c', v)"
proof -
  let ?c = "fold register regs (newCloser drain)"
  let ?fs = "cl_defers ?c"
  have fs: "rev (take (length ?fs) ?fs) = rev (deferred regs) @ deferred_first regs"
    by (simp add: defers_registered newCloser_def)
  obtain rs w' where run: "run_steps (rev (deferred regs) @ deferred_first regs) w = (rs, w')" by fastforce
  from cleanup_loop_steps [of "length ?fs" ?fs w rs w' 0] run fs
  have "cleanup_loop ?fs (length ?fs) 0 w = (if \<exists>e. Some e \<in> set rs then 1 else 0, w')" by simp
  moreover have "\<not> cl_cleaned ?c" by (simp add: newCloser_def)
  ultimately show ?thesis using run by (auto simp: Cleanup_def)
qed

end
