(* ===== verification/Observability.thy ===== *)
theory Observability
  imports Closer
begin

text \<open>
  \<^verbatim>\<open>pkg/observability\<close>: the readiness and liveness endpoints, the trace context written to the outbox, the
  carrier for gRPC metadata, the request metrics and the interceptors that keep them, and the structured
  log records. Prometheus vectors are maps from their labels; a duration histogram is the list of its
  observations. The OpenTelemetry exporters and the HTTP listener are left out.
\<close>

section \<open>Providers\<close>

record 'w Providers =
  pr_readiness :: "(string \<times> ('w \<Rightarrow> err option)) list"
  pr_degraded :: bool
  pr_shutdowns :: "'w CleanupFunc list"

text \<open>Up to the scheme separator: \<^verbatim>\<open>strings.Index(endpoint, "://")\<close>.\<close>

fun after_scheme :: "string \<Rightarrow> string option" where
  "after_scheme [] = None"
| "after_scheme (c # s) = (if take 3 (c # s) = ''://'' then Some (drop 2 s) else after_scheme s)"

definition otlp_endpoint :: "string \<Rightarrow> string" where
  "otlp_endpoint s = (case after_scheme s of None \<Rightarrow> s | Some r \<Rightarrow> r)"

fun shutdown_loop :: "'w CleanupFunc list \<Rightarrow> nat \<Rightarrow> err option list \<Rightarrow> 'w \<Rightarrow> err option list \<times> 'w" where
  "shutdown_loop fs 0 errs w = (errs, w)"
| "shutdown_loop fs (Suc i) errs w = (case (fs ! i) w of (r, w') \<Rightarrow> shutdown_loop fs i (errs @ [r]) w')"

definition Shutdown :: "'w Providers \<Rightarrow> 'w CleanupFunc" where
  "Shutdown p w =
     (case shutdown_loop (pr_shutdowns p) (length (pr_shutdowns p)) [] w of (errs, w') \<Rightarrow> (errors_Join errs, w'))"

definition RegisterReadiness :: "string \<Rightarrow> ('w \<Rightarrow> err option) \<Rightarrow> 'w Providers \<Rightarrow> 'w Providers" where
  "RegisterReadiness name check p =
     p\<lparr>pr_readiness := filter (\<lambda>c. fst c \<noteq> name) (pr_readiness p) @ [(name, check)]\<rparr>"

definition SetDegraded :: "bool \<Rightarrow> 'w Providers \<Rightarrow> 'w Providers" where
  "SetDegraded b p = p\<lparr>pr_degraded := b\<rparr>"

definition readyError ::
  "((string \<times> err option) list \<Rightarrow> (string \<times> err option) list) \<Rightarrow> 'w \<Rightarrow> 'w Providers \<Rightarrow> err option" where
  "readyError finish w p =
     (if pr_degraded p then Some (PgErr ''degraded: planned maintenance (SetDegraded)'')
      else Readiness finish (map (\<lambda>(name, check). (name, check w)) (pr_readiness p)))"

definition LiveHandler :: "nat \<times> string" where
  "LiveHandler = (200, ''live'')"

definition ReadyHandler ::
  "((string \<times> err option) list \<Rightarrow> (string \<times> err option) list) \<Rightarrow> 'w \<Rightarrow> 'w Providers \<Rightarrow> nat \<times> string" where
  "ReadyHandler finish w p =
     (case readyError finish w p of
        Some e \<Rightarrow> (503, ''not ready: '' @ err_text e @ [CHR 0x0A])
      | None \<Rightarrow> (200, ''ready''))"

section \<open>Trace context\<close>

record SpanContext =
  sc_trace_id :: string
  sc_span_id :: string
  sc_sampled :: bool
  sc_valid :: bool

definition RPCName :: "string \<Rightarrow> string" where
  "RPCName fullMethod = (case fullMethod of [] \<Rightarrow> [] | c # s \<Rightarrow> if c = CHR ''/'' then s else c # s)"

definition Traceparent :: "SpanContext \<Rightarrow> string" where
  "Traceparent sc =
     (if \<not> sc_valid sc then ''''
      else ''00-'' @ sc_trace_id sc @ ''-'' @ sc_span_id sc @ ''-'' @ (if sc_sampled sc then ''01'' else ''00''))"

text \<open>\<^verbatim>\<open>metadata.MD\<close>: values by lower-case key.\<close>

type_synonym MD = "string \<rightharpoonup> string list"

definition mdCarrier_Get :: "MD \<Rightarrow> string \<Rightarrow> string" where
  "mdCarrier_Get md key = (case md (to_lower key) of Some (v # vs) \<Rightarrow> v | _ \<Rightarrow> '''')"

definition mdCarrier_Set :: "string \<Rightarrow> string \<Rightarrow> MD \<Rightarrow> MD" where
  "mdCarrier_Set key value md = md(to_lower key \<mapsto> [value])"

section \<open>Metrics\<close>

record Metrics =
  reqDuration :: "string \<times> string \<Rightarrow> int list"
  reqErrors :: "string \<times> string \<Rightarrow> nat"
  inFlight :: "string \<Rightarrow> int"
  breakerState :: "string \<rightharpoonup> nat"

definition NewMetrics :: Metrics where
  "NewMetrics = \<lparr>reqDuration = (\<lambda>_. []), reqErrors = (\<lambda>_. 0), inFlight = (\<lambda>_. 0), breakerState = Map.empty\<rparr>"

definition status_text :: "err option \<Rightarrow> string" where
  "status_text r = code_text (case r of None \<Rightarrow> OK | Some e \<Rightarrow> grpc_code e)"

definition ObserveRPC :: "string \<Rightarrow> int \<Rightarrow> err option \<Rightarrow> Metrics \<Rightarrow> Metrics" where
  "ObserveRPC rpc_name elapsed r m =
     (let l = (rpc_name, status_text r);
          m1 = m\<lparr>reqDuration := (reqDuration m)(l := reqDuration m l @ [elapsed])\<rparr> in
      case r of None \<Rightarrow> m1 | Some e \<Rightarrow> m1\<lparr>reqErrors := (reqErrors m1)(l := reqErrors m1 l + 1)\<rparr>)"

definition SetBreakerState :: "string \<Rightarrow> string \<Rightarrow> Metrics \<Rightarrow> Metrics" where
  "SetBreakerState dependency state m =
     m\<lparr>breakerState := (breakerState m)(dependency \<mapsto>
         (if state = ''half-open'' then 1 else if state = ''open'' then 2 else 0))\<rparr>"

definition gauge_add :: "string \<Rightarrow> int \<Rightarrow> Metrics \<Rightarrow> Metrics" where
  "gauge_add name n m = m\<lparr>inFlight := (inFlight m)(name := inFlight m name + n)\<rparr>"

text \<open>
  The interceptors around a call that works on the process state, the metrics included. \<open>elapsed\<close> is what
  the clock says the call took.
\<close>

definition around_call ::
  "string \<Rightarrow> int \<Rightarrow> (Metrics \<times> 'w \<Rightarrow> (err + 'a) \<times> Metrics \<times> 'w) \<Rightarrow> Metrics \<times> 'w \<Rightarrow> (err + 'a) \<times> Metrics \<times> 'w" where
  "around_call name elapsed call mw =
     (case mw of
        (m, w) \<Rightarrow>
          (case call (gauge_add name 1 m, w) of
             (r, m', w') \<Rightarrow>
               (r, ObserveRPC name elapsed (case r of Inl e \<Rightarrow> Some e | Inr _ \<Rightarrow> None) (gauge_add name (- 1) m'), w')))"

definition UnaryServerInterceptor ::
  "string \<Rightarrow> int \<Rightarrow> (Metrics \<times> 'w \<Rightarrow> (err + 'a) \<times> Metrics \<times> 'w) \<Rightarrow> Metrics \<times> 'w \<Rightarrow> (err + 'a) \<times> Metrics \<times> 'w" where
  "UnaryServerInterceptor fullMethod elapsed handler = around_call (RPCName fullMethod) elapsed handler"

text \<open>The client's one also hands the injected metadata (\<open>inject\<close>) to the invoker.\<close>

definition UnaryClientInterceptor ::
  "string \<Rightarrow> int \<Rightarrow> (MD \<Rightarrow> MD) \<Rightarrow> MD option \<Rightarrow> (MD \<Rightarrow> Metrics \<times> 'w \<Rightarrow> (err + 'a) \<times> Metrics \<times> 'w)
     \<Rightarrow> Metrics \<times> 'w \<Rightarrow> (err + 'a) \<times> Metrics \<times> 'w" where
  "UnaryClientInterceptor rpc_method elapsed inject outgoing invoker =
     around_call (RPCName rpc_method) elapsed
       (invoker (inject (case outgoing of None \<Rightarrow> Map.empty | Some md \<Rightarrow> md)))"

section \<open>Logging\<close>

record log_record =
  lr_message :: string
  lr_attrs :: "(string \<times> string) list"

definition traceHandler_Handle :: "SpanContext option \<Rightarrow> log_record \<Rightarrow> log_record" where
  "traceHandler_Handle ctx_span r =
     (case ctx_span of
        None \<Rightarrow> r
      | Some sc \<Rightarrow> if sc_valid sc then r\<lparr>lr_attrs := lr_attrs r @ [(''trace_id'', sc_trace_id sc)]\<rparr> else r)"

text \<open>A record of \<^verbatim>\<open>NewLogger(service)\<close>: the service, the call's attributes, the trace id.\<close>

definition logger_emit :: "string \<Rightarrow> SpanContext option \<Rightarrow> string \<Rightarrow> (string \<times> string) list \<Rightarrow> log_record" where
  "logger_emit service ctx_span msg attrs =
     traceHandler_Handle ctx_span \<lparr>lr_message = msg, lr_attrs = (''service'', service) # attrs\<rparr>"

text \<open>\<^verbatim>\<open>Info\<close> without a context logs under \<^verbatim>\<open>context.Background()\<close>.\<close>

definition slogWriter_Write :: "string \<Rightarrow> string \<Rightarrow> nat \<times> log_record" where
  "slogWriter_Write service p =
     (let msg = (if p \<noteq> [] \<and> last p = CHR 0x0A then butlast p else p) in
      (length p, logger_emit service None msg []))"

section \<open>What holds of them\<close>

lemma ready_iff:
  assumes "\<And>cs. set (finish cs) = set cs"
  shows "fst (ReadyHandler finish w p) = 200 \<longleftrightarrow> \<not> pr_degraded p \<and> (\<forall>(name, check) \<in> set (pr_readiness p). check w = None)"
proof -
  have "readyError finish w p = None \<longleftrightarrow> \<not> pr_degraded p \<and> (\<forall>(name, check) \<in> set (pr_readiness p). check w = None)"
    using Readiness_None [OF assms] by (auto simp: readyError_def)
  then show ?thesis by (auto simp: ReadyHandler_def split: option.split)
qed

text \<open>Maintenance is undone by clearing the flag, and a check registered again replaces the old one.\<close>

lemma SetDegraded_undo: "readyError finish w (SetDegraded (pr_degraded p) (SetDegraded b p)) = readyError finish w p"
  by (simp add: SetDegraded_def)

lemma RegisterReadiness_replaces:
  "RegisterReadiness name c2 (RegisterReadiness name c1 p) = RegisterReadiness name c2 p"
  by (simp add: RegisterReadiness_def)

text \<open>The gauge of calls in flight comes back to where it was, and errors are counted exactly.\<close>

lemma around_call_eq:
  assumes "around_call name el call (m, w) = (r, m', w')"
  obtains m1 where "call (gauge_add name 1 m, w) = (r, m1, w')"
    "m' = ObserveRPC name el (case r of Inl e \<Rightarrow> Some e | Inr _ \<Rightarrow> None) (gauge_add name (- 1) m1)"
  using assms by (cases "call (gauge_add name 1 m, w)") (simp add: around_call_def split: prod.splits)

lemma ObserveRPC_simps [simp]:
  "inFlight (ObserveRPC name el r m) = inFlight m"
  "reqErrors (ObserveRPC name el r m) =
     (case r of None \<Rightarrow> reqErrors m
      | Some e \<Rightarrow> (reqErrors m)((name, status_text r) := reqErrors m (name, status_text r) + 1))"
  by (cases r; simp add: ObserveRPC_def Let_def)+

lemma around_call_in_flight:
  assumes "around_call name el call (m, w) = (r, m', w')" "\<And>m w r m' w'. call (m, w) = (r, m', w') \<Longrightarrow> inFlight m' = inFlight m"
  shows "inFlight m' = inFlight m"
proof -
  from assms(1) obtain m1 where c: "call (gauge_add name 1 m, w) = (r, m1, w')"
    and m': "m' = ObserveRPC name el (case r of Inl e \<Rightarrow> Some e | Inr _ \<Rightarrow> None) (gauge_add name (- 1) m1)"
    by (rule around_call_eq)
  from assms(2) [OF c] show ?thesis by (simp add: m' gauge_add_def)
qed

lemma around_call_errors:
  assumes "around_call name el call (m, w) = (r, m', w')" "\<And>m w r m' w'. call (m, w) = (r, m', w') \<Longrightarrow> reqErrors m' = reqErrors m"
  shows "reqErrors m' = (case r of
      Inl e \<Rightarrow> (reqErrors m)((name, status_text (Some e)) := reqErrors m (name, status_text (Some e)) + 1)
    | Inr _ \<Rightarrow> reqErrors m)"
proof -
  from assms(1) obtain m1 where c: "call (gauge_add name 1 m, w) = (r, m1, w')"
    and m': "m' = ObserveRPC name el (case r of Inl e \<Rightarrow> Some e | Inr _ \<Rightarrow> None) (gauge_add name (- 1) m1)"
    by (rule around_call_eq)
  from assms(2) [OF c] show ?thesis by (cases r) (simp_all add: m' gauge_add_def)
qed

lemma mdCarrier_Get_Set:
  "mdCarrier_Get (mdCarrier_Set key v md) k = (if to_lower k = to_lower key then v else mdCarrier_Get md k)"
  by (simp add: mdCarrier_Get_def mdCarrier_Set_def)

text \<open>A line written through the standard logger never carries a trace id.\<close>

lemma slogWriter_no_trace: "''trace_id'' \<notin> fst ` set (lr_attrs (snd (slogWriter_Write service p)))"
  by (simp add: slogWriter_Write_def logger_emit_def traceHandler_Handle_def Let_def)

end
