(* ===== verification/Spec2Isabelle.thy ===== *)
theory Spec2Isabelle
  imports Reconcile Sweeper OrderDelivery GatewayProps Fulfillment Channelsync Prune Grpcx Observability
begin

text \<open>
  Verification of taper, a multi-tenant inventory and order system in Go. A REST gateway fronts three
  gRPC services, each with its own PostgreSQL database: orders (a saga orchestrator), reservations
  (time-limited holds) and stock (the quantities and their event log). \<^verbatim>\<open>CreateOrder\<close> reserves through the
  reservation service, which holds units at the stock service; it then charges the payment gateway and
  allocates and confirms, or compensates. Every write also puts an event into the outbox table of its
  database; a connector publishes the outbox to Kafka, where the fulfillment and the channelsync reactors
  consume it. Workers sweep expired holds, reconcile the stock rows with their log and prune old rows.
  File names below are relative to \<^verbatim>\<open>src/\<close>.

  \<^bold>\<open>The common ground.\<close>

  \<^item> \<open>Prelude\<close>: Go's \<^verbatim>\<open>int32\<close> and \<^verbatim>\<open>int64\<close> as machine words, strings as byte lists, the fact collections.
  \<^item> \<open>Proto\<close>: the message structs of \<^verbatim>\<open>gen/go/*/v1\<close>, a record each. \<open>Base64\<close>, \<open>Utf8\<close>, \<open>Json\<close>: the text
    that \<^verbatim>\<open>encoding/base64\<close> and \<^verbatim>\<open>encoding/json\<close> write and read; reading undoes writing, except that in a
    JSON string every byte outside UTF-8 has become U+FFFD.
  \<^item> \<open>Database\<close>: \<^verbatim>\<open>pkg/database\<close> over a session. A statement, transaction or RPC is a function from
    a session to an error or a value and the next session. A session holds the tables (\<open>data\<close>), what lies
    outside them (\<open>ext\<close>: sessions of the services called, in-memory state), the tenant scope of row-level
    security, and a schedule: for each statement, whether it fails or only its acknowledgement is lost,
    the UUID drawn, the clock, and the rows another transaction has locked. Theorems quantify over
    schedules, so they hold for every pattern of faults; a crash is a schedule that fails from some point on.
  \<^item> \<open>TxLogic\<close>, \<open>Hoare\<close>: the calculi the proofs use (predicates every statement keeps, atomicity of
    \<^verbatim>\<open>ExecTxWithTenant\<close>, simulation of an abstract step, triples), and the locale \<open>retry_safe\<close>: an operation
    that records its key with its effect has at most one effect. \<open>Ledger\<close>: idempotency ledger and outbox,
    with the locale \<open>idempotency_ledger\<close>, interpreted on the ledger of each of the four databases.

  \<^bold>\<open>The stock service\<close> (\<^verbatim>\<open>internal/stockservice\<close>, \<^verbatim>\<open>gen/go/db/stock\<close>).

  \<^item> \<open>StockDB\<close> has the tables with their constraints and one definition per query; \<open>StockService\<close> the six
    handlers, the body of each loop a definition of its own.
  \<^item> \<open>StockSpec\<close> is the abstract inventory: integers instead of words, no faults. \<open>StockRefine\<close> shows that
    the handlers implement it, \<open>StockLaws\<close> what it implies, \<open>StockProps\<close> states the refinement,
    conservation of units and all-or-nothing reservation, \<open>StockDelivery\<close> at most one effect per key,
    and \<open>StockComplete\<close> that requests the specification grants are answered when nothing fails.
  \<^item> \<open>Reconcile\<close>: the reconciliation pass raises no false alarm on the histories it is made for, finds every
    drift and only locks; and the two situations in which it takes correct rows for drift.

  \<^bold>\<open>The reservation service\<close> (\<^verbatim>\<open>internal/reservationservice\<close>): \<open>ReservationDB\<close>, \<open>ReservationService\<close>;
  \<open>ReservationProps\<close> and \<open>ReservationLifecycle\<close> relate its rows to the stock behind them through reserve,
  release and allocate; \<open>Sweeper\<close> has the expiry of holds and the life of a row's status under any
  sequence of requests and sweeps.

  \<^bold>\<open>The order service\<close> (\<^verbatim>\<open>internal/orderservice\<close>, with \<^verbatim>\<open>pkg/circuitbreaker\<close> and \<^verbatim>\<open>pkg/payment\<close>):
  \<open>OrderDB\<close>, \<open>OrderService\<close>, \<open>CircuitBreaker\<close>, \<open>Payment\<close>. Its session contains those of the two other
  services, so a saga runs their handlers. \<open>OrderRecords\<close> and \<open>OrderProps\<close> show the saga's state machine
  (\<open>saga_step\<close>) over whole histories, \<open>OrderOutcome\<close> what an outcome has done to the stock, \<open>OrderDelivery\<close>
  at most one run per key and the range in which the total is exact.

  \<^bold>\<open>The gateway\<close> (\<^verbatim>\<open>internal/gateway\<close>, \<^verbatim>\<open>pkg/auth\<close>, \<^verbatim>\<open>pkg/ratelimit\<close>): \<open>Auth\<close>, \<open>RateLimit\<close>, \<open>Gateway\<close>.
  \<open>GatewayProps\<close> shows that only authorised calls with the token's tenant get through; its locale
  \<open>message_laws\<close> is what decoding relies on, interpreted on all thirteen request messages. \<open>Isolation\<close>
  carries invariants through all services under a tenant scope, which gives isolation end to end.

  \<^bold>\<open>Events\<close>. \<open>Streaming\<close> (\<^verbatim>\<open>pkg/streaming\<close>, \<^verbatim>\<open>cmd/dlqreplay\<close>): consumer loop, retries, dead letters,
  replay. \<open>Relay\<close>: what the connector of \<^verbatim>\<open>db/connect\<close> publishes for an outbox row. \<open>Fulfillment\<close>
  (\<^verbatim>\<open>internal/fulfillment\<close>) and \<open>Channel\<close>, \<open>Channelsync\<close> (\<^verbatim>\<open>pkg/channel\<close>, \<^verbatim>\<open>internal/channelsync\<close>) follow an
  event from the handler that writes it over the outbox and any redelivery to its effect.

  \<^bold>\<open>Operations\<close>. \<open>Config\<close> (\<^verbatim>\<open>pkg/config\<close>), \<open>Prune\<close> (\<^verbatim>\<open>pkg/outboxprune\<close>, \<^verbatim>\<open>pkg/idemprune\<close>; the locale
  \<open>retention_table\<close> is interpreted on the outbox and the ledger of each service), \<open>Closer\<close> (\<^verbatim>\<open>pkg/closer\<close>),
  \<open>Grpcx\<close> (\<^verbatim>\<open>pkg/grpcx\<close>), \<open>Observability\<close> (\<^verbatim>\<open>pkg/observability\<close>).

  \<^bold>\<open>Bounds and fuel.\<close> The only fuel is that of the JSON parser, one unit per byte of the text;
  \<open>json_parse_print\<close> shows that it is enough for every document the printer writes. The other loops are
  structural or have a termination proof. Tickers become a number of passes and message streams a finite
  list of deliveries, both arbitrary.

  \<^bold>\<open>Parameters.\<close> Code outside the sources is an argument: HMAC-SHA256 and SHA-256, UUID parsing (\<open>lib\<close>), the
  protobuf JSON mapping, map iteration order, file contents, the Kafka client and the connector. What a
  theorem needs of them is among its hypotheses.

  \<^bold>\<open>Deviations.\<close>

  \<^item> Handlers run one after another; concurrency appears where it is the point, as rows locked by others
    (\<open>busy\<close>), as steps of a worker interleaved with requests (at the end of \<open>Reconcile\<close> and of
    \<open>Sweeper\<close>) and as sequences of atomic method calls. So the histories of \<open>order_run\<close> are of calls that do
    not overlap. Overlapping calls can leave \<open>saga_step\<close>: \<^verbatim>\<open>FulfillOrder\<close> reads the order without a lock, so
    two of them with different keys can both write an \<^verbatim>\<open>order.fulfilled\<close> event, and \<^verbatim>\<open>CancelOrder\<close> can
    compensate an order that is confirmed between its transactions.
  \<^item> The token bucket's \<^verbatim>\<open>float64\<close> and the fractions in \<^verbatim>\<open>time.ParseDuration\<close> are exact here.
  \<^item> \<open>sortedLines\<close> is a stable sort and \<^verbatim>\<open>sort.Slice\<close> is not: lines with the same SKU and warehouse may
    be processed, and so logged, in another order than here.
  \<^item> \<open>mux_match\<close> splits the decoded path; \<^verbatim>\<open>net/http\<close> matches the escaped segments and redirects unclean
    paths. A path with an escaped slash or with empty or dot segments may reach another route, or none; the
    operation that is authorised is computed from the same decoded path in both.
  \<^item> The order of text in \<open>GetOrderLines\<close> is that of the bytes and not a collation, and \<open>varchar\<close> counts
    bytes and not characters: longer multi-byte strings than here still fit their columns.
  \<^item> \<open>uuid_scan\<close> stands both for the driver's parsing of a UUID and for PostgreSQL's \<^verbatim>\<open>::uuid\<close> cast, which
    accept slightly different spellings.

  \<^bold>\<open>Not modelled.\<close> The \<^verbatim>\<open>main\<close> functions of \<^verbatim>\<open>cmd/\<close> except the gateway's request path and the replay tool:
  they assemble the modelled parts with calls into net, grpc and pgx. The generated reflection code of the
  protobuf packages and the \<^verbatim>\<open>db.go\<close> plumbing: they carry no logic of the program. The OpenTelemetry and
  Prometheus libraries, the exporters, signal handlers and log lines: effects on the outside that nothing in
  the program reads back.
\<close>

end
